(* ===== verification/Prelude.thy ===== *)
theory Prelude
  imports Main "HOL-Library.Signed_Division"
begin

text \<open>
  Shared vocabulary of the development.

  \<^item> Collections of facts: \<open>gosimps\<close> holds the unfolding rules of the small Go
    primitives (time, durations, integer division), \<open>spansimps\<close> the set semantics of
    interval lists.
  \<^item> Go's \<open>error\<close>-or-value results are \<open>'e + 'a\<close>; the helpers below thread them.
  \<^item> Go's integer division truncates toward zero: \<open>sdiv\<close> of the library.

  Numbers.  Go's \<open>int\<close>, \<open>int64\<close> and \<open>time.Duration\<close> are 64-bit; they are
  modelled as \<open>int\<close>, with the saturation or wrap-around of an operation written out
  where the code relies on it (\<open>time.Time.Sub\<close> saturates, see the time theory).  A
  \<open>float64\<close> is modelled by the rational it denotes, and its arithmetic is exact; the
  places where the code asks for NaN or an infinity have a constructor for them.
\<close>

named_theorems gosimps
named_theorems spansimps

section \<open>Results\<close>

text \<open>Sequencing of a fallible step: the first error wins, as an early \<open>return err\<close> does.\<close>

definition bind_result :: "'e + 'a \<Rightarrow> ('a \<Rightarrow> 'e + 'b) \<Rightarrow> 'e + 'b" where
  "bind_result r f = (case r of Inl e \<Rightarrow> Inl e | Inr x \<Rightarrow> f x)"

lemma bind_result_simps [simp]:
  "bind_result (Inl e) f = Inl e"
  "bind_result (Inr x) f = f x"
  by (simp_all add: bind_result_def)

section \<open>Truncating division by a positive number\<close>

lemma sdiv_nonneg [gosimps]: "0 \<le> (a::int) \<Longrightarrow> 0 < b \<Longrightarrow> a sdiv b = a div b"
  by (cases "a = 0") (auto simp: signed_divide_int_def)

lemma sdiv_nonpos: "(a::int) \<le> 0 \<Longrightarrow> 0 < b \<Longrightarrow> a sdiv b = - ((- a) div b)"
  by (cases "a = 0") (auto simp: signed_divide_int_def)

lemma sdiv_mono_floor:
  assumes "0 < (b::int)" and "0 \<le> x" and "0 \<le> y" and "x \<le> y"
  shows "x sdiv b \<le> y sdiv b"
  using assms by (simp add: sdiv_nonneg zdiv_mono1)

section \<open>Lists\<close>

text \<open>Go's \<open>xs = xs[1:]\<close> after \<open>len(xs) >= cap\<close>, then \<open>append\<close>: a bounded queue
  that drops its oldest element.\<close>

definition push_bounded :: "nat \<Rightarrow> 'a list \<Rightarrow> 'a \<Rightarrow> 'a list" where
  "push_bounded cap xs x = (if cap \<le> length xs then tl xs else xs) @ [x]"

lemma length_push_bounded:
  "length xs \<le> cap \<Longrightarrow> 0 < cap \<Longrightarrow> length (push_bounded cap xs x) \<le> cap"
  by (cases xs) (auto simp: push_bounded_def)

lemma set_push_bounded: "set (push_bounded cap xs x) \<subseteq> insert x (set xs)"
  by (cases xs) (auto simp: push_bounded_def)

lemma last_push_bounded [simp]: "last (push_bounded cap xs x) = x"
  by (simp add: push_bounded_def)

lemma push_bounded_room: "length xs < cap \<Longrightarrow> push_bounded cap xs x = xs @ [x]"
  by (simp add: push_bounded_def)

section \<open>Fallible steps on a state\<close>

text \<open>A call that returns an error or a value and leaves a state behind; \<open>andthen\<close> is the early
  return on an error.\<close>

type_synonym ('s, 'e, 'a) call = "'s \<Rightarrow> ('e + 'a) \<times> 's"

definition ret :: "'a \<Rightarrow> ('s, 'e, 'a) call" where
  "ret x = (\<lambda>s. (Inr x, s))"

definition andthen :: "('s, 'e, 'a) call \<Rightarrow> ('a \<Rightarrow> ('s, 'e, 'b) call) \<Rightarrow> ('s, 'e, 'b) call" where
  "andthen m f = (\<lambda>s. case m s of (Inl e, s) \<Rightarrow> (Inl e, s) | (Inr x, s) \<Rightarrow> f x s)"

lemma ret_run [simp]: "ret x s = (Inr x, s)"
  by (simp add: ret_def)

lemma andthen_Inr:
  "andthen m f s = (Inr y, s') \<longleftrightarrow> (\<exists>x s1. m s = (Inr x, s1) \<and> f x s1 = (Inr y, s'))"
  by (auto simp: andthen_def split: prod.splits sum.splits)

lemma andthen_run: "m s = (Inr x, s1) \<Longrightarrow> andthen m f s = f x s1"
  by (simp add: andthen_def)

section \<open>Decimal numbers\<close>

text \<open>\<open>strconv.FormatInt(n, 10)\<close> and \<open>strconv.ParseInt(s, 10, 64)\<close>; the parser answers
  \<open>None\<close> where the code gets an error.\<close>

definition digit_char :: "nat \<Rightarrow> char" where "digit_char d = char_of (48 + d)"

fun nat_text_rev :: "nat \<Rightarrow> string" where
  "nat_text_rev n = (if n < 10 then [digit_char n] else digit_char (n mod 10) # nat_text_rev (n div 10))"

declare nat_text_rev.simps [simp del]

definition nat_text :: "nat \<Rightarrow> string" where "nat_text n = rev (nat_text_rev n)"

definition int_text :: "int \<Rightarrow> string" where
  "int_text n = (if n < 0 then CHR ''-'' # nat_text (nat (- n)) else nat_text (nat n))"

definition digit_val :: "char \<Rightarrow> nat option" where
  "digit_val c = (let k = (of_char c :: nat) in if 48 \<le> k \<and> k \<le> 57 then Some (k - 48) else None)"

fun parse_digits :: "nat \<Rightarrow> string \<Rightarrow> nat option" where
  "parse_digits acc [] = Some acc"
| "parse_digits acc (c # cs) = (case digit_val c of None \<Rightarrow> None | Some d \<Rightarrow> parse_digits (10 * acc + d) cs)"

definition parse_nat :: "string \<Rightarrow> nat option" where
  "parse_nat cs = (if cs = [] then None else parse_digits 0 cs)"

definition in_int64 :: "int \<Rightarrow> bool" where
  "in_int64 n \<longleftrightarrow> -9223372036854775808 \<le> n \<and> n \<le> 9223372036854775807"

text \<open>The value before the range check, and the two ways the code uses it: refusing what
  does not fit, or ignoring the error (then the parser has already clamped).\<close>

definition parse_signed :: "string \<Rightarrow> int option" where
  "parse_signed cs = (case cs of
     c # ds \<Rightarrow> if c = CHR ''-'' then map_option (\<lambda>n. - int n) (parse_nat ds)
               else if c = CHR ''+'' then map_option int (parse_nat ds)
               else map_option int (parse_nat cs)
   | [] \<Rightarrow> None)"

definition parse_int :: "string \<Rightarrow> int option" where
  "parse_int cs = (case parse_signed cs of None \<Rightarrow> None | Some n \<Rightarrow> if in_int64 n then Some n else None)"

definition parse_int_lax :: "string \<Rightarrow> int" where
  "parse_int_lax cs = (case parse_signed cs of None \<Rightarrow> 0
     | Some n \<Rightarrow> max (-9223372036854775808) (min 9223372036854775807 n))"

lemma digit_val_char: "d < 10 \<Longrightarrow> digit_val (digit_char d) = Some d"
  by (simp add: digit_val_def digit_char_def Let_def)

lemma parse_digits_append:
  "parse_digits acc (xs @ [c]) =
     (case parse_digits acc xs of None \<Rightarrow> None
      | Some n \<Rightarrow> (case digit_val c of None \<Rightarrow> None | Some d \<Rightarrow> Some (10 * n + d)))"
  by (induction xs arbitrary: acc) (auto split: option.split)

lemma parse_nat_text: "parse_digits 0 (nat_text n) = Some n"
proof (induction n rule: nat_text_rev.induct)
  case (1 n)
  show ?case
  proof (cases "n < 10")
    case True
    then show ?thesis by (simp add: nat_text_def nat_text_rev.simps [of n] digit_val_char)
  next
    case False
    then have "nat_text n = nat_text (n div 10) @ [digit_char (n mod 10)]"
      by (simp add: nat_text_def nat_text_rev.simps [of n])
    with 1 False show ?thesis by (simp add: parse_digits_append digit_val_char)
  qed
qed

lemma nat_text_head: "\<exists>d cs. d < 10 \<and> nat_text n = digit_char d # cs"
proof (induction n rule: nat_text_rev.induct)
  case (1 n)
  show ?case
  proof (cases "n < 10")
    case True
    then show ?thesis by (simp add: nat_text_def nat_text_rev.simps [of n]) blast
  next
    case False
    with 1 obtain d cs where "d < 10" "nat_text (n div 10) = digit_char d # cs" by blast
    with False show ?thesis by (simp add: nat_text_def nat_text_rev.simps [of n]) blast
  qed
qed

lemma digit_char_no_sign: "d < 10 \<Longrightarrow> digit_char d \<noteq> CHR ''-'' \<and> digit_char d \<noteq> CHR ''+''"
proof -
  assume "d < 10"
  then have "digit_val (digit_char d) = Some d" by (rule digit_val_char)
  moreover have "digit_val (CHR ''-'') = None" "digit_val (CHR ''+'') = None"
    by (simp_all add: digit_val_def)
  ultimately show ?thesis by (metis option.distinct(1))
qed

lemma parse_nat_of_text: "parse_nat (nat_text n) = Some n"
  using nat_text_head [of n] parse_nat_text [of n] by (auto simp: parse_nat_def simp del: parse_digits.simps)

lemma parse_int_text:
  assumes "in_int64 n"
  shows "parse_int (int_text n) = Some n"
proof (cases "n < 0")
  case True
  with assms parse_nat_of_text show ?thesis by (simp add: parse_int_def parse_signed_def int_text_def)
next
  case False
  obtain d cs where h: "d < 10" "nat_text (nat n) = digit_char d # cs" using nat_text_head by blast
  then have "parse_nat (digit_char d # cs) = Some (nat n)"
    using parse_nat_of_text [of "nat n"] by simp
  with False assms h digit_char_no_sign [OF h(1)] show ?thesis by (simp add: parse_int_def parse_signed_def int_text_def)
qed

end
