(* ===== verification/GoTime.thy ===== *)
theory GoTime
  imports Prelude
begin

text \<open>
  Go's \<open>time\<close> package, as far as the program uses it.

  A \<open>time.Time\<close> carries a wall reading and, when it comes from \<open>time.Now\<close>, a
  monotonic reading too.  \<open>Sub\<close>, \<open>Before\<close> and \<open>After\<close> use the monotonic
  readings when both operands have one and the wall readings otherwise; \<open>Unix\<close> always
  uses the wall reading; \<open>time.Unix(s, 0)\<close> has no monotonic reading.  The monitor's
  bookkeeping of suspends and clock steps lives on exactly this difference, so both
  readings are kept here.  Readings and durations are in nanoseconds.
\<close>

record gtime =
  wall_ns :: int           \<comment> \<open>nanoseconds since the Unix epoch\<close>
  mono_ns :: "int option"  \<comment> \<open>the monotonic reading, in nanoseconds\<close>

type_synonym duration = int

abbreviation second :: duration where "second \<equiv> 1000000000"
abbreviation millisecond :: duration where "millisecond \<equiv> 1000000"
abbreviation minute :: duration where "minute \<equiv> 60000000000"
abbreviation hour :: duration where "hour \<equiv> 3600000000000"

text \<open>The zero \<open>Time\<close> is January 1 of year 1, UTC.\<close>

definition zero_time :: gtime where
  "zero_time = \<lparr>wall_ns = -62135596800 * 1000000000, mono_ns = None\<rparr>"

definition t_is_zero :: "gtime \<Rightarrow> bool" where
  "t_is_zero t \<longleftrightarrow> wall_ns t = -62135596800 * 1000000000"

definition t_unix :: "gtime \<Rightarrow> int" where
  "t_unix t = wall_ns t div 1000000000"

definition time_unix :: "int \<Rightarrow> gtime" where
  "time_unix s = \<lparr>wall_ns = s * 1000000000, mono_ns = None\<rparr>"

definition sat64 :: "int \<Rightarrow> int" where
  "sat64 d = max (-9223372036854775808) (min 9223372036854775807 d)"

definition t_diff :: "gtime \<Rightarrow> gtime \<Rightarrow> int" where
  "t_diff a b = (case (mono_ns a, mono_ns b) of
     (Some x, Some y) \<Rightarrow> x - y | _ \<Rightarrow> wall_ns a - wall_ns b)"

definition t_sub :: "gtime \<Rightarrow> gtime \<Rightarrow> duration" where
  "t_sub a b = sat64 (t_diff a b)"

definition t_before :: "gtime \<Rightarrow> gtime \<Rightarrow> bool" where
  "t_before a b \<longleftrightarrow> t_diff a b < 0"

definition t_after :: "gtime \<Rightarrow> gtime \<Rightarrow> bool" where
  "t_after a b \<longleftrightarrow> 0 < t_diff a b"

definition t_add :: "gtime \<Rightarrow> duration \<Rightarrow> gtime" where
  "t_add t d = \<lparr>wall_ns = wall_ns t + d, mono_ns = map_option (\<lambda>m. m + d) (mono_ns t)\<rparr>"

text \<open>
  \<open>int(d.Seconds())\<close> and \<open>int64(d.Seconds())\<close> truncate toward zero, as
  \<open>d / time.Second\<close> does.  (\<open>Seconds\<close> goes through a float64; the two agree for
  every duration below \<open>2 ^ 24\<close> seconds and beyond that unless the fraction is within
  a few nanoseconds of the next second.)
\<close>

definition dur_secs :: "duration \<Rightarrow> int" where
  "dur_secs d = d sdiv 1000000000"

definition secs_dur :: "int \<Rightarrow> duration" where
  "secs_dur s = s * 1000000000"

lemma sat64_id [simp]:
  "-9223372036854775808 \<le> d \<Longrightarrow> d \<le> 9223372036854775807 \<Longrightarrow> sat64 d = d"
  by (simp add: sat64_def)

lemma sat64_mono: "a \<le> b \<Longrightarrow> sat64 a \<le> sat64 b"
  by (auto simp: sat64_def)

lemma t_unix_time_unix [simp]: "t_unix (time_unix s) = s"
  by (simp add: t_unix_def time_unix_def)

lemma time_unix_not_zero [simp]: "t_is_zero (time_unix s) \<longleftrightarrow> s = -62135596800"
  by (auto simp: t_is_zero_def time_unix_def)

lemma t_is_zero_zero_time [simp]: "t_is_zero zero_time"
  by (simp add: t_is_zero_def zero_time_def)

lemma t_diff_self [simp]: "t_diff t t = 0"
  by (simp add: t_diff_def split: option.splits)

lemma t_diff_mono: "mono_ns a = Some x \<Longrightarrow> mono_ns b = Some y \<Longrightarrow> t_diff a b = x - y"
  by (simp add: t_diff_def)

lemma t_diff_add: "t_diff (t_add t d) t = d"
  by (simp add: t_diff_def t_add_def split: option.splits)

lemma t_sub_pos: "0 < t_sub a b \<longleftrightarrow> 0 < t_diff a b"
  by (auto simp: t_sub_def sat64_def)

lemma dur_secs_nonneg [gosimps]: "0 \<le> d \<Longrightarrow> dur_secs d = d div 1000000000"
  by (simp add: dur_secs_def sdiv_nonneg)

lemma dur_secs_secs_dur [simp]: "dur_secs (secs_dur s) = s"
  by (cases "0 \<le> s") (simp_all add: dur_secs_def secs_dur_def sdiv_nonneg sdiv_nonpos)

end
