(* ===== verification/Stats.thy ===== *)
theory Stats
  imports Prelude Complex_Main
begin

text \<open>
  \<open>internal/stats/stats.go\<close>: the in-process counter registry every other package
  records into and \<open>/metrics\<close> is rendered from.  A registry is a record of the four Go
  maps; each exported function is one state transformer.  \<open>int64\<close> additions wrap
  (\<open>wrap64\<close>), the histogram's \<open>uint64\<close> counts wrap (\<open>incr_u64\<close>).
\<close>

record histogram =
  h_bounds :: "rat list"
  h_counts :: "nat list"
  h_sum :: rat
  h_count :: nat

record registry =
  counters :: "string \<rightharpoonup> int"
  floats :: "string \<rightharpoonup> rat"
  gauges :: "string \<rightharpoonup> int"
  histos :: "string \<rightharpoonup> histogram"

definition empty_registry :: registry where
  "empty_registry = \<lparr>counters = Map.empty, floats = Map.empty, gauges = Map.empty, histos = Map.empty\<rparr>"

definition latency_buckets :: "rat list" where
  "latency_buckets =
     [1/1000, 2/1000, 5/1000, 10/1000, 25/1000, 50/1000, 100/1000, 250/1000, 500/1000, 1, 2500/1000, 5]"

definition aggregation_buckets :: "rat list" where
  "aggregation_buckets =
     [10/1000, 25/1000, 50/1000, 100/1000, 250/1000, 500/1000, 1, 2500/1000, 5, 10, 20, 30, 60]"

definition histo_buckets :: "string \<rightharpoonup> rat list" where
  "histo_buckets = [''series.query.seconds'' \<mapsto> aggregation_buckets]"

section \<open>Operations\<close>

definition name_char :: "char \<Rightarrow> bool" where
  "name_char c \<longleftrightarrow>
     (let n = (of_char c :: nat) in
       (97 \<le> n \<and> n \<le> 122) \<or> (65 \<le> n \<and> n \<le> 90) \<or> (48 \<le> n \<and> n \<le> 57) \<or>
       c = CHR ''.'' \<or> c = CHR ''_'' \<or> c = CHR ''-'')"

definition valid_name :: "string \<Rightarrow> bool" where
  "valid_name name \<longleftrightarrow> name \<noteq> [] \<and> list_all name_char name"

definition wrap64 :: "int \<Rightarrow> int" where
  "wrap64 x = (x + 9223372036854775808) mod 18446744073709551616 - 9223372036854775808"

definition incr_u64 :: "nat \<Rightarrow> nat" where
  "incr_u64 n = (n + 1) mod 18446744073709551616"

definition val_or_zero :: "('k \<rightharpoonup> 'v::zero) \<Rightarrow> 'k \<Rightarrow> 'v" where
  "val_or_zero m k = (case m k of None \<Rightarrow> 0 | Some v \<Rightarrow> v)"

definition stats_add :: "string \<Rightarrow> int \<Rightarrow> registry \<Rightarrow> registry" where
  "stats_add name n r =
     (if \<not> valid_name name then r
      else r\<lparr>counters := (counters r)(name \<mapsto> wrap64 (val_or_zero (counters r) name + n))\<rparr>)"

definition stats_inc :: "string \<Rightarrow> registry \<Rightarrow> registry" where
  "stats_inc name r = stats_add name 1 r"

definition stats_addf :: "string \<Rightarrow> rat \<Rightarrow> registry \<Rightarrow> registry" where
  "stats_addf name v r =
     (if \<not> valid_name name then r
      else r\<lparr>floats := (floats r)(name \<mapsto> val_or_zero (floats r) name + v)\<rparr>)"

definition stats_set :: "string \<Rightarrow> int \<Rightarrow> registry \<Rightarrow> registry" where
  "stats_set name v r =
     (if \<not> valid_name name then r else r\<lparr>gauges := (gauges r)(name \<mapsto> v)\<rparr>)"

definition stats_set_max :: "string \<Rightarrow> int \<Rightarrow> registry \<Rightarrow> registry" where
  "stats_set_max name v r =
     (if \<not> valid_name name then r
      else if v > val_or_zero (gauges r) name then r\<lparr>gauges := (gauges r)(name \<mapsto> v)\<rparr>
      else r)"

definition stats_delete :: "string \<Rightarrow> registry \<Rightarrow> registry" where
  "stats_delete name r = r\<lparr>gauges := (gauges r)(name := None)\<rparr>"

definition seed_one :: "(string \<rightharpoonup> 'v::zero) \<Rightarrow> string \<Rightarrow> (string \<rightharpoonup> 'v)" where
  "seed_one m n = (if valid_name n \<and> m n = None then m(n \<mapsto> 0) else m)"

definition stats_seed_f :: "string list \<Rightarrow> registry \<Rightarrow> registry" where
  "stats_seed_f names r = r\<lparr>floats := foldl seed_one (floats r) names\<rparr>"

definition stats_seed :: "string list \<Rightarrow> registry \<Rightarrow> registry" where
  "stats_seed names r = r\<lparr>counters := foldl seed_one (counters r) names\<rparr>"

definition histo_observe :: "rat \<Rightarrow> histogram \<Rightarrow> histogram" where
  "histo_observe v h =
     h\<lparr>h_counts := map2 (\<lambda>b c. if v \<le> b then incr_u64 c else c) (h_bounds h) (h_counts h),
       h_sum := h_sum h + v, h_count := incr_u64 (h_count h)\<rparr>"

definition fresh_histo :: "string \<Rightarrow> histogram" where
  "fresh_histo name =
     (let b = (case histo_buckets name of None \<Rightarrow> latency_buckets | Some b \<Rightarrow> b)
      in \<lparr>h_bounds = b, h_counts = replicate (length b) 0, h_sum = 0, h_count = 0\<rparr>)"

definition stats_observe :: "string \<Rightarrow> rat \<Rightarrow> registry \<Rightarrow> registry" where
  "stats_observe name v r =
     (if \<not> valid_name name then r
      else let h = (case histos r name of None \<Rightarrow> fresh_histo name | Some h \<Rightarrow> h)
           in r\<lparr>histos := (histos r)(name \<mapsto> histo_observe v h)\<rparr>)"

text \<open>The registry's whole interface as one step function, for statements about
  arbitrary recording histories.\<close>

datatype stat_op =
    Inc string | Add string int | AddF string rat | Set string int | SetMax string int
  | Delete string | SeedF "string list" | Seed "string list" | Observe string rat

fun stats_step :: "stat_op \<Rightarrow> registry \<Rightarrow> registry" where
  "stats_step (Inc n) r = stats_inc n r"
| "stats_step (Add n k) r = stats_add n k r"
| "stats_step (AddF n v) r = stats_addf n v r"
| "stats_step (Set n v) r = stats_set n v r"
| "stats_step (SetMax n v) r = stats_set_max n v r"
| "stats_step (Delete n) r = stats_delete n r"
| "stats_step (SeedF ns) r = stats_seed_f ns r"
| "stats_step (Seed ns) r = stats_seed ns r"
| "stats_step (Observe n v) r = stats_observe n v r"

fun stats_run :: "stat_op list \<Rightarrow> registry \<Rightarrow> registry" where
  "stats_run [] r = r"
| "stats_run (op # ops) r = stats_run ops (stats_step op r)"

lemmas stats_defs =
  stats_inc_def stats_add_def stats_addf_def stats_set_def stats_set_max_def stats_delete_def
  stats_seed_f_def stats_seed_def stats_observe_def

section \<open>Names\<close>

text \<open>Whatever is recorded, every key of the registry is a well-formed metric name: the
  fail-closed backstop the package documents.\<close>

definition names_ok :: "registry \<Rightarrow> bool" where
  "names_ok r \<longleftrightarrow> (\<forall>n \<in> dom (counters r) \<union> dom (floats r) \<union> dom (gauges r) \<union> dom (histos r).
     valid_name n)"

lemma dom_seed_all:
  "dom (foldl seed_one m ns) = dom m \<union> {n \<in> set ns. valid_name n}"
proof (induction ns arbitrary: m)
  case (Cons n ns)
  have "dom (seed_one m n) = dom m \<union> {x. x = n \<and> valid_name n}"
    by (auto simp: seed_one_def)
  with Cons show ?case by auto
qed simp

lemma stats_step_names_ok: "names_ok r \<Longrightarrow> names_ok (stats_step op r)"
  by (cases op) (auto simp: names_ok_def stats_defs dom_seed_all Let_def split: if_splits)

lemma stats_run_names_ok: "names_ok r \<Longrightarrow> names_ok (stats_run ops r)"
  by (induction ops arbitrary: r) (auto intro: stats_step_names_ok)

section \<open>Counters are monotonic\<close>

lemma wrap64_id: "-9223372036854775808 \<le> x \<Longrightarrow> x < 9223372036854775808 \<Longrightarrow> wrap64 x = x"
  by (simp add: wrap64_def)

text \<open>How much one step adds to counter \<open>n\<close>.\<close>

fun added :: "string \<Rightarrow> stat_op \<Rightarrow> int" where
  "added n (Inc m) = (if m = n then 1 else 0)"
| "added n (Add m k) = (if m = n then k else 0)"
| "added n _ = 0"

fun touches :: "string \<Rightarrow> stat_op \<Rightarrow> bool" where
  "touches n (Inc m) = (m = n)"
| "touches n (Add m k) = (m = n)"
| "touches n _ = False"

lemma foldl_seed_val: "val_or_zero (foldl seed_one m ns) n = val_or_zero m n"
proof (induction ns arbitrary: m)
  case (Cons k ns)
  have "val_or_zero (seed_one m k) n = val_or_zero m n"
    by (auto simp: seed_one_def val_or_zero_def)
  with Cons show ?case by simp
qed simp

lemma stats_step_counter:
  "valid_name n \<Longrightarrow>
   val_or_zero (counters (stats_step op r)) n =
     (if touches n op then wrap64 (val_or_zero (counters r) n + added n op)
      else val_or_zero (counters r) n)"
  by (cases op) (simp_all add: stats_defs foldl_seed_val Let_def, simp_all add: val_or_zero_def)

lemma added_untouched: "\<not> touches n op \<Longrightarrow> added n op = 0"
  by (cases op) auto

lemma stats_run_counter:
  assumes "valid_name n" and "\<forall>op \<in> set ops. 0 \<le> added n op"
    and "0 \<le> val_or_zero (counters r) n"
    and "val_or_zero (counters r) n + (\<Sum>op \<leftarrow> ops. added n op) < 9223372036854775808"
  shows "val_or_zero (counters (stats_run ops r)) n =
    val_or_zero (counters r) n + (\<Sum>op \<leftarrow> ops. added n op)"
  using assms
proof (induction ops arbitrary: r)
  case (Cons op ops)
  have rest: "0 \<le> (\<Sum>op \<leftarrow> ops. added n op)"
    using Cons.prems(2) by (intro sum_list_nonneg) auto
  have "val_or_zero (counters (stats_step op r)) n = val_or_zero (counters r) n + added n op"
    using Cons.prems rest by (simp add: stats_step_counter wrap64_id added_untouched)
  with Cons rest show ?case by simp
qed simp

text \<open>
  The registry's contract for rates: over any history of recordings that only adds and stays
  in \<open>int64\<close>, a counter ends at its old value plus exactly what was added to it, so it never
  decreases, and no seeding, deletion or gauge write touches it.
\<close>

lemma stats_run_monotone:
  assumes "valid_name n" and "\<forall>op \<in> set ops. 0 \<le> added n op"
    and "0 \<le> val_or_zero (counters r) n"
    and "val_or_zero (counters r) n + (\<Sum>op \<leftarrow> ops. added n op) < 9223372036854775808"
  shows "val_or_zero (counters r) n \<le> val_or_zero (counters (stats_run ops r)) n"
proof -
  have "0 \<le> (\<Sum>op \<leftarrow> ops. added n op)"
    using assms(2) by (intro sum_list_nonneg) auto
  with stats_run_counter [OF assms] show ?thesis by simp
qed

section \<open>Histograms count what was observed\<close>

definition histo_of :: "rat list \<Rightarrow> rat list \<Rightarrow> histogram" where
  "histo_of bounds vs = \<lparr>h_bounds = bounds,
     h_counts = map (\<lambda>b. length (filter (\<lambda>v. v \<le> b) vs)) bounds,
     h_sum = sum_list vs, h_count = length vs\<rparr>"

lemma incr_u64_small: "n + 1 < 18446744073709551616 \<Longrightarrow> incr_u64 n = Suc n"
  by (simp add: incr_u64_def)

lemma map2_map_same: "map2 f xs (map g xs) = map (\<lambda>x. f x (g x)) xs"
  by (induction xs) auto

lemma histo_observe_step:
  assumes "length vs + 1 < 18446744073709551616"
  shows "histo_observe v (histo_of bounds vs) = histo_of bounds (vs @ [v])"
proof -
  have "\<And>b. length (filter (\<lambda>v. v \<le> b) vs) + 1 < 18446744073709551616"
    using assms le_less_trans [OF add_right_mono [OF length_filter_le]] by blast
  then show ?thesis
    using assms
    by (auto simp: histo_observe_def histo_of_def map2_map_same incr_u64_small)
qed

fun observed_by :: "string \<Rightarrow> stat_op list \<Rightarrow> rat list" where
  "observed_by n [] = []"
| "observed_by n (Observe m v # ops) = (if m = n then v # observed_by n ops else observed_by n ops)"
| "observed_by n (op # ops) = observed_by n ops"

definition bounds_for :: "string \<Rightarrow> rat list" where
  "bounds_for name = (case histo_buckets name of None \<Rightarrow> latency_buckets | Some b \<Rightarrow> b)"

definition histo_view :: "registry \<Rightarrow> string \<Rightarrow> histogram" where
  "histo_view r n = (case histos r n of None \<Rightarrow> histo_of (bounds_for n) [] | Some h \<Rightarrow> h)"

lemma fresh_histo_eq: "fresh_histo n = histo_of (bounds_for n) []"
  by (simp add: fresh_histo_def histo_of_def bounds_for_def Let_def map_replicate_const)

lemma stats_step_histo:
  "valid_name n \<Longrightarrow>
   histo_view (stats_step op r) n =
     (case op of Observe m v \<Rightarrow> if m = n then histo_observe v (histo_view r n) else histo_view r n
      | _ \<Rightarrow> histo_view r n)"
  by (cases op) (auto simp: stats_defs histo_view_def fresh_histo_eq Let_def split: option.splits)

lemma stats_run_histo:
  assumes "valid_name n" and "histo_view r n = histo_of (bounds_for n) vs"
    and "length vs + length ops < 18446744073709551616"
  shows "histo_view (stats_run ops r) n = histo_of (bounds_for n) (vs @ observed_by n ops)"
  using assms
proof (induction ops arbitrary: r vs)
  case (Cons op ops)
  have "histo_view (stats_step op r) n = histo_of (bounds_for n) (vs @ observed_by n [op])"
    using Cons.prems stats_step_histo [OF Cons.prems(1), of op r]
    by (cases op) (simp_all del: stats_step.simps add: histo_observe_step)
  then have "histo_view (stats_run ops (stats_step op r)) n =
      histo_of (bounds_for n) ((vs @ observed_by n [op]) @ observed_by n ops)"
    using Cons.prems by (intro Cons.IH) (cases op; auto)+
  moreover have "observed_by n [op] @ observed_by n ops = observed_by n (op # ops)"
    by (cases op) auto
  ultimately show ?case by simp
qed simp

end
