(* ===== verification/Tables.thy ===== *)
theory Tables
  imports GoTime Stats
begin

text \<open>
  The rows of \<open>internal/store\<close> that the monitor writes and the uptime figures read,
  the way a statement can fail, and the small helpers around them.

  SQLite itself is not under the repository's sources.  What the code relies on of it is:
  an \<open>INSERT\<close> (or a transaction of them) either appends its rows and returns no error or
  changes nothing and returns one.  Which statements fail is the environment's choice: the
  field \<open>faults\<close> is the list of outcomes of the next statements (an exhausted list means
  they succeed).  An error is its message, because the code classifies errors by what their
  text contains.
\<close>

datatype db_error = DbMsg string | ErrNoConnection

record sample =
  s_ts :: gtime
  s_target :: string
  s_family :: string
  s_latency :: rat
  s_ok :: bool

record sample_row =
  sr_ts :: int
  sr_target :: string
  sr_latency :: "rat option"
  sr_ok :: bool
  sr_family :: "string option"

record dns_row =
  dr_ts :: int
  dr_latency :: "rat option"
  dr_ok :: bool

record event_row =
  ev_ts :: int
  ev_type :: string
  ev_dur :: "int option"
  ev_detail :: string

record db =
  t_samples :: "sample_row list"
  t_dns :: "dns_row list"
  t_events :: "event_row list"
  t_pauses :: "(int \<times> int) list"
  t_settings :: "string \<rightharpoonup> string"
  faults :: "db_error option list"
  reg :: registry
  rec_cache :: "(int \<times> (int \<times> int)) list"  \<comment> \<open>\<open>recScan\<close>: frontier, recovery second (0 = none)\<close>
  rec_gen :: nat

text \<open>One statement (or one transaction): its outcome, taken from the environment.\<close>

definition db_exec :: "'a db_scheme \<Rightarrow> db_error option \<times> 'a db_scheme" where
  "db_exec d = (case faults d of [] \<Rightarrow> (None, d) | f # fs \<Rightarrow> (f, d\<lparr>faults := fs\<rparr>))"

definition on_reg :: "(registry \<Rightarrow> registry) \<Rightarrow> 'a db_scheme \<Rightarrow> 'a db_scheme" where
  "on_reg f d = d\<lparr>reg := f (reg d)\<rparr>"

section \<open>Error texts\<close>

fun starts_with :: "string \<Rightarrow> string \<Rightarrow> bool" where
  "starts_with [] s = True"
| "starts_with (c # cs) [] = False"
| "starts_with (c # cs) (d # ds) = (c = d \<and> starts_with cs ds)"

fun contains_str :: "string \<Rightarrow> string \<Rightarrow> bool" where
  "contains_str s [] = starts_with s []"
| "contains_str s (d # ds) = (starts_with s (d # ds) \<or> contains_str s ds)"

definition lower_char :: "char \<Rightarrow> char" where
  "lower_char c = (let n = (of_char c :: nat) in if 65 \<le> n \<and> n \<le> 90 then char_of (n + 32) else c)"

definition err_text :: "db_error \<Rightarrow> string" where
  "err_text e = (case e of DbMsg m \<Rightarrow> m | ErrNoConnection \<Rightarrow> ''no free database connection'')"

definition is_busy :: "db_error option \<Rightarrow> bool" where
  "is_busy err = (case err of None \<Rightarrow> False
     | Some e \<Rightarrow> let msg = map lower_char (err_text e)
                in contains_str ''busy'' msg \<or> contains_str ''locked'' msg)"

definition record_db_err :: "db_error option \<Rightarrow> 'a db_scheme \<Rightarrow> 'a db_scheme" where
  "record_db_err err d = (case err of None \<Rightarrow> d
     | Some e \<Rightarrow>
        let d = on_reg (stats_inc ''db.err'') d; msg = map lower_char (err_text e) in
        if is_busy err then on_reg (stats_inc ''db.busy'') d
        else if contains_str ''malformed'' msg \<or> contains_str ''not a database'' msg \<or> contains_str ''corrupt'' msg
        then on_reg (stats_inc ''db.corrupt'') d
        else if contains_str ''i/o'' msg then on_reg (stats_inc ''db.io_err'') d
        else if contains_str ''disk'' msg \<or> contains_str ''full'' msg \<or> contains_str ''no space'' msg
        then on_reg (stats_inc ''db.disk_full'') d
        else d)"

definition invalidate_read_caches :: "'a db_scheme \<Rightarrow> 'a db_scheme" where
  "invalidate_read_caches d = d\<lparr>rec_gen := Suc (rec_gen d), rec_cache := []\<rparr>"

section \<open>How values are bound\<close>

text \<open>The latency of a failed sample and an empty family are stored as NULL.\<close>

definition sample_row_of :: "sample \<Rightarrow> sample_row" where
  "sample_row_of sm = \<lparr>sr_ts = t_unix (s_ts sm), sr_target = s_target sm,
     sr_latency = (if s_ok sm then Some (s_latency sm) else None), sr_ok = s_ok sm,
     sr_family = (if s_family sm \<noteq> [] then Some (s_family sm) else None)\<rparr>"

definition dns_row_of :: "gtime \<Rightarrow> rat \<Rightarrow> bool \<Rightarrow> dns_row" where
  "dns_row_of ts ms ok = \<lparr>dr_ts = t_unix ts, dr_latency = (if ok then Some ms else None), dr_ok = ok\<rparr>"

section \<open>Frame facts\<close>

lemma db_exec_frame [simp]:
  "t_samples (snd (db_exec d)) = t_samples d" "t_dns (snd (db_exec d)) = t_dns d"
  "t_events (snd (db_exec d)) = t_events d" "t_pauses (snd (db_exec d)) = t_pauses d"
  "t_settings (snd (db_exec d)) = t_settings d" "reg (snd (db_exec d)) = reg d"
  "rec_cache (snd (db_exec d)) = rec_cache d" "rec_gen (snd (db_exec d)) = rec_gen d"
  "db.more (snd (db_exec d)) = db.more d"
  by (simp_all add: db_exec_def split: list.splits)

lemma db_exec_no_faults: "faults d = [] \<Longrightarrow> db_exec d = (None, d)"
  by (simp add: db_exec_def)

lemma on_reg_frame [simp]:
  "t_samples (on_reg f d) = t_samples d" "t_dns (on_reg f d) = t_dns d"
  "t_events (on_reg f d) = t_events d" "t_pauses (on_reg f d) = t_pauses d"
  "t_settings (on_reg f d) = t_settings d" "faults (on_reg f d) = faults d"
  "rec_cache (on_reg f d) = rec_cache d" "rec_gen (on_reg f d) = rec_gen d"
  "reg (on_reg f d) = f (reg d)" "db.more (on_reg f d) = db.more d"
  by (simp_all add: on_reg_def)

lemma record_db_err_frame [simp]:
  "t_samples (record_db_err e d) = t_samples d" "t_dns (record_db_err e d) = t_dns d"
  "t_events (record_db_err e d) = t_events d" "t_pauses (record_db_err e d) = t_pauses d"
  "t_settings (record_db_err e d) = t_settings d" "faults (record_db_err e d) = faults d"
  "rec_cache (record_db_err e d) = rec_cache d" "rec_gen (record_db_err e d) = rec_gen d"
  "db.more (record_db_err e d) = db.more d"
  by (simp_all add: record_db_err_def Let_def split: option.splits)

lemma record_db_err_None [simp]: "record_db_err None d = d"
  by (simp add: record_db_err_def)

lemma invalidate_frame [simp]:
  "t_samples (invalidate_read_caches d) = t_samples d" "t_dns (invalidate_read_caches d) = t_dns d"
  "t_events (invalidate_read_caches d) = t_events d" "t_pauses (invalidate_read_caches d) = t_pauses d"
  "t_settings (invalidate_read_caches d) = t_settings d" "faults (invalidate_read_caches d) = faults d"
  "reg (invalidate_read_caches d) = reg d" "db.more (invalidate_read_caches d) = db.more d"
  "rec_cache (invalidate_read_caches d) = []"
  by (simp_all add: invalidate_read_caches_def)

end
