(* ===== verification/SampleBuf.thy ===== *)
theory SampleBuf
  imports Tables "HOL-Library.Sublist"
begin

text \<open>
  The batched saves of \<open>internal/store/store.go\<close> (\<open>sampleBuf\<close>, \<open>SaveBuffered\<close> and the
  functions around them): probe rounds and DNS readings wait in memory and are written
  together, one transaction per save.

  Each critical section of the code (a stretch under \<open>b.mu\<close>) is one definition, so the
  functions compose as the code does and the same pieces are the steps of the interleaved
  view below.  What the environment decides is an argument: the clock readings, whether the
  gate was obtained within the wait, the setting \<open>SetSaveEveryFn\<close> supplies.
\<close>

record held_round =
  hr_at :: gtime
  hr_rows :: "sample list"

record held_dns =
  hd_at :: gtime
  hd_ts :: gtime
  hd_ms :: rat
  hd_ok :: bool

record bstore = db +
  bf_waiting :: int
  bf_gate :: bool
  bf_rounds :: "held_round list"
  bf_dns :: "held_dns list"
  bf_rows :: int
  bf_due :: gtime
  bf_quiet :: gtime
  bf_failing :: bool
  bf_drop_said :: bool
  bf_missed :: bool
  bf_closed :: bool
  bf_written_off :: bool

definition max_held_rows :: int where "max_held_rows = 8192"
definition max_save_every :: duration where "max_save_every = hour"
definition save_retry_every :: duration where "save_retry_every = 5 * second"
definition reader_save_quiet :: duration where "reader_save_quiet = second"

datatype save_reason = SaveAge | SaveRequest | SaveRead | SaveOrder | SaveCap | SaveStop

fun reason_text :: "save_reason \<Rightarrow> string" where
  "reason_text SaveAge = ''age''"
| "reason_text SaveRequest = ''request''"
| "reason_text SaveRead = ''read''"
| "reason_text SaveOrder = ''order''"
| "reason_text SaveCap = ''cap''"
| "reason_text SaveStop = ''stop''"

definition for_reader :: "save_reason \<Rightarrow> bool" where
  "for_reader r \<longleftrightarrow> r = SaveRead \<or> r = SaveRequest"

text \<open>\<open>errSaveWaiting\<close>, the error of a save that never got the gate, and a write's error.\<close>

datatype save_error = SaveWaiting | SaveInFront | SaveFailed db_error

definition save_every :: "duration option \<Rightarrow> duration" where
  "save_every fn = (case fn of None \<Rightarrow> 0 | Some d \<Rightarrow> if d \<le> 0 then 0 else min d max_save_every)"

section \<open>The buffer's own operations (under \<open>b.mu\<close>)\<close>

definition add_waiting :: "int \<Rightarrow> 'a bstore_scheme \<Rightarrow> 'a bstore_scheme" where
  "add_waiting k d =
     (let w = bf_waiting d + k
      in on_reg (stats_set ''db.sample_rows_waiting'' w) (d\<lparr>bf_waiting := w\<rparr>))"

text \<open>\<open>oldest\<close>; \<open>None\<close> is the index panic of an empty buffer, which its callers exclude.\<close>

definition oldest :: "'a bstore_scheme \<Rightarrow> gtime option" where
  "oldest d = (case (bf_rounds d, bf_dns d) of
     ([], []) \<Rightarrow> None
   | ([], s # _) \<Rightarrow> Some (hd_at s)
   | (r # _, []) \<Rightarrow> Some (hr_at r)
   | (r # _, s # _) \<Rightarrow> if \<not> t_before (hd_at s) (hr_at r) then Some (hr_at r) else Some (hd_at s))"

definition disarm :: "'a bstore_scheme \<Rightarrow> 'a bstore_scheme" where
  "disarm d = d\<lparr>bf_due := zero_time\<rparr>"

definition arm :: "gtime \<Rightarrow> bool \<Rightarrow> 'a bstore_scheme \<Rightarrow> 'a bstore_scheme" where
  "arm due replace d =
     (if \<not> replace \<and> \<not> t_is_zero (bf_due d) \<and> \<not> t_after (bf_due d) due then d
      else (disarm d)\<lparr>bf_due := due\<rparr>)"

definition arm_oldest :: "duration \<Rightarrow> bool \<Rightarrow> 'a bstore_scheme \<Rightarrow> 'a bstore_scheme" where
  "arm_oldest every replace d =
     (case oldest d of None \<Rightarrow> d | Some first \<Rightarrow> arm (t_add first every) replace d)"

function drop_loop ::
  "held_round list \<Rightarrow> held_dns list \<Rightarrow> int \<Rightarrow> int \<Rightarrow> int \<Rightarrow>
   held_round list \<times> held_dns list \<times> int \<times> int" where
  "drop_loop rs ds rows keep dropped =
     (if rows > keep \<and> rows > 0 then
        (if rs = [] \<or> (ds \<noteq> [] \<and> t_before (hd_at (hd ds)) (hr_at (hd rs)))
         then (if ds = [] then (rs, ds, rows, dropped)
               else drop_loop rs (tl ds) (rows - 1) keep (dropped + 1))
         else drop_loop (tl rs) ds (rows - int (length (hr_rows (hd rs)))) keep
                (dropped + int (length (hr_rows (hd rs)))))
      else (rs, ds, rows, dropped))"
  by pat_completeness auto
termination
proof (relation "measure (\<lambda>(rs, ds, rows, keep, dropped). length rs + length ds)", goal_cases)
  case 1
  show ?case by simp
next
  case (2 rs ds rows keep dropped)
  then show ?case by (cases ds) auto
next
  case (3 rs ds rows keep dropped)
  then show ?case by (cases rs) auto
qed

declare drop_loop.simps [simp del]

definition drop_oldest :: "int \<Rightarrow> 'a bstore_scheme \<Rightarrow> int \<times> 'a bstore_scheme" where
  "drop_oldest keep d =
     (let (rs, ds, rows, dropped) = drop_loop (bf_rounds d) (bf_dns d) (bf_rows d) keep 0;
          d = d\<lparr>bf_rounds := rs, bf_dns := ds, bf_rows := rows\<rparr>
      in (dropped, if dropped > 0 then add_waiting (- dropped) d else d))"

definition put_back ::
  "held_round list \<Rightarrow> held_dns list \<Rightarrow> int \<Rightarrow> 'a bstore_scheme \<Rightarrow> int \<times> 'a bstore_scheme" where
  "put_back rounds dns n d =
     (if bf_written_off d then (0, d)
      else drop_oldest max_held_rows
             (d\<lparr>bf_rounds := rounds @ bf_rounds d, bf_dns := dns @ bf_dns d, bf_rows := bf_rows d + n\<rparr>))"

definition say_drop :: "int \<Rightarrow> 'a bstore_scheme \<Rightarrow> 'a bstore_scheme" where
  "say_drop dropped d = (if dropped = 0 \<or> bf_drop_said d then d else d\<lparr>bf_drop_said := True\<rparr>)"

definition note_dropped :: "int \<Rightarrow> 'a bstore_scheme \<Rightarrow> 'a bstore_scheme" where
  "note_dropped n d = (if n = 0 then d else on_reg (stats_add ''db.sample_rows_dropped'' n) d)"

definition reader_gave_up :: "gtime \<Rightarrow> 'a bstore_scheme \<Rightarrow> 'a bstore_scheme" where
  "reader_gave_up now d = d\<lparr>bf_quiet := t_add now reader_save_quiet, bf_missed := True\<rparr>"

section \<open>A save\<close>

text \<open>\<open>enter\<close>: \<open>got\<close> says whether the gate was obtained within this save's wait.\<close>

datatype gate_result = GateTaken | GateKeptAway | GateTimedOut

definition enter_gate ::
  "bool \<Rightarrow> gtime \<Rightarrow> bool \<Rightarrow> 'a bstore_scheme \<Rightarrow> gate_result \<times> 'a bstore_scheme" where
  "enter_gate brief now got d =
     (if brief \<and> t_before now (bf_quiet d) then (GateKeptAway, d\<lparr>bf_missed := True\<rparr>)
      else if got then (GateTaken, d\<lparr>bf_gate := True\<rparr>) else (GateTimedOut, d))"

definition leave_gate :: "'a bstore_scheme \<Rightarrow> 'a bstore_scheme" where
  "leave_gate d = d\<lparr>bf_gate := False\<rparr>"

text \<open>\<open>SaveBuffered\<close> up to the point where it owns the waiting rows.\<close>

datatype save_start = Done "save_error option" | Took "held_round list" "held_dns list" int

definition save_begin ::
  "save_reason \<Rightarrow> gtime \<Rightarrow> bool \<Rightarrow> 'a bstore_scheme \<Rightarrow> save_start \<times> 'a bstore_scheme" where
  "save_begin reason now got d =
     (if bf_waiting d = 0 then (Done None, d)
      else let brief = for_reader reason in
        (case enter_gate brief now got d of
          (GateKeptAway, d) \<Rightarrow> (Done (Some SaveWaiting), d)
        | (GateTimedOut, d) \<Rightarrow>
            if brief
            then (Done (Some SaveWaiting), on_reg (stats_inc ''db.sample_save_deferred'') (reader_gave_up now d))
            else (Done (Some SaveInFront),
                  if \<not> bf_closed d \<and> bf_rows d > 0 \<and> t_is_zero (bf_due d)
                  then arm (t_add now save_retry_every) True d else d)
        | (GateTaken, d) \<Rightarrow>
            if bf_rows d = 0 then (Done None, leave_gate d)
            else if brief \<and> t_before now (bf_quiet d)
            then (Done (Some SaveWaiting), leave_gate (d\<lparr>bf_missed := True\<rparr>))
            else (Took (bf_rounds d) (bf_dns d) (bf_rows d),
                  d\<lparr>bf_rounds := [], bf_dns := [], bf_rows := 0\<rparr>)))"

text \<open>\<open>writeHeld\<close>: one transaction.  The first statement stands for opening and preparing
  it (an error there is not counted), the second for its rows and the commit.\<close>

definition write_held ::
  "held_round list \<Rightarrow> held_dns list \<Rightarrow> bool \<Rightarrow> 'a db_scheme \<Rightarrow> db_error option \<times> 'a db_scheme" where
  "write_held rounds dns brief d = (case db_exec d of
     (Some e, d) \<Rightarrow> (Some e, d)
   | (None, d) \<Rightarrow>
      (case db_exec d of
        (Some e, d) \<Rightarrow> (Some e, if \<not> brief \<or> \<not> is_busy (Some e) then record_db_err (Some e) d else d)
      | (None, d) \<Rightarrow>
          (None, d\<lparr>t_samples := t_samples d @ map sample_row_of (concat (map hr_rows rounds)),
                  t_dns := t_dns d @ map (\<lambda>s. dns_row_of (hd_ts s) (hd_ms s) (hd_ok s)) dns\<rparr>)))"

text \<open>\<open>runSave\<close>: a save for a reader first takes a connection of its own and lowers its
  busy timeout.\<close>

definition run_save ::
  "held_round list \<Rightarrow> held_dns list \<Rightarrow> bool \<Rightarrow> 'a db_scheme \<Rightarrow> db_error option \<times> 'a db_scheme" where
  "run_save rounds dns brief d =
     (if \<not> brief then write_held rounds dns False d
      else (case db_exec d of
         (Some e, d) \<Rightarrow> (Some e, d)
       | (None, d) \<Rightarrow>
           (case db_exec d of
              (Some e, d) \<Rightarrow> (Some e, d)
            | (None, d) \<Rightarrow> write_held rounds dns True d)))"

text \<open>\<open>SaveBuffered\<close> after its write: the second critical section, then the counters.\<close>

definition save_settle ::
  "save_reason \<Rightarrow> duration \<Rightarrow> gtime \<Rightarrow> held_round list \<Rightarrow> held_dns list \<Rightarrow> int \<Rightarrow> db_error option \<Rightarrow>
   'a bstore_scheme \<Rightarrow> save_error option \<times> 'a bstore_scheme" where
  "save_settle reason every now rounds dns n err d =
     (let brief = for_reader reason in
      case err of
        None \<Rightarrow>
          let d = (if bf_written_off d then d else add_waiting (- n) d);
              recovered = bf_failing d; missed = bf_missed d;
              d = disarm (d\<lparr>bf_quiet := zero_time, bf_failing := False, bf_missed := False,
                            bf_drop_said := False\<rparr>);
              d = (if bf_rows d > 0 \<and> \<not> bf_closed d then arm_oldest every True d else d);
              d = on_reg (stats_inc (''db.sample_saves.'' @ reason_text reason)) d;
              d = (if recovered \<or> missed then invalidate_read_caches d else d)
          in (None, d)
      | Some e \<Rightarrow>
          if brief \<and> (is_busy err \<or> e = ErrNoConnection) then
            let (dropped, d) = put_back rounds dns n d;
                d = reader_gave_up now (say_drop dropped d);
                d = (if \<not> bf_closed d \<and> t_is_zero (bf_due d) then arm_oldest every False d else d);
                d = on_reg (stats_inc ''db.sample_save_deferred'') d
            in (Some SaveWaiting, note_dropped dropped d)
          else
            let (dropped, d) = put_back rounds dns n d;
                d = say_drop dropped d;
                d = d\<lparr>bf_quiet := t_add now save_retry_every, bf_failing := True,
                      bf_missed := bf_missed d \<or> brief\<rparr>;
                d = (if \<not> bf_closed d then arm (bf_quiet d) True d else d);
                d = on_reg (stats_inc ''db.sample_save_failed'') d
            in (Some (SaveFailed e), note_dropped dropped d))"

text \<open>What the environment supplies to one call.\<close>

record save_env =
  en_now :: gtime             \<comment> \<open>\<open>b.now()\<close> when the call begins\<close>
  en_then :: gtime            \<comment> \<open>\<open>b.now()\<close> when its write has come back\<close>
  en_gate :: bool             \<comment> \<open>the gate was obtained within the wait\<close>
  en_every :: "duration option"

definition save_buffered ::
  "save_reason \<Rightarrow> save_env \<Rightarrow> 'a bstore_scheme \<Rightarrow> save_error option \<times> 'a bstore_scheme" where
  "save_buffered reason en d = (case save_begin reason (en_now en) (en_gate en) d of
     (Done r, d) \<Rightarrow> (r, d)
   | (Took rounds dns n, d) \<Rightarrow>
       let (err, d) = run_save rounds dns (for_reader reason) d;
           (r, d) = save_settle reason (save_every (en_every en)) (en_then en) rounds dns n err d
       in (r, leave_gate d))"

section \<open>Holding rows\<close>

datatype item = Round "sample list" | Dns gtime rat bool

definition item_rows :: "item \<Rightarrow> int" where
  "item_rows it = (case it of Round sms \<Rightarrow> int (length sms) | Dns _ _ _ \<Rightarrow> 1)"

text \<open>The part of \<open>hold\<close> after room was made for: \<open>put\<close>, the counts and the timer.  \<open>full\<close>
  says that the buffer was found too full.\<close>

definition hold_put ::
  "item \<Rightarrow> duration \<Rightarrow> gtime \<Rightarrow> bool \<Rightarrow> 'a bstore_scheme \<Rightarrow> 'a bstore_scheme" where
  "hold_put it every now full d =
     (let n = item_rows it;
          (dropped, d) = (if full then drop_oldest (max_held_rows - n) d else (0, d));
          d = say_drop dropped d;
          d = (case it of
                 Round sms \<Rightarrow> d\<lparr>bf_rounds := bf_rounds d @ [\<lparr>hr_at = now, hr_rows = sms\<rparr>]\<rparr>
               | Dns ts ms ok \<Rightarrow>
                   d\<lparr>bf_dns := bf_dns d @ [\<lparr>hd_at = now, hd_ts = ts, hd_ms = ms, hd_ok = ok\<rparr>]\<rparr>);
          d = add_waiting n (d\<lparr>bf_rows := bf_rows d + n\<rparr>);
          d = (if \<not> bf_failing d \<and> every > 0 then arm_oldest every False d else d);
          d = on_reg (stats_add ''db.sample_rows_buffered'' n) d
      in note_dropped dropped d)"

definition hold ::
  "item \<Rightarrow> save_env \<Rightarrow> 'a bstore_scheme \<Rightarrow> (bool \<times> save_error option) \<times> 'a bstore_scheme" where
  "hold it en d =
     (let every = save_every (en_every en); n = item_rows it in
      if bf_closed d then ((False, None), d)
      else let full = (bf_rows d + n > max_held_rows);
               d = (if full \<and> (\<not> bf_failing d \<or> \<not> t_before (en_now en) (bf_quiet d))
                    then snd (save_buffered SaveCap en d) else d) in
      if bf_closed d then ((False, None), d)
      else let d = hold_put it every (en_now en) full d in
      if every = 0 then (let (r, d) = save_buffered SaveAge en d in ((True, r), d))
      else ((True, None), d))"

definition hold_round ::
  "sample list \<Rightarrow> bool \<Rightarrow> save_env \<Rightarrow> 'a bstore_scheme \<Rightarrow> (bool \<times> save_error option) \<times> 'a bstore_scheme" where
  "hold_round sms cancelled en d =
     (if save_every (en_every en) = 0 \<and> bf_waiting d = 0 then ((False, None), d)
      else if int (length sms) > max_held_rows then ((False, None), snd (save_buffered SaveCap en d))
      else if cancelled then ((True, Some (SaveFailed (DbMsg ''context canceled''))), d)
      else hold (Round sms) en d)"

definition hold_dns ::
  "gtime \<Rightarrow> rat \<Rightarrow> bool \<Rightarrow> bool \<Rightarrow> save_env \<Rightarrow> 'a bstore_scheme \<Rightarrow>
   (bool \<times> save_error option) \<times> 'a bstore_scheme" where
  "hold_dns ts ms ok cancelled en d =
     (if save_every (en_every en) = 0 \<and> bf_waiting d = 0 then ((False, None), d)
      else if cancelled
      then ((True, Some (SaveFailed (DbMsg ''context canceled''))),
            record_db_err (Some (DbMsg ''context canceled'')) d)
      else hold (Dns ts ms ok) en d)"

text \<open>\<open>timedSave(at)\<close>: a timer that was replaced after it fired does nothing.  The first
  part is its critical section; it answers whether the save follows.\<close>

definition timer_fires :: "gtime \<Rightarrow> 'a bstore_scheme \<Rightarrow> bool \<times> 'a bstore_scheme" where
  "timer_fires due d =
     (if t_diff (bf_due d) due = 0 then (True, d\<lparr>bf_due := zero_time\<rparr>) else (False, d))"

definition timed_save :: "gtime \<Rightarrow> save_env \<Rightarrow> 'a bstore_scheme \<Rightarrow> 'a bstore_scheme" where
  "timed_save due en d = (case timer_fires due d of
     (True, d) \<Rightarrow> snd (save_buffered SaveAge en d) | (False, d) \<Rightarrow> d)"

text \<open>\<open>finalSave\<close>, around its save: what is still waiting afterwards is booked as lost.\<close>

definition close_buffer :: "'a bstore_scheme \<Rightarrow> 'a bstore_scheme" where
  "close_buffer d = disarm (d\<lparr>bf_closed := True\<rparr>)"

definition book_lost :: "'a bstore_scheme \<Rightarrow> 'a bstore_scheme" where
  "book_lost d =
     (let (lost, d) = drop_oldest 0 d; n = bf_waiting d;
          (lost, d) = (if n > 0
             then (lost + n, on_reg (stats_set ''db.sample_rows_waiting'' 0)
                               (d\<lparr>bf_written_off := True, bf_waiting := 0\<rparr>))
             else (lost, d))
      in if lost > 0 then on_reg (stats_add ''db.sample_rows_dropped'' lost) d else d)"

definition final_save :: "save_env \<Rightarrow> 'a bstore_scheme \<Rightarrow> 'a bstore_scheme" where
  "final_save en d = book_lost (snd (save_buffered SaveStop en (close_buffer d)))"

end
