(* ===== verification/SampleBufInv.thy ===== *)
theory SampleBufInv
  imports SampleBuf
begin

text \<open>
  The interleaved view of the sample buffer and its invariant.  Goroutines enter the critical
  sections of the buffer in any order: the monitor and the DNS probe put rows in, timers
  fire, saves of every reason begin, fail or land, and a close may give up on a save that is
  still running.  The steps below are those sections (\<open>SampleBuf\<close>); the invariant says that
  the counts agree with the rows, that no row is left waiting with nothing set to save it,
  that rows reach the disk in the order they were handed over, and that every row is
  accounted for.
\<close>

section \<open>Row counts\<close>

definition rounds_rows :: "held_round list \<Rightarrow> int" where
  "rounds_rows rs = (\<Sum>r \<leftarrow> rs. int (length (hr_rows r)))"

definition held_rows :: "held_round list \<Rightarrow> held_dns list \<Rightarrow> int" where
  "held_rows rs ds = rounds_rows rs + int (length ds)"

text \<open>A clock reading after 1970, so that no deadline is the zero time.\<close>

definition sane :: "gtime \<Rightarrow> bool" where
  "sane t \<longleftrightarrow> 0 \<le> wall_ns t"

definition filled :: "held_round list \<Rightarrow> bool" where
  "filled rs \<longleftrightarrow> (\<forall>r \<in> set rs. hr_rows r \<noteq> [] \<and> int (length (hr_rows r)) \<le> max_held_rows \<and>
     sane (hr_at r))"

definition stamped :: "held_dns list \<Rightarrow> bool" where
  "stamped ds \<longleftrightarrow> (\<forall>s \<in> set ds. sane (hd_at s))"

lemma stamped_simps [simp]:
  "stamped []" "stamped (s # ds) \<longleftrightarrow> sane (hd_at s) \<and> stamped ds"
  "stamped (ds @ ds') \<longleftrightarrow> stamped ds \<and> stamped ds'"
  by (auto simp: stamped_def)

lemma sane_not_zero: "sane t \<Longrightarrow> 0 \<le> d \<Longrightarrow> \<not> t_is_zero (t_add t d)"
  by (simp add: sane_def t_is_zero_def t_add_def)

lemma held_rows_simps [simp]:
  "held_rows [] [] = 0"
  "held_rows (r # rs) ds = int (length (hr_rows r)) + held_rows rs ds"
  "held_rows rs (s # ds) = 1 + held_rows rs ds"
  "held_rows (rs @ rs') (ds @ ds') = held_rows rs ds + held_rows rs' ds'"
  by (simp_all add: held_rows_def rounds_rows_def)

lemma held_rows_snoc [simp]:
  "held_rows (rs @ [r]) ds = held_rows rs ds + int (length (hr_rows r))"
  "held_rows rs (ds @ [s]) = held_rows rs ds + 1"
  by (simp_all add: held_rows_def rounds_rows_def)

lemma held_rows_nonneg [simp]: "0 \<le> held_rows rs ds"
  unfolding held_rows_def rounds_rows_def by (intro add_nonneg_nonneg sum_list_nonneg) auto

lemma held_rows_zero:
  assumes "filled rs"
  shows "held_rows rs ds = 0 \<longleftrightarrow> rs = [] \<and> ds = []"
proof (cases rs)
  case (Cons r rs2)
  with assms have "0 < int (length (hr_rows r))" by (simp add: filled_def)
  then have "0 < int (length (hr_rows r)) + held_rows rs2 ds"
    using held_rows_nonneg [of rs2 ds] by linarith
  then have "held_rows rs ds \<noteq> 0" by (simp only: Cons held_rows_simps)
  with Cons show ?thesis by simp
qed (simp add: held_rows_def rounds_rows_def)

lemma filled_simps [simp]:
  "filled []"
  "filled (r # rs) \<longleftrightarrow> hr_rows r \<noteq> [] \<and> int (length (hr_rows r)) \<le> max_held_rows \<and>
     sane (hr_at r) \<and> filled rs"
  "filled (rs @ rs') \<longleftrightarrow> filled rs \<and> filled rs'"
  by (auto simp: filled_def)

section \<open>Dropping the oldest rows\<close>

lemma drop_loop_spec:
  assumes "drop_loop rs ds rows keep dropped = (rs', ds', rows', dropped')"
    and "rows = held_rows rs ds" and "0 \<le> keep"
  shows "suffix rs' rs \<and> suffix ds' ds \<and> rows' = held_rows rs' ds' \<and>
    dropped' - dropped = rows - rows' \<and> rows' \<le> max keep 0 \<and> (rows \<le> keep \<longrightarrow> rs' = rs \<and> ds' = ds)"
  using assms
proof (induction rs ds rows keep dropped rule: drop_loop.induct)
  case (1 rs ds rows keep dropped)
  note unfold = drop_loop.simps [of rs ds rows keep dropped]
  show ?case
  proof (cases "rows > keep \<and> rows > 0")
    case False
    then have "drop_loop rs ds rows keep dropped = (rs, ds, rows, dropped)"
      by (simp only: unfold if_not_P [OF False] False if_False)
    with False "1.prems" show ?thesis by auto
  next
    case go: True
    show ?thesis
    proof (cases "rs = [] \<or> (ds \<noteq> [] \<and> t_before (hd_at (hd ds)) (hr_at (hd rs)))")
      case True
      show ?thesis
      proof (cases ds)
        case Nil
        with True go "1.prems" show ?thesis by simp
      next
        case (Cons s ds2)
        have "drop_loop rs ds2 (rows - 1) keep (dropped + 1) = (rs', ds', rows', dropped')"
          using "1.prems"(1) unfold go True Cons by simp
        with "1.IH"(1) [OF go True] "1.prems"(2,3) Cons go show ?thesis
          by (auto intro: suffix_ConsI)
      qed
    next
      case other: False
      then obtain r rs2 where Cons: "rs = r # rs2" by (cases rs) auto
      have "drop_loop rs2 ds (rows - int (length (hr_rows r))) keep
          (dropped + int (length (hr_rows r))) = (rs', ds', rows', dropped')"
      proof -
        have "drop_loop rs ds rows keep dropped =
            drop_loop (tl rs) ds (rows - int (length (hr_rows (hd rs)))) keep
              (dropped + int (length (hr_rows (hd rs))))"
          by (subst unfold, subst if_P [OF go], subst if_not_P [OF other], rule refl)
        with "1.prems"(1) Cons show ?thesis by simp
      qed
      with "1.IH"(2) [OF go other] "1.prems"(2,3) Cons go show ?thesis
        by (auto intro: suffix_ConsI)
    qed
  qed
qed

lemma drop_loop_pos:
  assumes "drop_loop rs ds rows keep dropped = (rs', ds', rows', dropped')"
    and "0 < rows" and "1 \<le> keep" and "\<forall>r \<in> set rs. int (length (hr_rows r)) \<le> keep"
  shows "0 < rows'"
  using assms
proof (induction rs ds rows keep dropped rule: drop_loop.induct)
  case (1 rs ds rows keep dropped)
  note unfold = drop_loop.simps [of rs ds rows keep dropped]
  show ?case
  proof (cases "rows > keep \<and> rows > 0")
    case False
    with "1.prems" show ?thesis by (auto simp: unfold)
  next
    case go: True
    show ?thesis
    proof (cases "rs = [] \<or> (ds \<noteq> [] \<and> t_before (hd_at (hd ds)) (hr_at (hd rs)))")
      case True
      show ?thesis
      proof (cases ds)
        case Nil
        with True go "1.prems" unfold show ?thesis by simp
      next
        case (Cons s ds2)
        have "drop_loop rs ds2 (rows - 1) keep (dropped + 1) = (rs', ds', rows', dropped')"
          using "1.prems"(1) unfold go True Cons by simp
        with "1.IH"(1) [OF go True] "1.prems"(2-4) Cons go show ?thesis by auto
      qed
    next
      case other: False
      then obtain r rs2 where Cons: "rs = r # rs2" by (cases rs) auto
      have "drop_loop rs ds rows keep dropped =
          drop_loop (tl rs) ds (rows - int (length (hr_rows (hd rs)))) keep
            (dropped + int (length (hr_rows (hd rs))))"
        by (subst unfold, subst if_P [OF go], subst if_not_P [OF other], rule refl)
      with "1.IH"(2) [OF go other] "1.prems" Cons go show ?thesis by auto
    qed
  qed
qed

section \<open>Steps\<close>

text \<open>One queue of rows, in the order they were handed over.\<close>

definition queued :: "held_round list \<Rightarrow> sample_row list" where
  "queued rs = map sample_row_of (concat (map hr_rows rs))"

lemma queued_simps [simp]:
  "queued [] = []" "queued (xs @ ys) = queued xs @ queued ys"
  "queued [\<lparr>hr_at = now, hr_rows = sms\<rparr>] = map sample_row_of sms"
  by (simp_all add: queued_def)

lemma queued_suffix: "suffix rs' rs \<Longrightarrow> suffix (queued rs') (queued rs)"
  by (auto simp: suffix_def)

fun item_samples :: "item \<Rightarrow> sample_row list" where
  "item_samples (Round sms) = map sample_row_of sms"
| "item_samples (Dns ts ms ok) = []"

definition good_item :: "item \<Rightarrow> bool" where
  "good_item it \<longleftrightarrow> 0 < item_rows it \<and> item_rows it \<le> max_held_rows"

text \<open>
  \<open>sy_fly\<close> is the save whose transaction is running (at most one: it holds the gate),
  \<open>sy_owed\<close> the saves a goroutine is about to ask for (a timer that fired, an interval set
  to 0), \<open>sy_in\<close> everything accepted into the buffer so far.
\<close>

record sys =
  sy_db :: bstore
  sy_fly :: "(save_reason \<times> held_round list \<times> held_dns list \<times> int) option"
  sy_owed :: nat
  sy_in :: "item list"

text \<open>The environment's moves.\<close>

datatype move =
    Put item duration gtime bool          \<comment> \<open>a row is held (interval, clock, buffer was full)\<close>
  | Begin save_reason gtime bool bool     \<comment> \<open>a save asks for the gate (clock, obtained, it was owed)\<close>
  | Settle duration gtime                 \<comment> \<open>the running transaction comes back\<close>
  | Fire gtime                            \<comment> \<open>the timer goes off\<close>
  | Shut                                  \<comment> \<open>\<open>finalSave\<close> closes the buffer\<close>
  | Lose                                  \<comment> \<open>and gives up on what is left\<close>

fun enabled :: "move \<Rightarrow> sys \<Rightarrow> bool" where
  "enabled (Put it every now full) s \<longleftrightarrow>
     good_item it \<and> sane now \<and> 0 \<le> every \<and> \<not> bf_closed (sy_db s) \<and>
     (bf_rows (sy_db s) + item_rows it > max_held_rows \<longrightarrow> full)"
| "enabled (Begin reason now got owed) s \<longleftrightarrow>
     sane now \<and> (got \<longrightarrow> \<not> bf_gate (sy_db s)) \<and> (owed \<longrightarrow> reason = SaveAge \<and> 0 < sy_owed s)"
| "enabled (Settle every now) s \<longleftrightarrow> sane now \<and> 0 \<le> every \<and> sy_fly s \<noteq> None"
| "enabled (Fire due) s \<longleftrightarrow> \<not> t_is_zero due"
| "enabled Shut s \<longleftrightarrow> True"
| "enabled Lose s \<longleftrightarrow> bf_closed (sy_db s)"

fun apply_move :: "move \<Rightarrow> sys \<Rightarrow> sys" where
  "apply_move (Put it every now full) s =
     s\<lparr>sy_db := hold_put it every now full (sy_db s), sy_in := sy_in s @ [it],
       sy_owed := sy_owed s + (if every = 0 then 1 else 0)\<rparr>"
| "apply_move (Begin reason now got owed) s =
     (case save_begin reason now got (sy_db s) of
        (Done r, d) \<Rightarrow> s\<lparr>sy_db := d, sy_owed := sy_owed s - (if owed then 1 else 0)\<rparr>
      | (Took rs ds n, d) \<Rightarrow>
          s\<lparr>sy_db := d, sy_fly := Some (reason, rs, ds, n),
            sy_owed := sy_owed s - (if owed then 1 else 0)\<rparr>)"
| "apply_move (Settle every now) s =
     (case sy_fly s of
        None \<Rightarrow> s
      | Some (reason, rs, ds, n) \<Rightarrow>
          let (err, d) = run_save rs ds (for_reader reason) (sy_db s);
              (r, d) = save_settle reason every now rs ds n err d
          in s\<lparr>sy_db := leave_gate d, sy_fly := None\<rparr>)"
| "apply_move (Fire due) s =
     (let (mine, d) = timer_fires due (sy_db s)
      in s\<lparr>sy_db := d, sy_owed := sy_owed s + (if mine then 1 else 0)\<rparr>)"
| "apply_move Shut s = s\<lparr>sy_db := close_buffer (sy_db s)\<rparr>"
| "apply_move Lose s = s\<lparr>sy_db := book_lost (sy_db s)\<rparr>"

inductive sb_reach :: "bstore \<Rightarrow> sys \<Rightarrow> bool" for d0 where
  start: "sb_reach d0 \<lparr>sy_db = d0, sy_fly = None, sy_owed = 0, sy_in = []\<rparr>"
| step: "sb_reach d0 s \<Longrightarrow> enabled m s \<Longrightarrow> sb_reach d0 (apply_move m s)"

text \<open>A buffer as \<open>init\<close> makes it, over any tables.\<close>

definition fresh_buffer :: "bstore \<Rightarrow> bool" where
  "fresh_buffer d \<longleftrightarrow> bf_waiting d = 0 \<and> \<not> bf_gate d \<and> bf_rounds d = [] \<and> bf_dns d = [] \<and>
     bf_rows d = 0 \<and> \<not> bf_closed d \<and> \<not> bf_written_off d \<and> \<not> bf_failing d"

section \<open>The invariant\<close>

definition fly_rounds :: "sys \<Rightarrow> held_round list" where
  "fly_rounds s = (case sy_fly s of None \<Rightarrow> [] | Some (reason, rs, ds, n) \<Rightarrow> rs)"

definition fly_rows :: "sys \<Rightarrow> int" where
  "fly_rows s = (case sy_fly s of None \<Rightarrow> 0 | Some (reason, rs, ds, n) \<Rightarrow> n)"

lemma fly_frame [simp]:
  "fly_rows (s\<lparr>sy_db := d\<rparr>) = fly_rows s" "fly_rounds (s\<lparr>sy_db := d\<rparr>) = fly_rounds s"
  "fly_rows (s\<lparr>sy_owed := w\<rparr>) = fly_rows s" "fly_rounds (s\<lparr>sy_owed := w\<rparr>) = fly_rounds s"
  "fly_rows (s\<lparr>sy_fly := Some (r, rs, ds, n)\<rparr>) = n" "fly_rounds (s\<lparr>sy_fly := Some (r, rs, ds, n)\<rparr>) = rs"
  "fly_rows (s\<lparr>sy_in := its\<rparr>) = fly_rows s" "fly_rounds (s\<lparr>sy_in := its\<rparr>) = fly_rounds s"
  by (simp_all add: fly_rows_def fly_rounds_def)

text \<open>The buffer's own part, with \<open>x\<close> rows inside a running save.\<close>

definition core :: "int \<Rightarrow> bstore \<Rightarrow> bool" where
  "core x d \<longleftrightarrow>
     filled (bf_rounds d) \<and> stamped (bf_dns d) \<and>
     bf_rows d = held_rows (bf_rounds d) (bf_dns d) \<and> bf_rows d \<le> max_held_rows \<and>
     bf_waiting d = (if bf_written_off d then 0 else bf_rows d + x) \<and>
     (bf_written_off d \<longrightarrow> bf_closed d \<and> bf_rows d = 0)"

definition counts_ok :: "sys \<Rightarrow> bool" where
  "counts_ok s \<longleftrightarrow>
     core (fly_rows s) (sy_db s) \<and>
     (case sy_fly s of None \<Rightarrow> \<not> bf_gate (sy_db s)
      | Some (reason, rs, ds, n) \<Rightarrow>
          bf_gate (sy_db s) \<and> filled rs \<and> stamped ds \<and> n = held_rows rs ds \<and> 0 < n)"

text \<open>Nothing waits with nobody left to save it.\<close>

definition never_stranded :: "sys \<Rightarrow> bool" where
  "never_stranded s \<longleftrightarrow>
     (bf_rows (sy_db s) > 0 \<and> \<not> bf_closed (sy_db s) \<longrightarrow>
        \<not> t_is_zero (bf_due (sy_db s)) \<or> sy_fly s \<noteq> None \<or> 0 < sy_owed s)"

definition failing_holds :: "sys \<Rightarrow> bool" where
  "failing_holds s \<longleftrightarrow>
     (bf_failing (sy_db s) \<and> \<not> bf_closed (sy_db s) \<and> sy_fly s = None \<longrightarrow> bf_rows (sy_db s) > 0)"

text \<open>The rounds on disk, then those in the running save, then those waiting, are in the
  order in which they were accepted (with gaps where rounds were dropped).\<close>

definition in_order :: "bstore \<Rightarrow> sys \<Rightarrow> bool" where
  "in_order d0 s \<longleftrightarrow>
     (\<exists>new. t_samples (sy_db s) = t_samples d0 @ new \<and>
        subseq (new @ queued (fly_rounds s) @ queued (bf_rounds (sy_db s)))
               (concat (map item_samples (sy_in s))))"

section \<open>Each operation on the counts\<close>

lemma add_waiting_frame [simp]:
  "bf_rounds (add_waiting k d) = bf_rounds d" "bf_dns (add_waiting k d) = bf_dns d"
  "bf_rows (add_waiting k d) = bf_rows d" "bf_waiting (add_waiting k d) = bf_waiting d + k"
  "bf_gate (add_waiting k d) = bf_gate d" "bf_closed (add_waiting k d) = bf_closed d"
  "bf_due (add_waiting k d) = bf_due d" "bf_written_off (add_waiting k d) = bf_written_off d"
  "t_samples (add_waiting k d) = t_samples d" "bf_failing (add_waiting k d) = bf_failing d"
  by (simp_all add: add_waiting_def on_reg_def Let_def)

lemma on_reg_bf [simp]:
  "bf_rounds (on_reg f d) = bf_rounds d" "bf_dns (on_reg f d) = bf_dns d"
  "bf_rows (on_reg f d) = bf_rows d" "bf_waiting (on_reg f d) = bf_waiting d"
  "bf_gate (on_reg f d) = bf_gate d" "bf_closed (on_reg f d) = bf_closed d"
  "bf_due (on_reg f d) = bf_due d" "bf_written_off (on_reg f d) = bf_written_off d"
  "bf_failing (on_reg f d) = bf_failing d" "bf_quiet (on_reg f d) = bf_quiet d"
  by (simp_all add: on_reg_def)

text \<open>Everything of the buffer that the invariant reads, as one view.\<close>

definition view :: "bstore \<Rightarrow> held_round list \<times> held_dns list \<times> int \<times> int \<times> bool \<times> bool \<times> bool" where
  "view d = (bf_rounds d, bf_dns d, bf_rows d, bf_waiting d, bf_gate d, bf_closed d, bf_written_off d)"

lemma view_simps [simp]:
  "view (on_reg f d) = view d" "view (disarm d) = view d" "view (arm due r d) = view d"
  "view (arm_oldest every r d) = view d" "view (note_dropped n d) = view d"
  "view (say_drop n d) = view d" "view (reader_gave_up now d) = view d"
  "view (invalidate_read_caches d) = view d" "view (d\<lparr>bf_due := x\<rparr>) = view d"
  "view (d\<lparr>bf_quiet := q\<rparr>) = view d" "view (d\<lparr>bf_failing := fl\<rparr>) = view d"
  "view (d\<lparr>bf_drop_said := b\<rparr>) = view d"
  "view (d\<lparr>bf_missed := m\<rparr>) = view d"
  by (simp_all add: view_def disarm_def arm_def arm_oldest_def note_dropped_def say_drop_def
      reader_gave_up_def invalidate_read_caches_def on_reg_def split: option.splits)

lemma samples_simps [simp]:
  "t_samples (disarm d) = t_samples d" "t_samples (arm due r d) = t_samples d"
  "t_samples (arm_oldest every r d) = t_samples d" "t_samples (note_dropped n d) = t_samples d"
  "t_samples (say_drop n d) = t_samples d" "t_samples (reader_gave_up now d) = t_samples d"
  "t_samples (leave_gate d) = t_samples d"
  by (simp_all add: disarm_def arm_def arm_oldest_def note_dropped_def say_drop_def
      reader_gave_up_def leave_gate_def split: option.splits)

lemma core_view: "view d = view d' \<Longrightarrow> core x d = core x d'"
  by (simp add: core_def view_def)

lemma core_wrap [simp]:
  "core x (on_reg f d) = core x d" "core x (disarm d) = core x d" "core x (arm due r d) = core x d"
  "core x (arm_oldest every r d) = core x d" "core x (note_dropped n d) = core x d"
  "core x (say_drop n d) = core x d" "core x (reader_gave_up now d) = core x d"
  "core x (invalidate_read_caches d) = core x d" "core x (d\<lparr>bf_due := t\<rparr>) = core x d"
  "core x (d\<lparr>bf_quiet := q\<rparr>) = core x d" "core x (d\<lparr>bf_failing := fl\<rparr>) = core x d"
  "core x (d\<lparr>bf_drop_said := b\<rparr>) = core x d"
  "core x (d\<lparr>bf_missed := m\<rparr>) = core x d" "core x (leave_gate d) = core x d"
  "core x (d\<lparr>bf_gate := g\<rparr>) = core x d"
  by (rule core_view, simp add: core_view)+ (simp_all add: core_def leave_gate_def)

lemma suffix_filled: "suffix rs' rs \<Longrightarrow> filled rs \<Longrightarrow> filled rs'"
  by (auto simp: suffix_def)

lemma drop_oldest_spec:
  assumes "drop_oldest keep d = (k, d')" and "filled (bf_rounds d)"
    and "bf_rows d = held_rows (bf_rounds d) (bf_dns d)" and "0 \<le> keep"
    and "stamped (bf_dns d)"
  shows "suffix (bf_rounds d') (bf_rounds d)" and "filled (bf_rounds d')" and "stamped (bf_dns d')"
    and "bf_rows d' = held_rows (bf_rounds d') (bf_dns d')" and "bf_rows d' \<le> keep"
    and "k = bf_rows d - bf_rows d'" and "0 \<le> k" and "bf_waiting d' = bf_waiting d - k"
    and "bf_gate d' = bf_gate d" and "bf_closed d' = bf_closed d"
    and "bf_written_off d' = bf_written_off d" and "bf_due d' = bf_due d"
    and "t_samples d' = t_samples d" and "bf_failing d' = bf_failing d"
    and "0 < bf_rows d \<Longrightarrow> keep = max_held_rows \<Longrightarrow> 0 < bf_rows d'"
    and "bf_rows d \<le> keep \<Longrightarrow> k = 0 \<and> bf_rounds d' = bf_rounds d"
proof -
  obtain rs ds rows dr where loop:
    "drop_loop (bf_rounds d) (bf_dns d) (bf_rows d) keep 0 = (rs, ds, rows, dr)"
    by (metis prod_cases4)
  note sp = drop_loop_spec [OF loop assms(3,4)]
  have k: "dr = k" and d': "d' = (if dr > 0
      then add_waiting (- dr) (d\<lparr>bf_rounds := rs, bf_dns := ds, bf_rows := rows\<rparr>)
      else d\<lparr>bf_rounds := rs, bf_dns := ds, bf_rows := rows\<rparr>)"
    using assms(1) by (auto simp: drop_oldest_def loop Let_def)
  have len: "rows \<le> bf_rows d"
  proof -
    obtain us vs where "bf_rounds d = us @ rs" "bf_dns d = vs @ ds"
      using sp by (auto simp: suffix_def)
    then have "bf_rows d = held_rows us vs + rows" using sp assms(3) by simp
    then show ?thesis using held_rows_nonneg [of us vs] by linarith
  qed
  then show "0 \<le> k" using sp k by simp
  have f: "bf_rounds d' = rs" "bf_dns d' = ds" "bf_rows d' = rows" using d' by simp_all
  show "suffix (bf_rounds d') (bf_rounds d)" using sp f by simp
  then show "filled (bf_rounds d')" using assms(2) by (rule suffix_filled)
  have "suffix (bf_dns d') (bf_dns d)" using sp f by simp
  then show "stamped (bf_dns d')" using assms(5) by (auto simp: suffix_def)
  show "bf_rows d' = held_rows (bf_rounds d') (bf_dns d')" using sp f by simp
  show "bf_rows d' \<le> keep" using sp f assms(4) by simp
  show "k = bf_rows d - bf_rows d'" using sp f k by simp
  show "bf_waiting d' = bf_waiting d - k" using \<open>0 \<le> k\<close> d' k by simp
  show "bf_gate d' = bf_gate d" and "bf_closed d' = bf_closed d"
    and "bf_written_off d' = bf_written_off d" and "bf_due d' = bf_due d"
    and "t_samples d' = t_samples d" and "bf_failing d' = bf_failing d" using d' by simp_all
  show "0 < bf_rows d'" if "0 < bf_rows d" and "keep = max_held_rows"
    using drop_loop_pos [OF loop that(1)] that(2) assms(2) f by (simp add: max_held_rows_def filled_def)
  show "k = 0 \<and> bf_rounds d' = bf_rounds d" if "bf_rows d \<le> keep"
  proof -
    have "rs = bf_rounds d" "ds = bf_dns d" using sp that by auto
    with sp k d' assms(3) show ?thesis by simp
  qed
qed

text \<open>The item as the buffer keeps it.\<close>

definition put_item :: "item \<Rightarrow> gtime \<Rightarrow> bstore \<Rightarrow> bstore" where
  "put_item it now d = (case it of
     Round sms \<Rightarrow> d\<lparr>bf_rounds := bf_rounds d @ [\<lparr>hr_at = now, hr_rows = sms\<rparr>]\<rparr>
   | Dns ts ms ok \<Rightarrow>
       d\<lparr>bf_dns := bf_dns d @ [\<lparr>hd_at = now, hd_ts = ts, hd_ms = ms, hd_ok = ok\<rparr>]\<rparr>)"

lemma put_item_frame [simp]:
  "bf_rows (put_item it now d) = bf_rows d" "bf_waiting (put_item it now d) = bf_waiting d"
  "bf_gate (put_item it now d) = bf_gate d" "bf_closed (put_item it now d) = bf_closed d"
  "bf_written_off (put_item it now d) = bf_written_off d" "bf_due (put_item it now d) = bf_due d"
  "bf_failing (put_item it now d) = bf_failing d" "t_samples (put_item it now d) = t_samples d"
  "held_rows (bf_rounds (put_item it now d)) (bf_dns (put_item it now d)) =
     held_rows (bf_rounds d) (bf_dns d) + item_rows it"
  "queued (bf_rounds (put_item it now d)) = queued (bf_rounds d) @ item_samples it"
  by (simp_all add: put_item_def item_rows_def split: item.split)

lemma put_item_filled [simp]:
  "good_item it \<Longrightarrow> sane now \<Longrightarrow> filled (bf_rounds (put_item it now d)) \<longleftrightarrow> filled (bf_rounds d)"
  "good_item it \<Longrightarrow> sane now \<Longrightarrow> stamped (bf_dns (put_item it now d)) \<longleftrightarrow> stamped (bf_dns d)"
  by (auto simp: put_item_def good_item_def item_rows_def split: item.splits)

lemma hold_put_eq:
  "hold_put it every now full d =
     (let (dropped, d1) = (if full then drop_oldest (max_held_rows - item_rows it) d else (0, d));
          d2 = put_item it now (say_drop dropped d1);
          d3 = add_waiting (item_rows it) (d2\<lparr>bf_rows := bf_rows d2 + item_rows it\<rparr>);
          d4 = (if \<not> bf_failing d3 \<and> every > 0 then arm_oldest every False d3 else d3)
      in note_dropped dropped (on_reg (stats_add ''db.sample_rows_buffered'' (item_rows it)) d4))"
  by (simp add: hold_put_def put_item_def Let_def split: item.split prod.split)


lemma oldest_sane:
  assumes "core x d" and "0 < bf_rows d"
  obtains t where "oldest d = Some t" and "sane t"
proof -
  have "\<not> (bf_rounds d = [] \<and> bf_dns d = [])" using assms by (auto simp: core_def)
  moreover have "filled (bf_rounds d)" "stamped (bf_dns d)" using assms(1) by (simp_all add: core_def)
  ultimately have "\<exists>t. oldest d = Some t \<and> sane t"
    by (cases "bf_rounds d"; cases "bf_dns d") (simp_all add: oldest_def)
  then show thesis using that by blast
qed

lemma arm_oldest_due:
  assumes "core x d" and "0 < bf_rows d" and "0 \<le> every"
  shows "\<not> t_is_zero (bf_due (arm_oldest every r d))"
proof -
  obtain t where t: "oldest d = Some t" "sane t" by (rule oldest_sane [OF assms(1,2)])
  then show ?thesis
    using sane_not_zero [OF t(2) assms(3)] by (auto simp: arm_oldest_def arm_def disarm_def)
qed

lemma hold_put_spec:
  assumes "core x d" and "good_item it" and "sane now" and "0 \<le> every" and "\<not> bf_closed d"
    and "bf_rows d + item_rows it > max_held_rows \<longrightarrow> full"
  defines "d' \<equiv> hold_put it every now full d"
  shows "core x d'" and "bf_gate d' = bf_gate d" and "bf_closed d' = bf_closed d"
    and "t_samples d' = t_samples d" and "bf_failing d' = bf_failing d"
    and "\<exists>q. suffix q (queued (bf_rounds d)) \<and> queued (bf_rounds d') = q @ item_samples it"
    and "0 < bf_rows d'"
    and "\<not> t_is_zero (bf_due d') \<or> every = 0 \<or> (bf_failing d \<and> bf_due d' = bf_due d)"
proof -
  obtain k d1 where dr: "(if full then drop_oldest (max_held_rows - item_rows it) d else (0, d)) = (k, d1)"
    by (metis surj_pair)
  have c: "filled (bf_rounds d)" "stamped (bf_dns d)" "bf_rows d = held_rows (bf_rounds d) (bf_dns d)"
    "bf_rows d \<le> max_held_rows" "\<not> bf_written_off d" "bf_waiting d = bf_rows d + x"
    using assms(1,5) by (auto simp: core_def)
  have n: "0 < item_rows it" "item_rows it \<le> max_held_rows" using assms(2) by (auto simp: good_item_def)
  have room: "bf_rows d + item_rows it \<le> max_held_rows" if "\<not> full" using that assms(6) by simp
  have keep0: "0 \<le> max_held_rows - item_rows it" using n by simp
  have "(filled (bf_rounds d1)) \<and>
     (stamped (bf_dns d1)) \<and>
     (bf_rows d1 = held_rows (bf_rounds d1) (bf_dns d1)) \<and>
     (bf_rows d1 + item_rows it \<le> max_held_rows) \<and>
     (bf_waiting d1 = bf_rows d1 + x) \<and>
     (suffix (bf_rounds d1) (bf_rounds d)) \<and>
     (bf_gate d1 = bf_gate d) \<and>
     (bf_closed d1 = bf_closed d) \<and>
     (bf_written_off d1 = bf_written_off d) \<and>
     (bf_due d1 = bf_due d) \<and>
     (t_samples d1 = t_samples d) \<and>
     (bf_failing d1 = bf_failing d)"
  proof (cases full)
    case True
    then have "drop_oldest (max_held_rows - item_rows it) d = (k, d1)" using dr by simp
    note sp = drop_oldest_spec [OF this c(1,3) keep0 c(2)]
    show ?thesis using sp(1-14) c by simp
  next
    case False
    then have "d1 = d" using dr by simp
    with c room [OF False] show ?thesis by simp
  qed
  then have d1: "filled (bf_rounds d1)" "stamped (bf_dns d1)" "bf_rows d1 = held_rows (bf_rounds d1) (bf_dns d1)"
    "bf_rows d1 + item_rows it \<le> max_held_rows" "bf_waiting d1 = bf_rows d1 + x"
    "suffix (bf_rounds d1) (bf_rounds d)" "bf_gate d1 = bf_gate d" "bf_closed d1 = bf_closed d"
    "bf_written_off d1 = bf_written_off d" "bf_due d1 = bf_due d" "t_samples d1 = t_samples d"
    "bf_failing d1 = bf_failing d"
    by blast+
  define d2 where "d2 = put_item it now (say_drop k d1)"
  define d3 where "d3 = add_waiting (item_rows it) (d2\<lparr>bf_rows := bf_rows d2 + item_rows it\<rparr>)"
  define d4 where "d4 = (if \<not> bf_failing d3 \<and> every > 0 then arm_oldest every False d3 else d3)"
  have say: "bf_rounds (say_drop k d1) = bf_rounds d1" "bf_dns (say_drop k d1) = bf_dns d1"
    "bf_rows (say_drop k d1) = bf_rows d1" "bf_waiting (say_drop k d1) = bf_waiting d1"
    "bf_gate (say_drop k d1) = bf_gate d1" "bf_closed (say_drop k d1) = bf_closed d1"
    "bf_written_off (say_drop k d1) = bf_written_off d1" "bf_due (say_drop k d1) = bf_due d1"
    "bf_failing (say_drop k d1) = bf_failing d1"
    by (simp_all add: say_drop_def)
  have d3: "core x d3" "bf_gate d3 = bf_gate d" "bf_closed d3 = bf_closed d"
    "t_samples d3 = t_samples d" "bf_failing d3 = bf_failing d" "bf_due d3 = bf_due d"
    "queued (bf_rounds d3) = queued (bf_rounds d1) @ item_samples it" "0 < bf_rows d3"
    using d1 n c(5) assms(2,3) add_nonneg_pos [OF held_rows_nonneg [of "bf_rounds d1" "bf_dns d1"] n(1)]
    by (simp_all add: d3_def d2_def core_def say)
  have d': "d' = note_dropped k (on_reg (stats_add ''db.sample_rows_buffered'' (item_rows it)) d4)"
    by (simp add: d'_def hold_put_eq dr d2_def d3_def d4_def Let_def)
  have v: "view d' = view d3" by (simp add: d' d4_def)
  then have v': "bf_rounds d' = bf_rounds d3" "bf_rows d' = bf_rows d3" "bf_gate d' = bf_gate d3"
    "bf_closed d' = bf_closed d3"
    by (simp_all add: view_def)
  show "core x d'" using d3(1) core_view [OF v, of x] by simp
  show "bf_gate d' = bf_gate d" "bf_closed d' = bf_closed d" "0 < bf_rows d'" using v' d3 by simp_all
  show "t_samples d' = t_samples d" using d3 by (simp add: d' d4_def)
  have keep: "bf_failing d' = bf_failing d4" "bf_due d' = bf_due d4"
    by (simp_all add: d' note_dropped_def)
  show "bf_failing d' = bf_failing d"
    using d3 by (simp add: keep d4_def arm_oldest_def arm_def disarm_def split: option.splits)
  show "\<exists>q. suffix q (queued (bf_rounds d)) \<and> queued (bf_rounds d') = q @ item_samples it"
    using d1(6) d3(7) v' by (auto intro: queued_suffix)
  show "\<not> t_is_zero (bf_due d') \<or> every = 0 \<or> (bf_failing d \<and> bf_due d' = bf_due d)"
    using arm_oldest_due [of x d3 every False] d3 assms(4) by (auto simp: keep d4_def)
qed


section \<open>Saves\<close>

definition untouched :: "bstore \<Rightarrow> bstore \<Rightarrow> bool" where
  "untouched d d' \<longleftrightarrow> view d' = view d \<and> bf_due d' = bf_due d \<and> bf_failing d' = bf_failing d"

lemma untouched_refl [simp]: "untouched d d"
  by (simp add: untouched_def)

lemma untouched_trans [trans]: "untouched d d' \<Longrightarrow> untouched d' d'' \<Longrightarrow> untouched d d''"
  by (simp add: untouched_def)

lemma untouched_exec: "untouched d (snd (db_exec d))"
  by (simp add: untouched_def db_exec_def view_def split: list.splits)

lemma untouched_record: "untouched d (record_db_err e d)"
  by (simp add: untouched_def record_db_err_def view_def Let_def split: option.splits)

lemma untouched_tables: "untouched d (d\<lparr>t_samples := ss, t_dns := ns\<rparr>)"
  by (simp add: untouched_def view_def)

lemma write_held_frame:
  "untouched d (snd (write_held rs ds b d)) \<and> t_samples (snd (write_held rs ds b d)) =
     t_samples d @ (if fst (write_held rs ds b d) = None then queued rs else [])"
proof -
  obtain e1 d1 where 1: "db_exec d = (e1, d1)" by (cases "db_exec d")
  obtain e2 d2 where 2: "db_exec d1 = (e2, d2)" by (cases "db_exec d1")
  have u: "untouched d d1" "untouched d1 d2" "t_samples d1 = t_samples d" "t_samples d2 = t_samples d"
    using untouched_exec [of d] untouched_exec [of d1] db_exec_frame(1) [of d] db_exec_frame(1) [of d1]
    by (simp_all add: 1 2)
  then have v: "untouched d d2" by (blast intro: untouched_trans)
  show ?thesis
  proof (cases e1)
    case None
    show ?thesis
    proof (cases e2)
      case None
      with \<open>e1 = None\<close> show ?thesis
        using untouched_trans [OF v untouched_tables] u
        by (simp add: write_held_def 1 2 queued_def)
    next
      case (Some e)
      with \<open>e1 = None\<close> show ?thesis
        using untouched_trans [OF v untouched_record] u v
        by (simp add: write_held_def 1 2)
    qed
  next
    case (Some e)
    then show ?thesis using u by (simp add: write_held_def 1)
  qed
qed

lemma run_save_frame:
  "untouched d (snd (run_save rs ds b d)) \<and> t_samples (snd (run_save rs ds b d)) =
     t_samples d @ (if fst (run_save rs ds b d) = None then queued rs else [])"
proof (cases b)
  case True
  obtain e1 d1 where 1: "db_exec d = (e1, d1)" by (cases "db_exec d")
  obtain e2 d2 where 2: "db_exec d1 = (e2, d2)" by (cases "db_exec d1")
  have u: "untouched d d1" "untouched d1 d2" "t_samples d1 = t_samples d" "t_samples d2 = t_samples d"
    using untouched_exec [of d] untouched_exec [of d1] db_exec_frame(1) [of d] db_exec_frame(1) [of d1]
    by (simp_all add: 1 2)
  note w = write_held_frame [of d2 rs ds True]
  have v: "untouched d (snd (write_held rs ds True d2))" "untouched d d2"
    using u w untouched_trans by blast+
  show ?thesis
    using True u v w by (cases e1; cases e2) (simp_all add: run_save_def 1 2)
next
  case False
  then show ?thesis using write_held_frame [of d rs ds False] by (simp add: run_save_def)
qed

text \<open>What taking the waiting rows, or being turned away, leaves behind.\<close>

lemma save_begin_done:
  assumes "save_begin reason now got d = (Done r, d')" and "core x d" and "sane now"
    and "got \<longrightarrow> \<not> bf_gate d" and "bf_waiting d = 0 \<longrightarrow> bf_rows d = 0 \<or> bf_closed d"
  shows "view d' = view d" and "bf_failing d' = bf_failing d" and "t_samples d' = t_samples d"
    and "bf_due d' = bf_due d \<or> \<not> t_is_zero (bf_due d')"
    and "reason = SaveAge \<Longrightarrow> bf_closed d \<or> bf_rows d = 0 \<or> \<not> t_is_zero (bf_due d')"
proof -
  have "view d' = view d \<and> bf_failing d' = bf_failing d \<and> t_samples d' = t_samples d \<and>
    (bf_due d' = bf_due d \<or> \<not> t_is_zero (bf_due d')) \<and>
    (reason = SaveAge \<longrightarrow> bf_closed d \<or> bf_rows d = 0 \<or> \<not> t_is_zero (bf_due d'))"
  proof (cases "bf_waiting d = 0")
    case True
    then show ?thesis using assms(1,5) by (auto simp: save_begin_def)
  next
    case busy: False
    show ?thesis
    proof (cases "for_reader reason \<and> t_before now (bf_quiet d)")
      case True
      then have "d' = d\<lparr>bf_missed := True\<rparr>" "reason \<noteq> SaveAge"
        using assms(1) busy by (auto simp: save_begin_def enter_gate_def for_reader_def)
      then show ?thesis by simp
    next
      case quiet: False
      show ?thesis
      proof (cases got)
        case True
        then have g: "\<not> bf_gate d" using assms(4) by simp
        have "bf_rows d = 0 \<and> d' = d" if "bf_rows d = 0"
          using assms(1) busy quiet True that g by (auto simp: save_begin_def enter_gate_def leave_gate_def)
        moreover have False if "bf_rows d \<noteq> 0"
          using assms(1) busy quiet True that by (auto simp: save_begin_def enter_gate_def Let_def)
        ultimately show ?thesis by (cases "bf_rows d = 0") auto
      next
        case no: False
        have nz: "\<not> t_is_zero (t_add now save_retry_every)"
          by (rule sane_not_zero [OF assms(3)]) (simp add: save_retry_every_def)
        show ?thesis
        proof (cases "for_reader reason")
          case True
          then have "d' = on_reg (stats_inc ''db.sample_save_deferred'') (reader_gave_up now d)"
            using assms(1) busy quiet no by (simp add: save_begin_def enter_gate_def Let_def)
          with True show ?thesis by (auto simp: for_reader_def reader_gave_up_def)
        next
          case False
          then have "d' = (if \<not> bf_closed d \<and> bf_rows d > 0 \<and> t_is_zero (bf_due d)
              then arm (t_add now save_retry_every) True d else d)"
            using assms(1) busy quiet no by (simp add: save_begin_def enter_gate_def Let_def)
          moreover have "0 \<le> bf_rows d" using assms(2) by (simp add: core_def)
          ultimately show ?thesis using nz by (auto simp: arm_def disarm_def)
        qed
      qed
    qed
  qed
  then show "view d' = view d" and "bf_failing d' = bf_failing d" and "t_samples d' = t_samples d"
    and "bf_due d' = bf_due d \<or> \<not> t_is_zero (bf_due d')"
    and "reason = SaveAge \<Longrightarrow> bf_closed d \<or> bf_rows d = 0 \<or> \<not> t_is_zero (bf_due d')" by blast+
qed

lemma save_begin_took:
  assumes "save_begin reason now got d = (Took rs ds n, d')"
  shows "rs = bf_rounds d" and "ds = bf_dns d" and "n = bf_rows d" and "n \<noteq> 0" and "got"
    and "d' = d\<lparr>bf_gate := True, bf_rounds := [], bf_dns := [], bf_rows := 0\<rparr>"
proof -
  have "bf_waiting d \<noteq> 0" using assms by (auto simp: save_begin_def)
  moreover have "\<not> (for_reader reason \<and> t_before now (bf_quiet d))"
    using assms by (auto simp: save_begin_def enter_gate_def split: if_splits)
  moreover have "got"
    using assms by (auto simp: save_begin_def enter_gate_def Let_def split: if_splits)
  moreover have "bf_rows d \<noteq> 0"
    using assms by (auto simp: save_begin_def enter_gate_def Let_def split: if_splits)
  ultimately show "rs = bf_rounds d" and "ds = bf_dns d" and "n = bf_rows d" and "n \<noteq> 0" and "got"
    and "d' = d\<lparr>bf_gate := True, bf_rounds := [], bf_dns := [], bf_rows := 0\<rparr>"
    using assms by (auto simp: save_begin_def enter_gate_def Let_def)
qed

lemma put_back_spec:
  assumes "put_back rs ds n d = (k, d')" and "core n d" and "filled rs" and "stamped ds"
    and "n = held_rows rs ds" and "0 < n"
  shows "core 0 d'" and "bf_gate d' = bf_gate d" and "bf_closed d' = bf_closed d"
    and "bf_due d' = bf_due d" and "bf_failing d' = bf_failing d" and "t_samples d' = t_samples d"
    and "\<not> bf_closed d \<Longrightarrow> 0 < bf_rows d'"
    and "suffix (queued (bf_rounds d')) (queued rs @ queued (bf_rounds d))"
proof -
  note c = assms(2) [unfolded core_def]
  define d1 where "d1 = d\<lparr>bf_rounds := rs @ bf_rounds d, bf_dns := ds @ bf_dns d, bf_rows := bf_rows d + n\<rparr>"
  have "core 0 d' \<and> bf_gate d' = bf_gate d \<and> bf_closed d' = bf_closed d \<and>
    bf_due d' = bf_due d \<and> bf_failing d' = bf_failing d \<and> t_samples d' = t_samples d \<and>
    (\<not> bf_closed d \<longrightarrow> 0 < bf_rows d') \<and>
    suffix (queued (bf_rounds d')) (queued rs @ queued (bf_rounds d))"
  proof (cases "bf_written_off d")
    case True
    then have "d' = d" using assms(1) by (simp add: put_back_def)
    with True c show ?thesis by (auto simp: core_def suffix_def)
  next
    case False
    then have run: "drop_oldest max_held_rows d1 = (k, d')" using assms(1) by (simp add: put_back_def d1_def)
    have pre: "filled (bf_rounds d1)" "bf_rows d1 = held_rows (bf_rounds d1) (bf_dns d1)"
      "0 \<le> max_held_rows" "stamped (bf_dns d1)"
      using c assms(3-5) by (simp_all add: d1_def max_held_rows_def)
    have pos: "0 < bf_rows d1" using c assms(6) by (simp add: d1_def add_nonneg_pos)
    note sp = drop_oldest_spec [OF run pre]
    have flds: "bf_gate d1 = bf_gate d" "bf_closed d1 = bf_closed d" "bf_due d1 = bf_due d"
      "bf_failing d1 = bf_failing d" "t_samples d1 = t_samples d" "bf_written_off d1 = bf_written_off d"
      "bf_waiting d1 = bf_waiting d" "bf_rows d1 = bf_rows d + n" "bf_rounds d1 = rs @ bf_rounds d"
      by (simp_all add: d1_def)
    have "core 0 d'" unfolding core_def using sp(2-11) flds c False by auto
    moreover have "suffix (queued (bf_rounds d')) (queued rs @ queued (bf_rounds d))"
      using queued_suffix [OF sp(1)] flds by simp
    ultimately show ?thesis using sp(9-15) flds pos by auto
  qed
  then show "core 0 d'" and "bf_gate d' = bf_gate d" and "bf_closed d' = bf_closed d"
    and "bf_due d' = bf_due d" and "bf_failing d' = bf_failing d" and "t_samples d' = t_samples d"
    and "\<not> bf_closed d \<Longrightarrow> 0 < bf_rows d'"
    and "suffix (queued (bf_rounds d')) (queued rs @ queued (bf_rounds d))" by blast+
qed

lemma save_settle_ok:
  assumes "save_settle reason every now rs ds n None d = (r, d')" and "core n d" and "0 \<le> every"
  shows "core 0 d'" and "bf_rounds d' = bf_rounds d" and "bf_closed d' = bf_closed d"
    and "\<not> bf_failing d'" and "t_samples d' = t_samples d"
    and "0 < bf_rows d' \<Longrightarrow> \<not> bf_closed d' \<Longrightarrow> \<not> t_is_zero (bf_due d')"
proof -
  define d1 where "d1 = (if bf_written_off d then d else add_waiting (- n) d)"
  define d2 where "d2 = disarm (d1\<lparr>bf_quiet := zero_time, bf_failing := False, bf_missed := False,
                            bf_drop_said := False\<rparr>)"
  define d3 where "d3 = (if bf_rows d2 > 0 \<and> \<not> bf_closed d2 then arm_oldest every True d2 else d2)"
  define d4 where "d4 = on_reg (stats_inc (''db.sample_saves.'' @ reason_text reason)) d3"
  have d': "d' = (if bf_failing d1 \<or> bf_missed d1 then invalidate_read_caches d4 else d4)"
  proof -
    have "(None, if bf_failing d1 \<or> bf_missed d1 then invalidate_read_caches d4 else d4) = (r, d')"
      using assms(1) unfolding d4_def d3_def d2_def d1_def
      by (simp only: save_settle_def Let_def option.case)
    then show ?thesis by (simp only: prod.inject)
  qed
  have c1: "core 0 d1" "bf_rounds d1 = bf_rounds d" "bf_closed d1 = bf_closed d" "t_samples d1 = t_samples d"
    using assms(2) by (auto simp: d1_def core_def)
  have c2: "core 0 d2" "bf_rounds d2 = bf_rounds d1" "bf_closed d2 = bf_closed d1"
    "t_samples d2 = t_samples d1" "\<not> bf_failing d2"
    using c1(1) by (auto simp: d2_def disarm_def core_def)
  have v: "view d' = view d2" by (simp add: d' d4_def d3_def)
  then have f: "bf_rounds d' = bf_rounds d2" "bf_closed d' = bf_closed d2" "bf_rows d' = bf_rows d2"
    by (simp_all add: view_def)
  show "core 0 d'" using c2(1) core_view [OF v, of 0] by simp
  show "bf_rounds d' = bf_rounds d" "bf_closed d' = bf_closed d" using f c1 c2 by simp_all
  show "t_samples d' = t_samples d" using c1 c2 by (simp add: d' d4_def d3_def)
  have keep: "bf_failing d' = bf_failing d3" "bf_due d' = bf_due d3"
    by (simp_all add: d' d4_def invalidate_read_caches_def)
  show "\<not> bf_failing d'"
    using c2(5) by (simp add: keep d3_def arm_oldest_def arm_def disarm_def split: option.splits)
  show "\<not> t_is_zero (bf_due d')" if "0 < bf_rows d'" and "\<not> bf_closed d'"
    using that f arm_oldest_due [OF c2(1) _ assms(3), of True] by (simp add: keep d3_def)
qed

lemma save_settle_failed:
  assumes "save_settle reason every now rs ds n (Some e) d = (r, d')" and "core n d"
    and "filled rs" and "stamped ds" and "n = held_rows rs ds" and "0 < n" and "0 \<le> every" and "sane now"
  shows "core 0 d'" and "bf_closed d' = bf_closed d" and "t_samples d' = t_samples d"
    and "suffix (queued (bf_rounds d')) (queued rs @ queued (bf_rounds d))"
    and "\<not> bf_closed d \<Longrightarrow> 0 < bf_rows d' \<and> \<not> t_is_zero (bf_due d')"
proof -
  obtain k d1 where pb: "put_back rs ds n d = (k, d1)" by (cases "put_back rs ds n d")
  note sp = put_back_spec [OF pb assms(2-6)]
  have nz: "\<not> t_is_zero (t_add now save_retry_every)"
    by (rule sane_not_zero [OF assms(8)]) (simp add: save_retry_every_def)
  define brief where "brief = for_reader reason"
  define a where "a = reader_gave_up now (say_drop k d1)"
  define a2 where "a2 = (if \<not> bf_closed a \<and> t_is_zero (bf_due a) then arm_oldest every False a else a)"
  define b where "b = (say_drop k d1)\<lparr>bf_quiet := t_add now save_retry_every, bf_failing := True,
                      bf_missed := bf_missed (say_drop k d1) \<or> brief\<rparr>"
  define b2 where "b2 = (if \<not> bf_closed b then arm (bf_quiet b) True b else b)"
  have va: "view a2 = view d1" and vb: "view b2 = view d1"
    by (simp_all add: a2_def a_def b2_def b_def view_def arm_oldest_def arm_def disarm_def
        reader_gave_up_def say_drop_def split: option.splits)
  have ca: "core 0 a" using sp(1) by (simp add: a_def)
  have fa: "bf_closed a = bf_closed d1" "bf_rows a = bf_rows d1"
    by (simp_all add: a_def reader_gave_up_def say_drop_def)
  have da: "\<not> bf_closed d \<longrightarrow> \<not> t_is_zero (bf_due a2)"
  proof (cases "bf_closed d")
    case False
    then have "0 < bf_rows a" using sp(7) fa by simp
    then show ?thesis using arm_oldest_due [OF ca _ assms(7), of False] fa sp(3) by (auto simp: a2_def)
  qed simp
  have db: "\<not> bf_closed d \<longrightarrow> \<not> t_is_zero (bf_due b2)"
    using nz sp(3) by (auto simp: b2_def b_def arm_def disarm_def say_drop_def)
  have ts: "t_samples a2 = t_samples d1" "t_samples b2 = t_samples d1"
    by (simp_all add: a2_def a_def b2_def b_def)
  have "\<exists>g. d' = note_dropped k (on_reg g a2) \<or> d' = note_dropped k (on_reg g b2)"
    using assms(1) by (auto simp: save_settle_def pb Let_def a_def a2_def b_def b2_def brief_def
        split: if_splits)
  then obtain g where d': "d' = note_dropped k (on_reg g a2) \<or> d' = note_dropped k (on_reg g b2)" by blast
  have v: "view d' = view d1" using d' va vb by auto
  then have f: "bf_rounds d' = bf_rounds d1" "bf_closed d' = bf_closed d1" "bf_rows d' = bf_rows d1"
    by (simp_all add: view_def)
  show "core 0 d'" using sp(1) core_view [OF v, of 0] by simp
  show "bf_closed d' = bf_closed d" "t_samples d' = t_samples d"
    "suffix (queued (bf_rounds d')) (queued rs @ queued (bf_rounds d))"
    using f sp ts d' by auto
  show "0 < bf_rows d' \<and> \<not> t_is_zero (bf_due d')" if "\<not> bf_closed d"
  proof -
    have "bf_due (note_dropped k (on_reg g x)) = bf_due x" for x
      by (simp add: note_dropped_def)
    then have "bf_due d' = bf_due a2 \<or> bf_due d' = bf_due b2" using d' by metis
    then show ?thesis using that da db sp(7) f by auto
  qed
qed

section \<open>Every interleaving\<close>

definition sb_ok :: "bstore \<Rightarrow> sys \<Rightarrow> bool" where
  "sb_ok d0 s \<longleftrightarrow> counts_ok s \<and> never_stranded s \<and> failing_holds s \<and> in_order d0 s"

lemma in_order_step:
  assumes "in_order d0 s" and "t_samples (sy_db s') = t_samples (sy_db s) @ new"
    and "sy_in s' = sy_in s @ its"
    and "subseq q (queued (fly_rounds s) @ queued (bf_rounds (sy_db s)))"
    and "new @ queued (fly_rounds s') @ queued (bf_rounds (sy_db s')) = q @ concat (map item_samples its)"
  shows "in_order d0 s'"
proof -
  obtain old where old: "t_samples (sy_db s) = t_samples d0 @ old"
    "subseq (old @ queued (fly_rounds s) @ queued (bf_rounds (sy_db s)))
       (concat (map item_samples (sy_in s)))"
    using assms(1) by (auto simp: in_order_def)
  have "subseq (old @ q) (old @ queued (fly_rounds s) @ queued (bf_rounds (sy_db s)))"
    by (rule list_emb_append_mono [OF subseq_order.order_refl assms(4)])
  then have "subseq (old @ q) (concat (map item_samples (sy_in s)))"
    using old(2) by (rule subseq_order.trans)
  then have "subseq ((old @ q) @ concat (map item_samples its))
      (concat (map item_samples (sy_in s)) @ concat (map item_samples its))"
    by (rule list_emb_append_mono) simp
  with assms(2,3,5) old(1) show ?thesis
    by (auto simp: in_order_def)
qed

lemma sb_ok_start:
  assumes "fresh_buffer d0"
  shows "sb_ok d0 \<lparr>sy_db = d0, sy_fly = None, sy_owed = 0, sy_in = []\<rparr>"
  using assms by (simp add: sb_ok_def fresh_buffer_def counts_ok_def core_def fly_rows_def fly_rounds_def
      never_stranded_def failing_holds_def in_order_def max_held_rows_def)

lemma sb_ok_put:
  assumes "sb_ok d0 s" and "enabled (Put it every now full) s"
  shows "sb_ok d0 (apply_move (Put it every now full) s)"
proof -
  define d' where "d' = hold_put it every now full (sy_db s)"
  define ow where "ow = sy_owed s + (if every = 0 then 1 else 0)"
  have ok: "counts_ok s" "never_stranded s" "failing_holds s" "in_order d0 s"
    using assms(1) by (simp_all add: sb_ok_def)
  have en: "good_item it" "sane now" "0 \<le> every" "\<not> bf_closed (sy_db s)"
    "bf_rows (sy_db s) + item_rows it > max_held_rows \<longrightarrow> full"
    using assms(2) by auto
  have "core (fly_rows s) (sy_db s)" using ok(1) by (simp add: counts_ok_def)
  note sp = hold_put_spec [OF this en, folded d'_def]
  let ?s = "s\<lparr>sy_db := d', sy_in := sy_in s @ [it], sy_owed := ow\<rparr>"
  have fr: "fly_rows ?s = fly_rows s" "fly_rounds ?s = fly_rounds s"
    by (simp_all add: fly_rows_def fly_rounds_def)
  have "counts_ok ?s" using ok(1) sp(1-3) by (auto simp: counts_ok_def fr split: option.splits)
  moreover have "never_stranded ?s"
  proof (cases "t_is_zero (bf_due d') \<and> every \<noteq> 0")
    case True
    then have "bf_failing (sy_db s)" "bf_due d' = bf_due (sy_db s)" using sp(8) by auto
    with True ok(2,3) en(4) show ?thesis by (auto simp: never_stranded_def failing_holds_def ow_def)
  qed (auto simp: never_stranded_def ow_def)
  moreover have "failing_holds ?s" using sp(7) by (simp add: failing_holds_def)
  moreover have "in_order d0 ?s"
  proof -
    obtain q where q: "suffix q (queued (bf_rounds (sy_db s)))" "queued (bf_rounds d') = q @ item_samples it"
      using sp(6) by blast
    have "subseq (queued (fly_rounds s) @ q) (queued (fly_rounds s) @ queued (bf_rounds (sy_db s)))"
      by (rule list_emb_append_mono [OF subseq_order.order_refl suffix_imp_subseq [OF q(1)]])
    from in_order_step [OF ok(4) _ _ this, of ?s "[]" "[it]"] show ?thesis
      using q(2) fr sp(4) by simp
  qed
  ultimately show ?thesis by (simp add: sb_ok_def d'_def ow_def)
qed

lemma sb_ok_begin:
  assumes "sb_ok d0 s" and "enabled (Begin reason now got owed) s"
  shows "sb_ok d0 (apply_move (Begin reason now got owed) s)"
proof -
  define ow where "ow = sy_owed s - (if owed then 1 else 0)"
  have ok: "counts_ok s" "never_stranded s" "failing_holds s" "in_order d0 s"
    using assms(1) by (simp_all add: sb_ok_def)
  have en: "sane now" "got \<longrightarrow> \<not> bf_gate (sy_db s)" "owed \<longrightarrow> reason = SaveAge \<and> 0 < sy_owed s"
    using assms(2) by auto
  have core: "core (fly_rows s) (sy_db s)" using ok(1) by (simp add: counts_ok_def)
  obtain st d' where run: "save_begin reason now got (sy_db s) = (st, d')" by (metis surj_pair)
  show ?thesis
  proof (cases st)
    case (Done r)
    have z: "bf_waiting (sy_db s) = 0 \<longrightarrow> bf_rows (sy_db s) = 0 \<or> bf_closed (sy_db s)"
    proof -
      have "0 \<le> fly_rows s" using ok(1) by (auto simp: counts_ok_def fly_rows_def split: option.splits)
      moreover have "0 \<le> bf_rows (sy_db s)" using core by (simp add: core_def)
      moreover have "bf_written_off (sy_db s) \<longrightarrow> bf_closed (sy_db s)"
        "\<not> bf_written_off (sy_db s) \<longrightarrow> bf_waiting (sy_db s) = bf_rows (sy_db s) + fly_rows s"
        using core by (simp_all add: core_def)
      ultimately show ?thesis by linarith
    qed
    note sp = save_begin_done [OF run [unfolded Done] core en(1,2) z]
    let ?s = "s\<lparr>sy_db := d', sy_owed := ow\<rparr>"
    have v: "bf_rows d' = bf_rows (sy_db s)" "bf_closed d' = bf_closed (sy_db s)"
      "bf_gate d' = bf_gate (sy_db s)" "bf_rounds d' = bf_rounds (sy_db s)"
      using sp(1) by (simp_all add: view_def)
    have fr: "fly_rows ?s = fly_rows s" "fly_rounds ?s = fly_rounds s"
      by (simp_all add: fly_rows_def fly_rounds_def)
    have "counts_ok ?s"
      using ok(1) core_view [OF sp(1), of "fly_rows s"] v
      by (auto simp: counts_ok_def fr split: option.splits)
    moreover have "never_stranded ?s"
      using ok(2) sp(4,5) v en(3) by (cases owed) (auto simp: never_stranded_def ow_def)
    moreover have "failing_holds ?s" using ok(3) sp(2) v by (simp add: failing_holds_def)
    moreover have "in_order d0 ?s"
      using ok(4) sp(3) v by (simp add: in_order_def fr)
    ultimately show ?thesis using run Done by (simp add: sb_ok_def ow_def)
  next
    case (Took rs ds n)
    note tk = save_begin_took [OF run [unfolded Took]]
    have nofly: "sy_fly s = None"
      using ok(1) tk(5) en(2) by (auto simp: counts_ok_def split: option.splits)
    have c: "filled rs" "stamped ds" "n = held_rows rs ds" "0 < n"
      "bf_waiting (sy_db s) = (if bf_written_off (sy_db s) then 0 else n)"
      "\<not> bf_written_off (sy_db s)"
      using core tk(1-4) nofly held_rows_nonneg [of rs ds]
      by (auto simp: core_def fly_rows_def order_le_less)
    let ?s = "s\<lparr>sy_db := d', sy_fly := Some (reason, rs, ds, n), sy_owed := ow\<rparr>"
    have fr: "fly_rows ?s = n" "fly_rounds ?s = rs" by (simp_all add: fly_rows_def fly_rounds_def)
    have "counts_ok ?s" using c tk(6) by (simp add: counts_ok_def fr core_def max_held_rows_def)
    moreover have "never_stranded ?s" "failing_holds ?s"
      by (simp_all add: never_stranded_def failing_holds_def)
    moreover have "in_order d0 ?s"
      using ok(4) tk nofly by (simp add: in_order_def fr fly_rounds_def)
    ultimately show ?thesis using run Took by (simp add: sb_ok_def ow_def)
  qed
qed

lemma sb_ok_settle:
  assumes "sb_ok d0 s" and "enabled (Settle every now) s"
  shows "sb_ok d0 (apply_move (Settle every now) s)"
proof -
  have ok: "counts_ok s" "in_order d0 s" using assms(1) by (simp_all add: sb_ok_def)
  obtain reason rs ds n where fly: "sy_fly s = Some (reason, rs, ds, n)"
    using assms(2) by auto
  have en: "sane now" "0 \<le> every" using assms(2) by auto
  have c: "filled rs" "stamped ds" "n = held_rows rs ds" "0 < n" "core n (sy_db s)"
    using ok(1) by (auto simp: counts_ok_def fly fly_rows_def)
  obtain err d1 where run: "run_save rs ds (for_reader reason) (sy_db s) = (err, d1)"
    by (metis surj_pair)
  have d1: "untouched (sy_db s) d1" "t_samples d1 = t_samples (sy_db s) @ (if err = None then queued rs else [])"
    using run_save_frame [of "sy_db s" rs ds "for_reader reason"] by (simp_all add: run)
  have v: "view d1 = view (sy_db s)" using d1(1) by (simp add: untouched_def)
  then have core: "core n d1" using c(5) core_view [OF v, of n] by simp
  have rd: "bf_rounds d1 = bf_rounds (sy_db s)" using v by (simp add: view_def)
  obtain r d2 where settle: "save_settle reason every now rs ds n err d1 = (r, d2)" by (metis surj_pair)
  let ?s = "s\<lparr>sy_db := leave_gate d2, sy_fly := None\<rparr>"
  have fr: "fly_rows ?s = 0" "fly_rounds ?s = []" "fly_rounds s = rs"
    by (simp_all add: fly_rows_def fly_rounds_def fly)
  have lg: "bf_gate (leave_gate d2) = False" "bf_rows (leave_gate d2) = bf_rows d2"
    "bf_closed (leave_gate d2) = bf_closed d2" "bf_due (leave_gate d2) = bf_due d2"
    "bf_failing (leave_gate d2) = bf_failing d2" "bf_rounds (leave_gate d2) = bf_rounds d2"
    by (simp_all add: leave_gate_def)
  have "sb_ok d0 ?s"
  proof (cases err)
    case None
    note sp = save_settle_ok [OF settle [unfolded None] core en(2)]
    have "counts_ok ?s" using sp(1) by (simp add: counts_ok_def fr lg)
    moreover have "never_stranded ?s" using sp(6) by (auto simp: never_stranded_def lg)
    moreover have "failing_holds ?s" using sp(4) by (simp add: failing_holds_def lg)
    moreover have "in_order d0 ?s"
      by (rule in_order_step [OF ok(2), of ?s "queued rs" "[]" "queued rs @ queued (bf_rounds (sy_db s))"])
        (use sp d1 None rd in \<open>simp_all add: fr lg\<close>)
    ultimately show ?thesis by (simp add: sb_ok_def)
  next
    case (Some e)
    note sp = save_settle_failed [OF settle [unfolded Some] core c(1-4) en(2,1)]
    have "counts_ok ?s" using sp(1) by (simp add: counts_ok_def fr lg)
    moreover have "never_stranded ?s" "failing_holds ?s"
      using sp(2,5) by (auto simp: never_stranded_def failing_holds_def lg)
    moreover have "in_order d0 ?s"
      by (rule in_order_step [OF ok(2), of ?s "[]" "[]" "queued (bf_rounds d2)"])
        (use sp d1 Some rd in \<open>auto simp: fr lg\<close>)
    ultimately show ?thesis by (simp add: sb_ok_def)
  qed
  then show ?thesis using fly run settle by simp
qed

lemma sb_ok_rest:
  assumes "sb_ok d0 s"
  shows "enabled (Fire due) s \<Longrightarrow> sb_ok d0 (apply_move (Fire due) s)"
    and "sb_ok d0 (apply_move Shut s)"
    and "enabled Lose s \<Longrightarrow> sb_ok d0 (apply_move Lose s)"
proof -
  have ok: "counts_ok s" "never_stranded s" "failing_holds s" "in_order d0 s"
    using assms by (simp_all add: sb_ok_def)
  show "sb_ok d0 (apply_move (Fire due) s)" if "enabled (Fire due) s"
  proof (cases "t_diff (bf_due (sy_db s)) due = 0")
    case True
    let ?d = "(sy_db s)\<lparr>bf_due := zero_time\<rparr>"
    let ?s = "s\<lparr>sy_db := ?d, sy_owed := Suc (sy_owed s)\<rparr>"
    have fr: "fly_rows ?s = fly_rows s" "fly_rounds ?s = fly_rounds s"
      by (simp_all add: fly_rows_def fly_rounds_def)
    have "sb_ok d0 ?s"
      using ok by (auto simp: sb_ok_def counts_ok_def never_stranded_def failing_holds_def in_order_def fr
          split: option.splits)
    then show ?thesis using True by (simp add: timer_fires_def)
  next
    case False
    then show ?thesis using assms by (simp add: timer_fires_def)
  qed
  show "sb_ok d0 (apply_move Shut s)"
  proof -
    let ?s = "s\<lparr>sy_db := close_buffer (sy_db s)\<rparr>"
    have fr: "fly_rows ?s = fly_rows s" "fly_rounds ?s = fly_rounds s"
      by (simp_all add: fly_rows_def fly_rounds_def)
    have "core x (close_buffer d)" if "core x d" for x d
      using that by (auto simp: close_buffer_def disarm_def core_def)
    then have "sb_ok d0 ?s"
      using ok by (auto simp: sb_ok_def counts_ok_def never_stranded_def failing_holds_def in_order_def fr
          close_buffer_def disarm_def split: option.splits)
    then show ?thesis by simp
  qed
  show "sb_ok d0 (apply_move Lose s)" if "enabled Lose s"
  proof -
    obtain k d1 where dr: "drop_oldest 0 (sy_db s) = (k, d1)" by (metis surj_pair)
    have c: "core (fly_rows s) (sy_db s)" "bf_closed (sy_db s)"
      using ok(1) that by (simp_all add: counts_ok_def)
    then have pre: "filled (bf_rounds (sy_db s))"
      "bf_rows (sy_db s) = held_rows (bf_rounds (sy_db s)) (bf_dns (sy_db s))" "(0::int) \<le> 0"
      "stamped (bf_dns (sy_db s))" by (auto simp: core_def)
    note sp = drop_oldest_spec [OF dr pre]
    have empty: "bf_rows d1 = 0" "held_rows (bf_rounds d1) (bf_dns d1) = 0"
      using sp(4,5) held_rows_nonneg [of "bf_rounds d1" "bf_dns d1"] by simp_all
    have e: "bf_rounds d1 = []" "bf_dns d1 = []" using held_rows_zero [OF sp(2)] empty(2) by auto
    define d2 where "d2 = book_lost (sy_db s)"
    have d2: "bf_rounds d2 = []" "bf_dns d2 = []" "bf_rows d2 = 0" "bf_gate d2 = bf_gate (sy_db s)"
      "bf_closed d2" "t_samples d2 = t_samples (sy_db s)"
      using sp empty e c(2) by (simp_all add: d2_def book_lost_def dr Let_def)
    have w: "bf_waiting d2 = (if bf_written_off d2 then 0 else fly_rows s)"
    proof (cases "bf_waiting d1 > 0")
      case True
      then show ?thesis by (simp add: d2_def book_lost_def dr Let_def)
    next
      case False
      have "d2 = d1 \<or> (\<exists>f. d2 = on_reg f d1)" using False by (auto simp: d2_def book_lost_def dr Let_def)
      then have "bf_waiting d2 = bf_waiting d1" "bf_written_off d2 = bf_written_off (sy_db s)"
        using sp(11) by auto
      moreover have "bf_waiting d1 = (if bf_written_off (sy_db s) then 0 else fly_rows s)"
        using sp(6,8) empty c(1) False by (auto simp: core_def)
      ultimately show ?thesis by simp
    qed
    let ?s = "s\<lparr>sy_db := d2\<rparr>"
    have fr: "fly_rows ?s = fly_rows s" "fly_rounds ?s = fly_rounds s"
      by (simp_all add: fly_rows_def fly_rounds_def)
    have "core (fly_rows s) d2" using d2 w by (simp add: core_def max_held_rows_def)
    then have "counts_ok ?s" using ok(1) d2(4) by (auto simp: counts_ok_def fr split: option.splits)
    moreover have "never_stranded ?s" "failing_holds ?s"
      using d2 by (simp_all add: never_stranded_def failing_holds_def)
    moreover have "in_order d0 ?s"
    proof -
      have "subseq (queued (fly_rounds s)) (queued (fly_rounds s) @ queued (bf_rounds (sy_db s)))"
        using list_emb_append2 [of "(=)"] by (metis list_emb_append_mono append_Nil2 list_emb_Nil subseq_order.order_refl)
      from in_order_step [OF ok(4) _ _ this, of ?s "[]" "[]"] show ?thesis
        using d2 fr by simp
    qed
    ultimately show ?thesis by (simp add: sb_ok_def d2_def)
  qed
qed

text \<open>The invariant of every interleaving.\<close>

lemma sb_reach_ok:
  assumes "sb_reach d0 s" and "fresh_buffer d0"
  shows "sb_ok d0 s"
  using assms(1)
proof (induction rule: sb_reach.induct)
  case start
  show ?case by (rule sb_ok_start [OF assms(2)])
next
  case (step s m)
  then show ?case
    using sb_ok_put sb_ok_begin sb_ok_settle sb_ok_rest by (cases m) (simp_all only:)
qed

section \<open>The entry points as sequences of steps\<close>

text \<open>
  What a call does, as the list of the steps above that it makes: a save asks for the gate and, when
  it took rows, settles; a hold makes room if it must, puts its row and, at interval 0, makes the
  save it owes; a timer that fires makes the save it owes; the shutdown closes, saves and gives up on
  the rest.  \<open>then_moves\<close> runs one part after the other, the second on the state the first left.
\<close>

definition call_env :: "save_env \<Rightarrow> bool" where
  "call_env en \<longleftrightarrow> sane (en_now en) \<and> sane (en_then en)"

definition save_moves :: "save_reason \<Rightarrow> bool \<Rightarrow> save_env \<Rightarrow> sys \<Rightarrow> move list" where
  "save_moves reason owed en s =
     (let b = Begin reason (en_now en) (en_gate en) owed in
      if sy_fly (apply_move b s) = None then [b] else [b, Settle (save_every (en_every en)) (en_then en)])"

definition then_moves :: "(sys \<Rightarrow> move list) \<Rightarrow> (sys \<Rightarrow> move list) \<Rightarrow> sys \<Rightarrow> move list" where
  "then_moves f g s = f s @ g (fold apply_move (f s) s)"

definition no_moves :: "sys \<Rightarrow> move list" where
  "no_moves s = []"

definition hold_moves :: "item \<Rightarrow> save_env \<Rightarrow> sys \<Rightarrow> move list" where
  "hold_moves it en s =
     (let d = sy_db s; every = save_every (en_every en); full = (bf_rows d + item_rows it > max_held_rows) in
      if bf_closed d then []
      else then_moves
        (if full \<and> (\<not> bf_failing d \<or> \<not> t_before (en_now en) (bf_quiet d))
         then save_moves SaveCap False en else no_moves)
        (then_moves (\<lambda>_. [Put it every (en_now en) full])
          (if every = 0 then save_moves SaveAge True en else no_moves)) s)"

definition timer_moves :: "gtime \<Rightarrow> save_env \<Rightarrow> sys \<Rightarrow> move list" where
  "timer_moves due en s =
     then_moves (\<lambda>_. [Fire due]) (if fst (timer_fires due (sy_db s)) then save_moves SaveAge True en else no_moves) s"

definition final_moves :: "save_env \<Rightarrow> sys \<Rightarrow> move list" where
  "final_moves en = then_moves (\<lambda>_. [Shut]) (then_moves (save_moves SaveStop False en) (\<lambda>_. [Lose]))"

fun playable :: "move list \<Rightarrow> sys \<Rightarrow> bool" where
  "playable [] s \<longleftrightarrow> True"
| "playable (m # ms) s \<longleftrightarrow> enabled m s \<and> playable ms (apply_move m s)"

text \<open>The moves may be made, and they change exactly the store and what was accepted: no save is
  left running and none is left owed.\<close>

definition performs :: "sys \<Rightarrow> move list \<Rightarrow> item list \<Rightarrow> bstore \<Rightarrow> bool" where
  "performs s ms its d \<longleftrightarrow>
     playable ms s \<and> fold apply_move ms s = s\<lparr>sy_db := d, sy_in := sy_in s @ its\<rparr>"

lemma playable_append: "playable (ms @ ns) s \<longleftrightarrow> playable ms s \<and> playable ns (fold apply_move ms s)"
  by (induction ms arbitrary: s) simp_all

lemma playable_reach: "sb_reach d0 s \<Longrightarrow> playable ms s \<Longrightarrow> sb_reach d0 (fold apply_move ms s)"
  by (induction ms arbitrary: s) (auto intro: sb_reach.step)

lemma save_every_nonneg: "0 \<le> save_every fn"
  by (simp add: save_every_def max_save_every_def split: option.split)

lemma closed_frame [simp]:
  "bf_closed (disarm d) = bf_closed d" "bf_closed (arm due r d) = bf_closed d"
  "bf_closed (arm_oldest every r d) = bf_closed d" "bf_closed (note_dropped n d) = bf_closed d"
  "bf_closed (say_drop n d) = bf_closed d" "bf_closed (reader_gave_up now d) = bf_closed d"
  "bf_closed (leave_gate d) = bf_closed d" "bf_closed (invalidate_read_caches d) = bf_closed d"
  "bf_closed (snd (drop_oldest keep d)) = bf_closed d" "bf_closed (snd (put_back rs ds n d)) = bf_closed d"
  by (simp_all add: disarm_def arm_def arm_oldest_def note_dropped_def say_drop_def reader_gave_up_def
      leave_gate_def invalidate_read_caches_def drop_oldest_def put_back_def Let_def split: option.split prod.split)

lemma save_settle_closed [simp]:
  "bf_closed (snd (save_settle reason every now rs ds n err d)) = bf_closed d"
  using closed_frame(10) [of rs ds n d]
  by (cases err; cases "put_back rs ds n d") (simp_all add: save_settle_def Let_def del: closed_frame(10))

lemma save_buffered_closed_iff:
  fixes d :: bstore
  shows "bf_closed (snd (save_buffered reason en d)) = bf_closed d"
proof -
  obtain st d1 where run: "save_begin reason (en_now en) (en_gate en) d = (st, d1)"
    by (metis surj_pair)
  have 1: "bf_closed d1 = bf_closed d"
    using run by (auto simp: save_begin_def enter_gate_def Let_def split: if_splits)
  show ?thesis
  proof (cases st)
    case (Took rs ds n)
    have "bf_closed (snd (run_save rs ds (for_reader reason) d1)) = bf_closed d"
      using run_save_frame [of d1 rs ds "for_reader reason"] 1 by (simp add: untouched_def view_def)
    then show ?thesis
      using save_settle_closed by (simp add: save_buffered_def run Took case_prod_beta Let_def)
  qed (simp add: save_buffered_def run 1)
qed

lemmas save_buffered_closed = save_buffered_closed_iff [THEN iffD2]

lemma save_performs:
  assumes "\<not> bf_gate (sy_db s)" and "sy_fly s = None" and "call_env en"
    and "owed \<longrightarrow> reason = SaveAge \<and> 0 < sy_owed s"
  shows "playable (save_moves reason owed en s) s \<and>
    fold apply_move (save_moves reason owed en s) s =
      s\<lparr>sy_db := snd (save_buffered reason en (sy_db s)), sy_owed := sy_owed s - (if owed then 1 else 0)\<rparr>"
proof -
  obtain st d1 where run: "save_begin reason (en_now en) (en_gate en) (sy_db s) = (st, d1)"
    by (metis surj_pair)
  show ?thesis
  proof (cases st)
    case (Done r)
    then show ?thesis using run assms by (simp add: save_moves_def save_buffered_def call_env_def)
  next
    case (Took rs ds n)
    obtain err d2 where rs: "run_save rs ds (for_reader reason) d1 = (err, d2)" by (metis surj_pair)
    obtain r d3 where st: "save_settle reason (save_every (en_every en)) (en_then en) rs ds n err d2 = (r, d3)"
      by (metis surj_pair)
    show ?thesis
      using run Took rs st assms save_every_nonneg by (simp add: save_moves_def save_buffered_def call_env_def)
  qed
qed

lemma gate_free:
  assumes "sb_reach d0 s" and "fresh_buffer d0" and "sy_fly s = None"
  shows "\<not> bf_gate (sy_db s)"
  using sb_reach_ok [OF assms(1,2)] assms(3) by (simp add: sb_ok_def counts_ok_def)

lemma save_call:
  assumes "sb_reach d0 s" and "fresh_buffer d0" and "sy_fly s = None" and "call_env en"
  shows "performs s (save_moves reason False en s) [] (snd (save_buffered reason en (sy_db s)))"
  using save_performs [OF gate_free [OF assms(1-3)] assms(3,4), of False reason]
  by (simp add: performs_def)

lemma owed_call:
  assumes "sb_reach d0 s" and "fresh_buffer d0" and "sy_fly s = None" and "call_env en" and "0 < sy_owed s"
  shows "playable (save_moves SaveAge True en s) s"
    "fold apply_move (save_moves SaveAge True en s) s =
      s\<lparr>sy_db := snd (save_buffered SaveAge en (sy_db s)), sy_owed := sy_owed s - 1\<rparr>"
  using save_performs [OF gate_free [OF assms(1-3)] assms(3,4), of True SaveAge] assms(5) by simp_all

lemma put_call:
  assumes "sb_reach d0 s" and "fresh_buffer d0" and "sy_fly s = None" and "call_env en" and "good_item it"
    and "\<not> bf_closed (sy_db s)" and "bf_rows (sy_db s) + item_rows it > max_held_rows \<longrightarrow> full"
    and "every = save_every (en_every en)"
  shows "performs s (then_moves (\<lambda>_. [Put it every (en_now en) full])
      (if every = 0 then save_moves SaveAge True en else no_moves) s) [it]
    (let d = hold_put it every (en_now en) full (sy_db s)
     in if every = 0 then snd (save_buffered SaveAge en d) else d)"
proof -
  define m where "m = Put it every (en_now en) full"
  have en: "enabled m s" using assms save_every_nonneg by (simp add: m_def call_env_def)
  have r: "sb_reach d0 (apply_move m s)" using assms(1) en by (rule sb_reach.step)
  have f: "sy_fly (apply_move m s) = None" using assms(3) by (simp add: m_def)
  show ?thesis
  proof (cases "every = 0")
    case True
    then have "0 < sy_owed (apply_move m s)" by (simp add: m_def)
    note c = owed_call [OF r assms(2) f assms(4) this]
    show ?thesis
      using c en True by (simp add: performs_def then_moves_def playable_append m_def)
  next
    case False
    then show ?thesis using en by (simp add: performs_def then_moves_def no_moves_def m_def)
  qed
qed

lemma performs_then:
  assumes "performs s (f s) xs d" and "performs (s\<lparr>sy_db := d, sy_in := sy_in s @ xs\<rparr>) (g (s\<lparr>sy_db := d, sy_in := sy_in s @ xs\<rparr>)) ys d'"
  shows "performs s (then_moves f g s) (xs @ ys) d'"
  using assms by (simp add: performs_def then_moves_def playable_append)

lemma performs_reach:
  assumes "performs s ms its d" and "sb_reach d0 s"
  shows "sb_reach d0 (s\<lparr>sy_db := d, sy_in := sy_in s @ its\<rparr>)"
  using playable_reach [OF assms(2), of ms] assms(1) by (simp add: performs_def)

lemma hold_call:
  assumes "sb_reach d0 s" and "fresh_buffer d0" and "sy_fly s = None" and "call_env en" and "good_item it"
  shows "performs s (hold_moves it en s) (if bf_closed (sy_db s) then [] else [it]) (snd (hold it en (sy_db s)))"
proof (cases "bf_closed (sy_db s)")
  case True
  then show ?thesis by (simp add: performs_def hold_moves_def hold_def Let_def)
next
  case False
  define full where "full \<longleftrightarrow> bf_rows (sy_db s) + item_rows it > max_held_rows"
  define room where "room \<longleftrightarrow> full \<and> (\<not> bf_failing (sy_db s) \<or> \<not> t_before (en_now en) (bf_quiet (sy_db s)))"
  define every where "every = save_every (en_every en)"
  define d1 where "d1 = (if room then snd (save_buffered SaveCap en (sy_db s)) else sy_db s)"
  define s1 where "s1 = s\<lparr>sy_db := d1, sy_in := sy_in s @ []\<rparr>"
  let ?pre = "if room then save_moves SaveCap False en else no_moves"
  let ?put = "then_moves (\<lambda>_. [Put it every (en_now en) full]) (if every = 0 then save_moves SaveAge True en else no_moves)"
  have 1: "performs s (?pre s) [] d1"
    using save_call [OF assms(1-4), of SaveCap] by (auto simp: d1_def performs_def no_moves_def)
  have r: "sb_reach d0 s1" unfolding s1_def by (rule performs_reach [OF 1 assms(1)])
  have open1: "\<not> bf_closed d1"
    using False by (simp add: d1_def save_buffered_closed_iff)
  have "bf_rows d1 + item_rows it > max_held_rows \<longrightarrow> full" by (auto simp: d1_def room_def full_def)
  then have 2: "performs s1 (?put s1) [it] (let d = hold_put it every (en_now en) full d1
     in if every = 0 then snd (save_buffered SaveAge en d) else d)"
    using put_call [OF r assms(2) _ assms(4,5), of full every] assms(3) open1 by (simp add: s1_def every_def)
  have eq: "snd (hold it en (sy_db s)) = (let d = hold_put it every (en_now en) full d1
     in if every = 0 then snd (save_buffered SaveAge en d) else d)"
    using False open1 unfolding hold_def Let_def d1_def full_def every_def room_def by (simp split: prod.split)
  have "hold_moves it en s = then_moves ?pre ?put s"
    using False by (simp add: hold_moves_def full_def room_def every_def Let_def)
  then show ?thesis
    using performs_then [of s ?pre "[]" d1 ?put "[it]"] 1 2 False by (simp add: eq s1_def)
qed

lemma timer_call:
  assumes "sb_reach d0 s" and "fresh_buffer d0" and "sy_fly s = None" and "call_env en"
    and "\<not> t_is_zero due"
  shows "performs s (timer_moves due en s) [] (timed_save due en (sy_db s))"
proof -
  obtain mine d1 where f: "timer_fires due (sy_db s) = (mine, d1)" by (metis surj_pair)
  have r: "sb_reach d0 (apply_move (Fire due) s)" by (rule sb_reach.step [OF assms(1)]) (simp add: assms(5))
  have fl: "sy_fly (apply_move (Fire due) s) = None" using f assms(3) by simp
  show ?thesis
  proof (cases mine)
    case True
    then have "0 < sy_owed (apply_move (Fire due) s)" using f by simp
    from owed_call [OF r assms(2) fl assms(4) this] show ?thesis
      using f True assms(5) by (simp add: performs_def timer_moves_def then_moves_def timed_save_def playable_append)
  next
    case False
    then show ?thesis
      using f assms(5) by (simp add: performs_def timer_moves_def then_moves_def no_moves_def timed_save_def)
  qed
qed

lemma final_call:
  assumes "sb_reach d0 s" and "fresh_buffer d0" and "sy_fly s = None" and "call_env en"
  shows "performs s (final_moves en s) [] (final_save en (sy_db s))"
proof -
  define s1 where "s1 = apply_move Shut s"
  have r: "sb_reach d0 s1" unfolding s1_def by (rule sb_reach.step [OF assms(1)]) simp
  have s1: "sy_fly s1 = None" "sy_db s1 = close_buffer (sy_db s)" using assms(3) by (simp_all add: s1_def)
  note sv = save_call [OF r assms(2) s1(1) assms(4), of SaveStop]
  have cl: "bf_closed (snd (save_buffered SaveStop en (sy_db s1)))"
    unfolding s1(2) by (rule save_buffered_closed) (simp add: close_buffer_def disarm_def)
  have "performs s1 (then_moves (save_moves SaveStop False en) (\<lambda>_. [Lose]) s1) []
      (book_lost (snd (save_buffered SaveStop en (sy_db s1))))"
    using performs_then [of s1 "save_moves SaveStop False en" "[]", OF sv, of "\<lambda>_. [Lose]" "[]"] cl by (simp add: performs_def)
  then show ?thesis
    by (simp add: performs_def final_moves_def then_moves_def [of "\<lambda>_. [Shut]"] final_save_def s1_def)
qed

end
