(* ===== verification/OutageList.thy ===== *)
theory OutageList
  imports GoTime
begin

text \<open>
  The list of the running monitor's own outages (\<open>monitorOutages\<close> in
  \<open>internal/store/store.go\<close>).  A close of dangling outages keeps away from everything at or
  after \<open>line\<close>; the promise is that the line stays at or before an outage of the monitor
  until both of that outage's events are on disk and the clock the close runs at has reached
  the 'up'.
\<close>

record outage =
  o_down :: int
  o_up :: int
  o_down_landed :: bool
  o_up_landed :: bool

record outages =
  ol_open :: "outage list"
  ol_floor :: int
  ol_closing :: bool
  ol_waiting :: int

definition max_monitor_outages :: nat where "max_monitor_outages = 64"

text \<open>\<open>math.MaxInt64\<close>\<close>

definition no_floor :: int where "no_floor = 9223372036854775807"

definition no_outages :: outages where
  "no_outages = \<lparr>ol_open = [], ol_floor = no_floor, ol_closing = False, ol_waiting = 0\<rparr>"

definition metrics_future_skew :: duration where "metrics_future_skew = 2 * minute"

definition current_horizon :: "int \<Rightarrow> int" where
  "current_horizon now = now + dur_secs metrics_future_skew"

section \<open>Operations\<close>

definition finished :: "int \<Rightarrow> outage \<Rightarrow> bool" where
  "finished reached o1 \<longleftrightarrow> o_down_landed o1 \<and> o_up_landed o1 \<and> o_up o1 \<le> reached"

definition ol_forget :: "int \<Rightarrow> outages \<Rightarrow> outages" where
  "ol_forget reached m = m\<lparr>ol_open := filter (\<lambda>o1. \<not> finished reached o1) (ol_open m)\<rparr>"

text \<open>A full list drops its oldest entry and keeps the line at or before it.\<close>

definition ol_room :: "outages \<Rightarrow> outages" where
  "ol_room m =
     (if length (ol_open m) \<ge> max_monitor_outages
      then m\<lparr>ol_floor := min (ol_floor m) (o_down (hd (ol_open m))), ol_open := tl (ol_open m)\<rparr>
      else m)"

definition ol_opened :: "int \<Rightarrow> int \<Rightarrow> outages \<Rightarrow> outages" where
  "ol_opened down now m =
     (if \<exists>o1 \<in> set (ol_open m). o_down o1 = down then m
      else let m = ol_room (if \<not> ol_closing m \<and> ol_waiting m = 0 then ol_forget now m else m)
           in m\<lparr>ol_open := ol_open m @
                [\<lparr>o_down = down, o_up = 0, o_down_landed = False, o_up_landed = False\<rparr>]\<rparr>)"

text \<open>The index loop of \<open>landed\<close>: the latest open outage that began at or before \<open>up\<close>; a later
  entry replaces an earlier one only when it began strictly later.\<close>

fun latest_from :: "int \<Rightarrow> nat \<Rightarrow> (nat \<times> int) option \<Rightarrow> outage list \<Rightarrow> (nat \<times> int) option" where
  "latest_from up i best [] = best"
| "latest_from up i best (o1 # os) =
     latest_from up (Suc i)
       (if \<not> o_up_landed o1 \<and> o_down o1 \<le> up \<and>
           (case best of None \<Rightarrow> True | Some (j, dn) \<Rightarrow> o_down o1 > dn)
        then Some (i, o_down o1) else best) os"

definition ol_landed :: "string \<Rightarrow> int \<Rightarrow> outages \<Rightarrow> outages" where
  "ol_landed ty sec m =
     (if ty = ''down''
      then m\<lparr>ol_open := map (\<lambda>o1. if o_down o1 = sec then o1\<lparr>o_down_landed := True\<rparr> else o1) (ol_open m)\<rparr>
      else (case latest_from sec 0 None (ol_open m) of
              None \<Rightarrow> m
            | Some (i, dn) \<Rightarrow>
                m\<lparr>ol_open := (ol_open m)[i := (ol_open m ! i)\<lparr>o_up := sec, o_up_landed := True\<rparr>]\<rparr>))"

definition ol_wait :: "outages \<Rightarrow> outages" where
  "ol_wait m = m\<lparr>ol_waiting := ol_waiting m + 1\<rparr>"

definition ol_begin :: "int \<Rightarrow> outages \<Rightarrow> outages" where
  "ol_begin now m = ol_forget (current_horizon now) (m\<lparr>ol_waiting := ol_waiting m - 1, ol_closing := True\<rparr>)"

definition ol_end :: "outages \<Rightarrow> outages" where
  "ol_end m = m\<lparr>ol_closing := False\<rparr>"

definition line :: "outages \<Rightarrow> int" where
  "line m = foldl (\<lambda>sec o1. min sec (o_down o1)) (ol_floor m) (ol_open m)"

section \<open>Histories\<close>

text \<open>The monitor's door and the closes call in any order.\<close>

datatype outage_op = Opened int int | Landed string int | Wait | BeginClose int | EndClose

fun ol_step :: "outage_op \<Rightarrow> outages \<Rightarrow> outages" where
  "ol_step (Opened down now) m = ol_opened down now m"
| "ol_step (Landed ty sec) m = ol_landed ty sec m"
| "ol_step Wait m = ol_wait m"
| "ol_step (BeginClose now) m = ol_begin now m"
| "ol_step EndClose m = ol_end m"

fun ol_run :: "outage_op list \<Rightarrow> outages \<Rightarrow> outages" where
  "ol_run [] m = m"
| "ol_run (op # ops) m = ol_run ops (ol_step op m)"

text \<open>The reading up to which a step forgets finished outages, if it does.\<close>

fun reached_by :: "outage_op \<Rightarrow> outages \<Rightarrow> int option" where
  "reached_by (Opened down now) m =
     (if (\<exists>o1 \<in> set (ol_open m). o_down o1 = down) \<or> ol_closing m \<or> ol_waiting m \<noteq> 0 then None else Some now)"
| "reached_by (BeginClose now) m = Some (current_horizon now)"
| "reached_by _ m = None"

definition retires :: "int \<Rightarrow> outage_op \<Rightarrow> outages \<Rightarrow> bool" where
  "retires down op m \<longleftrightarrow>
     (\<exists>r. reached_by op m = Some r \<and> (\<exists>o1 \<in> set (ol_open m). o_down o1 = down \<and> finished r o1))"

definition held_line :: "int \<Rightarrow> outages \<Rightarrow> bool" where
  "held_line down m \<longleftrightarrow> ol_floor m \<le> down \<or> (\<exists>o1 \<in> set (ol_open m). o_down o1 = down)"

lemma line_le:
  "foldl (\<lambda>sec o1. min sec (o_down o1)) f os \<le> x \<longleftrightarrow> f \<le> x \<or> (\<exists>o1 \<in> set os. o_down o1 \<le> x)"
  by (induction os arbitrary: f) auto

lemma line_le_iff: "line m \<le> x \<longleftrightarrow> ol_floor m \<le> x \<or> (\<exists>o1 \<in> set (ol_open m). o_down o1 \<le> x)"
  by (simp add: line_def line_le)

lemma held_line_line: "held_line down m \<Longrightarrow> line m \<le> down"
  by (auto simp: held_line_def line_le_iff)

lemma latest_from_bounds:
  "latest_from up i best os = Some (j, dn) \<Longrightarrow>
     best = Some (j, dn) \<or> (i \<le> j \<and> j < i + length os \<and> o_down (os ! (j - i)) = dn \<and>
       \<not> o_up_landed (os ! (j - i)) \<and> dn \<le> up)"
proof (induction os arbitrary: i best)
  case (Cons o1 os)
  let ?b = "if \<not> o_up_landed o1 \<and> o_down o1 \<le> up \<and>
           (case best of None \<Rightarrow> True | Some (j, dn) \<Rightarrow> o_down o1 > dn)
        then Some (i, o_down o1) else best"
  have "?b = Some (j, dn) \<or> (Suc i \<le> j \<and> j < Suc i + length os \<and> o_down (os ! (j - Suc i)) = dn \<and>
       \<not> o_up_landed (os ! (j - Suc i)) \<and> dn \<le> up)"
    using Cons.IH [of "Suc i" ?b] Cons.prems by simp
  then show ?case
    by (auto simp: nth_Cons' Suc_diff_le split: if_splits)
qed simp

lemma latest_from_best:
  "latest_from up i (Some (k, d)) os = Some (j, dn) \<Longrightarrow> d \<le> dn"
proof (induction os arbitrary: i k d)
  case (Cons o1 os)
  show ?case
  proof (cases "\<not> o_up_landed o1 \<and> o_down o1 \<le> up \<and> d < o_down o1")
    case True
    then have "o_down o1 \<le> dn" using Cons.IH [of "Suc i" i "o_down o1"] Cons.prems by simp
    then show ?thesis using True by simp
  next
    case False
    then show ?thesis using Cons.IH [of "Suc i" k d] Cons.prems by auto
  qed
qed simp

lemma latest_from_latest:
  "latest_from up i best os = Some (j, dn) \<Longrightarrow> o1 \<in> set os \<Longrightarrow> \<not> o_up_landed o1 \<Longrightarrow> o_down o1 \<le> up \<Longrightarrow> o_down o1 \<le> dn"
proof (induction os arbitrary: i best)
  case (Cons o2 os)
  let ?b = "if \<not> o_up_landed o2 \<and> o_down o2 \<le> up \<and> (case best of None \<Rightarrow> True | Some (j, dn) \<Rightarrow> o_down o2 > dn)
        then Some (i, o_down o2) else best"
  have l: "latest_from up (Suc i) ?b os = Some (j, dn)" using Cons.prems(1) by simp
  show ?case
  proof (cases "o1 = o2")
    case True
    have "\<exists>k d. ?b = Some (k, d) \<and> o_down o1 \<le> d"
      using Cons.prems(3,4) True by (cases best) (auto simp: not_less split: prod.split)
    then obtain k d where b: "?b = Some (k, d)" "o_down o1 \<le> d" by blast
    then show ?thesis using latest_from_best [of up "Suc i" k d os j dn] l by simp
  next
    case False
    then show ?thesis using Cons.IH [OF l] Cons.prems by simp
  qed
qed simp

lemma held_line_forget:
  "held_line down m \<Longrightarrow> held_line down (ol_forget r m) \<or>
     (\<exists>o1 \<in> set (ol_open m). o_down o1 = down \<and> finished r o1)"
  by (auto simp: held_line_def ol_forget_def)

lemma held_line_room:
  assumes "held_line x m"
  shows "held_line x (ol_room m)"
proof (cases "ol_open m")
  case (Cons o1 os)
  with assms show ?thesis by (auto simp: held_line_def ol_room_def)
qed (use assms in \<open>auto simp: held_line_def ol_room_def max_monitor_outages_def\<close>)

lemma held_line_append: "held_line x m \<Longrightarrow> held_line x (m\<lparr>ol_open := ol_open m @ [new]\<rparr>)"
  by (auto simp: held_line_def)

lemma map_update_same: "f x = f (xs ! i) \<Longrightarrow> map f (xs[i := x]) = map f xs"
  by (metis list_update_id map_update)

lemma landed_downs:
  "map o_down (ol_open (ol_landed ty sec m)) = map o_down (ol_open m)"
proof (cases "ty = ''down''")
  case True
  then show ?thesis by (simp add: ol_landed_def)
next
  case False
  then show ?thesis
    by (simp add: ol_landed_def map_update_same del: map_update split: option.split prod.split)
qed

lemma held_line_landed: "held_line x (ol_landed ty sec m) \<longleftrightarrow> held_line x m"
proof -
  have "ol_floor (ol_landed ty sec m) = ol_floor m"
    by (simp add: ol_landed_def split: option.split)
  moreover have "o_down ` set (ol_open (ol_landed ty sec m)) = o_down ` set (ol_open m)"
    by (metis landed_downs set_map)
  then have "(\<exists>o1 \<in> set (ol_open (ol_landed ty sec m)). o_down o1 = x) \<longleftrightarrow> (\<exists>o1 \<in> set (ol_open m). o_down o1 = x)"
    by (metis (no_types, lifting) image_iff)
  ultimately show ?thesis by (simp add: held_line_def)
qed

lemma held_line_step:
  assumes "held_line x m"
  shows "held_line x (ol_step op m) \<or> retires x op m"
proof (cases op)
  case (Opened down now)
  show ?thesis
  proof (cases "\<exists>o1 \<in> set (ol_open m). o_down o1 = down")
    case True
    then show ?thesis using Opened assms by (simp add: ol_opened_def)
  next
    case False
    show ?thesis
    proof (cases "\<not> ol_closing m \<and> ol_waiting m = 0")
      case True
      from held_line_forget [OF assms, of now] show ?thesis
      proof
        assume "held_line x (ol_forget now m)"
        then show ?thesis
          using held_line_append [OF held_line_room, of x "ol_forget now m"] Opened False True
          by (simp add: ol_opened_def Let_def)
      qed (use Opened False True in \<open>auto simp: retires_def\<close>)
    next
      case busy: False
      then show ?thesis
        using held_line_append [OF held_line_room [OF assms]] Opened False by (auto simp: ol_opened_def Let_def)
    qed
  qed
next
  case (BeginClose now)
  let ?m = "m\<lparr>ol_waiting := ol_waiting m - 1, ol_closing := True\<rparr>"
  have "held_line x ?m" using assms by (simp add: held_line_def)
  from held_line_forget [OF this, of "current_horizon now"] BeginClose show ?thesis
    by (auto simp: ol_begin_def retires_def)
qed (use assms held_line_landed in \<open>auto simp: ol_wait_def ol_end_def held_line_def\<close>)

lemma held_line_opened: "held_line down (ol_opened down now m)"
  by (auto simp: ol_opened_def held_line_def Let_def)

text \<open>While a close runs or waits for its turn, the line only moves earlier.\<close>

lemma line_only_earlier:
  assumes "ol_closing m \<or> ol_waiting m \<noteq> 0" and "\<forall>now. op \<noteq> BeginClose now"
  shows "line (ol_step op m) \<le> line m"
proof -
  have *: "held_line x (ol_step op m)" if "held_line x m" for x
    using held_line_step [OF that, of op] assms by (cases op) (auto simp: retires_def)
  have "ol_floor m \<le> line m \<or> (\<exists>o1 \<in> set (ol_open m). o_down o1 \<le> line m)"
    using line_le_iff [of m "line m"] by simp
  then obtain x where "x \<le> line m" "held_line x m"
    by (auto simp: held_line_def)
  then show ?thesis using * held_line_line by force
qed

section \<open>What is on the list\<close>

lemma ol_run_append [simp]: "ol_run (ops @ [op]) m = ol_step op (ol_run ops m)"
  by (induction ops arbitrary: m) simp_all

text \<open>A landing at \<open>up\<close> after the calls \<open>pre\<close> ends the outage of \<open>down\<close>: it is on the list without an end,
  began at or before \<open>up\<close>, and none of that kind began later.\<close>

definition ends_latest :: "outage_op list \<Rightarrow> int \<Rightarrow> int \<Rightarrow> bool" where
  "ends_latest pre down up \<longleftrightarrow> down \<le> up \<and>
     (\<exists>o1 \<in> set (ol_open (ol_run pre no_outages)). o_down o1 = down \<and> \<not> o_up_landed o1) \<and>
     (\<forall>o1 \<in> set (ol_open (ol_run pre no_outages)). \<not> o_up_landed o1 \<and> o_down o1 \<le> up \<longrightarrow> o_down o1 \<le> down)"

definition ended_in :: "outage_op list \<Rightarrow> int \<Rightarrow> int \<Rightarrow> bool" where
  "ended_in ops down up \<longleftrightarrow> (\<exists>ty pre post. ty \<noteq> ''down'' \<and> ops = pre @ Landed ty up # post \<and> ends_latest pre down up)"

lemma ended_more:
  assumes "ended_in ops down up"
  shows "ended_in (ops @ [op]) down up"
proof -
  obtain ty pre post where "ty \<noteq> ''down''" "ops = pre @ Landed ty up # post" "ends_latest pre down up"
    using assms unfolding ended_in_def by blast
  then show ?thesis unfolding ended_in_def by (intro exI [of _ ty] exI [of _ pre] exI [of _ "post @ [op]"]) simp
qed

lemma ended_here: "ty \<noteq> ''down'' \<Longrightarrow> ends_latest ops down up \<Longrightarrow> ended_in (ops @ [Landed ty up]) down up"
  unfolding ended_in_def by blast

text \<open>Every entry was opened, and a landing it notes took place; the 'up' is its own.\<close>

definition backed :: "outage_op list \<Rightarrow> outage \<Rightarrow> bool" where
  "backed ops o1 \<longleftrightarrow>
     (\<exists>now. Opened (o_down o1) now \<in> set ops) \<and>
     (o_down_landed o1 \<longrightarrow> Landed ''down'' (o_down o1) \<in> set ops) \<and>
     (o_up_landed o1 \<longrightarrow> ended_in ops (o_down o1) (o_up o1))"

lemma backed_more: "backed ops o1 \<Longrightarrow> backed (ops @ [op]) o1"
  by (auto simp: backed_def intro: ended_more)

lemma backed_landed:
  assumes "\<forall>o1 \<in> set (ol_open m). backed ops o1" and m: "m = ol_run ops no_outages"
  shows "\<forall>o1 \<in> set (ol_open (ol_landed ty sec m)). backed (ops @ [Landed ty sec]) o1"
proof (cases "ty = ''down''")
  case True
  show ?thesis
  proof
    fix o2 assume "o2 \<in> set (ol_open (ol_landed ty sec m))"
    then obtain o1 where o1: "o1 \<in> set (ol_open m)"
      "o2 = (if o_down o1 = sec then o1\<lparr>o_down_landed := True\<rparr> else o1)"
      using True by (auto simp: ol_landed_def)
    have b: "backed (ops @ [Landed ty sec]) o1"
      using assms o1(1) by (auto intro: backed_more)
    show "backed (ops @ [Landed ty sec]) o2"
    proof (cases "o_down o1 = sec")
      case True
      then have "Landed ''down'' (o_down o2) \<in> set (ops @ [Landed ty sec])"
        using o1(2) \<open>ty = ''down''\<close> by simp
      moreover have "o_down o2 = o_down o1" "o_up o2 = o_up o1" "o_up_landed o2 = o_up_landed o1"
        using o1(2) True by simp_all
      ultimately show ?thesis using b unfolding backed_def by metis
    qed (use b o1(2) in simp)
  qed
next
  case up: False
  show ?thesis
  proof (cases "latest_from sec 0 None (ol_open m)")
    case None
    then show ?thesis using assms up by (auto simp: ol_landed_def intro: backed_more)
  next
    case (Some p)
    obtain i dn where p: "p = (i, dn)" by (cases p)
    have i: "i < length (ol_open m)" "o_down (ol_open m ! i) = dn" "dn \<le> sec" "\<not> o_up_landed (ol_open m ! i)"
      using latest_from_bounds [of sec 0 None "ol_open m" i dn] Some p by auto
    have "ends_latest ops dn sec"
      unfolding ends_latest_def m [symmetric]
      using i latest_from_latest [OF Some [unfolded p]] nth_mem by blast
    moreover have "backed ops (ol_open m ! i)" using assms i by simp
    ultimately have "backed (ops @ [Landed ty sec]) ((ol_open m ! i)\<lparr>o_up := sec, o_up_landed := True\<rparr>)"
      using i(2) up ended_here by (auto simp: backed_def)
    moreover have "\<And>o1. o1 \<in> set (ol_open (ol_landed ty sec m)) \<Longrightarrow>
        o1 = (ol_open m ! i)\<lparr>o_up := sec, o_up_landed := True\<rparr> \<or> o1 \<in> set (ol_open m)"
      using set_update_subset_insert [of "ol_open m" i] by (auto simp: ol_landed_def Some p up)
    ultimately show ?thesis using assms(1) backed_more by blast
  qed
qed

lemma backed_step:
  assumes "\<forall>o1 \<in> set (ol_open m). backed ops o1" and m: "m = ol_run ops no_outages"
  shows "\<forall>o1 \<in> set (ol_open (ol_step op m)). backed (ops @ [op]) o1"
proof -
  have keep: "\<forall>o1 \<in> set (ol_open m). backed (ops @ [op]) o1"
    using assms backed_more by auto
  show ?thesis
  proof (cases op)
    case (Opened down now)
    have sub: "set (ol_open (ol_opened down now m)) \<subseteq> insert \<lparr>o_down = down, o_up = 0, o_down_landed = False, o_up_landed = False\<rparr> (set (ol_open m))"
    proof -
      have 1: "set (ol_open (ol_room m)) \<subseteq> set (ol_open m)" for m
        by (cases "ol_open m") (auto simp: ol_room_def)
      have 2: "set (ol_open (ol_forget now m)) \<subseteq> set (ol_open m)" by (auto simp: ol_forget_def)
      show ?thesis using 1 [of "ol_forget now m"] 1 [of m] 2 by (auto simp: ol_opened_def Let_def)
    qed
    have "backed (ops @ [op]) \<lparr>o_down = down, o_up = 0, o_down_landed = False, o_up_landed = False\<rparr>"
      using Opened by (auto simp: backed_def)
    with sub keep Opened show ?thesis by auto
  next
    case (Landed ty sec)
    then show ?thesis using backed_landed [OF assms] by simp
  qed (use keep in \<open>auto simp: ol_wait_def ol_begin_def ol_forget_def ol_end_def\<close>)
qed

lemma backed_run: "\<forall>o1 \<in> set (ol_open (ol_run ops no_outages)). backed ops o1"
proof (induction ops rule: rev_induct)
  case (snoc op ops)
  then show ?case using backed_step by simp
qed (simp add: no_outages_def)

lemma length_step:
  assumes "length (ol_open m) \<le> max_monitor_outages"
  shows "length (ol_open (ol_step op m)) \<le> max_monitor_outages"
proof (cases op)
  case (Opened down now)
  have 1: "length (ol_open (ol_forget now m)) \<le> max_monitor_outages"
    unfolding ol_forget_def by (simp add: le_trans [OF length_filter_le assms])
  have 2: "length (ol_open (ol_room m)) < max_monitor_outages"
    if "length (ol_open m) \<le> max_monitor_outages" for m
    using that by (auto simp: ol_room_def max_monitor_outages_def)
  show ?thesis using Opened assms 1 2 by (simp add: ol_opened_def Let_def Suc_le_eq)
next
  case (Landed ty sec)
  then show ?thesis using assms arg_cong [OF landed_downs [of ty sec m], of length] by simp
next
  case (BeginClose now)
  then show ?thesis by (simp add: ol_begin_def ol_forget_def le_trans [OF length_filter_le assms])
qed (use assms in \<open>simp_all add: ol_wait_def ol_end_def\<close>)

text \<open>An outage that was ever on the list is behind the line, or was retired on evidence: its 'down' had
  landed, its own 'up' had landed, and a later step forgot what had ended by a reading at or past it.\<close>

definition retired :: "outage_op list \<Rightarrow> int \<Rightarrow> bool" where
  "retired ops down \<longleftrightarrow> Landed ''down'' down \<in> set ops \<and>
     (\<exists>pre ty up post. ops = pre @ Landed ty up # post \<and> ty \<noteq> ''down'' \<and> ends_latest pre down up \<and>
        (\<exists>n. (\<exists>x. Opened x n \<in> set post \<and> up \<le> n) \<or> (BeginClose n \<in> set post \<and> up \<le> current_horizon n)))"

lemma retired_more:
  assumes "retired ops down"
  shows "retired (ops @ [op]) down"
proof -
  obtain pre ty up post where r: "Landed ''down'' down \<in> set ops" "ops = pre @ Landed ty up # post" "ty \<noteq> ''down''"
    "ends_latest pre down up" "\<exists>n. (\<exists>x. Opened x n \<in> set post \<and> up \<le> n) \<or> (BeginClose n \<in> set post \<and> up \<le> current_horizon n)"
    using assms unfolding retired_def by blast
  have "ops @ [op] = pre @ Landed ty up # (post @ [op])" using r(2) by simp
  moreover have "\<exists>n. (\<exists>x. Opened x n \<in> set (post @ [op]) \<and> up \<le> n) \<or> (BeginClose n \<in> set (post @ [op]) \<and> up \<le> current_horizon n)"
    using r(5) by auto
  ultimately show ?thesis using r(1,3,4) unfolding retired_def by (metis UnCI set_append)
qed

lemma retires_retired:
  assumes "retires down op (ol_run ops no_outages)"
  shows "retired (ops @ [op]) down"
proof -
  obtain r o1 where r: "reached_by op (ol_run ops no_outages) = Some r"
    "o1 \<in> set (ol_open (ol_run ops no_outages))" "o_down o1 = down" "finished r o1"
    using assms by (auto simp: retires_def)
  have "backed ops o1" using backed_run r(2) by blast
  then obtain ty pre post where b: "Landed ''down'' down \<in> set ops" "ty \<noteq> ''down''" "ops = pre @ Landed ty (o_up o1) # post"
    "ends_latest pre down (o_up o1)" using r(3,4) by (auto simp: backed_def finished_def ended_in_def)
  have "\<exists>n. (\<exists>x. Opened x n \<in> set (post @ [op]) \<and> o_up o1 \<le> n) \<or> (BeginClose n \<in> set (post @ [op]) \<and> o_up o1 \<le> current_horizon n)"
    using r(1,4) by (cases op) (auto simp: finished_def split: if_splits)
  moreover have "ops @ [op] = pre @ Landed ty (o_up o1) # (post @ [op])" using b(3) by simp
  ultimately show ?thesis using b(1,2,4) unfolding retired_def by (metis UnCI set_append)
qed

lemma held_or_retired:
  assumes "Opened down now \<in> set ops"
  shows "held_line down (ol_run ops no_outages) \<or> retired ops down"
  using assms
proof (induction ops rule: rev_induct)
  case (snoc op ops)
  show ?case
  proof (cases "op = Opened down now")
    case True
    then show ?thesis using held_line_opened by simp
  next
    case False
    then have "held_line down (ol_run ops no_outages) \<or> retired ops down" using snoc by auto
    then show ?thesis
      using held_line_step [of down "ol_run ops no_outages" op] retired_more retires_retired by auto
  qed
qed simp

end
