(* ===== verification/Spans.thy ===== *)
theory Spans
  imports Prelude
begin

text \<open>
  The interval arithmetic of \<open>internal/store/store.go\<close>: pause spans and outage spans as
  lists of half-open second intervals (Go's \<open>[][2]int64\<close>).  Everything the program says
  about uptime is computed with these five functions, so they are given a set semantics
  (\<open>span_set\<close>) and each is proved against it.
\<close>

type_synonym span = "int \<times> int"

section \<open>The functions\<close>

text \<open>Go's \<open>sort.Search(n, f)\<close>: binary search for the first index satisfying \<open>f\<close>.\<close>

function go_search :: "(nat \<Rightarrow> bool) \<Rightarrow> nat \<Rightarrow> nat \<Rightarrow> nat" where
  "go_search f i j =
     (if i < j then (let h = (i + j) div 2 in if f h then go_search f i h else go_search f (Suc h) j)
      else i)"
  by pat_completeness auto
termination
  by (relation "measure (\<lambda>(f, i, j). j - i)") auto

declare go_search.simps [simp del]

text \<open>\<open>mergeSpans\<close>: coalesce overlapping and touching spans of a list sorted by start.\<close>

fun merge_spans :: "span list \<Rightarrow> span list" where
  "merge_spans [] = []"
| "merge_spans [sp] = [sp]"
| "merge_spans (cur # sp # rest) =
     (if fst sp \<le> snd cur
      then merge_spans ((fst cur, if snd sp > snd cur then snd sp else snd cur) # rest)
      else cur # merge_spans (sp # rest))"

text \<open>The clipping loop of \<open>spansIn\<close>, after its binary search.\<close>

fun clip_from :: "int \<Rightarrow> int \<Rightarrow> span list \<Rightarrow> span list" where
  "clip_from lo hi [] = []"
| "clip_from lo hi ((a, b) # sps) =
     (if a \<ge> hi then []
      else let a' = (if a < lo then lo else a); b' = (if b > hi then hi else b)
           in (if b' > a' then [(a', b')] else []) @ clip_from lo hi sps)"

definition spans_in :: "span list \<Rightarrow> int \<Rightarrow> int \<Rightarrow> span list" where
  "spans_in sps lo hi =
     (if hi \<le> lo \<or> sps = [] then []
      else clip_from lo hi (drop (go_search (\<lambda>i. snd (sps ! i) > lo) 0 (length sps)) sps))"

text \<open>The summing loop of \<open>spanOverlap\<close>, after its binary search.\<close>

fun overlap_from :: "int \<Rightarrow> int \<Rightarrow> span list \<Rightarrow> int" where
  "overlap_from lo hi [] = 0"
| "overlap_from lo hi ((a, b) # sps) =
     (if a \<ge> hi then 0
      else let a' = (if a < lo then lo else a); b' = (if b > hi then hi else b)
           in (if b' > a' then b' - a' else 0) + overlap_from lo hi sps)"

definition span_overlap :: "span list \<Rightarrow> int \<Rightarrow> int \<Rightarrow> int" where
  "span_overlap sps lo hi =
     (if hi \<le> lo \<or> sps = [] then 0
      else overlap_from lo hi (drop (go_search (\<lambda>i. snd (sps ! i) > lo) 0 (length sps)) sps))"

text \<open>\<open>observedOutageSpans\<close>: the watched stretches of a completed outage, trimmed from
  the end to its recorded length.\<close>

fun outage_gaps :: "int \<Rightarrow> int \<Rightarrow> span list \<Rightarrow> span list \<Rightarrow> span list \<times> int" where
  "outage_gaps cur fin [] acc = (acc, cur)"
| "outage_gaps cur fin (p # ps) acc =
     (if snd p \<le> cur then outage_gaps cur fin ps acc
      else if fst p \<ge> fin then (acc, cur)
      else outage_gaps (if snd p > cur then snd p else cur) fin ps
             (if fst p > cur then acc @ [(cur, fst p)] else acc))"

fun trim_tail :: "int \<Rightarrow> span list \<Rightarrow> span list" where
  "trim_tail remaining [] = []"
| "trim_tail remaining ((a, b) # sps) =
     (if b - a \<le> remaining then (a, b) # trim_tail (remaining - (b - a)) sps
      else if a + remaining = a then [] else [(a, a + remaining)])"

definition observed_outage_spans :: "span list \<Rightarrow> int \<Rightarrow> int \<Rightarrow> int \<Rightarrow> span list" where
  "observed_outage_spans pauses start fin observed =
     (if fin \<le> start then []
      else let (acc, cur) = outage_gaps start fin (merge_spans pauses) [];
               out = (if cur < fin then acc @ [(cur, fin)] else acc)
           in if observed \<le> 0 then [] else trim_tail observed out)"

section \<open>Set semantics\<close>

definition span_set :: "span list \<Rightarrow> int set" where
  "span_set sps = (\<Union>(a, b) \<in> set sps. {a..<b})"

lemma span_set_simps [simp, spansimps]:
  "span_set [] = {}"
  "span_set ((a, b) # sps) = {a..<b} \<union> span_set sps"
  "span_set (xs @ ys) = span_set xs \<union> span_set ys"
  by (auto simp: span_set_def)

lemma span_set_Cons: "span_set (p # sps) = {fst p..<snd p} \<union> span_set sps"
  by (cases p) simp

lemma finite_span_set [simp]: "finite (span_set sps)"
  by (induction sps) auto

definition span_len :: "span list \<Rightarrow> int" where
  "span_len sps = (\<Sum>(a, b) \<leftarrow> sps. b - a)"

lemma span_len_simps [simp, spansimps]:
  "span_len [] = 0"
  "span_len ((a, b) # sps) = (b - a) + span_len sps"
  "span_len (xs @ ys) = span_len xs + span_len ys"
  by (simp_all add: span_len_def)

text \<open>Sorted by start: what \<open>ORDER BY ts\<close> gives.\<close>

abbreviation by_start :: "span list \<Rightarrow> bool" where
  "by_start sps \<equiv> sorted (map fst sps)"

text \<open>Non-empty, disjoint and in order: the precondition of \<open>spansIn\<close> and
  \<open>spanOverlap\<close>.  \<open>ordered_from lo\<close> also bounds the first start from below.\<close>

fun ordered_from :: "int \<Rightarrow> span list \<Rightarrow> bool" where
  "ordered_from lo [] = True"
| "ordered_from lo ((a, b) # sps) = (lo \<le> a \<and> a < b \<and> ordered_from b sps)"

definition ordered :: "span list \<Rightarrow> bool" where
  "ordered sps \<longleftrightarrow> (case sps of [] \<Rightarrow> True | p # _ \<Rightarrow> ordered_from (fst p) sps)"

lemma ordered_Nil [simp]: "ordered []"
  by (simp add: ordered_def)

lemma ordered_from_mono: "ordered_from lo sps \<Longrightarrow> lo' \<le> lo \<Longrightarrow> ordered_from lo' sps"
  by (cases sps) auto

lemma ordered_from_ordered: "ordered_from lo sps \<Longrightarrow> ordered sps"
  by (cases sps) (auto simp: ordered_def)

lemma ordered_Cons [simp]: "ordered ((a, b) # sps) \<longleftrightarrow> a < b \<and> ordered_from b sps"
  by (auto simp: ordered_def)

lemma ordered_tl: "ordered (p # sps) \<Longrightarrow> ordered sps"
  by (cases p) (auto intro: ordered_from_ordered)

lemma ordered_drop: "ordered sps \<Longrightarrow> ordered (drop n sps)"
proof (induction sps arbitrary: n)
  case (Cons p sps)
  then show ?case by (cases n) (auto dest: ordered_tl)
qed simp

lemma span_set_lower: "ordered_from lo sps \<Longrightarrow> x \<in> span_set sps \<Longrightarrow> lo \<le> x"
  by (induction lo sps rule: ordered_from.induct) fastforce+

lemma ordered_from_append:
  "ordered_from lo (xs @ [(a, b)]) \<longleftrightarrow>
     ordered_from lo xs \<and> a < b \<and> lo \<le> a \<and> (\<forall>p \<in> set xs. snd p \<le> a)"
proof (induction lo xs rule: ordered_from.induct)
  case (2 lo c d sps)
  then show ?case by auto
qed auto

lemma card_span_set: "ordered_from lo sps \<Longrightarrow> int (card (span_set sps)) = span_len sps"
proof (induction lo sps rule: ordered_from.induct)
  case (2 lo a b sps)
  then have o: "ordered_from b sps" and ab: "a < b" by auto
  have "{a..<b} \<inter> span_set sps = {}"
    using span_set_lower [OF o] by fastforce
  then have "card (span_set ((a, b) # sps)) = card {a..<b} + card (span_set sps)"
    by (simp add: card_Un_disjoint)
  with 2 o ab show ?case by simp
qed simp

lemma span_len_nonneg: "ordered_from lo sps \<Longrightarrow> 0 \<le> span_len sps"
  by (simp flip: card_span_set)

section \<open>\<open>sort.Search\<close>\<close>

lemma go_search_bounds: "i \<le> j \<Longrightarrow> i \<le> go_search f i j \<and> go_search f i j \<le> j"
proof (induction f i j rule: go_search.induct)
  case (1 f i j)
  show ?case
  proof (cases "i < j")
    case True
    with 1 show ?thesis
      by (subst (1 2) go_search.simps) (fastforce simp: Let_def)
  next
    case False
    with 1 show ?thesis by (subst (1 2) go_search.simps) auto
  qed
qed

lemma go_search_correct:
  assumes "\<And>h k. h \<le> k \<Longrightarrow> k < n \<Longrightarrow> f h \<Longrightarrow> f k"
    and "i \<le> j" and "j \<le> n" and "\<And>k. k < i \<Longrightarrow> \<not> f k" and "\<And>k. j \<le> k \<Longrightarrow> k < n \<Longrightarrow> f k"
  shows "(\<forall>k < go_search f i j. \<not> f k) \<and> (\<forall>k. go_search f i j \<le> k \<and> k < n \<longrightarrow> f k)"
  using assms
proof (induction f i j rule: go_search.induct)
  case (1 f i j)
  show ?case
  proof (cases "i < j")
    case False
    with "1.prems" show ?thesis by (subst (1 2) go_search.simps) auto
  next
    case True
    define h where "h = (i + j) div 2"
    have h: "i \<le> h" "h < j" "Suc h \<le> j" using True by (auto simp: h_def)
    have step: "go_search f i j = (if f h then go_search f i h else go_search f (Suc h) j)"
      using True by (subst go_search.simps) (simp add: h_def Let_def)
    show ?thesis
    proof (cases "f h")
      case fh: True
      have "(\<forall>k < go_search f i h. \<not> f k) \<and> (\<forall>k. go_search f i h \<le> k \<and> k < n \<longrightarrow> f k)"
        using "1.IH"(1) [OF True h_def fh] "1.prems" h fh by auto
      with step fh show ?thesis by simp
    next
      case fh: False
      have hn: "h < n" using h "1.prems"(3) by simp
      have low: "\<And>k. k < Suc h \<Longrightarrow> \<not> f k"
        using "1.prems"(1) [OF _ hn] fh by (simp add: less_Suc_eq_le) blast
      have "(\<forall>k < go_search f (Suc h) j. \<not> f k) \<and>
          (\<forall>k. go_search f (Suc h) j \<le> k \<and> k < n \<longrightarrow> f k)"
        by (rule "1.IH"(2) [OF True h_def fh "1.prems"(1) h(3) "1.prems"(3) low "1.prems"(5)])
      with step fh show ?thesis by simp
    qed
  qed
qed

section \<open>\<open>mergeSpans\<close> is a canonical union\<close>

lemma merge_spans_set: "by_start sps \<Longrightarrow> span_set (merge_spans sps) = span_set sps"
proof (induction sps rule: merge_spans.induct)
  case (3 cur sp rest)
  obtain a b c d where [simp]: "cur = (a, b)" "sp = (c, d)" by (cases cur, cases sp)
  show ?case
  proof (cases "c \<le> b")
    case True
    with "3.prems" have "{a..<if d > b then d else b} = {a..<b} \<union> {c..<d}" by auto
    with 3 True show ?thesis by (auto simp: Un_assoc)
  next
    case False
    with 3 show ?thesis by simp
  qed
qed simp_all

text \<open>Neighbours of a merged list do not even touch.\<close>

fun separated_from :: "int \<Rightarrow> span list \<Rightarrow> bool" where
  "separated_from lo [] = True"
| "separated_from lo ((a, b) # sps) = (lo < a \<and> a < b \<and> separated_from b sps)"

lemma separated_ordered: "separated_from lo sps \<Longrightarrow> ordered_from lo sps"
  by (induction lo sps rule: separated_from.induct) auto

lemma merge_spans_separated:
  "by_start sps \<Longrightarrow> \<forall>(a, b) \<in> set sps. a < b \<Longrightarrow> \<forall>(a, b) \<in> set sps. lo < a \<Longrightarrow>
   separated_from lo (merge_spans sps)"
proof (induction sps arbitrary: lo rule: merge_spans.induct)
  case (3 cur sp rest)
  obtain a b c d where [simp]: "cur = (a, b)" "sp = (c, d)" by (cases cur, cases sp)
  show ?case
  proof (cases "c \<le> b")
    case True
    have "by_start ((a, if d > b then d else b) # rest)" using "3.prems"(1) by simp
    moreover have "\<forall>(x, y) \<in> set ((a, if d > b then d else b) # rest). x < y"
      using "3.prems"(2) by auto
    moreover have "\<forall>(x, y) \<in> set ((a, if d > b then d else b) # rest). lo < x"
      using "3.prems"(3) by auto
    ultimately show ?thesis using "3.IH"(1) [of lo] True by (cases "d > b") simp_all
  next
    case False
    have "\<forall>(x, y) \<in> set (sp # rest). b < x" using "3.prems"(1) False by auto
    then have "separated_from b (merge_spans (sp # rest))"
      using "3.IH"(2) [of b] "3.prems" False by simp
    with "3.prems" False show ?thesis by simp
  qed
qed auto

lemma merge_spans_ordered:
  assumes "by_start sps" and "\<forall>(a, b) \<in> set sps. a < b"
  shows "ordered (merge_spans sps)"
proof (cases sps)
  case (Cons p ps)
  have "separated_from (fst p - 1) (merge_spans sps)"
    using assms Cons by (intro merge_spans_separated) fastforce+
  then show ?thesis by (meson ordered_from_ordered separated_ordered)
qed simp

lemma merge_spans_idem: "separated_from lo sps \<Longrightarrow> merge_spans sps = sps"
  by (induction sps arbitrary: lo rule: merge_spans.induct) (auto split: prod.splits)

lemma merge_spans_bounds:
  "by_start sps \<Longrightarrow> p \<in> set (merge_spans sps) \<Longrightarrow>
   fst p \<in> fst ` set sps \<and> snd p \<in> snd ` set sps"
proof (induction sps rule: merge_spans.induct)
  case (3 cur sp rest)
  then show ?case by (cases cur; cases sp) (auto split: if_splits)
qed auto

section \<open>\<open>spanOverlap\<close> and \<open>spansIn\<close> on ordered lists\<close>

lemma ordered_from_nth_mono:
  "ordered_from lo sps \<Longrightarrow> h \<le> k \<Longrightarrow> k < length sps \<Longrightarrow> snd (sps ! h) \<le> snd (sps ! k)"
proof (induction lo sps arbitrary: h k rule: ordered_from.induct)
  case (2 lo a b sps)
  show ?case
  proof (cases k)
    case (Suc k')
    show ?thesis
    proof (cases h)
      case 0
      have "b \<le> fst (sps ! k')" and "fst (sps ! k') < snd (sps ! k')"
      proof -
        have "\<And>m. m < length sps \<Longrightarrow> ordered_from b sps \<Longrightarrow>
            b \<le> fst (sps ! m) \<and> fst (sps ! m) < snd (sps ! m)"
        proof -
          fix m assume "m < length sps" "ordered_from b sps"
          then show "b \<le> fst (sps ! m) \<and> fst (sps ! m) < snd (sps ! m)"
          proof (induction b sps arbitrary: m rule: ordered_from.induct)
            case (2 lo a b sps)
            then show ?case by (cases m) (auto dest: "2.IH")
          qed simp
        qed
        with 2 Suc show "b \<le> fst (sps ! k')" and "fst (sps ! k') < snd (sps ! k')" by auto
      qed
      with Suc 0 show ?thesis by simp
    next
      case (Suc h')
      with 2 \<open>k = Suc k'\<close> show ?thesis by simp
    qed
  qed (use 2 in simp)
qed simp

text \<open>What the binary search skips ends at or before the window.\<close>

lemma search_skip:
  fixes lo :: int
  assumes "ordered sps"
  defines "n \<equiv> go_search (\<lambda>i. snd (sps ! i) > lo) 0 (length sps)"
  shows "span_set (take n sps) \<inter> {lo..} = {}" and "ordered (drop n sps)"
proof -
  from assms(1) obtain l where o: "ordered_from l sps"
    by (cases sps) (auto simp: ordered_def)
  have up: "\<And>h k. h \<le> k \<Longrightarrow> k < length sps \<Longrightarrow> lo < snd (sps ! h) \<Longrightarrow> lo < snd (sps ! k)"
    using ordered_from_nth_mono [OF o] by (meson less_le_trans)
  have n: "\<forall>k < n. \<not> snd (sps ! k) > lo"
    unfolding n_def by (rule go_search_correct [THEN conjunct1, OF up]) auto
  have len: "n \<le> length sps"
    using go_search_bounds [of 0 "length sps"] by (simp add: n_def)
  have "\<And>p. p \<in> set (take n sps) \<Longrightarrow> snd p \<le> lo"
    using n len by (auto simp: in_set_conv_nth)
  then show "span_set (take n sps) \<inter> {lo..} = {}"
    by (fastforce simp: span_set_def)
  show "ordered (drop n sps)"
    using assms(1) by (rule ordered_drop)
qed

lemma overlap_from_card:
  "ordered_from l sps \<Longrightarrow> overlap_from lo hi sps = int (card (span_set sps \<inter> {lo..<hi}))"
proof (induction l sps rule: ordered_from.induct)
  case (2 l a b sps)
  then have o: "ordered_from b sps" and ab: "a < b" by auto
  have low: "\<And>x. x \<in> span_set sps \<Longrightarrow> b \<le> x" using span_set_lower [OF o] .
  show ?case
  proof (cases "a \<ge> hi")
    case True
    with low ab have "span_set ((a, b) # sps) \<inter> {lo..<hi} = {}" by fastforce
    with True show ?thesis by simp
  next
    case False
    have split: "span_set ((a, b) # sps) \<inter> {lo..<hi} =
        {max a lo..<min b hi} \<union> (span_set sps \<inter> {lo..<hi})" by auto
    have "{max a lo..<min b hi} \<inter> (span_set sps \<inter> {lo..<hi}) = {}" using low by fastforce
    then have "card (span_set ((a, b) # sps) \<inter> {lo..<hi}) =
        card {max a lo..<min b hi} + card (span_set sps \<inter> {lo..<hi})"
      by (simp only: split) (simp add: card_Un_disjoint)
    with False 2 o show ?thesis by (auto simp: Let_def max_def min_def)
  qed
qed simp

lemma span_overlap_card:
  assumes "ordered sps"
  shows "span_overlap sps lo hi = int (card (span_set sps \<inter> {lo..<hi}))"
proof (cases "hi \<le> lo \<or> sps = []")
  case True
  then show ?thesis by (auto simp: span_overlap_def)
next
  case False
  define n where "n = go_search (\<lambda>i. snd (sps ! i) > lo) 0 (length sps)"
  have skip: "span_set (take n sps) \<inter> {lo..} = {}" and o: "ordered (drop n sps)"
    using search_skip [OF assms, of lo] by (simp_all add: n_def)
  have "span_set sps = span_set (take n sps) \<union> span_set (drop n sps)"
    by (simp flip: span_set_simps(3))
  with skip have "span_set sps \<inter> {lo..<hi} = span_set (drop n sps) \<inter> {lo..<hi}" by auto
  moreover obtain l where "ordered_from l (drop n sps)"
    using o by (cases "drop n sps") (auto simp: ordered_def)
  ultimately show ?thesis
    using False by (simp add: span_overlap_def n_def overlap_from_card)
qed

lemma clip_from_set:
  "ordered_from l sps \<Longrightarrow> span_set (clip_from lo hi sps) = span_set sps \<inter> {lo..<hi}"
proof (induction l sps rule: ordered_from.induct)
  case (2 l a b sps)
  have low: "\<And>x. x \<in> span_set sps \<Longrightarrow> b \<le> x" using 2 span_set_lower by auto
  show ?case
  proof (cases "a \<ge> hi")
    case True
    with low 2 show ?thesis by fastforce
  next
    case False
    have "span_set (clip_from lo hi ((a, b) # sps)) =
        {max a lo..<min b hi} \<union> span_set (clip_from lo hi sps)"
      using False by (auto simp: Let_def max_def min_def)
    also have "\<dots> = {max a lo..<min b hi} \<union> (span_set sps \<inter> {lo..<hi})"
      using 2 by simp
    also have "\<dots> = span_set ((a, b) # sps) \<inter> {lo..<hi}"
      by (simp add: Int_Un_distrib2)
    finally show ?thesis .
  qed
qed simp

lemma clip_from_ordered:
  "ordered_from l sps \<Longrightarrow> ordered_from (max l lo) (clip_from lo hi sps)"
proof (induction l sps rule: ordered_from.induct)
  case (2 l a b sps)
  then show ?case
    by (auto simp: Let_def intro: ordered_from_mono)
qed simp

lemma spans_in_set:
  assumes "ordered sps"
  shows "span_set (spans_in sps lo hi) = span_set sps \<inter> {lo..<hi}"
    and "ordered_from lo (spans_in sps lo hi)"
proof -
  define n where "n = go_search (\<lambda>i. snd (sps ! i) > lo) 0 (length sps)"
  have skip: "span_set (take n sps) \<inter> {lo..} = {}" and o: "ordered (drop n sps)"
    using search_skip [OF assms, of lo] by (simp_all add: n_def)
  obtain l where l: "ordered_from l (drop n sps)"
    using o by (cases "drop n sps") (auto simp: ordered_def)
  have "span_set sps = span_set (take n sps) \<union> span_set (drop n sps)"
    by (simp flip: span_set_simps(3))
  with skip have "span_set sps \<inter> {lo..<hi} = span_set (drop n sps) \<inter> {lo..<hi}" by auto
  with l show "span_set (spans_in sps lo hi) = span_set sps \<inter> {lo..<hi}"
    by (auto simp: spans_in_def n_def clip_from_set)
  show "ordered_from lo (spans_in sps lo hi)"
    using clip_from_ordered [OF l, of lo hi]
    by (auto simp: spans_in_def n_def intro: ordered_from_mono)
qed

section \<open>\<open>observedOutageSpans\<close>\<close>

definition with_rest :: "int \<Rightarrow> span list \<times> int \<Rightarrow> span list" where
  "with_rest fin r = (if snd r < fin then fst r @ [(snd r, fin)] else fst r)"

lemma outage_gaps_set:
  "ordered_from lo ps \<Longrightarrow>
   span_set (with_rest fin (outage_gaps cur fin ps acc)) =
     span_set acc \<union> ({cur..<fin} - span_set ps)"
proof (induction cur fin ps acc arbitrary: lo rule: outage_gaps.induct)
  case (1 cur fin acc)
  then show ?case by (auto simp: with_rest_def)
next
  case (2 cur fin p ps acc)
  obtain a b where p: "p = (a, b)" by (cases p)
  with "2.prems" have ab: "a < b" and o: "ordered_from b ps" by auto
  have low: "\<And>x. x \<in> span_set ps \<Longrightarrow> b \<le> x" using span_set_lower [OF o] .
  consider "b \<le> cur" | "\<not> b \<le> cur" "a \<ge> fin" | "\<not> b \<le> cur" "\<not> a \<ge> fin" by blast
  then show ?case
  proof cases
    case 1
    have "{cur..<fin} - span_set (p # ps) = {cur..<fin} - span_set ps" using 1 p by auto
    with 1 "2.IH"(1) [OF _ o] p show ?thesis by simp
  next
    case 2
    have "{cur..<fin} - span_set (p # ps) = {cur..<fin}" using 2 p ab low by fastforce
    with 2 p show ?thesis by (auto simp: with_rest_def)
  next
    case 3
    have "{cur..<fin} - span_set (p # ps) = {cur..<a} \<union> ({b..<fin} - span_set ps)"
      using 3 p ab low by (auto dest!: low)
    moreover have "span_set (if a > cur then acc @ [(cur, a)] else acc) = span_set acc \<union> {cur..<a}"
      by auto
    ultimately show ?thesis
      using 3 "2.IH"(2) [OF _ _ o] p by (cases "cur < a") (simp_all add: Un_assoc)
  qed
qed

lemma outage_gaps_ordered:
  "ordered_from lo ps \<Longrightarrow> ordered_from start acc \<Longrightarrow> \<forall>p \<in> set acc. snd p \<le> cur \<Longrightarrow> start \<le> cur \<Longrightarrow>
   ordered_from start (with_rest fin (outage_gaps cur fin ps acc))"
proof (induction cur fin ps acc arbitrary: lo rule: outage_gaps.induct)
  case (1 cur fin acc)
  then show ?case by (auto simp: with_rest_def ordered_from_append)
next
  case (2 cur fin p ps acc)
  obtain a b where p: "p = (a, b)" by (cases p)
  with "2.prems" have ab: "a < b" and o: "ordered_from b ps" by auto
  consider "b \<le> cur" | "\<not> b \<le> cur" "a \<ge> fin" | "\<not> b \<le> cur" "\<not> a \<ge> fin" by blast
  then show ?case
  proof cases
    case 1
    with "2.IH"(1) [OF _ o] "2.prems" p show ?thesis by simp
  next
    case 2
    with "2.prems" p show ?thesis by (auto simp: with_rest_def ordered_from_append)
  next
    case 3
    have "ordered_from start (if a > cur then acc @ [(cur, a)] else acc)"
      using "2.prems" by (auto simp: ordered_from_append)
    moreover have "\<forall>q \<in> set (if a > cur then acc @ [(cur, a)] else acc). snd q \<le> b"
    proof
      fix q assume "q \<in> set (if a > cur then acc @ [(cur, a)] else acc)"
      then have "q \<in> set acc \<or> q = (cur, a)" by (auto split: if_splits)
      with "2.prems"(3) 3 ab show "snd q \<le> b" by fastforce
    qed
    ultimately show ?thesis
      using 3 "2.IH"(2) [OF _ _ o] "2.prems" p by (cases "cur < a") simp_all
  qed
qed

lemma trim_tail_spec:
  "ordered_from lo sps \<Longrightarrow> 0 \<le> r \<Longrightarrow>
   ordered_from lo (trim_tail r sps) \<and>
   span_len (trim_tail r sps) = min r (span_len sps) \<and>
   span_set (trim_tail r sps) \<subseteq> span_set sps \<and>
   (\<forall>x \<in> span_set (trim_tail r sps). \<forall>y \<in> span_set sps. y < x \<longrightarrow> y \<in> span_set (trim_tail r sps))"
proof (induction r sps arbitrary: lo rule: trim_tail.induct)
  case (2 r a b sps)
  then have o: "ordered_from b sps" and ab: "a < b" by auto
  have nn: "0 \<le> span_len sps" using span_len_nonneg [OF o] .
  have low: "\<And>x. x \<in> span_set sps \<Longrightarrow> b \<le> x" using span_set_lower [OF o] .
  show ?case
  proof (cases "b - a \<le> r")
    case True
    have IH: "ordered_from b (trim_tail (r - (b - a)) sps)"
      "span_len (trim_tail (r - (b - a)) sps) = min (r - (b - a)) (span_len sps)"
      "span_set (trim_tail (r - (b - a)) sps) \<subseteq> span_set sps"
      "\<forall>x \<in> span_set (trim_tail (r - (b - a)) sps). \<forall>y \<in> span_set sps. y < x \<longrightarrow>
         y \<in> span_set (trim_tail (r - (b - a)) sps)"
      using "2.IH" [OF True o] True by simp_all
    have "\<forall>x \<in> {a..<b} \<union> span_set (trim_tail (r - (b - a)) sps).
        \<forall>y \<in> {a..<b} \<union> span_set sps. y < x \<longrightarrow>
        y \<in> {a..<b} \<union> span_set (trim_tail (r - (b - a)) sps)"
      using IH(4) low ab by (metis UnE UnI1 UnI2 atLeastLessThan_iff le_less_trans less_irrefl
          less_trans order_less_le_trans)
    with True IH "2.prems" ab show ?thesis by auto
  next
    case False
    with "2.prems" nn low ab show ?thesis by (auto simp: min_def dest!: low)
  qed
qed simp

lemma observed_outage_spans_ordered:
  assumes "by_start pauses" and "\<forall>(a, b) \<in> set pauses. a < b"
  shows "ordered_from start (observed_outage_spans pauses start fin observed)"
proof -
  obtain l where l: "ordered_from l (merge_spans pauses)"
    using merge_spans_ordered [OF assms] by (cases "merge_spans pauses") (auto simp: ordered_def)
  have o: "ordered_from start (with_rest fin (outage_gaps start fin (merge_spans pauses) []))"
    by (rule outage_gaps_ordered [OF l]) auto
  then show ?thesis
    using trim_tail_spec [OF o, of observed]
    by (auto simp: observed_outage_spans_def with_rest_def split_def Let_def split: if_splits)
qed

text \<open>The seconds of \<open>[start, fin)\<close> that no pause covers.\<close>

definition watched :: "span list \<Rightarrow> int \<Rightarrow> int \<Rightarrow> int set" where
  "watched pauses start fin = {start..<fin} - span_set pauses"

lemma observed_outage_spans_first:
  fixes pauses start fin observed
  assumes "by_start pauses" and "\<forall>(a, b) \<in> set pauses. a < b"
  defines "W \<equiv> watched pauses start fin"
    and "B \<equiv> span_set (observed_outage_spans pauses start fin observed)"
  shows "B \<subseteq> W"
    and "int (card B) = min (max 0 observed) (int (card W))"
    and "\<forall>x \<in> B. \<forall>y \<in> W. y < x \<longrightarrow> y \<in> B"
proof -
  obtain l where l: "ordered_from l (merge_spans pauses)"
    using merge_spans_ordered [OF assms(1,2)]
    by (cases "merge_spans pauses") (auto simp: ordered_def)
  define out where "out = with_rest fin (outage_gaps start fin (merge_spans pauses) [])"
  have set: "span_set out = W"
    using outage_gaps_set [OF l, of fin start "[]"] merge_spans_set [OF assms(1)]
    by (simp add: out_def W_def watched_def)
  have o: "ordered_from start out"
    unfolding out_def by (rule outage_gaps_ordered [OF l]) auto
  have eq: "B = (if fin \<le> start \<or> observed \<le> 0 then {} else span_set (trim_tail observed out))"
    by (auto simp: B_def observed_outage_spans_def out_def with_rest_def split_def Let_def)
  have triv: "fin \<le> start \<Longrightarrow> W = {}" by (simp add: W_def watched_def)
  note trim = trim_tail_spec [OF o, of observed]
  show "B \<subseteq> W"
    using trim by (auto simp: eq set)
  show "int (card (B)) = min (max 0 observed) (int (card (W)))"
  proof (cases "fin \<le> start \<or> observed \<le> 0")
    case True
    then show ?thesis using triv by (auto simp: eq)
  next
    case False
    then have t: "ordered_from start (trim_tail observed out)"
      "span_len (trim_tail observed out) = min observed (span_len out)" using trim by auto
    with False show ?thesis
      by (simp add: eq card_span_set [OF t(1)] card_span_set [OF o] flip: set)
  qed
  show "\<forall>x \<in> B. \<forall>y \<in> W. y < x \<longrightarrow> y \<in> B"
    using trim by (auto simp: eq set [symmetric])
qed

end
