(* ===== verification/PauseRepair.thy ===== *)
theory PauseRepair
  imports GoTime Spans
begin

text \<open>
  Re-judging the recorded pauses under a corrected clock (\<open>repairFutureReachingPausesAt\<close> in
  \<open>internal/store/store.go\<close>) and the clock guard that decides when such a judgement may run
  (\<open>clockStepped\<close>, \<open>repairReading\<close>).

  A pause that ends further past the present than a believable clock disagreement is held
  aside in a quarantine table, and given back once a clock has passed its end.  The SQL
  statements of the transaction are written as list functions in the order the code runs
  them; \<open>GROUP BY ts\<close> visits the distinct start seconds in order.
\<close>

section \<open>The transaction\<close>

type_synonym pause_row = "int \<times> int"  \<comment> \<open>\<open>ts\<close> and \<open>duration_s\<close>\<close>

definition pause_repair_future_skew :: int where "pause_repair_future_skew = 48 * 3600"

definition row_end :: "pause_row \<Rightarrow> int" where
  "row_end p = fst p + snd p"

text \<open>\<open>SELECT MAX(duration_s) ... WHERE ts = sec\<close>, for rows of positive length.\<close>

definition longest_at :: "int \<Rightarrow> pause_row list \<Rightarrow> int" where
  "longest_at sec rows = foldr (\<lambda>p m. if fst p = sec then max (snd p) m else m) rows 0"

definition starts_of :: "pause_row list \<Rightarrow> int list" where
  "starts_of rows = sort (remdups (map fst rows))"

definition merge_into :: "(pause_row \<Rightarrow> bool) \<Rightarrow> pause_row list \<Rightarrow> pause_row list \<Rightarrow> pause_row list" where
  "merge_into ok src rows =
     map (\<lambda>p. if ok p \<and> fst p \<in> fst ` set src then (fst p, max (snd p) (longest_at (fst p) src)) else p) rows"

definition insert_missing :: "pause_row list \<Rightarrow> pause_row list \<Rightarrow> pause_row list \<Rightarrow> pause_row list" where
  "insert_missing src taken rows =
     rows @ map (\<lambda>sec. (sec, longest_at sec src)) (filter (\<lambda>sec. sec \<notin> fst ` set taken) (starts_of src))"

definition repair_future_pauses ::
  "int \<Rightarrow> pause_row list \<times> pause_row list \<Rightarrow> pause_row list \<times> pause_row list" where
  "repair_future_pauses now tbl =
     (let horizon = now + pause_repair_future_skew;
          (pauses, quar) = tbl;
          cleared = filter (\<lambda>q. row_end q \<le> horizon) quar;
          \<comment> \<open>restore: merge into a live twin, insert where there is none\<close>
          pauses = merge_into (\<lambda>p. row_end p \<le> horizon) cleared pauses;
          pauses = insert_missing cleared (filter (\<lambda>p. row_end p \<le> horizon) pauses) pauses;
          quar = filter (\<lambda>q. \<not> row_end q \<le> horizon) quar;
          \<comment> \<open>move out what ends past the horizon\<close>
          future = filter (\<lambda>p. row_end p > horizon) pauses;
          quar = merge_into (\<lambda>_. True) future quar;
          quar = insert_missing future quar quar;
          pauses = filter (\<lambda>p. \<not> row_end p > horizon) pauses
      in (pauses, quar))"

text \<open>The three \<open>RowsAffected\<close> counts the repair publishes.\<close>

definition repair_counts :: "int \<Rightarrow> pause_row list \<times> pause_row list \<Rightarrow> int \<times> int \<times> int" where
  "repair_counts now tbl =
     (let horizon = now + pause_repair_future_skew;
          (pauses, quar) = tbl;
          cleared = filter (\<lambda>q. row_end q \<le> horizon) quar;
          merged = filter (\<lambda>p. row_end p \<le> horizon \<and> fst p \<in> fst ` set cleared) pauses;
          live = filter (\<lambda>p. row_end p \<le> horizon) (merge_into (\<lambda>p. row_end p \<le> horizon) cleared pauses);
          added = filter (\<lambda>sec. sec \<notin> fst ` set live) (starts_of cleared);
          out = filter (\<lambda>p. row_end p > horizon) pauses
      in (int (length out), int (length added), int (length merged)))"

section \<open>What the transaction keeps\<close>

definition positive :: "pause_row list \<Rightarrow> bool" where
  "positive rows \<longleftrightarrow> (\<forall>p \<in> set rows. 0 < snd p)"

text \<open>The seconds a table says were not watched.\<close>

definition cover :: "pause_row list \<Rightarrow> int set" where
  "cover rows = (\<Union>p \<in> set rows. {fst p..<row_end p})"

lemma cover_simps [simp]:
  "cover [] = {}" "cover (p # rows) = {fst p..<row_end p} \<union> cover rows"
  "cover (xs @ ys) = cover xs \<union> cover ys"
  by (auto simp: cover_def)

lemma cover_mem:
  assumes "(sec, d) \<in> set rows" and "d' \<le> d"
  shows "{sec..<sec + d'} \<subseteq> cover rows"
proof -
  have "{sec..<sec + d} \<subseteq> cover rows" using assms(1) by (force simp: cover_def row_end_def)
  moreover have "{sec..<sec + d'} \<subseteq> {sec..<sec + d}" using assms(2) by auto
  ultimately show ?thesis by blast
qed

lemma longest_at_mem:
  "sec \<in> fst ` set rows \<Longrightarrow> positive rows \<Longrightarrow> (sec, longest_at sec rows) \<in> set rows"
proof (induction rows)
  case (Cons p rows)
  show ?case
  proof (cases "fst p = sec \<and> (sec \<notin> fst ` set rows \<or> longest_at sec rows \<le> snd p)")
    case True
    have "longest_at sec rows = 0" if "sec \<notin> fst ` set rows"
      using that by (induction rows) (auto simp: longest_at_def)
    then have "longest_at sec (p # rows) = snd p"
      using True Cons.prems by (auto simp: longest_at_def positive_def)
    then show ?thesis using True by (metis list.set_intros(1) prod.collapse)
  next
    case False
    then have "sec \<in> fst ` set rows" "longest_at sec (p # rows) = longest_at sec rows"
      using Cons.prems by (auto simp: longest_at_def)
    then show ?thesis using Cons by (auto simp: positive_def)
  qed
qed simp

lemma longest_at_upper: "(sec, d) \<in> set rows \<Longrightarrow> d \<le> longest_at sec rows"
  by (induction rows) (auto simp: longest_at_def)

lemma starts_of_set [simp]: "set (starts_of rows) = fst ` set rows"
  by (simp add: starts_of_def)

lemma merge_into_rows:
  assumes "positive src"
  shows "set (merge_into ok src rows) \<subseteq> set rows \<union> set src"
proof
  fix r assume "r \<in> set (merge_into ok src rows)"
  then obtain p where p: "p \<in> set rows"
    "r = (if ok p \<and> fst p \<in> fst ` set src then (fst p, max (snd p) (longest_at (fst p) src)) else p)"
    unfolding merge_into_def set_map image_def by blast
  show "r \<in> set rows \<union> set src"
    using p longest_at_mem [OF _ assms, of "fst p"] by (auto simp: max_def split: if_splits)
qed

text \<open>Merging and inserting together represent every row of the source.\<close>

lemma cover_longest:
  assumes "positive src" and "sec \<in> fst ` set src"
  shows "{sec..<sec + longest_at sec src} \<subseteq> cover src"
  using longest_at_mem [OF assms(2,1)] by (force simp: cover_def row_end_def)

lemma cover_merge:
  assumes "positive src"
  shows "cover rows \<subseteq> cover (merge_into ok src rows)" "cover (merge_into ok src rows) \<subseteq> cover rows \<union> cover src"
proof -
  show "cover (merge_into ok src rows) \<subseteq> cover rows \<union> cover src"
    using merge_into_rows [OF assms] by (fastforce simp: cover_def)
  show "cover rows \<subseteq> cover (merge_into ok src rows)"
    by (fastforce simp: cover_def merge_into_def row_end_def)
qed

lemma merged_covers:
  assumes "p \<in> set rows" and "ok p" and "(fst p, d) \<in> set src"
  shows "{fst p..<fst p + d} \<subseteq> cover (merge_into ok src rows)"
proof -
  have "(fst p, max (snd p) (longest_at (fst p) src)) \<in> set (merge_into ok src rows)"
    unfolding merge_into_def set_map
  proof (rule image_eqI [of _ _ p])
    have "fst p \<in> fst ` set src" using assms(3) by (metis fst_conv image_eqI)
    then show "(fst p, max (snd p) (longest_at (fst p) src)) =
        (if ok p \<and> fst p \<in> fst ` set src then (fst p, max (snd p) (longest_at (fst p) src)) else p)"
      using assms(2) by simp
  qed (rule assms(1))
  moreover have "d \<le> max (snd p) (longest_at (fst p) src)"
    using longest_at_upper [OF assms(3)] by simp
  ultimately show ?thesis by (rule cover_mem)
qed

lemma cover_insert_missing:
  assumes "positive src"
  shows "cover (insert_missing src taken rows) \<subseteq> cover rows \<union> cover src"
    and "cover rows \<subseteq> cover (insert_missing src taken rows)"
    and "(sec, d) \<in> set src \<Longrightarrow> sec \<notin> fst ` set taken \<Longrightarrow>
      {sec..<sec + d} \<subseteq> cover (insert_missing src taken rows)"
    and "set (insert_missing src taken rows) \<subseteq> set rows \<union> set src"
proof -
  show sub: "set (insert_missing src taken rows) \<subseteq> set rows \<union> set src"
    using longest_at_mem [OF _ assms] by (auto simp: insert_missing_def)
  then show "cover (insert_missing src taken rows) \<subseteq> cover rows \<union> cover src"
    by (fastforce simp: cover_def)
  show "cover rows \<subseteq> cover (insert_missing src taken rows)"
    by (auto simp: cover_def insert_missing_def)
  assume m: "(sec, d) \<in> set src" "sec \<notin> fst ` set taken"
  then have "(sec, longest_at sec src) \<in> set (insert_missing src taken rows)"
    by (force simp: insert_missing_def)
  then show "{sec..<sec + d} \<subseteq> cover (insert_missing src taken rows)"
    using longest_at_upper [OF m(1)] by (rule cover_mem)
qed

lemma positive_subset: "positive rows \<Longrightarrow> positive src \<Longrightarrow> set xs \<subseteq> set rows \<union> set src \<Longrightarrow> positive xs"
  by (auto simp: positive_def)

lemma positive_filter [simp]: "positive rows \<Longrightarrow> positive (filter P rows)"
  by (auto simp: positive_def)

text \<open>The pieces of one judgement, named.\<close>

lemma repair_parts:
  assumes "positive pauses" and "positive quar" and "repair_future_pauses now (pauses, quar) = (pauses', quar')"
  defines "h \<equiv> now + pause_repair_future_skew"
  shows "set pauses' \<subseteq> set pauses \<union> set quar" and "set quar' \<subseteq> set pauses \<union> set quar"
    and "\<forall>p \<in> set pauses'. row_end p \<le> h" and "\<forall>q \<in> set quar'. h < row_end q"
    and "cover pauses' \<union> cover quar' = cover pauses \<union> cover quar"
proof -
  define cleared where "cleared = filter (\<lambda>q. row_end q \<le> h) quar"
  define p1 where "p1 = merge_into (\<lambda>p. row_end p \<le> h) cleared pauses"
  define p2 where "p2 = insert_missing cleared (filter (\<lambda>p. row_end p \<le> h) p1) p1"
  define q1 where "q1 = filter (\<lambda>q. \<not> row_end q \<le> h) quar"
  define future where "future = filter (\<lambda>p. row_end p > h) p2"
  define q2 where "q2 = merge_into (\<lambda>_. True) future q1"
  have res: "pauses' = filter (\<lambda>p. \<not> row_end p > h) p2" "quar' = insert_missing future q2 q2"
    using assms(3) unfolding q2_def future_def q1_def p2_def p1_def cleared_def h_def
    by (simp_all add: repair_future_pauses_def Let_def)
  have pos: "positive cleared" "positive q1" using assms(2) by (simp_all add: cleared_def q1_def)
  have s1: "set p1 \<subseteq> set pauses \<union> set quar"
    using merge_into_rows [OF pos(1)] by (auto simp: p1_def cleared_def)
  have s2: "set p2 \<subseteq> set pauses \<union> set quar"
    using cover_insert_missing(4) [OF pos(1)] s1 by (fastforce simp: p2_def cleared_def)
  then have posf: "positive future"
    using positive_subset [OF assms(1,2)] by (auto simp: future_def)
  have sf: "set future \<subseteq> set p2" by (auto simp: future_def)
  have t2: "set q2 \<subseteq> set q1 \<union> set future" unfolding q2_def by (rule merge_into_rows [OF posf])
  have t3: "set quar' \<subseteq> set q1 \<union> set future"
    using cover_insert_missing(4) [OF posf, of q2 q2] t2 by (auto simp: res)
  show "set pauses' \<subseteq> set pauses \<union> set quar" using s2 by (auto simp: res)
  show "set quar' \<subseteq> set pauses \<union> set quar" using t3 sf s2 by (auto simp: q1_def)
  show "\<forall>p \<in> set pauses'. row_end p \<le> h" by (auto simp: res)
  show "\<forall>q \<in> set quar'. h < row_end q" using t3 by (auto simp: q1_def future_def)
  show "cover pauses' \<union> cover quar' = cover pauses \<union> cover quar"
  proof
    show "cover pauses' \<union> cover quar' \<subseteq> cover pauses \<union> cover quar"
      using \<open>set pauses' \<subseteq> set pauses \<union> set quar\<close> \<open>set quar' \<subseteq> set pauses \<union> set quar\<close>
      by (fastforce simp: cover_def)
    have future_in: "cover future \<subseteq> cover quar'"
    proof
      fix x assume "x \<in> cover future"
      then obtain sec d where f: "(sec, d) \<in> set future" "x \<in> {sec..<sec + d}"
        by (auto simp: cover_def row_end_def)
      show "x \<in> cover quar'"
      proof (cases "sec \<in> fst ` set q2")
        case False
        then show ?thesis using subsetD [OF cover_insert_missing(3) [OF posf f(1)] f(2)] by (simp add: res)
      next
        case True
        then obtain r where r: "r \<in> set q2" "fst r = sec" by auto
        then obtain p where p: "p \<in> set q1" "r = (if True \<and> fst p \<in> fst ` set future
            then (fst p, max (snd p) (longest_at (fst p) future)) else p)"
          unfolding q2_def merge_into_def set_map image_def by blast
        then have p: "p \<in> set q1" "fst p = sec" using r(2) by (auto split: if_splits)
        have "(fst p, d) \<in> set future" using f(1) p(2) by simp
        from merged_covers [of p q1 "\<lambda>_. True" d future, OF p(1) _ this]
        have "x \<in> cover q2" using f(2) p(2) by (auto simp: q2_def)
        then show ?thesis using cover_insert_missing(2) [OF posf, of q2 q2] by (auto simp: res)
      qed
    qed
    have p2_in: "cover p2 \<subseteq> cover pauses' \<union> cover quar'"
    proof -
      have "cover p2 \<subseteq> cover pauses' \<union> cover future" by (auto simp: cover_def res future_def)
      then show ?thesis using future_in by blast
    qed
    have cleared_in: "cover cleared \<subseteq> cover p2"
    proof
      fix x assume "x \<in> cover cleared"
      then obtain sec d where f: "(sec, d) \<in> set cleared" "x \<in> {sec..<sec + d}"
        by (auto simp: cover_def row_end_def)
      show "x \<in> cover p2"
      proof (cases "sec \<in> fst ` set (filter (\<lambda>p. row_end p \<le> h) p1)")
        case False
        then show ?thesis using subsetD [OF cover_insert_missing(3) [OF pos(1) f(1)] f(2)] by (simp add: p2_def)
      next
        case True
        then obtain r where r: "r \<in> set p1" "row_end r \<le> h" "fst r = sec" by auto
        then obtain p where p: "p \<in> set pauses"
          "r = (if row_end p \<le> h \<and> fst p \<in> fst ` set cleared
                then (fst p, max (snd p) (longest_at (fst p) cleared)) else p)"
          unfolding p1_def merge_into_def set_map image_def by blast
        have e: "row_end p \<le> h" "fst p = sec"
          using r(2,3) p(2) by (auto split: if_splits)
        have "(fst p, d) \<in> set cleared" using f(1) e(2) by simp
        from merged_covers [of p pauses "\<lambda>p. row_end p \<le> h" d cleared, OF p(1) e(1) this]
        have "x \<in> cover p1" using f(2) e(2) by (auto simp: p1_def)
        then show ?thesis using cover_insert_missing(2) [OF pos(1)] by (auto simp: p2_def)
      qed
    qed
    have "cover q1 \<subseteq> cover quar'"
      using cover_merge(1) [OF posf, of q1] cover_insert_missing(2) [OF posf, of q2 q2]
      by (auto simp: q2_def res)
    moreover have "cover quar \<subseteq> cover cleared \<union> cover q1" by (auto simp: cover_def cleared_def q1_def)
    moreover have "cover pauses \<subseteq> cover p2"
      unfolding p2_def p1_def by (rule subset_trans [OF cover_merge(1) [OF pos(1)] cover_insert_missing(2) [OF pos(1)]])
    ultimately show "cover pauses \<union> cover quar \<subseteq> cover pauses' \<union> cover quar'"
      using p2_in cleared_in by blast
  qed
qed

text \<open>Any number of judgements, each under the clock of its time.\<close>

fun judge :: "int list \<Rightarrow> pause_row list \<times> pause_row list \<Rightarrow> pause_row list \<times> pause_row list" where
  "judge [] tbl = tbl"
| "judge (now # nows) tbl = judge nows (repair_future_pauses now tbl)"

lemma judge_append: "judge (xs @ ys) tbl = judge ys (judge xs tbl)"
  by (induction xs arbitrary: tbl) auto

lemma judge_keeps:
  assumes "positive (fst tbl)" and "positive (snd tbl)"
  shows "set (fst (judge nows tbl)) \<union> set (snd (judge nows tbl)) \<subseteq> set (fst tbl) \<union> set (snd tbl) \<and>
    cover (fst (judge nows tbl)) \<union> cover (snd (judge nows tbl)) = cover (fst tbl) \<union> cover (snd tbl)"
  using assms
proof (induction nows arbitrary: tbl)
  case (Cons now nows)
  obtain p q where t: "tbl = (p, q)" by (cases tbl)
  obtain p' q' where r: "repair_future_pauses now (p, q) = (p', q')" by (metis surj_pair)
  have pos: "positive p" "positive q" using Cons.prems t by simp_all
  note parts = repair_parts [OF pos r]
  have "positive p'" "positive q'" using positive_subset [OF pos] parts(1,2) by auto
  then show ?case using Cons.IH [of "(p', q')"] parts(1,2,5) t r by auto
qed simp

section \<open>Which clock may judge\<close>

text \<open>Uptimes are durations since \<open>Open\<close>; \<open>cg_arm\<close> and \<open>cg_done\<close> are the two generations.\<close>

record clock_guard =
  cg_base :: gtime
  cg_base_up :: duration
  cg_settle_up :: duration
  cg_step_seen :: bool
  cg_vetted :: gtime
  cg_vetted_up :: duration
  cg_arm :: nat
  cg_done :: nat

definition prune_clock_step_slack :: duration where "prune_clock_step_slack = 15 * minute"
definition prune_clock_settle :: duration where "prune_clock_settle = 6 * hour"

text \<open>\<open>now.Round(0)\<close>: without the monotonic reading.\<close>

definition wall_only :: "gtime \<Rightarrow> gtime" where
  "wall_only t = t\<lparr>mono_ns := None\<rparr>"

definition clock_stepped :: "gtime \<Rightarrow> duration \<Rightarrow> clock_guard \<Rightarrow> bool \<times> clock_guard" where
  "clock_stepped now uptime g =
     (let drift = t_sub (wall_only now) (cg_base g) - (uptime - cg_base_up g);
          drift = (if drift < 0 then - drift else drift)
      in if drift > prune_clock_step_slack
         then (True, g\<lparr>cg_base := wall_only now, cg_base_up := uptime,
                       cg_settle_up := uptime + prune_clock_settle, cg_step_seen := True\<rparr>)
         else if uptime < cg_settle_up g then (True, g)
         else if cg_step_seen g
         then (False, g\<lparr>cg_step_seen := False, cg_vetted := wall_only now, cg_vetted_up := uptime,
                        cg_arm := Suc (cg_arm g)\<rparr>)
         else (False, g))"

definition repair_reading :: "duration \<Rightarrow> int \<Rightarrow> clock_guard \<Rightarrow> int option" where
  "repair_reading uptime fallback g =
     (if cg_step_seen g then None
      else if \<not> t_is_zero (cg_vetted g)
      then Some (t_unix (t_add (cg_vetted g) (uptime - cg_vetted_up g)))
      else Some fallback)"

definition pause_repair_armed :: "clock_guard \<Rightarrow> bool" where
  "pause_repair_armed g \<longleftrightarrow> cg_arm g \<noteq> cg_done g"

fun guard_run :: "(gtime \<times> duration) list \<Rightarrow> clock_guard \<Rightarrow> clock_guard" where
  "guard_run [] g = g"
| "guard_run ((now, uptime) # rs) g = guard_run rs (snd (clock_stepped now uptime g))"

definition fresh_guard :: "gtime \<Rightarrow> duration \<Rightarrow> nat \<Rightarrow> clock_guard" where
  "fresh_guard now uptime arm =
     \<lparr>cg_base = wall_only now, cg_base_up = uptime, cg_settle_up = 0, cg_step_seen = False,
      cg_vetted = zero_time, cg_vetted_up = 0, cg_arm = arm, cg_done = 0\<rparr>"

text \<open>The frame in which a repair judges is the frame the guard believes.\<close>

definition guard_ok :: "clock_guard \<Rightarrow> bool" where
  "guard_ok g \<longleftrightarrow> mono_ns (cg_base g) = None \<and> mono_ns (cg_vetted g) = None \<and>
     (\<not> cg_step_seen g \<and> cg_vetted g \<noteq> zero_time \<longrightarrow>
        \<bar>sat64 (wall_ns (cg_vetted g) - wall_ns (cg_base g)) - (cg_vetted_up g - cg_base_up g)\<bar>
          \<le> prune_clock_step_slack)"

lemma clock_stepped_abs:
  "clock_stepped now uptime g =
     (if \<bar>sat64 (wall_ns now - wall_ns (cg_base g)) - (uptime - cg_base_up g)\<bar> > prune_clock_step_slack
      then (True, g\<lparr>cg_base := wall_only now, cg_base_up := uptime,
                    cg_settle_up := uptime + prune_clock_settle, cg_step_seen := True\<rparr>)
      else if uptime < cg_settle_up g then (True, g)
      else if cg_step_seen g
      then (False, g\<lparr>cg_step_seen := False, cg_vetted := wall_only now, cg_vetted_up := uptime,
                     cg_arm := Suc (cg_arm g)\<rparr>)
      else (False, g))"
proof -
  have w: "t_sub (wall_only now) (cg_base g) = sat64 (wall_ns now - wall_ns (cg_base g))"
    by (simp add: t_sub_def t_diff_def wall_only_def)
  show ?thesis unfolding clock_stepped_def w abs_if Let_def by (rule refl)
qed

lemma guard_ok_step:
  assumes "guard_ok g"
  shows "guard_ok (snd (clock_stepped now uptime g))"
proof (cases "\<bar>sat64 (wall_ns now - wall_ns (cg_base g)) - (uptime - cg_base_up g)\<bar> > prune_clock_step_slack")
  case True
  then show ?thesis using assms by (simp add: clock_stepped_abs guard_ok_def wall_only_def)
next
  case False
  have "wall_ns (wall_only now) = wall_ns now" "mono_ns (wall_only now) = None"
    by (simp_all add: wall_only_def)
  then show ?thesis using False assms by (auto simp: clock_stepped_abs guard_ok_def)
qed

lemma guard_ok_run: "guard_ok g \<Longrightarrow> guard_ok (guard_run rs g)"
proof (induction rs arbitrary: g)
  case (Cons r rs)
  then show ?case using guard_ok_step by (cases r) simp
qed simp

lemma guard_ok_fresh: "guard_ok (fresh_guard now uptime arm)"
  by (simp add: guard_ok_def fresh_guard_def wall_only_def zero_time_def)

text \<open>A step parks the judgement for the whole settle window.\<close>

lemma parked_until_settled:
  assumes "cg_step_seen g" and "\<forall>(now, uptime) \<in> set rs. uptime < cg_settle_up g"
    and "\<forall>(now, uptime) \<in> set rs. 0 \<le> uptime" and "sorted (map snd rs)"
    and "\<forall>(now, uptime) \<in> set rs. cg_base_up g \<le> uptime"
    and "cg_settle_up g = cg_base_up g + prune_clock_settle"
  shows "cg_step_seen (guard_run rs g) \<and> cg_arm (guard_run rs g) = cg_arm g"
  using assms
proof (induction rs arbitrary: g)
  case (Cons r rs)
  obtain now uptime where r: "r = (now, uptime)" by (cases r)
  let ?g = "snd (clock_stepped now uptime g)"
  have parked: "cg_step_seen ?g \<and> cg_arm ?g = cg_arm g \<and>
      (?g = g \<or> (cg_base_up ?g = uptime \<and> cg_settle_up ?g = uptime + prune_clock_settle))"
    using Cons.prems(1,2) r by (simp add: clock_stepped_def Let_def)
  have le: "uptime \<le> snd y" if "y \<in> set rs" for y
    using Cons.prems(4) r that by auto
  have "\<forall>(now, up) \<in> set rs. up < cg_settle_up ?g"
    using parked Cons.prems(2,5,6) r by fastforce
  moreover have "\<forall>(now, up) \<in> set rs. cg_base_up ?g \<le> up"
    using parked Cons.prems(5) le r by fastforce
  ultimately show ?case
    using Cons.IH [of ?g] parked Cons.prems r by auto
qed simp

end
