(* ===== verification/Store.thy ===== *)
theory Store
  imports SampleBuf OutageList PauseRepair
begin

text \<open>
  The write side of \<open>internal/store/store.go\<close>: the probe rounds and DNS readings, the events
  and the pauses, and the two reads the monitor asks for (\<open>LastObservedTS\<close> and
  \<open>monitoringSince\<close>).

  A call that the code runs against the database is a \<open>call\<close>: an error or a value, and the
  store it leaves.  What the environment decides is gathered in \<open>world\<close>: the reading of
  \<open>time.Now\<close> the call takes (in seconds), the store's uptime, and what a save inside the
  call meets.
\<close>

record store = bstore +
  st_live :: outages
  st_guard :: clock_guard
  st_quar :: "pause_row list"
  st_speed_spans :: "(int \<times> int) list"

record world =
  w_now :: int
  w_uptime :: duration
  w_save :: save_env
  w_cancelled :: bool

section \<open>Which rows are believable\<close>

definition plausible_epoch :: int where "plausible_epoch = 1672531200"
definition max_pause_duration :: int where "max_pause_duration = 10 * 365 * 24 * 3600"
definition pause_future_skew :: int where "pause_future_skew = 5 * 60"
definition max_int64 :: int where "max_int64 = 9223372036854775807"

definition pause_span_bounded :: "int \<Rightarrow> int \<Rightarrow> bool" where
  "pause_span_bounded ts dur =
     (if dur \<le> 0 then False
      else if ts < plausible_epoch then False
      else if dur > max_pause_duration then False
      else ts \<le> max_int64 - max_pause_duration)"

definition pause_span_sane :: "int \<Rightarrow> int \<Rightarrow> int \<Rightarrow> bool" where
  "pause_span_sane now ts dur =
     (if \<not> pause_span_bounded ts dur then False else ts + dur \<le> now + pause_future_skew)"

definition pause_span_importable :: "int \<Rightarrow> int \<Rightarrow> int \<Rightarrow> bool" where
  "pause_span_importable ts dur now =
     (if \<not> pause_span_bounded ts dur then False
      else if now < plausible_epoch then True
      else ts + dur \<le> now + pause_future_skew)"

definition max_speed_span :: int where "max_speed_span = 3600"

definition speed_span_sane :: "int \<Rightarrow> int \<Rightarrow> int \<Rightarrow> bool" where
  "speed_span_sane ts dur now \<longleftrightarrow>
     ts \<ge> plausible_epoch \<and> dur \<ge> 1 \<and> dur \<le> max_speed_span \<and> ts + dur \<le> now + pause_future_skew"

section \<open>The deferred pause repair\<close>

definition maybe_repair_future_pauses :: "world \<Rightarrow> store \<Rightarrow> store" where
  "maybe_repair_future_pauses w s =
     (if \<not> pause_repair_armed (st_guard s) then s
      else case repair_reading (w_uptime w) (w_now w) (st_guard s) of
        None \<Rightarrow> s
      | Some now \<Rightarrow>
          if now < plausible_epoch then s
          else (case db_exec s of
             (Some e, s) \<Rightarrow> record_db_err (Some e) s
           | (None, s) \<Rightarrow>
               let (pauses, quar) = repair_future_pauses now (t_pauses s, st_quar s);
                   (moved, added, merged) = repair_counts now (t_pauses s, st_quar s);
                   s = s\<lparr>t_pauses := pauses, st_quar := quar\<rparr>;
                   s = (if moved > 0 then on_reg (stats_add ''db.pause_rows_repaired'' moved) s else s);
                   s = (if added > 0 then on_reg (stats_add ''db.pause_rows_restored'' added) s else s);
                   s = (if merged > 0 then on_reg (stats_add ''db.pause_rows_merged'' merged) s else s)
               in s\<lparr>st_guard := (st_guard s)\<lparr>cg_done := cg_arm (st_guard s)\<rparr>\<rparr>))"

section \<open>Samples and DNS readings\<close>

text \<open>The direct write of a round: a failure to open the transaction or to prepare is not
  counted, one of the rows or of the commit is.\<close>

definition write_samples :: "sample list \<Rightarrow> store \<Rightarrow> db_error option \<times> store" where
  "write_samples sms s = (case db_exec s of
     (Some e, s) \<Rightarrow> (Some e, s)
   | (None, s) \<Rightarrow> (case db_exec s of
        (Some e, s) \<Rightarrow> (Some e, record_db_err (Some e) s)
      | (None, s) \<Rightarrow> (None, s\<lparr>t_samples := t_samples s @ map sample_row_of sms\<rparr>)))"

definition insert_samples :: "world \<Rightarrow> sample list \<Rightarrow> store \<Rightarrow> save_error option \<times> store" where
  "insert_samples w sms s =
     (let s = maybe_repair_future_pauses w s in
      if sms = [] then (None, s)
      else case hold_round sms (w_cancelled w) (w_save w) s of
        ((True, r), s) \<Rightarrow> (r, s)
      | ((False, r), s) \<Rightarrow>
          (case write_samples sms s of (e, s) \<Rightarrow> (map_option SaveFailed e, s)))"

definition insert_dns :: "world \<Rightarrow> gtime \<Rightarrow> rat \<Rightarrow> bool \<Rightarrow> store \<Rightarrow> save_error option \<times> store" where
  "insert_dns w ts ms ok s = (case hold_dns ts ms ok (w_cancelled w) (w_save w) s of
     ((True, r), s) \<Rightarrow> (r, s)
   | ((False, r), s) \<Rightarrow> (case db_exec s of
        (Some e, s) \<Rightarrow> (Some (SaveFailed e), record_db_err (Some e) s)
      | (None, s) \<Rightarrow> (None, s\<lparr>t_dns := t_dns s @ [dns_row_of ts ms ok]\<rparr>)))"

section \<open>Pauses and speed spans\<close>

text \<open>The answer is whether the row was stored, and the error.\<close>

definition insert_pause :: "world \<Rightarrow> int \<Rightarrow> int \<Rightarrow> store \<Rightarrow> (bool \<times> db_error option) \<times> store" where
  "insert_pause w start dur s =
     (let s = maybe_repair_future_pauses w s in
      if \<not> pause_span_sane (w_now w) start dur then ((False, None), s)
      else let s = snd (save_buffered SaveOrder (w_save w) s) in
        (case db_exec s of
           (Some e, s) \<Rightarrow> ((False, Some e), record_db_err (Some e) s)
         | (None, s) \<Rightarrow> ((True, None), s\<lparr>t_pauses := t_pauses s @ [(start, dur)]\<rparr>)))"

definition insert_speed_span :: "world \<Rightarrow> int \<Rightarrow> int \<Rightarrow> store \<Rightarrow> (bool \<times> db_error option) \<times> store" where
  "insert_speed_span w start dur0 s =
     (let dur = (if dur0 > max_speed_span then max_speed_span else dur0) in
      if \<not> speed_span_sane start dur (w_now w) then ((False, None), s)
      else let s = snd (save_buffered SaveOrder (w_save w) s) in
        (case db_exec s of
           (Some e, s) \<Rightarrow> ((False, Some e), record_db_err (Some e) s)
         | (None, s) \<Rightarrow> ((True, None), s\<lparr>st_speed_spans := st_speed_spans s @ [(start, dur)]\<rparr>)))"

text \<open>\<open>SpeedSpans\<close>: the rows overlapping the window in order, any two \<open>merge\<close> seconds apart
  or closer as one; \<open>None\<close> for \<open>until\<close> is the zero time.\<close>

fun join_near :: "int \<Rightarrow> (int \<times> int) list \<Rightarrow> (int \<times> int) list" where
  "join_near k ((a, b) # (c, d) # rest) =
     (if c \<le> b + k then join_near k ((a, max b d) # rest) else (a, b) # join_near k ((c, d) # rest))"
| "join_near k spans = spans"

definition speed_spans :: "int \<Rightarrow> int \<Rightarrow> int option \<Rightarrow> int \<Rightarrow> (store, db_error, (int \<times> int) list) call" where
  "speed_spans now since until merge s =
     (let hi = (case until of None \<Rightarrow> current_horizon now | Some u \<Rightarrow> u) in
      case db_exec s of
        (Some e, s) \<Rightarrow> (Inl e, record_db_err (Some e) s)
      | (None, s) \<Rightarrow>
          (Inr (join_near merge (map (\<lambda>(ts, d). (ts, ts + d)) (sort_key fst
             (filter (\<lambda>(ts, d). ts \<ge> since - max_speed_span \<and> ts < hi \<and> ts + d > since)
               (st_speed_spans s))))), s))"

section \<open>Events\<close>

text \<open>\<open>insertEvent\<close> refuses an unreadable type and drops an impossible length, never the
  transition itself.  The refusal's text is abbreviated.\<close>

definition insert_event_row ::
  "world \<Rightarrow> int \<Rightarrow> string \<Rightarrow> int \<Rightarrow> string \<Rightarrow> store \<Rightarrow> db_error option \<times> store" where
  "insert_event_row w ts kind dur detail s =
     (if kind \<noteq> ''down'' \<and> kind \<noteq> ''up'' then (Some (DbMsg ''insert event: unknown type''), s)
      else let too_long = (dur \<ge> 0 \<and> dur > max_pause_duration);
               s = (if too_long then on_reg (stats_inc ''db.event_duration_dropped'') s else s);
               d = (if dur \<ge> 0 \<and> \<not> too_long then Some dur else None);
               s = snd (save_buffered SaveOrder (w_save w) s) in
        (case db_exec s of
           (Some e, s) \<Rightarrow> (Some e, record_db_err (Some e) s)
         | (None, s) \<Rightarrow>
             (None, s\<lparr>t_events := t_events s @
                [\<lparr>ev_ts = ts, ev_type = kind, ev_dur = d, ev_detail = detail\<rparr>]\<rparr>)))"

text \<open>\<open>InsertEvent\<close>, the monitor's door: with the list of its outages.\<close>

definition insert_event ::
  "world \<Rightarrow> int \<Rightarrow> string \<Rightarrow> int \<Rightarrow> string \<Rightarrow> store \<Rightarrow> db_error option \<times> store" where
  "insert_event w ts kind dur detail s =
     (let s = (if kind = ''down'' then s\<lparr>st_live := ol_opened ts (w_now w) (st_live s)\<rparr> else s);
          (err, s) = insert_event_row w ts kind dur detail s
      in (err, if err = None then s\<lparr>st_live := ol_landed kind ts (st_live s)\<rparr> else s))"

definition readable :: "event_row \<Rightarrow> bool" where
  "readable e \<longleftrightarrow> ev_type e = ''down'' \<or> ev_type e = ''up''"

section \<open>Where the history begins and ends\<close>

definition max_of :: "int list \<Rightarrow> int option" where
  "max_of xs = (if xs = [] then None else Some (foldr max (tl xs) (hd xs)))"

definition min_of :: "int list \<Rightarrow> int option" where
  "min_of xs = (if xs = [] then None else Some (foldr min (tl xs) (hd xs)))"

definition save_for_read :: "world \<Rightarrow> (store, db_error, unit) call" where
  "save_for_read w s = (Inr (), snd (save_buffered SaveRead (w_save w) s))"

definition query :: "(store \<Rightarrow> 'a) \<Rightarrow> (store, db_error, 'a) call" where
  "query f s = (case db_exec s of (Some e, s) \<Rightarrow> (Inl e, s) | (None, s) \<Rightarrow> (Inr (f s), s))"

definition last_observed :: "int \<Rightarrow> store \<Rightarrow> int option" where
  "last_observed now s =
     max_of (filter (\<lambda>t. t \<ge> plausible_epoch \<and> t \<le> now) (map sr_ts (t_samples s)) @
             filter (\<lambda>t. t \<ge> plausible_epoch \<and> t \<le> now) (map ev_ts (filter readable (t_events s))) @
             map row_end (filter (\<lambda>p. fst p \<ge> plausible_epoch \<and> fst p \<le> now) (t_pauses s)))"

definition last_observed_ts :: "world \<Rightarrow> (store, db_error, int option) call" where
  "last_observed_ts w = andthen (save_for_read w) (\<lambda>_. query (last_observed (w_now w)))"

definition first_seen_key :: string where "first_seen_key = ''first_seen_ts''"

definition first_recorded :: "store \<Rightarrow> int option" where
  "first_recorded s =
     min_of (filter (\<lambda>t. t \<ge> plausible_epoch) (map sr_ts (t_samples s)) @
             filter (\<lambda>t. t \<ge> plausible_epoch) (map ev_ts (filter readable (t_events s))))"

definition remember_anchor :: "int \<Rightarrow> store \<Rightarrow> store" where
  "remember_anchor anchor s = (case db_exec s of
     (Some e, s) \<Rightarrow> record_db_err (Some e) s
   | (None, s) \<Rightarrow> s\<lparr>t_settings := (t_settings s)(first_seen_key \<mapsto> int_text anchor)\<rparr>)"

definition monitoring_since :: "world \<Rightarrow> int \<Rightarrow> (store, db_error, int) call" where
  "monitoring_since w now =
     andthen (save_for_read w) (\<lambda>_.
     andthen (query first_recorded) (\<lambda>first.
     andthen (query (\<lambda>s. t_settings s first_seen_key)) (\<lambda>v s.
       let anchor = (case first of Some t \<Rightarrow> if t < now then t else now | None \<Rightarrow> now);
           stored = (case v of None \<Rightarrow> 0
             | Some txt \<Rightarrow> (case parse_int txt of None \<Rightarrow> 0
                 | Some n \<Rightarrow> if n \<ge> plausible_epoch \<and> n \<le> now then n else 0));
           anchor = (if stored \<noteq> 0 \<and> stored < anchor then stored else anchor);
           s = (if anchor \<ge> plausible_epoch \<and> anchor < now \<and> (stored = 0 \<or> anchor < stored)
                then remember_anchor anchor s else s)
       in (Inr anchor, s))))"

definition install_born_at :: "store \<Rightarrow> int \<times> store" where
  "install_born_at s = (case query (\<lambda>s. t_settings s first_seen_key) s of
     (Inr (Some txt), s) \<Rightarrow> (parse_int_lax txt, s)
   | (_, s) \<Rightarrow> (0, s))"

end
