(* ===== verification/StoreFacts.thy ===== *)
theory StoreFacts
  imports Store
begin

text \<open>
  What the write doors of the store promise their callers: a save touches no event, no pause and
  no setting, and a door either leaves exactly its row behind or, with an error, leaves its table
  as it was.
\<close>

section \<open>A save leaves the record alone\<close>

text \<open>Everything a save of probe readings has no business with.\<close>

definition record_of ::
  "'a bstore_scheme \<Rightarrow> event_row list \<times> (int \<times> int) list \<times> (string \<Rightarrow> string option) \<times> 'a" where
  "record_of d = (t_events d, t_pauses d, t_settings d, bstore.more d)"

lemma record_on_reg [simp]: "record_of (on_reg f d) = record_of d"
  by (simp add: record_of_def on_reg_def)

lemma record_bf [simp]:
  "record_of (disarm d) = record_of d" "record_of (arm due r d) = record_of d"
  "record_of (arm_oldest every r d) = record_of d" "record_of (note_dropped n d) = record_of d"
  "record_of (say_drop n d) = record_of d" "record_of (reader_gave_up now d) = record_of d"
  "record_of (leave_gate d) = record_of d" "record_of (invalidate_read_caches d) = record_of d"
  "record_of (add_waiting n d) = record_of d"
  by (simp_all add: record_of_def disarm_def arm_def arm_oldest_def note_dropped_def say_drop_def
      reader_gave_up_def leave_gate_def invalidate_read_caches_def add_waiting_def on_reg_def Let_def
      split: option.split)

lemma record_drop [simp]: "record_of (snd (drop_oldest keep d)) = record_of d"
proof (cases "drop_loop (bf_rounds d) (bf_dns d) (bf_rows d) keep 0")
  case (fields rs ds rows k)
  have "record_of (d\<lparr>bf_rounds := rs, bf_dns := ds, bf_rows := rows\<rparr>) = record_of d"
    by (simp add: record_of_def)
  then show ?thesis using fields by (simp add: drop_oldest_def Let_def)
qed

lemma record_put_back [simp]: "record_of (snd (put_back rs ds n d)) = record_of d"
proof -
  have "record_of (d\<lparr>bf_rounds := x, bf_dns := y, bf_rows := z\<rparr>) = record_of d" for x y z
    by (simp add: record_of_def)
  then show ?thesis by (simp add: put_back_def)
qed

lemma record_exec [simp]: "record_of (snd (db_exec d)) = record_of d"
  by (simp add: record_of_def db_exec_def split: list.splits)

lemma record_db_err_frame' [simp]: "record_of (record_db_err e d) = record_of d"
  by (simp add: record_db_err_def Let_def split: option.splits)

lemma exec_record: "db_exec d = (e, d') \<Longrightarrow> record_of d' = record_of d"
  using record_exec [of d] by simp

lemma record_write_held [simp]: "record_of (snd (write_held rs ds b d)) = record_of d"
proof -
  obtain e1 d1 where 1: "db_exec d = (e1, d1)" by (cases "db_exec d")
  obtain e2 d2 where 2: "db_exec d1 = (e2, d2)" by (cases "db_exec d1")
  have "record_of d1 = record_of d" "record_of d2 = record_of d"
    using exec_record [OF 1] exec_record [OF 2] by simp_all
  moreover have "record_of (d2\<lparr>t_samples := x, t_dns := y\<rparr>) = record_of d2" for x y
    by (simp add: record_of_def)
  ultimately show ?thesis by (cases e1; cases e2) (simp_all add: write_held_def 1 2)
qed

lemma record_run_save [simp]: "record_of (snd (run_save rs ds b d)) = record_of d"
proof -
  obtain e1 d1 where 1: "db_exec d = (e1, d1)" by (cases "db_exec d")
  obtain e2 d2 where 2: "db_exec d1 = (e2, d2)" by (cases "db_exec d1")
  show ?thesis
    using exec_record [OF 1] exec_record [OF 2] by (cases e1; cases e2) (simp_all add: run_save_def 1 2)
qed

lemma record_settle [simp]: "record_of (snd (save_settle reason every now rs ds n err d)) = record_of d"
proof -
  have u: "record_of (d\<lparr>bf_quiet := q, bf_failing := f, bf_missed := m\<rparr>) = record_of d"
    "record_of (d\<lparr>bf_quiet := q, bf_failing := f, bf_missed := m, bf_drop_said := s\<rparr>) = record_of d"
    for q f m s d
    by (simp_all add: record_of_def)
  obtain k d1 where pb: "put_back rs ds n d = (k, d1)" by (cases "put_back rs ds n d")
  then have d1: "record_of d1 = record_of d" using record_put_back [of rs ds n d] by simp
  show ?thesis
  proof (cases err)
    case None
    then show ?thesis by (simp add: save_settle_def Let_def u)
  next
    case (Some e)
    then show ?thesis by (simp add: save_settle_def Let_def pb u d1)
  qed
qed

lemma record_begin [simp]: "record_of (snd (save_begin reason now got d)) = record_of d"
proof -
  have u: "record_of (d\<lparr>bf_missed := m\<rparr>) = record_of d" "record_of (d\<lparr>bf_gate := g\<rparr>) = record_of d"
    "record_of (d\<lparr>bf_gate := g, bf_rounds := x, bf_dns := y, bf_rows := z\<rparr>) = record_of d"
    "record_of (d\<lparr>bf_gate := g, bf_missed := m\<rparr>) = record_of d" for m g x y z d
    by (simp_all add: record_of_def)
  show ?thesis by (simp add: save_begin_def enter_gate_def Let_def u)
qed

lemma record_save [simp]: "record_of (snd (save_buffered reason en d)) = record_of d"
proof -
  obtain st d1 where b: "save_begin reason (en_now en) (en_gate en) d = (st, d1)" by (metis surj_pair)
  have d1: "record_of d1 = record_of d" using record_begin [of reason "en_now en" "en_gate en" d] by (simp add: b)
  show ?thesis
  proof (cases st)
    case (Took rs ds n)
    obtain err d2 where r: "run_save rs ds (for_reader reason) d1 = (err, d2)" by (metis surj_pair)
    obtain x d3 where s: "save_settle reason (save_every (en_every en)) (en_then en) rs ds n err d2 = (x, d3)"
      by (metis surj_pair)
    have "record_of d2 = record_of d1" using record_run_save [of rs ds "for_reader reason" d1] by (simp add: r)
    moreover have "record_of d3 = record_of d2"
      using record_settle [of reason "save_every (en_every en)" "en_then en" rs ds n err d2] by (simp add: s)
    ultimately show ?thesis using d1 by (simp add: save_buffered_def b Took r s)
  qed (simp add: save_buffered_def b d1)
qed

lemma save_keeps [simp]:
  fixes s :: store
  shows "t_events (snd (save_buffered reason en s)) = t_events s"
    and "t_pauses (snd (save_buffered reason en s)) = t_pauses s"
    and "st_guard (snd (save_buffered reason en s)) = st_guard s"
    and "st_live (snd (save_buffered reason en s)) = st_live s"
    and "st_quar (snd (save_buffered reason en s)) = st_quar s"
proof -
  let ?s = "snd (save_buffered reason en s)"
  have "record_of ?s = record_of s" by simp
  then have r: "t_events ?s = t_events s" "t_pauses ?s = t_pauses s" "bstore.more ?s = bstore.more s"
    by (simp_all add: record_of_def)
  then show "t_events ?s = t_events s" "t_pauses ?s = t_pauses s" by simp_all
  show "st_guard ?s = st_guard s" "st_live ?s = st_live s" "st_quar ?s = st_quar s"
    using r(3) by (cases ?s; cases s; simp)+
qed

section \<open>The doors\<close>

text \<open>The row \<open>InsertEvent\<close> writes.\<close>

definition event_row_of :: "int \<Rightarrow> string \<Rightarrow> int \<Rightarrow> string \<Rightarrow> event_row" where
  "event_row_of ts kind dur detail =
     \<lparr>ev_ts = ts, ev_type = kind,
      ev_dur = (if 0 \<le> dur \<and> dur \<le> max_pause_duration then Some dur else None), ev_detail = detail\<rparr>"

lemma insert_event_row_law:
  assumes "insert_event_row w ts kind dur detail s = (err, s')"
  shows "t_events s' = t_events s @ (if err = None then [event_row_of ts kind dur detail] else [])"
    and "t_pauses s' = t_pauses s" and "st_live s' = st_live s"
    and "err = None \<Longrightarrow> kind = ''down'' \<or> kind = ''up''"
proof -
  let ?long = "0 \<le> dur \<and> dur > max_pause_duration"
  define s1 where "s1 = (if ?long then on_reg (stats_inc ''db.event_duration_dropped'') s else s)"
  define s2 where "s2 = snd (save_buffered SaveOrder (w_save w) s1)"
  have s2: "t_events s2 = t_events s" "t_pauses s2 = t_pauses s" "st_live s2 = st_live s"
    by (simp_all add: s2_def s1_def on_reg_def)
  obtain e s3 where ex: "db_exec s2 = (e, s3)" by (cases "db_exec s2")
  have s3: "t_events s3 = t_events s" "t_pauses s3 = t_pauses s" "st_live s3 = st_live s"
    using db_exec_frame(3,4) [of s2] s2 ex by (auto simp: db_exec_def split: list.splits)
  have live: "st_live (record_db_err x y) = st_live y" for x and y :: store
    by (simp add: record_db_err_def Let_def on_reg_def split: option.split)
  consider "kind \<noteq> ''down'' \<and> kind \<noteq> ''up''" | "kind = ''down'' \<or> kind = ''up''" by blast
  then have "t_events s' = t_events s @ (if err = None then [event_row_of ts kind dur detail] else []) \<and>
    t_pauses s' = t_pauses s \<and> st_live s' = st_live s \<and> (err = None \<longrightarrow> kind = ''down'' \<or> kind = ''up'')"
  proof cases
    case 1
    then show ?thesis using assms by (auto simp: insert_event_row_def)
  next
    case 2
    have eq: "insert_event_row w ts kind dur detail s = (case e of
        Some x \<Rightarrow> (Some x, record_db_err (Some x) s3)
      | None \<Rightarrow> (None, s3\<lparr>t_events := t_events s3 @ [event_row_of ts kind dur detail]\<rparr>))"
      using 2 unfolding insert_event_row_def Let_def s1_def [symmetric] s2_def [symmetric] ex
      by (auto simp: event_row_of_def split: option.split)
    show ?thesis
      using 2 assms s3 live unfolding eq by (cases e) auto
  qed
  then show "t_events s' = t_events s @ (if err = None then [event_row_of ts kind dur detail] else [])"
    and "t_pauses s' = t_pauses s" and "st_live s' = st_live s"
    and "err = None \<Longrightarrow> kind = ''down'' \<or> kind = ''up''" by blast+
qed

lemma insert_event_law:
  assumes "insert_event w ts kind dur detail s = (err, s')"
  shows "t_events s' = t_events s @ (if err = None then [event_row_of ts kind dur detail] else [])"
    and "t_pauses s' = t_pauses s"
proof -
  define s0 where "s0 = (if kind = ''down'' then s\<lparr>st_live := ol_opened ts (w_now w) (st_live s)\<rparr> else s)"
  obtain e s1 where row: "insert_event_row w ts kind dur detail s0 = (e, s1)" by (metis surj_pair)
  have "err = e" "s' = (if e = None then s1\<lparr>st_live := ol_landed kind ts (st_live s1)\<rparr> else s1)"
    using assms by (auto simp: insert_event_def Let_def s0_def [symmetric] row)
  moreover have "t_events s0 = t_events s" "t_pauses s0 = t_pauses s" by (simp_all add: s0_def)
  ultimately show "t_events s' = t_events s @ (if err = None then [event_row_of ts kind dur detail] else [])"
    and "t_pauses s' = t_pauses s"
    using insert_event_row_law [OF row] by simp_all
qed

lemma maybe_repair_unarmed: "\<not> pause_repair_armed (st_guard s) \<Longrightarrow> maybe_repair_future_pauses w s = s"
  by (simp add: maybe_repair_future_pauses_def)

lemma insert_pause_law:
  assumes "insert_pause w start dur s = ((stored, err), s')" and "\<not> pause_repair_armed (st_guard s)"
  shows "t_pauses s' = t_pauses s @ (if stored then [(start, dur)] else [])"
    and "t_events s' = t_events s" and "st_guard s' = st_guard s"
    and "stored \<Longrightarrow> err = None \<and> pause_span_sane (w_now w) start dur"
    and "\<not> stored \<Longrightarrow> err = None \<Longrightarrow> \<not> pause_span_sane (w_now w) start dur"
proof -
  define s2 where "s2 = snd (save_buffered SaveOrder (w_save w) s)"
  have s2: "t_events s2 = t_events s" "t_pauses s2 = t_pauses s" "st_guard s2 = st_guard s"
    by (simp_all add: s2_def)
  obtain e s3 where ex: "db_exec s2 = (e, s3)" by (cases "db_exec s2")
  have s3: "t_events s3 = t_events s" "t_pauses s3 = t_pauses s" "st_guard s3 = st_guard s"
    using s2 ex by (auto simp: db_exec_def split: list.splits)
  have g: "st_guard (record_db_err x y) = st_guard y" for x and y :: store
    by (simp add: record_db_err_def Let_def on_reg_def split: option.split)
  have "t_pauses s' = t_pauses s @ (if stored then [(start, dur)] else []) \<and>
    t_events s' = t_events s \<and> st_guard s' = st_guard s \<and>
    (stored \<longrightarrow> err = None \<and> pause_span_sane (w_now w) start dur) \<and>
    (\<not> stored \<longrightarrow> err = None \<longrightarrow> \<not> pause_span_sane (w_now w) start dur)"
  proof (cases "pause_span_sane (w_now w) start dur")
    case False
    then show ?thesis using assms by (auto simp: insert_pause_def maybe_repair_unarmed)
  next
    case True
    have eq: "insert_pause w start dur s = (case e of
        Some x \<Rightarrow> ((False, Some x), record_db_err (Some x) s3)
      | None \<Rightarrow> ((True, None), s3\<lparr>t_pauses := t_pauses s3 @ [(start, dur)]\<rparr>))"
      using True by (simp add: insert_pause_def maybe_repair_unarmed [OF assms(2)] s2_def [symmetric] ex
          Let_def split: option.split)
    show ?thesis using assms(1) True s3 g unfolding eq by (cases e) auto
  qed
  then show "t_pauses s' = t_pauses s @ (if stored then [(start, dur)] else [])"
    and "t_events s' = t_events s" and "st_guard s' = st_guard s"
    and "stored \<Longrightarrow> err = None \<and> pause_span_sane (w_now w) start dur"
    and "\<not> stored \<Longrightarrow> err = None \<Longrightarrow> \<not> pause_span_sane (w_now w) start dur" by blast+
qed

end
