(* ===== verification/Uptime.thy ===== *)
theory Uptime
  imports Store Spans "HOL-Library.AList"
begin

text \<open>
  The uptime figures of \<open>internal/store/store.go\<close>: from the recorded events, pauses and
  samples to one \<open>Observation\<close> (\<open>UptimeSince\<close>) and to the count and length of the resolved
  outages (\<open>ResolvedOutagesSince\<close>).  Queries read the tables in the order the code issues
  them; each may fail.  Times are seconds.
\<close>

section \<open>The first second a quorum returned\<close>

definition ends_with :: "string \<Rightarrow> string \<Rightarrow> bool" where
  "ends_with suf txt \<longleftrightarrow> starts_with (rev suf) (rev txt)"

text \<open>\<open>famExpr\<close>: rows of an older version have no family; \<open>LIKE\<close> ignores ASCII case.\<close>

definition fam_expr :: "sample_row \<Rightarrow> string" where
  "fam_expr r = (case sr_family r of
     Some f \<Rightarrow> if f = [] then (if ends_with ''-v6'' (map lower_char (sr_target r)) then ''ipv6'' else ''ipv4'') else f
   | None \<Rightarrow> if ends_with ''-v6'' (map lower_char (sr_target r)) then ''ipv6'' else ''ipv4'')"

definition group_up :: "sample_row list \<Rightarrow> int \<Rightarrow> string \<Rightarrow> bool" where
  "group_up rows sec fam =
     (let grp = filter (\<lambda>r. sr_ts r = sec \<and> fam_expr r = fam) rows
      in length (filter sr_ok grp) * 2 > length grp)"

definition quorum_at :: "sample_row list \<Rightarrow> int \<Rightarrow> bool" where
  "quorum_at rows sec \<longleftrightarrow> list_ex (\<lambda>r. sr_ts r = sec \<and> group_up rows sec (fam_expr r)) rows"

definition first_up :: "sample_row list \<Rightarrow> int \<Rightarrow> int \<Rightarrow> int option" where
  "first_up rows lo hi =
     min_of (filter (\<lambda>t. lo < t \<and> t \<le> hi \<and> quorum_at rows t) (map sr_ts rows))"

definition rec_frontier_slack :: int where "rec_frontier_slack = 300"

definition memo_of :: "store \<Rightarrow> int \<Rightarrow> int \<times> int" where
  "memo_of s after = (case map_of (rec_cache s) after of None \<Rightarrow> (0, 0) | Some m \<Rightarrow> m)"

definition publish :: "nat \<Rightarrow> int \<Rightarrow> int \<times> int \<Rightarrow> bool \<Rightarrow> store \<Rightarrow> store" where
  "publish gen after memo store_it s =
     (if rec_gen s \<noteq> gen then s
      else let s = (if length (rec_cache s) > 256 then s\<lparr>rec_cache := []\<rparr> else s)
           in if store_it then s\<lparr>rec_cache := AList.update after memo (rec_cache s)\<rparr> else s)"

text \<open>The scan walks forward in chunks of 3600, 7200, ... seconds.  \<open>front\<close> is the memo's
  frontier when the scan began.\<close>

function rec_scan ::
  "nat \<Rightarrow> int \<Rightarrow> int \<Rightarrow> int \<Rightarrow> int \<Rightarrow> nat \<Rightarrow> (store, db_error, int option) call" where
  "rec_scan gen after before front lo k s =
     (if lo < before then
        let hi = min before (lo + 3600 * 2 ^ k); safe = before - rec_frontier_slack in
        (case query (\<lambda>s. first_up (t_samples s) lo hi) s of
           (Inl e, s) \<Rightarrow> (Inl e, s)
         | (Inr (Some r), s) \<Rightarrow> (Inr (Some r), publish gen after (hi, r) (r \<le> safe) s)
         | (Inr None, s) \<Rightarrow>
             rec_scan gen after before front hi (Suc k)
               (publish gen after (if hi \<le> safe then hi else safe, 0) (hi \<le> safe \<or> safe > front) s))
      else (Inr None, s))"
  by pat_completeness auto
termination
proof (relation "measure (\<lambda>(gen, after, before, front, lo, k, s). nat (before - lo))", goal_cases)
  case (2 gen after before front lo k s)
  have "(0::int) < 3600 * 2 ^ k" by simp
  with 2 show ?case by (simp add: min_def)
qed simp

declare rec_scan.simps [simp del]

definition first_quorum_recovery :: "world \<Rightarrow> int \<Rightarrow> int \<Rightarrow> (store, db_error, int option) call" where
  "first_quorum_recovery w after before =
     andthen (save_for_read w) (\<lambda>_ s.
       let (front, r) = memo_of s after in
       if r \<noteq> 0 then (Inr (if r \<le> before then Some r else None), s)
       else rec_scan (rec_gen s) after before front (if front > after then front else after) 0 s)"

definition newest_sample_at :: "world \<Rightarrow> int \<Rightarrow> (store, db_error, int option) call" where
  "newest_sample_at w now =
     andthen (save_for_read w) (\<lambda>_.
       query (\<lambda>s. map_option (\<lambda>v. if v > now then now else v) (max_of (map sr_ts (t_samples s)))))"

section \<open>Pauses\<close>

text \<open>\<open>pauseSpans\<close>: the rows that meet the window, clamped to it, as a merged union.\<close>

definition pause_spans_of :: "pause_row list \<Rightarrow> int \<Rightarrow> int \<Rightarrow> span list" where
  "pause_spans_of rows from til =
     (if til \<le> from then []
      else merge_spans (filter (\<lambda>(a, b). b > a)
             (map (\<lambda>(ts, d). (max ts from, min (ts + d) til))
               (sort_key fst (filter (\<lambda>(ts, d). ts < til \<and> ts + d > from) rows)))))"

definition pause_spans :: "int \<Rightarrow> int \<Rightarrow> (store, db_error, span list) call" where
  "pause_spans from til =
     (if til \<le> from then ret [] else query (\<lambda>s. pause_spans_of (t_pauses s) from til))"

definition paused_overlap :: "int \<Rightarrow> int \<Rightarrow> (store, db_error, int) call" where
  "paused_overlap from til =
     (if til \<le> from then ret 0
      else andthen (pause_spans from til) (\<lambda>spans. ret (span_overlap spans from til)))"

section \<open>Outages from the events\<close>

text \<open>\<open>ORDER BY ts\<close>, a 'down' before an 'up' of the same second.\<close>

definition event_key :: "event_row \<Rightarrow> int" where
  "event_key e = 2 * ev_ts e + (if ev_type e = ''down'' then 0 else 1)"

definition events_between :: "event_row list \<Rightarrow> int \<Rightarrow> int \<Rightarrow> event_row list" where
  "events_between evs from horizon =
     (let boundary = (case max_of (map ev_ts (filter (\<lambda>e. readable e \<and> ev_ts e \<le> from) evs)) of
                        None \<Rightarrow> 0 | Some t \<Rightarrow> t)
      in sort_key event_key (filter (\<lambda>e. readable e \<and> ev_ts e \<ge> boundary \<and> ev_ts e \<le> horizon) evs))"

record completed =
  co_start :: int
  co_end :: int
  co_observed :: int

fun pair_ups :: "event_row option \<Rightarrow> event_row list \<Rightarrow> completed list" where
  "pair_ups prev [] = []"
| "pair_ups prev (e # es) =
     (case ev_dur e of
        Some d \<Rightarrow>
          if ev_type e = ''up''
          then \<lparr>co_start = (case prev of
                  Some p \<Rightarrow> if ev_type p = ''down'' then ev_ts p else ev_ts e - d
                | None \<Rightarrow> ev_ts e - d),
                co_end = ev_ts e, co_observed = d\<rparr> # pair_ups (Some e) es
          else pair_ups (Some e) es
      | None \<Rightarrow> pair_ups (Some e) es)"

definition completed_of :: "event_row list \<Rightarrow> int \<Rightarrow> int \<Rightarrow> completed list" where
  "completed_of evs from til =
     filter (\<lambda>c. co_start c < til \<and> co_end c > from)
       (pair_ups None (events_between evs from (current_horizon til)))"

definition completed_outages_since :: "int \<Rightarrow> int \<Rightarrow> (store, db_error, completed list) call" where
  "completed_outages_since from til = query (\<lambda>s. completed_of (t_events s) from til)"

definition pause_union_for :: "completed list \<Rightarrow> int \<Rightarrow> int \<Rightarrow> (store, db_error, span list) call" where
  "pause_union_for outs from til =
     pause_spans (foldl (\<lambda>lo c. if co_start c < lo then co_start c else lo) from outs)
                 (foldl (\<lambda>hi c. if co_end c > hi then co_end c else hi) til outs)"

definition outage_spans :: "span list \<Rightarrow> completed \<Rightarrow> span list" where
  "outage_spans away c =
     observed_outage_spans (spans_in away (co_start c) (co_end c)) (co_start c) (co_end c) (co_observed c)"

definition observed_downtime_in :: "completed list \<Rightarrow> span list \<Rightarrow> int \<Rightarrow> int \<Rightarrow> int" where
  "observed_downtime_in outs away from til =
     foldl (\<lambda>n c. n + span_overlap (outage_spans away c) from til) 0 outs"

text \<open>Two 'down' events in a row.\<close>

fun down_gaps :: "event_row list \<Rightarrow> (int \<times> int) list" where
  "down_gaps (e # f # es) =
     (if ev_type e = ''down'' \<and> ev_type f = ''down'' then [(ev_ts e, ev_ts f)] else []) @ down_gaps (f # es)"
| "down_gaps es = []"

fun gap_loop :: "world \<Rightarrow> int \<Rightarrow> int \<Rightarrow> (int \<times> int) list \<Rightarrow> int \<times> int \<Rightarrow> (store, db_error, int \<times> int) call" where
  "gap_loop w since now [] acc = ret acc"
| "gap_loop w since now ((g0, g1) # gs) (downtime, recovered) =
     andthen (first_quorum_recovery w g0 g1) (\<lambda>r.
       let cut = (case r of Some t \<Rightarrow> t < g1 | None \<Rightarrow> False);
           fin = (case r of Some t \<Rightarrow> if t < g1 then t else g1 | None \<Rightarrow> g1);
           recovered = (if cut \<and> fin > since then recovered + 1 else recovered);
           fin = (if fin > now then now else fin);
           start = (if g0 < since then since else g0)
       in if fin > start
          then andthen (paused_overlap start fin) (\<lambda>paused.
                 let dt = fin - start - paused
                 in gap_loop w since now gs (if dt > 0 then downtime + dt else downtime, recovered))
          else gap_loop w since now gs (downtime, recovered))"

definition orphan_gap_downtime :: "world \<Rightarrow> int \<Rightarrow> int \<Rightarrow> (store, db_error, int \<times> int) call" where
  "orphan_gap_downtime w since now =
     andthen (query (\<lambda>s. down_gaps (events_between (t_events s) since (current_horizon now))))
       (\<lambda>gaps. gap_loop w since now gaps (0, 0))"

text \<open>The newest event the clock has reached; an 'up' wins its second.\<close>

definition newest_event :: "event_row list \<Rightarrow> int \<Rightarrow> event_row option" where
  "newest_event evs horizon =
     (let es = sort_key event_key (filter (\<lambda>e. readable e \<and> ev_ts e \<le> horizon) evs)
      in if es = [] then None else Some (last es))"

section \<open>Observations\<close>

record observation =
  ob_window :: duration
  ob_observed :: duration
  ob_down :: duration

definition no_observation :: observation where
  "no_observation = \<lparr>ob_window = 0, ob_observed = 0, ob_down = 0\<rparr>"

definition ob_ratio :: "observation \<Rightarrow> rat" where
  "ob_ratio ob =
     (if ob_observed ob \<le> 0 then 1
      else let down = (if ob_down ob < 0 then 0 else ob_down ob);
               down = (if down > ob_observed ob then ob_observed ob else down)
           in 1 - of_int down / of_int (ob_observed ob))"

definition ob_coverage :: "observation \<Rightarrow> rat" where
  "ob_coverage ob =
     (if ob_window ob \<le> 0 \<or> ob_observed ob \<le> 0 then 0
      else if ob_observed ob \<ge> ob_window ob then 1
      else of_int (ob_observed ob) / of_int (ob_window ob))"

definition ob_defined :: "observation \<Rightarrow> bool" where
  "ob_defined ob \<longleftrightarrow> ob_observed ob > 0"

text \<open>The trailing 'down' of \<open>UptimeSince\<close>: where the open outage ends.\<close>

definition open_outage_end :: "world \<Rightarrow> int \<Rightarrow> int \<Rightarrow> (store, db_error, int) call" where
  "open_outage_end w last_ts now =
     andthen (first_quorum_recovery w last_ts now) (\<lambda>r.
       case r of
         Some t \<Rightarrow> if t < now then ret t
                   else andthen (newest_sample_at w now) (\<lambda>n.
                     ret (case n of Some v \<Rightarrow> if v < now \<and> v > last_ts then v else now | None \<Rightarrow> now))
       | None \<Rightarrow> andthen (newest_sample_at w now) (\<lambda>n.
                   ret (case n of Some v \<Rightarrow> if v < now \<and> v > last_ts then v else now | None \<Rightarrow> now)))"

definition open_downtime ::
  "world \<Rightarrow> int \<Rightarrow> int \<Rightarrow> span list \<Rightarrow> event_row option \<Rightarrow> (store, db_error, int) call" where
  "open_downtime w since now away newest =
     (case newest of
        None \<Rightarrow> ret 0
      | Some e \<Rightarrow>
          if ev_type e \<noteq> ''down'' then ret 0
          else andthen (open_outage_end w (ev_ts e) now) (\<lambda>fin.
            let start = (if ev_ts e < since then since else ev_ts e) in
            if fin > start
            then let dt = fin - start - span_overlap away start fin in ret (if dt > 0 then dt else 0)
            else ret 0))"

definition uptime_since :: "world \<Rightarrow> int \<Rightarrow> duration \<Rightarrow> (store, db_error, observation) call" where
  "uptime_since w since0 retention =
     (let now = w_now w in
      andthen (monitoring_since w now) (\<lambda>first.
        let since = (if first > since0 then first else since0);
            since = (if retention > 0 \<and> now - dur_secs retention > since
                     then now - dur_secs retention else since);
            window = now - since in
        if window \<le> 0 then ret no_observation
        else
          andthen (completed_outages_since since now) (\<lambda>outs.
          andthen (pause_union_for outs since now) (\<lambda>away.
          andthen (orphan_gap_downtime w since now) (\<lambda>(gap, _).
          andthen (query (\<lambda>s. newest_event (t_events s) (current_horizon now))) (\<lambda>newest.
          andthen (open_downtime w since now away newest) (\<lambda>ongoing.
            let downtime = observed_downtime_in outs away since now + gap + ongoing;
                observed = window - span_overlap away since now;
                observed = (if observed < 0 then 0 else observed);
                downtime = (if downtime > observed then observed else downtime)
            in ret \<lparr>ob_window = secs_dur window, ob_observed = secs_dur observed,
                    ob_down = secs_dur downtime\<rparr>)))))))"

section \<open>Resolved outages\<close>

definition trailing_resolved ::
  "world \<Rightarrow> int \<Rightarrow> int \<Rightarrow> event_row option \<Rightarrow> (store, db_error, int \<times> int) call" where
  "trailing_resolved w since now newest =
     (case newest of
        None \<Rightarrow> ret (0, 0)
      | Some e \<Rightarrow>
          if ev_type e \<noteq> ''down'' then ret (0, 0)
          else andthen (first_quorum_recovery w (ev_ts e) now) (\<lambda>r.
            case r of
              None \<Rightarrow> ret (0, 0)
            | Some t \<Rightarrow>
                if t > since
                then let start = (if ev_ts e < since then since else ev_ts e) in
                  if t > start
                  then andthen (paused_overlap start t) (\<lambda>paused.
                         let dt = t - start - paused in ret (1, if dt > 0 then dt else 0))
                  else ret (1, 0)
                else ret (0, 0)))"

definition resolved_outages_since :: "world \<Rightarrow> int \<Rightarrow> (store, db_error, int \<times> int) call" where
  "resolved_outages_since w since =
     (let now = w_now w in
      andthen (completed_outages_since since now) (\<lambda>outs.
      andthen (pause_union_for outs since now) (\<lambda>away.
        let resolved = int (length (filter (\<lambda>c. co_end c > since) outs));
            down = observed_downtime_in outs away since now in
      andthen (orphan_gap_downtime w since now) (\<lambda>(gap, gap_outages).
      andthen (query (\<lambda>s. newest_event (t_events s) (current_horizon now))) (\<lambda>newest.
      andthen (trailing_resolved w since now newest) (\<lambda>(n, dt).
        ret (resolved + gap_outages + n, down + gap + dt)))))))"

end
