(* ===== verification/UptimeFacts.thy ===== *)
theory UptimeFacts
  imports Uptime
begin

text \<open>
  What the uptime figures promise: pauses are a set of seconds, the recovery memo changes no
  answer, the seconds an outage is charged with are seconds somebody watched, and the whole of
  \<open>UptimeSince\<close> equals its description by sets of seconds.
\<close>

section \<open>Least and greatest\<close>

lemma min_of_Some: "min_of xs = Some t \<longleftrightarrow> t \<in> set xs \<and> (\<forall>u \<in> set xs. t \<le> u)"
proof (cases xs)
  case (Cons x ys)
  have "foldr min ys x \<in> insert x (set ys) \<and> (\<forall>u \<in> insert x (set ys). foldr min ys x \<le> u)"
    by (induction ys) (auto simp: min_def)
  then show ?thesis using Cons by (auto simp: min_of_def intro: antisym)
qed (simp add: min_of_def)

lemma min_of_None [simp]: "min_of xs = None \<longleftrightarrow> xs = []"
  by (simp add: min_of_def)

lemma max_of_Some: "max_of xs = Some t \<longleftrightarrow> t \<in> set xs \<and> (\<forall>u \<in> set xs. u \<le> t)"
proof (cases xs)
  case (Cons x ys)
  have "foldr max ys x \<in> insert x (set ys) \<and> (\<forall>u \<in> insert x (set ys). u \<le> foldr max ys x)"
    by (induction ys) (auto simp: max_def)
  then show ?thesis using Cons by (auto simp: max_of_def intro: antisym)
qed (simp add: max_of_def)

section \<open>The recovery search\<close>

lemma quorum_at_mem: "quorum_at rows t \<Longrightarrow> t \<in> sr_ts ` set rows"
  by (auto simp: quorum_at_def list_ex_iff)

lemma first_up_Some:
  "first_up rows lo hi = Some t \<longleftrightarrow>
     lo < t \<and> t \<le> hi \<and> quorum_at rows t \<and> (\<forall>u. lo < u \<and> u < t \<longrightarrow> \<not> quorum_at rows u)"
proof
  assume "first_up rows lo hi = Some t"
  then have t: "lo < t" "t \<le> hi" "quorum_at rows t"
    and least: "\<And>u. u \<in> sr_ts ` set rows \<Longrightarrow> lo < u \<Longrightarrow> u \<le> hi \<Longrightarrow> quorum_at rows u \<Longrightarrow> t \<le> u"
    by (auto simp: first_up_def min_of_Some)
  then show "lo < t \<and> t \<le> hi \<and> quorum_at rows t \<and> (\<forall>u. lo < u \<and> u < t \<longrightarrow> \<not> quorum_at rows u)"
    using quorum_at_mem by fastforce
next
  assume "lo < t \<and> t \<le> hi \<and> quorum_at rows t \<and> (\<forall>u. lo < u \<and> u < t \<longrightarrow> \<not> quorum_at rows u)"
  then show "first_up rows lo hi = Some t"
    using quorum_at_mem [of rows t] by (auto simp: first_up_def min_of_Some not_less [symmetric])
qed

lemma first_up_None:
  "first_up rows lo hi = None \<longleftrightarrow> (\<forall>u. lo < u \<and> u \<le> hi \<longrightarrow> \<not> quorum_at rows u)"
  using quorum_at_mem by (auto simp: first_up_def filter_empty_conv)

lemma first_up_from:
  assumes "first_up rows lo mid = None" and "lo \<le> mid"
  shows "first_up rows lo hi = first_up rows mid hi"
proof (cases "first_up rows mid hi")
  case None
  then have "first_up rows lo hi = None" using assms unfolding first_up_None by (metis not_le)
  then show ?thesis using None by simp
next
  case (Some t)
  then have "first_up rows lo hi = Some t"
    using assms unfolding first_up_Some first_up_None by (metis le_less_trans not_le)
  then show ?thesis using Some by simp
qed

lemma first_up_prefix:
  assumes "first_up rows lo mid = Some t" and "mid \<le> hi"
  shows "first_up rows lo hi = Some t"
  using assms by (auto simp: first_up_Some)

text \<open>What a memo entry claims.\<close>

definition memo_true :: "sample_row list \<Rightarrow> int \<Rightarrow> int \<times> int \<Rightarrow> bool" where
  "memo_true rows after m \<longleftrightarrow>
     (if snd m \<noteq> 0 then first_up rows after (snd m) = Some (snd m)
      else first_up rows after (fst m) = None)"

definition memo_ok :: "store \<Rightarrow> bool" where
  "memo_ok s \<longleftrightarrow> (\<forall>after m. 0 \<le> after \<longrightarrow> map_of (rec_cache s) after = Some m \<longrightarrow> memo_true (t_samples s) after m)"

lemma first_up_empty: "hi \<le> lo \<Longrightarrow> first_up rows lo hi = None"
  by (auto simp: first_up_None)

text \<open>Nothing waiting, no failing statement, a truthful memo: a store on which reads answer.\<close>

definition quiet :: "store \<Rightarrow> bool" where
  "quiet s \<longleftrightarrow> faults s = [] \<and> bf_waiting s = 0 \<and> memo_ok s"

definition same_history :: "store \<Rightarrow> store \<Rightarrow> bool" where
  "same_history s s' \<longleftrightarrow>
     t_samples s' = t_samples s \<and> t_events s' = t_events s \<and> t_pauses s' = t_pauses s"

lemma same_history_refl [simp]: "same_history s s"
  by (simp add: same_history_def)

lemma same_history_trans: "same_history s s1 \<Longrightarrow> same_history s1 s2 \<Longrightarrow> same_history s s2"
  by (simp add: same_history_def)

lemma query_quiet: "faults s = [] \<Longrightarrow> query f s = (Inr (f s), s)"
  by (simp add: query_def db_exec_no_faults)

lemma save_for_read_quiet: "bf_waiting s = 0 \<Longrightarrow> save_for_read w s = (Inr (), s)"
  by (simp add: save_for_read_def save_buffered_def save_begin_def)

lemma publish_quiet:
  assumes "quiet s" and "store_it \<Longrightarrow> memo_true (t_samples s) after m"
  shows "quiet (publish gen after m store_it s)" "same_history s (publish gen after m store_it s)"
proof -
  have "memo_ok (publish gen after m store_it s)"
    unfolding memo_ok_def
  proof (intro allI impI)
    fix a m' assume a: "0 \<le> a" "map_of (rec_cache (publish gen after m store_it s)) a = Some m'"
    have "(store_it \<and> a = after \<and> m' = m) \<or> map_of (rec_cache s) a = Some m'"
      using a(2) by (auto simp: publish_def Let_def update_conv' split: if_splits)
    then show "memo_true (t_samples (publish gen after m store_it s)) a m'"
      using assms a(1) by (cases m'; cases m) (auto simp: quiet_def memo_ok_def publish_def Let_def)
  qed
  then show "quiet (publish gen after m store_it s)"
    using assms(1) by (simp add: quiet_def publish_def Let_def)
  show "same_history s (publish gen after m store_it s)"
    by (simp add: same_history_def publish_def Let_def)
qed

lemma rec_scan_spec:
  assumes "quiet s" and "0 \<le> after" and "after \<le> lo" and "first_up (t_samples s) after lo = None"
  shows "\<exists>s'. rec_scan gen after before front lo k s = (Inr (first_up (t_samples s) after before), s') \<and>
     quiet s' \<and> same_history s s'"
  using assms
proof (induction "nat (before - lo)" arbitrary: lo k s rule: less_induct)
  case less
  let ?rows = "t_samples s"
  show ?case
  proof (cases "lo < before")
    case False
    have "first_up ?rows after before = None"
      using less.prems(3,4) False by (auto simp: first_up_None)
    then show ?thesis using False less.prems(1) by (simp add: rec_scan.simps)
  next
    case True
    define hi where "hi = min before (lo + 3600 * 2 ^ k)"
    define safe where "safe = before - rec_frontier_slack"
    have "(0::int) < 3600 * 2 ^ k" by simp
    then have hi: "lo < hi" "hi \<le> before" using True by (auto simp: hi_def)
    have q: "query (\<lambda>s. first_up (t_samples s) lo hi) s = (Inr (first_up ?rows lo hi), s)"
      using less.prems(1) by (simp add: query_quiet quiet_def)
    have upto_hi: "first_up ?rows after hi = first_up ?rows lo hi"
      using first_up_from [OF less.prems(4,3)] .
    show ?thesis
    proof (cases "first_up ?rows lo hi")
      case (Some r)
      have r: "first_up ?rows after hi = Some r" using Some upto_hi by simp
      then have full: "first_up ?rows after before = Some r" using first_up_prefix hi(2) by blast
      have "memo_true ?rows after (hi, r)"
        using r less.prems(2) by (auto simp: memo_true_def first_up_Some)
      then have "quiet (publish gen after (hi, r) (r \<le> safe) s)"
        "same_history s (publish gen after (hi, r) (r \<le> safe) s)"
        using publish_quiet less.prems(1) by blast+
      moreover have "rec_scan gen after before front lo k s =
          (Inr (Some r), publish gen after (hi, r) (r \<le> safe) s)"
        using True q Some by (simp add: rec_scan.simps [of gen after before front lo k s] hi_def safe_def Let_def)
      ultimately show ?thesis using full by simp
    next
      case None
      let ?s = "publish gen after (if hi \<le> safe then hi else safe, 0) (hi \<le> safe \<or> safe > front) s"
      have hi_None: "first_up ?rows after hi = None" using None upto_hi by simp
      have "memo_true ?rows after (if hi \<le> safe then hi else safe, 0)"
        using hi_None by (auto simp: memo_true_def first_up_None)
      then have p: "quiet ?s" "same_history s ?s" using publish_quiet less.prems(1) by blast+
      have step: "rec_scan gen after before front lo k s = rec_scan gen after before front hi (Suc k) ?s"
        using True q None by (simp add: rec_scan.simps [of gen after before front lo k s] hi_def safe_def Let_def)
      have rows: "t_samples ?s = ?rows" using p(2) by (simp add: same_history_def)
      have "\<exists>s'. rec_scan gen after before front hi (Suc k) ?s =
          (Inr (first_up (t_samples ?s) after before), s') \<and> quiet s' \<and> same_history ?s s'"
      proof (rule less.hyps)
        show "nat (before - hi) < nat (before - lo)" using True hi(1) by simp
        show "after \<le> hi" using less.prems(3) hi(1) by simp
        show "first_up (t_samples ?s) after hi = None" unfolding rows by (rule hi_None)
      qed (use p less.prems(2) in auto)
      then obtain s' where s': "rec_scan gen after before front hi (Suc k) ?s =
          (Inr (first_up ?rows after before), s')" "quiet s'" "same_history ?s s'"
        unfolding rows by blast
      show ?thesis
        by (rule exI [of _ s']) (simp add: step s' same_history_trans [OF p(2) s'(3)])
    qed
  qed
qed

text \<open>The memo and the chunks change nothing: the answer is the first second with a quorum.\<close>

lemma first_quorum_recovery_spec:
  assumes "quiet s" and "0 \<le> after"
  shows "\<exists>s'. first_quorum_recovery w after before s = (Inr (first_up (t_samples s) after before), s') \<and>
     quiet s' \<and> same_history s s'"
proof -
  obtain front r where m: "memo_of s after = (front, r)" by (cases "memo_of s after")
  have sv: "save_for_read w s = (Inr (), s)"
    using assms(1) by (simp add: save_for_read_quiet quiet_def)
  have mt: "memo_true (t_samples s) after (front, r) \<or> (front, r) = (0, 0)"
    using assms m by (auto simp: quiet_def memo_ok_def memo_of_def split: option.splits)
  show ?thesis
  proof (cases "r = 0")
    case False
    then have f: "first_up (t_samples s) after r = Some r" using mt by (auto simp: memo_true_def)
    have "first_up (t_samples s) after before = (if r \<le> before then Some r else None)"
      using f by (auto simp: first_up_Some first_up_None)
    then show ?thesis
      using False assms(1) by (simp add: first_quorum_recovery_def andthen_run [where m = "save_for_read w", OF sv] m)
  next
    case True
    let ?lo = "if front > after then front else after"
    have "first_up (t_samples s) after ?lo = None"
      using mt True assms(2) by (auto simp: memo_true_def first_up_empty)
    then have "\<exists>s'. rec_scan (rec_gen s) after before front ?lo 0 s =
        (Inr (first_up (t_samples s) after before), s') \<and> quiet s' \<and> same_history s s'"
      using rec_scan_spec [OF assms, of ?lo] by auto
    then show ?thesis using True by (simp add: first_quorum_recovery_def andthen_run [where m = "save_for_read w", OF sv] m)
  qed
qed

text \<open>New samples stamped after what an entry has settled leave it true.\<close>

definition settled_upto :: "int \<times> int \<Rightarrow> int" where
  "settled_upto m = (if snd m \<noteq> 0 then snd m else fst m)"

lemma quorum_at_append:
  assumes "\<forall>r \<in> set new. sec < sr_ts r"
  shows "quorum_at (rows @ new) sec \<longleftrightarrow> quorum_at rows sec"
proof -
  have "filter (\<lambda>r. sr_ts r = sec \<and> fam_expr r = fam) new = []" for fam
    using assms by (auto simp: filter_empty_conv)
  then have "group_up (rows @ new) sec fam = group_up rows sec fam" for fam
    by (simp add: group_up_def Let_def)
  then show ?thesis using assms by (auto simp: quorum_at_def list_ex_iff)
qed

lemma memo_true_append:
  assumes "memo_true rows after m" and "\<forall>r \<in> set new. settled_upto m < sr_ts r"
  shows "memo_true (rows @ new) after m"
proof -
  have q: "quorum_at (rows @ new) u \<longleftrightarrow> quorum_at rows u" if "u \<le> settled_upto m" for u
    using assms(2) that by (intro quorum_at_append) auto
  show ?thesis
    using assms(1) q by (auto simp: memo_true_def settled_upto_def first_up_Some first_up_None)
qed

section \<open>Pauses as a set of seconds\<close>

lemma cover_filter_set: "cover rows = (\<Union>(ts, d) \<in> set rows. {ts..<ts + d})"
  by (force simp: cover_def row_end_def)

lemma pause_spans_of_input:
  defines "inp rows from til \<equiv> filter (\<lambda>(a, b). b > a)
             (map (\<lambda>(ts, d). (max ts from, min (ts + d) til))
               (sort_key fst (filter (\<lambda>(ts, d). ts < til \<and> ts + d > from) rows)))"
  shows "by_start (inp rows from til)" and "\<forall>(a, b) \<in> set (inp rows from til). a < b"
    and "span_set (inp rows from til) = cover rows \<inter> {from..<til}"
proof -
  define srt where "srt = sort_key fst (filter (\<lambda>(ts, d). ts < til \<and> ts + d > from) rows)"
  have "sorted (map fst srt)" by (simp add: srt_def)
  then have "sorted (map (\<lambda>t. max t from) (map fst srt))"
    by (rule sorted_map_mono) (auto simp: mono_on_def)
  then have "sorted (map fst (map (\<lambda>(ts, d). (max ts from, min (ts + d) til)) srt))"
    by (simp add: case_prod_beta comp_def)
  then show "by_start (inp rows from til)"
    unfolding inp_def srt_def by (rule sorted_filter)
  show "\<forall>(a, b) \<in> set (inp rows from til). a < b" by (auto simp: inp_def)
  have "x \<in> span_set (inp rows from til) \<longleftrightarrow>
      (\<exists>(ts, d) \<in> set rows. max ts from \<le> x \<and> x < min (ts + d) til)" for x
    by (fastforce simp: inp_def span_set_def)
  then show "span_set (inp rows from til) = cover rows \<inter> {from..<til}"
    by (fastforce simp: cover_filter_set)
qed

lemma pause_spans_of_set:
  "span_set (pause_spans_of rows from til) = cover rows \<inter> {from..<til}"
  using merge_spans_set [OF pause_spans_of_input(1)] pause_spans_of_input(3)
  by (auto simp: pause_spans_of_def)

lemma pause_spans_of_ordered: "ordered (pause_spans_of rows from til)"
  using merge_spans_ordered [OF pause_spans_of_input(1,2)] by (simp add: pause_spans_of_def)

lemma paused_overlap_quiet:
  assumes "quiet s"
  shows "paused_overlap from til s = (Inr (int (card (cover (t_pauses s) \<inter> {from..<til}))), s)"
proof -
  have q: "query (\<lambda>s. pause_spans_of (t_pauses s) from til) s = (Inr (pause_spans_of (t_pauses s) from til), s)"
    using assms by (simp add: query_quiet quiet_def)
  show ?thesis
    using span_overlap_card [OF pause_spans_of_ordered] pause_spans_of_set
    by (simp add: paused_overlap_def pause_spans_def andthen_def q Int_assoc)
qed

section \<open>The seconds an outage is charged with\<close>

text \<open>The first \<open>co_observed\<close> seconds of the outage that no pause covers.\<close>

definition charged :: "int set \<Rightarrow> completed \<Rightarrow> int set" where
  "charged paused c =
     (let W = {co_start c..<co_end c} - paused
      in {x \<in> W. int (card {y \<in> W. y < x}) < co_observed c})"

lemma initial_segment:
  fixes W B :: "int set"
  assumes "finite W" and "B \<subseteq> W" and "int (card B) = min (max 0 k) (int (card W))"
    and "\<forall>x \<in> B. \<forall>y \<in> W. y < x \<longrightarrow> y \<in> B"
  shows "B = {x \<in> W. int (card {y \<in> W. y < x}) < k}"
proof -
  have fB: "finite B" using assms(1,2) by (rule rev_finite_subset)
  have in_B: "int (card {y \<in> W. y < x}) < k" if x: "x \<in> B" for x
  proof -
    have sub: "{y \<in> W. y < x} \<subseteq> B - {x}" using assms(4) x by auto
    have "card {y \<in> W. y < x} \<le> card (B - {x})" using fB sub by (simp add: card_mono)
    moreover have "card (B - {x}) < card B" using fB x by (rule card_Diff1_less)
    ultimately have "int (card {y \<in> W. y < x}) < int (card B)" by simp
    then show ?thesis using assms(3) by linarith
  qed
  have out_B: "x \<in> B" if x: "x \<in> W" "int (card {y \<in> W. y < x}) < k" for x
  proof (rule ccontr)
    assume "x \<notin> B"
    then have "B \<subseteq> {y \<in> W. y < x}" using assms(2,4) x(1) by (metis (no_types, lifting) linorder_neqE mem_Collect_eq subset_iff)
    then have "card B \<le> card {y \<in> W. y < x}" using assms(1) by (simp add: card_mono)
    then have "int (card B) < k" using x(2) by simp
    then have "card B = card W" using assms(3) by linarith
    then have "B = W" using assms(1,2) by (simp add: card_subset_eq)
    with \<open>x \<notin> B\<close> x(1) show False by simp
  qed
  show ?thesis using in_B out_B assms(2) by blast
qed

lemma outage_spans_charged:
  assumes "ordered away" and "span_set away \<inter> {co_start c..<co_end c} = paused \<inter> {co_start c..<co_end c}"
  shows "span_set (outage_spans away c) = charged paused c"
    and "ordered_from (co_start c) (outage_spans away c)"
proof -
  let ?ps = "spans_in away (co_start c) (co_end c)"
  have o: "ordered_from (co_start c) ?ps" by (rule spans_in_set(2) [OF assms(1)])
  have st: "by_start ps \<and> (\<forall>(a, b) \<in> set ps. a < b) \<and> (\<forall>(a, b) \<in> set ps. lo \<le> a)"
    if "ordered_from lo ps" for lo ps
    using that by (induction lo ps rule: ordered_from.induct) fastforce+
  have pre: "by_start ?ps" "\<forall>(a, b) \<in> set ?ps. a < b" using st [OF o] by auto
  show "ordered_from (co_start c) (outage_spans away c)"
    unfolding outage_spans_def by (rule observed_outage_spans_ordered [OF pre])
  have W: "watched ?ps (co_start c) (co_end c) = {co_start c..<co_end c} - paused"
    using spans_in_set(1) [OF assms(1), of "co_start c" "co_end c"] assms(2) by (auto simp: watched_def)
  note first = observed_outage_spans_first [OF pre, of "co_start c" "co_end c" "co_observed c"]
  show "span_set (outage_spans away c) = charged paused c"
    unfolding charged_def Let_def outage_spans_def
    by (rule initial_segment) (use first in \<open>simp_all add: W\<close>)
qed

text \<open>What being charged means, whatever the recorded length says.\<close>

lemma charged_facts:
  shows "charged paused c \<subseteq> {co_start c..<co_end c} - paused"
    and "int (card (charged paused c)) \<le> max 0 (co_observed c)"
proof -
  let ?W = "{co_start c..<co_end c} - paused"
  show sub: "charged paused c \<subseteq> {co_start c..<co_end c} - paused" by (auto simp: charged_def Let_def)
  have f: "finite (charged paused c)" using sub by (rule finite_subset) simp
  have "inj_on (\<lambda>x. card {y \<in> ?W. y < x}) (charged paused c)"
  proof (rule linorder_inj_onI')
    fix x z assume x: "x \<in> charged paused c" "x < z"
    have "{y \<in> ?W. y < x} \<subseteq> {y \<in> ?W. y < z}" using x(2) by auto
    moreover have "x \<in> {y \<in> ?W. y < z}" "x \<notin> {y \<in> ?W. y < x}" using x sub by auto
    ultimately have "{y \<in> ?W. y < x} \<subset> {y \<in> ?W. y < z}" by blast
    then have "card {y \<in> ?W. y < x} < card {y \<in> ?W. y < z}"
      by (rule psubset_card_mono [rotated]) (rule finite_subset [of _ "{co_start c..<co_end c}"], auto)
    then show "card {y \<in> ?W. y < x} \<noteq> card {y \<in> ?W. y < z}" by simp
  qed
  moreover have "(\<lambda>x. card {y \<in> ?W. y < x}) ` charged paused c \<subseteq> {..<nat (co_observed c)}"
    by (auto simp: charged_def Let_def)
  ultimately have "card (charged paused c) \<le> card {..<nat (co_observed c)}"
    by (metis card_image card_mono finite_lessThan)
  then show "int (card (charged paused c)) \<le> max 0 (co_observed c)" by simp
qed

text \<open>Exactly the recorded length, or everything that was watched when that is less.\<close>

lemma charged_card:
  "int (card (charged paused c)) = min (max 0 (co_observed c)) (int (card ({co_start c..<co_end c} - paused)))"
proof -
  define rows where "rows = map (\<lambda>x. (x, x + 1)) (sorted_list_of_set ({co_start c..<co_end c} \<inter> paused))"
  let ?S = "{co_start c..<co_end c} \<inter> paused"
  have f: "finite ?S" by simp
  have st: "by_start rows"
    using f by (simp add: rows_def comp_def)
  have lt: "\<forall>(a, b) \<in> set rows. a < b" by (auto simp: rows_def)
  have set: "span_set rows = ?S" using f by (auto simp: rows_def span_set_def)
  note first = observed_outage_spans_first [OF st lt, of "co_start c" "co_end c" "co_observed c"]
  have W: "watched rows (co_start c) (co_end c) = {co_start c..<co_end c} - paused"
    by (auto simp: watched_def set)
  have "charged paused c = span_set (observed_outage_spans rows (co_start c) (co_end c) (co_observed c))"
    unfolding charged_def Let_def
    by (rule initial_segment [symmetric]) (use first in \<open>simp_all add: W\<close>)
  then show ?thesis using first(2) by (simp add: W)
qed

section \<open>The whole of \<open>UptimeSince\<close>\<close>

text \<open>Its description: how many seconds of the window nobody paused, and how many of those
  seconds were downtime.\<close>

definition anchor_of :: "store \<Rightarrow> int \<Rightarrow> int" where
  "anchor_of s now =
     (let anchor = (case first_recorded s of Some t \<Rightarrow> if t < now then t else now | None \<Rightarrow> now);
          stored = (case t_settings s first_seen_key of None \<Rightarrow> 0
            | Some txt \<Rightarrow> (case parse_int txt of None \<Rightarrow> 0
                | Some n \<Rightarrow> if n \<ge> plausible_epoch \<and> n \<le> now then n else 0))
      in if stored \<noteq> 0 \<and> stored < anchor then stored else anchor)"

definition window_start :: "store \<Rightarrow> int \<Rightarrow> int \<Rightarrow> duration \<Rightarrow> int" where
  "window_start s now since0 retention =
     (let since = max since0 (anchor_of s now)
      in if retention > 0 then max since (now - dur_secs retention) else since)"

definition gap_seconds :: "store \<Rightarrow> int \<Rightarrow> int \<Rightarrow> int \<times> int \<Rightarrow> int set" where
  "gap_seconds s since now g =
     {max (fst g) since..<min now (case first_up (t_samples s) (fst g) (snd g) of
        Some t \<Rightarrow> min t (snd g) | None \<Rightarrow> snd g)} - cover (t_pauses s)"

definition open_end :: "store \<Rightarrow> int \<Rightarrow> int \<Rightarrow> int" where
  "open_end s last_ts now =
     (case first_up (t_samples s) last_ts now of
        Some t \<Rightarrow> if t < now then t else
          (case max_of (map sr_ts (t_samples s)) of Some v \<Rightarrow> if v < now \<and> v > last_ts then v else now | None \<Rightarrow> now)
      | None \<Rightarrow>
          (case max_of (map sr_ts (t_samples s)) of Some v \<Rightarrow> if v < now \<and> v > last_ts then v else now | None \<Rightarrow> now))"

definition open_seconds :: "store \<Rightarrow> int \<Rightarrow> int \<Rightarrow> int set" where
  "open_seconds s since now =
     (case newest_event (t_events s) (current_horizon now) of
        None \<Rightarrow> {}
      | Some e \<Rightarrow> if ev_type e \<noteq> ''down'' then {}
          else {max (ev_ts e) since..<open_end s (ev_ts e) now} - cover (t_pauses s))"

definition downtime_of :: "store \<Rightarrow> int \<Rightarrow> int \<Rightarrow> int" where
  "downtime_of s since now =
     (\<Sum>c \<leftarrow> completed_of (t_events s) since now. int (card (charged (cover (t_pauses s)) c \<inter> {since..<now}))) +
     (\<Sum>g \<leftarrow> down_gaps (events_between (t_events s) since (current_horizon now)).
        int (card (gap_seconds s since now g))) +
     int (card (open_seconds s since now))"

definition uptime_spec :: "store \<Rightarrow> int \<Rightarrow> int \<Rightarrow> duration \<Rightarrow> observation" where
  "uptime_spec s now since0 retention =
     (let since = window_start s now since0 retention;
          seen = int (card ({since..<now} - cover (t_pauses s)))
      in if now \<le> since then no_observation
         else \<lparr>ob_window = secs_dur (now - since), ob_observed = secs_dur seen,
               ob_down = secs_dur (min seen (downtime_of s since now))\<rparr>)"

text \<open>A call that leaves the history alone and answers \<open>x\<close>.\<close>

definition answers :: "(store, db_error, 'a) call \<Rightarrow> store \<Rightarrow> 'a \<Rightarrow> bool" where
  "answers m s x \<longleftrightarrow> (\<exists>s'. m s = (Inr x, s') \<and> quiet s' \<and> same_history s s')"

lemma answers_ret: "quiet s \<Longrightarrow> answers (ret x) s x"
  by (simp add: answers_def)

lemma answers_query: "quiet s \<Longrightarrow> f s = x \<Longrightarrow> answers (query f) s x"
  by (simp add: answers_def query_quiet quiet_def)

lemma answers_andthen:
  assumes "answers m s x" and "\<And>s'. quiet s' \<Longrightarrow> same_history s s' \<Longrightarrow> answers (f x) s' y"
  shows "answers (andthen m f) s y"
proof -
  obtain s1 where s1: "m s = (Inr x, s1)" "quiet s1" "same_history s s1"
    using assms(1) by (auto simp: answers_def)
  obtain s2 where s2: "f x s1 = (Inr y, s2)" "quiet s2" "same_history s1 s2"
    using assms(2) [OF s1(2,3)] by (auto simp: answers_def)
  show ?thesis
    using s1 s2 same_history_trans [OF s1(3) s2(3)] by (simp add: answers_def andthen_def)
qed

lemma answers_recovery:
  "quiet s \<Longrightarrow> 0 \<le> after \<Longrightarrow> answers (first_quorum_recovery w after before) s (first_up (t_samples s) after before)"
  using first_quorum_recovery_spec [of s after w before] by (auto simp: answers_def)

lemma answers_newest:
  assumes "quiet s"
  shows "answers (newest_sample_at w now) s
    (map_option (\<lambda>v. if v > now then now else v) (max_of (map sr_ts (t_samples s))))"
proof -
  have "save_for_read w s = (Inr (), s)" using assms by (simp add: save_for_read_quiet quiet_def)
  then show ?thesis using assms
    by (simp add: newest_sample_at_def answers_def andthen_def query_quiet quiet_def)
qed

lemma answers_overlap:
  "quiet s \<Longrightarrow> answers (paused_overlap from til) s (int (card (cover (t_pauses s) \<inter> {from..<til})))"
  by (simp add: answers_def paused_overlap_quiet)

lemma watched_count:
  fixes a b :: int
  assumes "a \<le> b"
  shows "b - a - int (card (P \<inter> {a..<b})) = int (card ({a..<b} - P))"
proof -
  have "card ({a..<b} - P) = card {a..<b} - card (P \<inter> {a..<b})"
    by (metis card_Diff_subset_Int finite_Int finite_atLeastLessThan_int Int_commute)
  moreover have "card (P \<inter> {a..<b}) \<le> card {a..<b}" by (rule card_mono) auto
  ultimately show ?thesis using assms by simp
qed

lemma gap_loop_answers:
  assumes "quiet s" and "\<forall>g \<in> set gs. 0 \<le> fst g"
  shows "\<exists>r. answers (gap_loop w since now gs (n, k)) s
    (n + (\<Sum>g \<leftarrow> gs. int (card (gap_seconds s since now g))), r)"
  using assms
proof (induction gs arbitrary: n k s)
  case Nil
  have "answers (ret (n, k)) s (n, k)" by (rule answers_ret [OF Nil.prems(1)])
  then show ?case by (auto simp del: ret_run)
next
  case (Cons g gs)
  obtain g0 g1 where g: "g = (g0, g1)" by (cases g)
  define r where "r = first_up (t_samples s) g0 g1"
  define cut where "cut = (case r of Some t \<Rightarrow> t < g1 | None \<Rightarrow> False)"
  define fin0 where "fin0 = (case r of Some t \<Rightarrow> if t < g1 then t else g1 | None \<Rightarrow> g1)"
  define k' where "k' = (if cut \<and> fin0 > since then k + 1 else k)"
  define fin where "fin = (if fin0 > now then now else fin0)"
  define start where "start = (if g0 < since then since else g0)"
  have secs: "gap_seconds s since now g = {start..<fin} - cover (t_pauses s)"
    by (auto simp: gap_seconds_def g start_def fin_def fin0_def r_def split: option.splits)
  have same: "gap_seconds s' since now = gap_seconds s since now" if "same_history s s'" for s'
    using that by (simp add: gap_seconds_def same_history_def fun_eq_iff)
  have rec: "answers (first_quorum_recovery w g0 g1) s r"
    using answers_recovery Cons.prems g by (simp add: r_def)
  show ?case
  proof (cases "fin > start")
    case False
    then have z: "card (gap_seconds s since now g) = 0" by (simp add: secs)
    have "\<exists>q. answers (gap_loop w since now (g # gs) (n, k)) s
        (n + (\<Sum>g \<leftarrow> gs. int (card (gap_seconds s since now g))), q)"
    proof -
      obtain s1 where s1: "first_quorum_recovery w g0 g1 s = (Inr r, s1)" "quiet s1" "same_history s s1"
        using rec by (auto simp: answers_def)
      obtain q where q: "answers (gap_loop w since now gs (n, k')) s1
          (n + (\<Sum>g \<leftarrow> gs. int (card (gap_seconds s since now g))), q)"
        using Cons.IH [OF s1(2), of n k'] Cons.prems(2) same [OF s1(3)] by auto
      have "gap_loop w since now (g # gs) (n, k) s = gap_loop w since now gs (n, k') s1"
        using False s1(1) unfolding fin_def start_def fin0_def k'_def cut_def
        by (simp add: g andthen_def Let_def)
      then show ?thesis using q same_history_trans [OF s1(3)] by (auto simp: answers_def)
    qed
    then show ?thesis using z by simp
  next
    case True
    define paused where "paused = int (card (cover (t_pauses s) \<inter> {start..<fin}))"
    have dt: "fin - start - paused = int (card (gap_seconds s since now g))"
      unfolding paused_def secs using True by (intro watched_count) simp
    obtain s1 where s1: "first_quorum_recovery w g0 g1 s = (Inr r, s1)" "quiet s1" "same_history s s1"
      using rec by (auto simp: answers_def)
    have s2: "paused_overlap start fin s1 = (Inr paused, s1)"
      using paused_overlap_quiet [OF s1(2)] s1(3) by (simp add: paused_def same_history_def)
    let ?n = "n + int (card (gap_seconds s since now g))"
    obtain q where q: "answers (gap_loop w since now gs (?n, k')) s1
        (?n + (\<Sum>g \<leftarrow> gs. int (card (gap_seconds s since now g))), q)"
      using Cons.IH [OF s1(2), of ?n k'] Cons.prems(2) same [OF s1(3)] by auto
    have nn: "(if fin - start - paused > 0 then n + (fin - start - paused) else n) = ?n"
      unfolding dt by simp
    have "gap_loop w since now (g # gs) (n, k) s = gap_loop w since now gs
        (if fin - start - paused > 0 then n + (fin - start - paused) else n, k') s1"
      using True s1(1) s2 unfolding fin_def start_def fin0_def k'_def cut_def
      by (simp add: g andthen_def Let_def)
    then have "gap_loop w since now (g # gs) (n, k) s = gap_loop w since now gs (?n, k') s1"
      unfolding nn .
    then have "answers (gap_loop w since now (g # gs) (n, k)) s
        (?n + (\<Sum>g \<leftarrow> gs. int (card (gap_seconds s since now g))), q)"
      using q same_history_trans [OF s1(3)] by (auto simp: answers_def)
    then show ?thesis by (auto simp: add.assoc)
  qed
qed

lemma monitoring_since_answers:
  assumes "quiet s"
  shows "answers (monitoring_since w now) s (anchor_of s now)"
proof -
  have q: "faults s = []" "bf_waiting s = 0" using assms by (simp_all add: quiet_def)
  have rem: "quiet (remember_anchor a s)" "same_history s (remember_anchor a s)" for a
    using assms by (simp_all add: remember_anchor_def db_exec_no_faults quiet_def same_history_def memo_ok_def)
  let ?anchor = "case first_recorded s of Some t \<Rightarrow> if t < now then t else now | None \<Rightarrow> now"
  let ?stored = "case t_settings s first_seen_key of None \<Rightarrow> 0
            | Some txt \<Rightarrow> (case parse_int txt of None \<Rightarrow> 0
                | Some n \<Rightarrow> if n \<ge> plausible_epoch \<and> n \<le> now then n else 0)"
  have run: "monitoring_since w now s =
      (Inr (anchor_of s now),
       if anchor_of s now \<ge> plausible_epoch \<and> anchor_of s now < now \<and> (?stored = 0 \<or> anchor_of s now < ?stored)
       then remember_anchor (anchor_of s now) s else s)"
    unfolding monitoring_since_def andthen_def anchor_of_def Let_def
    by (simp add: save_for_read_quiet [OF q(2)] query_quiet [OF q(1)])
  show ?thesis unfolding answers_def run using rem assms by auto
qed

lemma pause_union_answers:
  assumes "quiet s" and "since < now"
  shows "\<exists>away. pause_union_for outs since now s = (Inr away, s) \<and> ordered away \<and>
    span_set away \<inter> {since..<now} = cover (t_pauses s) \<inter> {since..<now} \<and>
    (\<forall>c \<in> set outs. span_set away \<inter> {co_start c..<co_end c} = cover (t_pauses s) \<inter> {co_start c..<co_end c})"
proof -
  define lo where "lo = foldl (\<lambda>lo c. if co_start c < lo then co_start c else lo) since outs"
  define hi where "hi = foldl (\<lambda>hi c. if co_end c > hi then co_end c else hi) now outs"
  have lo_gen: "foldl (\<lambda>lo c. if co_start c < lo then co_start c else lo) x cs \<le> x \<and>
      (\<forall>c \<in> set cs. foldl (\<lambda>lo c. if co_start c < lo then co_start c else lo) x cs \<le> co_start c)" for x cs
    by (induction cs arbitrary: x) (auto, smt (verit), force)
  have hi_gen: "x \<le> foldl (\<lambda>hi c. if co_end c > hi then co_end c else hi) x cs \<and>
      (\<forall>c \<in> set cs. co_end c \<le> foldl (\<lambda>hi c. if co_end c > hi then co_end c else hi) x cs)" for x cs
    by (induction cs arbitrary: x) (auto, smt (verit), force)
  have lo: "lo \<le> since" "\<forall>c \<in> set outs. lo \<le> co_start c" using lo_gen by (auto simp: lo_def)
  have hi: "now \<le> hi" "\<forall>c \<in> set outs. co_end c \<le> hi" using hi_gen by (auto simp: hi_def)
  let ?away = "pause_spans_of (t_pauses s) lo hi"
  have "pause_union_for outs since now s = (Inr ?away, s)"
    unfolding pause_union_for_def pause_spans_def lo_def [symmetric] hi_def [symmetric]
    using lo hi assms by (simp add: query_quiet quiet_def)
  moreover have "span_set ?away \<inter> {a..<b} = cover (t_pauses s) \<inter> {a..<b}" if "lo \<le> a" "b \<le> hi" for a b
    using that by (auto simp: pause_spans_of_set)
  ultimately show ?thesis using pause_spans_of_ordered lo hi by blast
qed

lemma downtime_in_charged:
  assumes "ordered away"
    and "\<forall>c \<in> set outs. span_set away \<inter> {co_start c..<co_end c} = paused \<inter> {co_start c..<co_end c}"
  shows "observed_downtime_in outs away from til =
    (\<Sum>c \<leftarrow> outs. int (card (charged paused c \<inter> {from..<til})))"
proof -
  have one: "span_overlap (outage_spans away c) from til = int (card (charged paused c \<inter> {from..<til}))"
    if "c \<in> set outs" for c
    using outage_spans_charged [OF assms(1)] assms(2) that span_overlap_card ordered_from_ordered by metis
  have "foldl (\<lambda>n c. n + span_overlap (outage_spans away c) from til) k outs =
      k + (\<Sum>c \<leftarrow> outs. int (card (charged paused c \<inter> {from..<til})))" for k
    using one by (induction outs arbitrary: k) simp_all
  then show ?thesis by (simp add: observed_downtime_in_def)
qed

lemma open_end_answers:
  assumes "quiet s" and "0 \<le> last_ts"
  shows "answers (open_outage_end w last_ts now) s (open_end s last_ts now)"
proof -
  define f where "f = (\<lambda>n. case n of Some v \<Rightarrow> if v < now \<and> v > last_ts then v else now | None \<Rightarrow> now)"
  define rest where "rest = andthen (newest_sample_at w now) (\<lambda>n. ret (f n))"
  define m where "m = max_of (map sr_ts (t_samples s))"
  have f_clamp: "f (map_option (\<lambda>v. if v > now then now else v) x) = f x" for x
    by (cases x) (auto simp: f_def)
  have newest: "answers rest s' (f m)" if "quiet s'" "same_history s s'" for s'
  proof -
    have "t_samples s' = t_samples s" using that(2) by (simp add: same_history_def)
    then have n: "answers (newest_sample_at w now) s' (map_option (\<lambda>v. if v > now then now else v) m)"
      using answers_newest [OF that(1)] by (simp add: m_def)
    have "answers rest s' (f (map_option (\<lambda>v. if v > now then now else v) m))"
      unfolding rest_def by (rule answers_andthen [OF n]) (rule answers_ret)
    then show ?thesis by (simp only: f_clamp)
  qed
  have eq: "open_outage_end w last_ts now = andthen (first_quorum_recovery w last_ts now) (\<lambda>r.
      case r of Some t \<Rightarrow> if t < now then ret t else rest | None \<Rightarrow> rest)"
    by (simp only: open_outage_end_def rest_def f_def)
  have eq2: "open_end s last_ts now = (case first_up (t_samples s) last_ts now of
      Some t \<Rightarrow> if t < now then t else f m | None \<Rightarrow> f m)"
    by (simp only: open_end_def f_def m_def)
  show ?thesis
    unfolding eq eq2
  proof (rule answers_andthen [OF answers_recovery [OF assms]])
    fix s' assume s': "quiet s'" "same_history s s'"
    show "answers (case first_up (t_samples s) last_ts now of
         Some t \<Rightarrow> if t < now then ret t else rest | None \<Rightarrow> rest) s'
      (case first_up (t_samples s) last_ts now of Some t \<Rightarrow> if t < now then t else f m | None \<Rightarrow> f m)"
      using newest [OF s'] answers_ret [OF s'(1), where 'a = int]
      by (cases "first_up (t_samples s) last_ts now") (simp_all del: ret_run)
  qed
qed

lemma readable_newest: "newest_event evs h = Some e \<Longrightarrow> e \<in> set evs"
proof -
  let ?es = "sort_key event_key (filter (\<lambda>e. readable e \<and> ev_ts e \<le> h) evs)"
  assume "newest_event evs h = Some e"
  then have "?es \<noteq> []" "e = last ?es" by (auto simp: newest_event_def Let_def split: if_splits)
  then have "e \<in> set ?es" by (metis last_in_set)
  then show "e \<in> set evs" by simp
qed

lemma open_downtime_answers:
  assumes "quiet s" and "since \<le> now" and "ordered away"
    and "span_set away \<inter> {since..<now} = cover (t_pauses s) \<inter> {since..<now}"
    and "\<forall>e \<in> set (t_events s). 0 \<le> ev_ts e"
  shows "answers (open_downtime w since now away (newest_event (t_events s) (current_horizon now))) s
    (int (card (open_seconds s since now)))"
proof (cases "newest_event (t_events s) (current_horizon now)")
  case None
  then show ?thesis using answers_ret [OF assms(1), of 0] by (simp add: open_downtime_def open_seconds_def del: ret_run)
next
  case (Some e)
  show ?thesis
  proof (cases "ev_type e = ''down''")
    case False
    then show ?thesis using answers_ret [OF assms(1), of 0] Some
      by (simp add: open_downtime_def open_seconds_def del: ret_run)
  next
    case True
    have pos: "0 \<le> ev_ts e" using readable_newest [OF Some] assms(5) by blast
    define fin where "fin = open_end s (ev_ts e) now"
    define start where "start = (if ev_ts e < since then since else ev_ts e)"
    have fin: "fin \<le> now" by (auto simp: fin_def open_end_def split: option.split)
    have secs: "open_seconds s since now = {start..<fin} - cover (t_pauses s)"
      using Some True by (auto simp: open_seconds_def fin_def start_def)
    have st: "since \<le> start" by (simp add: start_def)
    have val: "(if fin > start then (let dt = fin - start - span_overlap away start fin in if dt > 0 then dt else 0) else 0)
        = int (card (open_seconds s since now))"
    proof (cases "fin > start")
      case True
      have "{start..<fin} \<subseteq> {since..<now}" using st fin by auto
      then have "span_set away \<inter> {start..<fin} = cover (t_pauses s) \<inter> {start..<fin}"
        using assms(4) by blast
      then have "fin - start - span_overlap away start fin = int (card (open_seconds s since now))"
        using True watched_count [of start fin "cover (t_pauses s)"]
        by (simp add: span_overlap_card [OF assms(3)] secs)
      then show ?thesis using True by simp
    qed (simp add: secs)
    define k where "k = (\<lambda>fin. if fin > start
            then let dt = fin - start - span_overlap away start fin in ret (if dt > 0 then dt else 0)
            else (ret 0 :: (store, db_error, int) call))"
    have run: "open_downtime w since now away (Some e) = andthen (open_outage_end w (ev_ts e) now) k"
      unfolding open_downtime_def k_def start_def Let_def using True by simp
    have kr: "k fin = ret (int (card (open_seconds s since now)))"
      unfolding val [symmetric] by (simp add: k_def Let_def del: ret_run)
    show ?thesis
      unfolding Some run
    proof (rule answers_andthen [OF open_end_answers [OF assms(1) pos, of w now, folded fin_def]])
      fix s' assume "quiet s'"
      then show "answers (k fin) s' (int (card (open_seconds s since now)))"
        unfolding kr by (rule answers_ret)
    qed
  qed
qed

lemma in_between: "e \<in> set (events_between evs from h) \<Longrightarrow> e \<in> set evs"
  by (auto simp: events_between_def Let_def)

lemma down_gaps_mem: "g \<in> set (down_gaps es) \<Longrightarrow> \<exists>e \<in> set es. ev_ts e = fst g"
  by (induction es rule: down_gaps.induct) (auto split: if_splits)

lemma charged_nonneg_sum:
  "0 \<le> (\<Sum>c \<leftarrow> cs. int (card (f c)))"
  by (induction cs) auto

theorem uptime_since_answers:
  assumes "quiet s" and "\<forall>e \<in> set (t_events s). 0 \<le> ev_ts e"
  shows "answers (uptime_since w since0 retention) s (uptime_spec s (w_now w) since0 retention)"
proof -
  define now where "now = w_now w"
  define since where "since = window_start s now since0 retention"
  define body where "body = (\<lambda>since. if now - since \<le> 0 then ret no_observation
        else
          andthen (completed_outages_since since now) (\<lambda>outs.
          andthen (pause_union_for outs since now) (\<lambda>away.
          andthen (orphan_gap_downtime w since now) (\<lambda>(gap, _).
          andthen (query (\<lambda>s. newest_event (t_events s) (current_horizon now))) (\<lambda>newest.
          andthen (open_downtime w since now away newest) (\<lambda>ongoing.
            let downtime = observed_downtime_in outs away since now + gap + ongoing;
                observed = (now - since) - span_overlap away since now;
                observed = (if observed < 0 then 0 else observed);
                downtime = (if downtime > observed then observed else downtime)
            in ret \<lparr>ob_window = secs_dur (now - since), ob_observed = secs_dur observed,
                    ob_down = secs_dur downtime\<rparr>))))))"
  have ws: "since = (let since = (if anchor_of s now > since0 then anchor_of s now else since0)
      in if retention > 0 \<and> now - dur_secs retention > since then now - dur_secs retention else since)"
    by (auto simp: since_def window_start_def Let_def)
  have eq: "uptime_since w since0 retention = andthen (monitoring_since w now) (\<lambda>first.
      body (let since = (if first > since0 then first else since0)
            in if retention > 0 \<and> now - dur_secs retention > since then now - dur_secs retention else since))"
    unfolding uptime_since_def body_def now_def [symmetric] Let_def by (rule refl)
  show ?thesis
    unfolding eq now_def [symmetric]
  proof (rule answers_andthen [OF monitoring_since_answers [OF assms(1)]])
    fix s0 assume s0: "quiet s0" "same_history s s0"
    let ?spec = "uptime_spec s now since0 retention"
    have "answers (body since) s0 ?spec"
    proof (cases "now \<le> since")
      case True
      then have "body since = ret no_observation" "?spec = no_observation"
        by (simp_all add: body_def uptime_spec_def since_def Let_def del: ret_run)
      then show ?thesis using answers_ret [OF s0(1)] by simp
    next
      case False
      define outs where "outs = completed_of (t_events s) since now"
      have h0: "t_events s0 = t_events s" "t_pauses s0 = t_pauses s" "t_samples s0 = t_samples s"
        using s0(2) by (simp_all add: same_history_def)
      obtain away where away: "pause_union_for outs since now s0 = (Inr away, s0)" "ordered away"
        "span_set away \<inter> {since..<now} = cover (t_pauses s) \<inter> {since..<now}"
        "\<forall>c \<in> set outs. span_set away \<inter> {co_start c..<co_end c} = cover (t_pauses s) \<inter> {co_start c..<co_end c}"
        using pause_union_answers [OF s0(1), of since now outs] False h0(2) by auto
      define gsum where "gsum = (\<Sum>g \<leftarrow> down_gaps (events_between (t_events s) since (current_horizon now)).
        int (card (gap_seconds s since now g)))"
      define osum where "osum = int (card (open_seconds s since now))"
      define csum where "csum = observed_downtime_in outs away since now"
      define seen where "seen = int (card ({since..<now} - cover (t_pauses s)))"
      have obs: "(now - since) - span_overlap away since now = seen"
        using watched_count [of since now "cover (t_pauses s)"] False
        by (simp add: span_overlap_card [OF away(2)] away(3) seen_def)
      have csum: "csum = (\<Sum>c \<leftarrow> outs. int (card (charged (cover (t_pauses s)) c \<inter> {since..<now})))"
        unfolding csum_def by (rule downtime_in_charged [OF away(2,4)])
      have total: "csum + gsum + osum = downtime_of s since now"
        by (simp add: downtime_of_def csum gsum_def osum_def outs_def)
      have spec: "?spec = \<lparr>ob_window = secs_dur (now - since), ob_observed = secs_dur seen,
          ob_down = secs_dur (if csum + gsum + osum > seen then seen else csum + gsum + osum)\<rparr>"
        using False by (auto simp: uptime_spec_def since_def [symmetric] Let_def seen_def total min_def)
      have seen0: "\<not> seen < 0" by (simp add: seen_def)
      have gaps_same: "gap_seconds s1 = gap_seconds s" "open_seconds s1 = open_seconds s"
        if "same_history s0 s1" for s1
      proof -
        have t: "t_samples s1 = t_samples s" "t_events s1 = t_events s" "t_pauses s1 = t_pauses s"
          using that h0 by (simp_all add: same_history_def)
        then have "open_end s1 = open_end s"
          by (auto simp: open_end_def fun_eq_iff split: option.split)
        with t show "gap_seconds s1 = gap_seconds s" "open_seconds s1 = open_seconds s"
          by (auto simp: gap_seconds_def open_seconds_def fun_eq_iff split: option.split)
      qed
      have gap: "\<exists>r. answers (orphan_gap_downtime w since now) s1 (gsum, r)"
        if s1: "quiet s1" "same_history s0 s1" for s1
      proof -
        let ?gs = "down_gaps (events_between (t_events s) since (current_horizon now))"
        have ev: "t_events s1 = t_events s" using s1(2) h0 by (simp add: same_history_def)
        have "\<forall>g \<in> set ?gs. 0 \<le> fst g"
          using down_gaps_mem in_between assms(2) by metis
        then obtain r where r: "answers (gap_loop w since now ?gs (0, 0)) s1 (gsum, r)"
          using gap_loop_answers [OF s1(1), of ?gs w since now 0 0] gaps_same [OF s1(2)] by (auto simp: gsum_def)
        have q: "query (\<lambda>s. down_gaps (events_between (t_events s) since (current_horizon now))) s1 = (Inr ?gs, s1)"
          using s1(1) ev by (simp add: query_quiet quiet_def)
        have "orphan_gap_downtime w since now s1 = gap_loop w since now ?gs (0, 0) s1"
          unfolding orphan_gap_downtime_def andthen_def q by simp
        then show ?thesis using r by (auto simp: answers_def)
      qed
      obtain r s1 where s1: "orphan_gap_downtime w since now s0 = (Inr (gsum, r), s1)" "quiet s1" "same_history s0 s1"
        using gap [OF s0(1)] by (auto simp: answers_def)
      have h1: "t_events s1 = t_events s" "t_pauses s1 = t_pauses s"
        using s1(3) h0 by (simp_all add: same_history_def)
      have q0: "completed_outages_since since now s0 = (Inr outs, s0)"
        using s0(1) h0 by (simp add: completed_outages_since_def query_quiet quiet_def outs_def)
      let ?newest = "newest_event (t_events s) (current_horizon now)"
      have q1: "query (\<lambda>s. newest_event (t_events s) (current_horizon now)) s1 = (Inr ?newest, s1)"
        using s1(2) h1 by (simp add: query_quiet quiet_def)
      have "answers (open_downtime w since now away ?newest) s1 osum"
        using open_downtime_answers [OF s1(2), of since now away w] False away(2,3) h1 assms(2) gaps_same(2) [OF s1(3)]
        by (simp add: osum_def)
      then obtain s2 where s2: "open_downtime w since now away ?newest s1 = (Inr osum, s2)" "quiet s2" "same_history s1 s2"
        by (auto simp: answers_def)
      have ngt: "\<not> now - since \<le> 0" using False by simp
      have ngs: "\<not> now - since < span_overlap away since now" using obs seen0 by linarith
      have "body since s0 = (Inr ?spec, s2)"
        unfolding body_def if_not_P [OF ngt]
        by (simp add: andthen_def q0 away(1) s1(1) q1 s2(1) Let_def obs csum_def [symmetric] ngs seen0 spec)
      then show ?thesis
        using s2 same_history_trans [OF s1(3) s2(3)] by (simp add: answers_def)
    qed
    then show "answers (body (let since = (if anchor_of s now > since0 then anchor_of s now else since0)
            in if retention > 0 \<and> now - dur_secs retention > since then now - dur_secs retention else since)) s0 ?spec"
      unfolding ws .
  qed
qed


section \<open>Bounds on an observation\<close>

lemma downtime_nonneg: "0 \<le> downtime_of s since now"
  unfolding downtime_of_def by (intro add_nonneg_nonneg charged_nonneg_sum of_nat_0_le_iff)

lemma uptime_spec_bounds:
  "0 \<le> ob_down (uptime_spec s now since0 retention)"
  "ob_down (uptime_spec s now since0 retention) \<le> ob_observed (uptime_spec s now since0 retention)"
  "ob_observed (uptime_spec s now since0 retention) \<le> ob_window (uptime_spec s now since0 retention)"
proof -
  let ?st = "window_start s now since0 retention"
  have "card ({?st..<now} - cover (t_pauses s)) \<le> card {?st..<now}" by (rule card_mono) auto
  then have "?st < now \<Longrightarrow> int (card ({?st..<now} - cover (t_pauses s))) \<le> now - ?st" by simp
  then show "0 \<le> ob_down (uptime_spec s now since0 retention)"
    "ob_down (uptime_spec s now since0 retention) \<le> ob_observed (uptime_spec s now since0 retention)"
    "ob_observed (uptime_spec s now since0 retention) \<le> ob_window (uptime_spec s now since0 retention)"
    using downtime_nonneg [of s ?st now] by (auto simp: uptime_spec_def no_observation_def secs_dur_def Let_def)
qed

lemma ob_ratio_bounds: "0 \<le> ob_ratio ob" "ob_ratio ob \<le> 1"
proof -
  have "rat_of_int a / rat_of_int b \<le> 1" "0 \<le> rat_of_int a / rat_of_int b" if "0 \<le> a" "a \<le> b" "0 < b" for a b
    using that by (simp_all add: divide_le_eq_1)
  then show "0 \<le> ob_ratio ob" "ob_ratio ob \<le> 1"
    by (auto simp: ob_ratio_def Let_def)
qed

lemma ob_coverage_bounds: "0 \<le> ob_coverage ob" "ob_coverage ob \<le> 1"
  by (auto simp: ob_coverage_def divide_le_eq_1)

end
