(* ===== verification/AnchorFacts.thy ===== *)
theory AnchorFacts
  imports UptimeFacts
begin

text \<open>
  The monitoring anchor (\<open>monitoringSince\<close>): where the uptime window may begin.  It is written
  down the first time it is computed, as decimal text, so that deleting old rows later cannot move
  it forward.
\<close>

definition stored_anchor :: "store \<Rightarrow> int \<Rightarrow> int" where
  "stored_anchor s now = (case t_settings s first_seen_key of None \<Rightarrow> 0
     | Some txt \<Rightarrow> (case parse_int txt of None \<Rightarrow> 0
         | Some n \<Rightarrow> if n \<ge> plausible_epoch \<and> n \<le> now then n else 0))"

lemma stored_anchor_cases:
  "stored_anchor s now = 0 \<or> (plausible_epoch \<le> stored_anchor s now \<and> stored_anchor s now \<le> now \<and>
    (\<exists>txt. t_settings s first_seen_key = Some txt \<and> parse_int txt = Some (stored_anchor s now)))"
  by (simp add: stored_anchor_def split: option.split)

lemma anchor_of_stored:
  "anchor_of s now =
     (let anchor = (case first_recorded s of Some t \<Rightarrow> if t < now then t else now | None \<Rightarrow> now)
      in if stored_anchor s now \<noteq> 0 \<and> stored_anchor s now < anchor then stored_anchor s now else anchor)"
  by (simp add: anchor_of_def stored_anchor_def Let_def)

lemma anchor_of_le_now: "anchor_of s now \<le> now"
  by (auto simp: anchor_of_stored Let_def split: option.split)

lemma anchor_of_le_stored: "stored_anchor s now \<noteq> 0 \<Longrightarrow> anchor_of s now \<le> stored_anchor s now"
  by (auto simp: anchor_of_stored Let_def split: option.split)

lemma monitoring_since_run:
  assumes "faults s = []" and "bf_waiting s = 0"
  shows "monitoring_since w now s = (Inr (anchor_of s now),
    if anchor_of s now \<ge> plausible_epoch \<and> anchor_of s now < now \<and>
       (stored_anchor s now = 0 \<or> anchor_of s now < stored_anchor s now)
    then remember_anchor (anchor_of s now) s else s)"
  unfolding monitoring_since_def andthen_def anchor_of_def stored_anchor_def Let_def
  by (simp add: save_for_read_quiet [OF assms(2)] query_quiet [OF assms(1)])

text \<open>What a call leaves in the settings pins every later answer.\<close>

lemma anchor_pinned:
  assumes "faults s = []" and "bf_waiting s = 0" and "monitoring_since w now s = (Inr a, s')"
    and "plausible_epoch \<le> a" and "a < now" and "in_int64 a" and "now \<le> later"
  shows "stored_anchor s' later \<noteq> 0 \<and> stored_anchor s' later \<le> a"
proof -
  have a: "a = anchor_of s now" using assms(3) monitoring_since_run [OF assms(1,2), of w now] by simp
  show ?thesis
  proof (cases "stored_anchor s now = 0 \<or> a < stored_anchor s now")
    case True
    then have "s' = remember_anchor a s"
      using assms(3-5) a monitoring_since_run [OF assms(1,2), of w now] by auto
    then have "t_settings s' first_seen_key = Some (int_text a)"
      using assms(1) by (simp add: remember_anchor_def db_exec_no_faults)
    then have "stored_anchor s' later = a"
      using assms(4,5,7) parse_int_text [OF assms(6)] by (simp add: stored_anchor_def)
    then show ?thesis using assms(4) by (simp add: plausible_epoch_def)
  next
    case False
    then have s': "s' = s" using assms(3) a monitoring_since_run [OF assms(1,2), of w now] by auto
    have le: "stored_anchor s now \<le> a" "stored_anchor s now \<noteq> 0" using False by auto
    then have "stored_anchor s later = stored_anchor s now"
      using assms(7) by (auto simp: stored_anchor_def split: option.splits if_splits)
    then show ?thesis using s' le by simp
  qed
qed

end
