(* ===== verification/Debounce.thy ===== *)
theory Debounce
  imports GoTime
begin

text \<open>
  The streak counting of \<open>internal/monitor/monitor.go\<close> that turns probe rounds into an
  up/down verdict (\<open>failRun\<close>, and the streak part of \<open>advance\<close> and \<open>advanceFamily\<close>).  Both the
  link and each address family run it; \<open>db_step\<close> is the machine they share, and the locale at the
  end is the contract under which its facts hold of any component that follows it.
\<close>

record fail_run =
  fr_held :: int
  fr_start :: gtime
  fr_due :: gtime
  fr_trigger :: string

definition speedtest_hold_max :: duration where "speedtest_hold_max = 2 * minute"

definition reset_run :: fail_run where
  "reset_run = \<lparr>fr_held = 0, fr_start = zero_time, fr_due = zero_time, fr_trigger = ''''\<rparr>"

definition run_fail :: "gtime \<Rightarrow> int \<Rightarrow> int \<Rightarrow> bool \<Rightarrow> string \<Rightarrow> fail_run \<Rightarrow> fail_run" where
  "run_fail ts bad down_after during trigger r =
     (let r = (if bad = 1 then reset_run\<lparr>fr_start := ts\<rparr> else r);
          r = (if during \<and> t_sub ts (fr_start r) < speedtest_hold_max
               then r\<lparr>fr_held := fr_held r + 1, fr_trigger := trigger\<rparr> else r)
      in if t_is_zero (fr_due r) \<and> bad \<ge> down_after then r\<lparr>fr_due := ts\<rparr> else r)"

definition run_counted :: "int \<Rightarrow> fail_run \<Rightarrow> int" where
  "run_counted bad r = bad - fr_held r"

definition run_dated :: "gtime \<Rightarrow> fail_run \<Rightarrow> gtime" where
  "run_dated ts r = (if t_is_zero (fr_due r) then ts else fr_due r)"

section \<open>The machine\<close>

record streaks =
  sk_online :: bool
  sk_ok :: int
  sk_bad :: int
  sk_run :: fail_run

text \<open>One round as the machine sees it: its verdict and time, whether a speedtest ran, and the
  two thresholds in force.\<close>

record round_in =
  ri_good :: bool
  ri_ts :: gtime
  ri_during :: bool
  ri_trigger :: string
  ri_down_after :: int
  ri_up_after :: int

definition count_round :: "round_in \<Rightarrow> streaks \<Rightarrow> streaks" where
  "count_round i s =
     (if ri_good i then s\<lparr>sk_ok := sk_ok s + 1, sk_bad := 0, sk_run := reset_run\<rparr>
      else s\<lparr>sk_bad := sk_bad s + 1, sk_ok := 0,
             sk_run := run_fail (ri_ts i) (sk_bad s + 1) (ri_down_after i) (ri_during i) (ri_trigger i) (sk_run s)\<rparr>)"

definition flips_up :: "round_in \<Rightarrow> streaks \<Rightarrow> bool" where
  "flips_up i s \<longleftrightarrow> \<not> sk_online s \<and> sk_ok s \<ge> ri_up_after i"

definition flips_down :: "round_in \<Rightarrow> streaks \<Rightarrow> bool" where
  "flips_down i s \<longleftrightarrow> sk_online s \<and> run_counted (sk_bad s) (sk_run s) \<ge> ri_down_after i"

definition db_step :: "round_in \<Rightarrow> streaks \<Rightarrow> streaks" where
  "db_step i s =
     (let s = count_round i s in
      if flips_up i s then s\<lparr>sk_online := True\<rparr>
      else if flips_down i s then s\<lparr>sk_online := False\<rparr> else s)"

definition db_reset :: "streaks \<Rightarrow> streaks" where
  "db_reset s = s\<lparr>sk_ok := 0, sk_bad := 0, sk_run := reset_run\<rparr>"

text \<open>What can reach a machine: a round, or the loss of its streaks (a pause, a gap, a round
  that judged nothing).\<close>

datatype db_event = Judged round_in | Forgotten

fun db_apply :: "db_event \<Rightarrow> streaks \<Rightarrow> streaks" where
  "db_apply (Judged i) s = db_step i s"
| "db_apply Forgotten s = db_reset s"

fun db_run :: "db_event list \<Rightarrow> streaks \<Rightarrow> streaks" where
  "db_run [] s = s"
| "db_run (e # es) s = db_run es (db_apply e s)"

definition fresh_streaks :: streaks where
  "fresh_streaks = \<lparr>sk_online = True, sk_ok = 0, sk_bad = 0, sk_run = reset_run\<rparr>"

section \<open>What the streaks remember\<close>

text \<open>The failing (or good) rounds at the end of a history, newest first.\<close>

fun trailing :: "bool \<Rightarrow> db_event list \<Rightarrow> round_in list" where
  "trailing good [] = []"
| "trailing good (Forgotten # es) = []"
| "trailing good (Judged i # es) = (if ri_good i = good then i # trailing good es else [])"

definition recent :: "bool \<Rightarrow> db_event list \<Rightarrow> round_in list" where
  "recent good es = trailing good (rev es)"

lemma recent_snoc [simp]:
  "recent good (es @ [Forgotten]) = []"
  "recent good (es @ [Judged i]) = (if ri_good i = good then i # recent good es else [])"
  by (simp_all add: recent_def)

lemma db_run_append [simp]: "db_run (es @ fs) s = db_run fs (db_run es s)"
  by (induction es arbitrary: s) auto

text \<open>The rounds of a failing streak that a speedtest may excuse: taken while one ran, less than
  two minutes after the streak began.\<close>

definition excused :: "round_in list \<Rightarrow> round_in list" where
  "excused rs = filter (\<lambda>i. ri_during i \<and> t_sub (ri_ts i) (ri_ts (last rs)) < speedtest_hold_max) rs"

lemma excused_Cons:
  "rs \<noteq> [] \<Longrightarrow> excused (i # rs) =
     (if ri_during i \<and> t_sub (ri_ts i) (ri_ts (last rs)) < speedtest_hold_max then i # excused rs else excused rs)"
  by (simp add: excused_def)

lemma excused_one:
  "excused [i] = (if ri_during i then [i] else [])"
  by (simp add: excused_def t_sub_def speedtest_hold_max_def)

definition streaks_ok :: "db_event list \<Rightarrow> streaks \<Rightarrow> bool" where
  "streaks_ok es s \<longleftrightarrow>
     sk_bad s = int (length (recent False es)) \<and> sk_ok s = int (length (recent True es)) \<and>
     fr_held (sk_run s) = int (length (excused (recent False es))) \<and>
     (recent False es \<noteq> [] \<longrightarrow> fr_start (sk_run s) = ri_ts (last (recent False es)))"

lemma streaks_ok_count:
  assumes "streaks_ok es s"
  shows "streaks_ok (es @ [Judged i]) (count_round i s)"
proof (cases "ri_good i")
  case True
  then show ?thesis
    using assms by (simp add: streaks_ok_def count_round_def reset_run_def excused_def)
next
  case bad: False
  let ?rs = "recent False es"
  show ?thesis
  proof (cases ?rs)
    case Nil
    then have "sk_bad s = 0" using assms by (simp add: streaks_ok_def)
    then show ?thesis
      using bad Nil by (simp add: streaks_ok_def count_round_def run_fail_def excused_one reset_run_def
          t_sub_def speedtest_hold_max_def Let_def)
  next
    case (Cons j js)
    then have "sk_bad s = 1 + int (length js)" using assms by (simp add: streaks_ok_def)
    then have "sk_bad s + 1 \<noteq> 1" by simp
    moreover have "?rs \<noteq> []" using Cons by simp
    ultimately show ?thesis
      using bad assms by (auto simp: streaks_ok_def count_round_def run_fail_def Let_def excused_Cons)
  qed
qed

lemma streaks_ok_apply: "streaks_ok es s \<Longrightarrow> streaks_ok (es @ [e]) (db_apply e s)"
proof (cases e)
  case (Judged i)
  assume "streaks_ok es s"
  then have "streaks_ok (es @ [Judged i]) (count_round i s)" by (rule streaks_ok_count)
  moreover have "streaks_ok fs (t\<lparr>sk_online := b\<rparr>) = streaks_ok fs t" for fs t b
    by (simp add: streaks_ok_def)
  ultimately show ?thesis using Judged by (simp add: db_step_def Let_def)
next
  case Forgotten
  then show ?thesis by (simp add: streaks_ok_def db_reset_def reset_run_def excused_def)
qed

lemma streaks_ok_fresh: "streaks_ok [] fresh_streaks"
  by (simp add: streaks_ok_def fresh_streaks_def recent_def excused_def reset_run_def)

lemma streaks_ok_run: "streaks_ok es (db_run es fresh_streaks)"
proof (induction es rule: rev_induct)
  case Nil
  show ?case by (simp add: streaks_ok_fresh)
next
  case (snoc e es)
  then show ?case using streaks_ok_apply by simp
qed

section \<open>The contract\<close>

text \<open>
  A component follows the machine when some view of its state does, event by event.  The facts
  below then hold of the component: it goes down only on enough failing rounds no speedtest
  excuses, comes back only on enough good ones, and an interruption costs it its streaks.
\<close>

locale debounced =
  fixes judge :: "'r \<Rightarrow> 's \<Rightarrow> 's"
    and forget :: "'r \<Rightarrow> 's \<Rightarrow> 's"
    and view :: "'s \<Rightarrow> streaks"
    and seen :: "'r \<Rightarrow> 's \<Rightarrow> round_in"
  assumes judge_view: "view (judge r s) = db_step (seen r s) (view s)"
    and forget_view: "view (forget r s) = db_reset (view s)"
begin

lemma verdict:
  assumes "streaks_ok es (view s)"
  shows "sk_online (view (judge r s)) \<longleftrightarrow>
    (if sk_online (view s)
     then int (length (recent False (es @ [Judged (seen r s)]))) -
          int (length (excused (recent False (es @ [Judged (seen r s)])))) < ri_down_after (seen r s)
     else ri_up_after (seen r s) \<le> int (length (recent True (es @ [Judged (seen r s)]))))"
proof -
  define c where "c = count_round (seen r s) (view s)"
  have c: "streaks_ok (es @ [Judged (seen r s)]) c" unfolding c_def by (rule streaks_ok_count [OF assms(1)])
  have "sk_online c = sk_online (view s)" by (simp add: c_def count_round_def)
  then show ?thesis
    using c by (auto simp: judge_view db_step_def Let_def c_def [symmetric] flips_up_def flips_down_def
        run_counted_def streaks_ok_def)
qed

lemma judge_remembers:
  "streaks_ok es (view s) \<Longrightarrow> streaks_ok (es @ [Judged (seen r s)]) (view (judge r s))"
  using streaks_ok_apply [of es "view s" "Judged (seen r s)"] by (simp add: judge_view)

lemma forget_starts_over:
  "streaks_ok es (view s) \<Longrightarrow> streaks_ok (es @ [Forgotten]) (view (forget r s)) \<and>
     sk_online (view (forget r s)) = sk_online (view s)"
  using streaks_ok_apply [of es "view s" Forgotten] by (simp add: forget_view db_reset_def)

lemma good_round_keeps_up:
  assumes "streaks_ok es (view s)" and "ri_good (seen r s)" and "0 < ri_down_after (seen r s)"
    and "sk_online (view s)"
  shows "sk_online (view (judge r s))"
  using verdict [OF assms(1), of r] assms(2-4) by (simp add: excused_def)

end

end
