(* ===== verification/Prober.thy ===== *)
theory Prober
  imports GoTime
begin

text \<open>
  \<open>internal/prober\<close>: one probe round.  A round dials every enabled anchor and decides
  per address family by a strict majority; the DNS probe times one lookup against a budget.

  The network is a parameter: \<open>connect\<close> gives for a target the elapsed time and the
  error of the dial (\<open>None\<close> for a connection), the DNS probe's lookup result is its
  elapsed time, its error and whether the context was over.  A Go \<open>error\<close> is the chain
  that \<open>errors.Is\<close> and \<open>errors.As\<close> walk, with the answer \<open>os.IsTimeout\<close>
  gives for it.
\<close>

record target =
  tg_name :: string
  tg_network :: string
  tg_address :: string
  tg_family :: string

datatype err_node =
    ECanceled | EDeadlineExceeded | EConnRefused | ENetUnreach | EHostUnreach | EWSANoData
  | EDNS bool  \<comment> \<open>\<open>*net.DNSError\<close>, with its \<open>IsNotFound\<close>\<close>
  | EOther

record go_error =
  e_chain :: "err_node list"
  e_timeout :: bool

definition err_is :: "go_error \<Rightarrow> err_node \<Rightarrow> bool" where
  "err_is e n \<longleftrightarrow> n \<in> set (e_chain e)"

text \<open>\<open>errors.As(err, &dnsErr)\<close>: the first DNS error of the chain.\<close>

definition err_dns :: "go_error \<Rightarrow> bool option" where
  "err_dns e = (case filter (\<lambda>n. case n of EDNS _ \<Rightarrow> True | _ \<Rightarrow> False) (e_chain e) of
     EDNS nf # _ \<Rightarrow> Some nf | _ \<Rightarrow> None)"

section \<open>Failure classes\<close>

definition dial_errno :: "go_error \<Rightarrow> string" where
  "dial_errno e =
     (if err_is e EConnRefused then ''refused''
      else if err_is e ENetUnreach then ''net_unreachable''
      else if err_is e EHostUnreach then ''host_unreachable''
      else [])"

definition dns_answered_errno :: "bool \<Rightarrow> go_error \<Rightarrow> bool" where
  "dns_answered_errno windows e \<longleftrightarrow> windows \<and> err_is e EWSANoData"

definition dial_err_class :: "go_error option \<Rightarrow> string" where
  "dial_err_class err = (case err of
     None \<Rightarrow> []
   | Some e \<Rightarrow>
       if err_is e EDeadlineExceeded \<or> e_timeout e then ''timeout''
       else if dial_errno e \<noteq> [] then dial_errno e
       else if err_dns e \<noteq> None then ''dns''
       else ''other'')"

section \<open>The DNS probe\<close>

definition dns_probe_timeout :: duration where "dns_probe_timeout = 3 * second"

text \<open>\<open>overBudget(rctx, d)\<close>; \<open>ctx\<close> is \<open>rctx.Err()\<close>.\<close>

definition over_budget :: "go_error option \<Rightarrow> duration \<Rightarrow> go_error option" where
  "over_budget ctx d =
     (if d < dns_probe_timeout \<and> ctx = None then None
      else let cause = (case ctx of
                None \<Rightarrow> \<lparr>e_chain = [EDeadlineExceeded], e_timeout = True\<rparr>
              | Some c \<Rightarrow> c)
           in Some \<lparr>e_chain = EOther # e_chain cause, e_timeout = False\<rparr>)"

text \<open>\<open>ResolveTime\<close>: the lookup took \<open>d\<close> and returned \<open>err\<close>.\<close>

definition resolve_time ::
  "bool \<Rightarrow> go_error option \<Rightarrow> duration \<Rightarrow> go_error option \<Rightarrow> duration \<times> bool \<times> go_error option" where
  "resolve_time windows ctx d err = (case err of
     None \<Rightarrow>
       (case over_budget ctx d of Some b \<Rightarrow> (d, False, Some b) | None \<Rightarrow> (d, True, None))
   | Some e \<Rightarrow>
       if (case err_dns e of None \<Rightarrow> False | Some nf \<Rightarrow> nf \<or> dns_answered_errno windows e)
       then (case over_budget ctx d of Some b \<Rightarrow> (d, False, Some b) | None \<Rightarrow> (d, True, None))
       else (d, False, Some e))"

text \<open>A lookup counts as healthy exactly when the resolver answered, inside the budget and
  before the context ended; the error is present exactly when the verdict is bad.\<close>

lemma resolve_time_ok:
  "resolve_time windows ctx d err = (d', ok, e) \<Longrightarrow>
   d' = d \<and> (ok \<longleftrightarrow> e = None) \<and>
   (ok \<longleftrightarrow> d < dns_probe_timeout \<and> ctx = None \<and>
     (case err of None \<Rightarrow> True
      | Some x \<Rightarrow> (case err_dns x of None \<Rightarrow> False | Some nf \<Rightarrow> nf \<or> dns_answered_errno windows x)))"
  by (auto simp: resolve_time_def over_budget_def Let_def split: option.splits if_splits)

section \<open>Target and family results\<close>

record target_result =
  tr_target :: target
  tr_ok :: bool
  tr_latency :: duration
  tr_err :: "go_error option"

record family_result =
  fr_family :: string
  fr_online :: bool
  fr_latency :: duration
  fr_ok :: nat
  fr_total :: nat

text \<open>\<open>Result\<close>.  The Go map of families is an association list with distinct keys; its
  order stands for the (unspecified) order a \<open>range\<close> over the map visits.\<close>

record probe_result =
  pr_ts :: gtime
  pr_online :: bool
  pr_families :: "(string \<times> family_result) list"
  pr_targets :: "target_result list"
  pr_skipped :: bool

definition empty_family :: "string \<Rightarrow> family_result" where
  "empty_family fam =
     \<lparr>fr_family = fam, fr_online = False, fr_latency = 0, fr_ok = 0, fr_total = 0\<rparr>"

text \<open>The body of \<open>aggregate\<close>'s first loop, for the family's entry so far.\<close>

definition count_target :: "target_result \<Rightarrow> family_result \<Rightarrow> family_result" where
  "count_target r fr =
     (let fr = fr\<lparr>fr_total := Suc (fr_total fr)\<rparr> in
      if tr_ok r then
        (let fr = fr\<lparr>fr_ok := Suc (fr_ok fr)\<rparr> in
         if fr_ok fr = 1 \<or> tr_latency r < fr_latency fr
         then fr\<lparr>fr_latency := tr_latency r\<rparr> else fr)
      else fr)"

fun aggregate_step ::
  "target_result \<Rightarrow> (string \<times> family_result) list \<Rightarrow> (string \<times> family_result) list" where
  "aggregate_step r [] =
     [(tg_family (tr_target r), count_target r (empty_family (tg_family (tr_target r))))]"
| "aggregate_step r ((fam, fr) # fams) =
     (if fam = tg_family (tr_target r) then (fam, count_target r fr) # fams
      else (fam, fr) # aggregate_step r fams)"

definition judge_family :: "family_result \<Rightarrow> family_result" where
  "judge_family fr = fr\<lparr>fr_online := fr_ok fr * 2 > fr_total fr\<rparr>"

definition aggregate :: "gtime \<Rightarrow> target_result list \<Rightarrow> probe_result" where
  "aggregate now results =
     (let fams = map (\<lambda>(fam, fr). (fam, judge_family fr))
                   (foldl (\<lambda>fams r. aggregate_step r fams) [] results)
      in \<lparr>pr_ts = now, pr_online = list_ex (\<lambda>(fam, fr). fr_online fr) fams,
          pr_families = fams, pr_targets = results, pr_skipped = False\<rparr>)"

section \<open>A round\<close>

record prober =
  pb_targets :: "target list"
  pb_timeout :: duration
  pb_timeout_fn :: "duration option"            \<comment> \<open>\<open>TimeoutFn()\<close>, when set\<close>
  pb_family_enabled :: "(string \<Rightarrow> bool) option" \<comment> \<open>\<open>FamilyEnabledFn\<close>, when set\<close>
  pb_family_off :: "(string \<Rightarrow> bool) option"     \<comment> \<open>\<open>FamilyOffFn\<close>, when set\<close>

definition cur_timeout :: "prober \<Rightarrow> duration" where
  "cur_timeout p = (case pb_timeout_fn p of
     Some d \<Rightarrow> if d > 0 then d else pb_timeout p
   | None \<Rightarrow> pb_timeout p)"

definition dial ::
  "(duration \<Rightarrow> target \<Rightarrow> duration \<times> go_error option) \<Rightarrow> prober \<Rightarrow> target \<Rightarrow> target_result" where
  "dial connect p t = (case connect (cur_timeout p) t of
     (lat, Some e) \<Rightarrow> \<lparr>tr_target = t, tr_ok = False, tr_latency = lat, tr_err = Some e\<rparr>
   | (lat, None) \<Rightarrow> \<lparr>tr_target = t, tr_ok = True, tr_latency = lat, tr_err = None\<rparr>)"

definition explicitly_off :: "prober \<Rightarrow> target \<Rightarrow> bool" where
  "explicitly_off p t \<longleftrightarrow> (case pb_family_off p of None \<Rightarrow> False | Some off \<Rightarrow> off (tg_family t))"

text \<open>Which targets \<open>Probe\<close> dials.\<close>

definition dialled :: "prober \<Rightarrow> target list" where
  "dialled p = (case pb_family_enabled p of
     None \<Rightarrow> pb_targets p
   | Some enabled \<Rightarrow>
       (let eligible = filter (\<lambda>t. \<not> explicitly_off p t) (pb_targets p);
            act = filter (\<lambda>t. enabled (tg_family t)) eligible
        in if length act > 0 then act else eligible))"

definition probe ::
  "(duration \<Rightarrow> target \<Rightarrow> duration \<times> go_error option) \<Rightarrow> prober \<Rightarrow> gtime \<Rightarrow> probe_result" where
  "probe connect p now =
     (if pb_family_enabled p \<noteq> None \<and> dialled p = [] \<and> pb_targets p \<noteq> []
      then \<lparr>pr_ts = now, pr_online = False, pr_families = [], pr_targets = [], pr_skipped = True\<rparr>
      else aggregate now (map (dial connect p) (dialled p)))"

section \<open>The quorum\<close>

text \<open>What one family's own targets say, with no other family in sight.\<close>

definition of_family :: "string \<Rightarrow> target_result list \<Rightarrow> target_result list" where
  "of_family fam rs = filter (\<lambda>r. tg_family (tr_target r) = fam) rs"

definition successes :: "string \<Rightarrow> target_result list \<Rightarrow> target_result list" where
  "successes fam rs = filter tr_ok (of_family fam rs)"

definition min_latency :: "target_result list \<Rightarrow> duration" where
  "min_latency rs = (case rs of [] \<Rightarrow> 0 | _ \<Rightarrow> Min (tr_latency ` set rs))"

definition family_counts :: "string \<Rightarrow> target_result list \<Rightarrow> family_result" where
  "family_counts fam rs =
     \<lparr>fr_family = fam, fr_online = False, fr_latency = min_latency (successes fam rs),
      fr_ok = length (successes fam rs), fr_total = length (of_family fam rs)\<rparr>"

lemma of_family_append [simp]:
  "of_family fam (rs @ [r]) = of_family fam rs @ (if tg_family (tr_target r) = fam then [r] else [])"
  "successes fam (rs @ [r]) =
     successes fam rs @ (if tg_family (tr_target r) = fam \<and> tr_ok r then [r] else [])"
  by (simp_all add: of_family_def successes_def)

lemma min_latency_ne: "rs \<noteq> [] \<Longrightarrow> min_latency rs = Min (tr_latency ` set rs)"
  by (cases rs) (simp_all add: min_latency_def)

lemma min_latency_snoc:
  "min_latency (rs @ [r]) =
     (if rs = [] \<or> tr_latency r < min_latency rs then tr_latency r else min_latency rs)"
proof (cases "rs = []")
  case False
  have "min_latency (rs @ [r]) = Min (insert (tr_latency r) (tr_latency ` set rs))"
    by (simp add: min_latency_ne)
  also have "\<dots> = min (tr_latency r) (min_latency rs)"
    using False by (subst Min_insert) (auto simp: min_latency_ne)
  finally show ?thesis using False by (simp add: min_def)
qed (simp add: min_latency_def)

lemma count_target_family:
  assumes "tg_family (tr_target r) = fam"
  shows "count_target r (family_counts fam rs) = family_counts fam (rs @ [r])"
  using assms
  by (simp add: count_target_def family_counts_def min_latency_snoc Let_def)

lemma family_counts_other:
  "tg_family (tr_target r) \<noteq> fam \<Longrightarrow> family_counts fam (rs @ [r]) = family_counts fam rs"
  by (simp add: family_counts_def)

lemma aggregate_step_map_of:
  "distinct (map fst fams) \<Longrightarrow>
   map_of (aggregate_step r fams) fam =
     (if fam = tg_family (tr_target r)
      then Some (count_target r (case map_of fams fam of None \<Rightarrow> empty_family fam | Some fr \<Rightarrow> fr))
      else map_of fams fam)"
  by (induction r fams rule: aggregate_step.induct) auto

lemma aggregate_step_keys:
  "set (map fst (aggregate_step r fams)) = insert (tg_family (tr_target r)) (set (map fst fams))"
  by (induction r fams rule: aggregate_step.induct) auto

lemma aggregate_step_distinct:
  "distinct (map fst fams) \<Longrightarrow> distinct (map fst (aggregate_step r fams))"
proof (induction r fams rule: aggregate_step.induct)
  case (2 r fam fr fams)
  then show ?case using aggregate_step_keys [of r fams] by (auto simp del: set_map)
qed simp

lemma empty_family_counts: "empty_family fam = family_counts fam []"
  by (simp add: empty_family_def family_counts_def of_family_def successes_def min_latency_def)

lemma foldl_aggregate:
  defines "fams rs \<equiv> foldl (\<lambda>fams r. aggregate_step r fams) [] rs"
  shows "distinct (map fst (fams rs)) \<and>
    map_of (fams rs) fam = (if of_family fam rs = [] then None else Some (family_counts fam rs))"
proof (induction rs rule: rev_induct)
  case Nil
  then show ?case by (simp add: fams_def of_family_def)
next
  case (snoc r rs)
  have step: "fams (rs @ [r]) = aggregate_step r (fams rs)" by (simp add: fams_def)
  have nil: "of_family fam rs = [] \<Longrightarrow> family_counts fam rs = empty_family fam"
    by (simp add: family_counts_def empty_family_def successes_def min_latency_def)
  show ?case
  proof (cases "tg_family (tr_target r) = fam")
    case True
    with snoc show ?thesis
      by (auto simp: step aggregate_step_distinct aggregate_step_map_of nil [symmetric]
          count_target_family)
  next
    case False
    with snoc show ?thesis
      by (simp add: step aggregate_step_distinct aggregate_step_map_of family_counts_other)
  qed
qed

lemma aggregate_families:
  "distinct (map fst (pr_families (aggregate now rs))) \<and>
   map_of (pr_families (aggregate now rs)) fam =
     (if of_family fam rs = [] then None else Some (judge_family (family_counts fam rs)))"
proof -
  have m: "\<And>fams. map_of (map (\<lambda>(fam, fr). (fam, judge_family fr)) fams) fam =
      map_option judge_family (map_of fams fam)"
    by (simp add: map_of_map)
  have d: "\<And>fams :: (string \<times> family_result) list.
      map fst (map (\<lambda>(fam, fr). (fam, judge_family fr)) fams) = map fst fams"
    by (simp add: split_def)
  show ?thesis
    using foldl_aggregate [of rs fam] by (simp add: aggregate_def Let_def m d del: map_map)
qed

end
