(* ===== verification/Monitor.thy ===== *)
theory Monitor
  imports Store Prober Debounce
begin

text \<open>
  \<open>internal/monitor/monitor.go\<close>: the monitor's state and what one probe round does to it.

  The monitor's fields are one record, the store among them; the process-wide counters live in
  the store's registry.  The hooks the settings layer installs are read once per operation and
  are the record \<open>hooks\<close> (\<open>None\<close>: the hook is not installed).  The callbacks the monitor makes
  (\<open>OnReconnect\<close>, \<open>OnTransition\<close>, \<open>OnDegraded\<close>) are appended to a list.  Log lines are not
  modelled.
\<close>

section \<open>State\<close>

record family_state =
  fs_online :: bool
  fs_since :: gtime
  fs_ok :: int
  fs_bad :: int
  fs_run :: fail_run
  fs_latency :: rat

record pending_event =
  pe_ts :: gtime
  pe_kind :: string
  pe_dur :: int

datatype callback = Reconnected int | Transitioned bool int | Degraded

record mon_config =
  cf_interval :: duration
  cf_down_after :: int
  cf_up_after :: int

record hooks =
  hk_interval :: "duration option"
  hk_down_after :: "int option"
  hk_up_after :: "int option"
  hk_enabled :: "bool option"
  hk_latency :: "bool option"
  hk_dns :: "bool option"
  hk_degraded_ping :: "rat option"
  hk_on_degraded :: bool

record monitor =
  mo_cfg :: mon_config
  mo_store :: store
  mo_calls :: "callback list"
  mo_online :: bool
  mo_since :: gtime
  mo_last_event :: gtime
  mo_pending :: "pending_event list"
  mo_dns_ms :: rat
  mo_dns_ok :: bool
  mo_dns_seen :: bool
  mo_dns_gen :: nat
  mo_dns_busy :: bool
  mo_dns_was :: bool
  mo_ok :: int
  mo_bad :: int
  mo_last_note :: gtime
  mo_run :: fail_run
  mo_prev_during :: bool
  mo_prev_trigger :: string
  mo_down_paused :: gtime
  mo_paused_gap :: duration
  mo_frozen_gap :: duration
  mo_outage_gen :: nat
  mo_deg_streak :: int
  mo_degraded :: bool
  mo_deg_sent :: bool
  mo_deg_seq :: nat
  mo_deg_id :: nat
  mo_deg_retry :: nat
  mo_fams :: "string \<rightharpoonup> family_state"
  mo_order :: "string list"
  mo_active :: "string list"

definition on_mreg :: "(registry \<Rightarrow> registry) \<Rightarrow> monitor \<Rightarrow> monitor" where
  "on_mreg f m = m\<lparr>mo_store := on_reg f (mo_store m)\<rparr>"

definition call_back :: "callback \<Rightarrow> monitor \<Rightarrow> monitor" where
  "call_back c m = m\<lparr>mo_calls := mo_calls m @ [c]\<rparr>"

section \<open>Settings\<close>

definition or_config :: "int option \<Rightarrow> int \<Rightarrow> int" where
  "or_config hook cfg = (case hook of Some n \<Rightarrow> if n > 0 then n else cfg | None \<Rightarrow> cfg)"

definition interval :: "hooks \<Rightarrow> monitor \<Rightarrow> duration" where
  "interval h m = or_config (hk_interval h) (cf_interval (mo_cfg m))"

definition down_after :: "hooks \<Rightarrow> monitor \<Rightarrow> int" where
  "down_after h m = or_config (hk_down_after h) (cf_down_after (mo_cfg m))"

definition up_after :: "hooks \<Rightarrow> monitor \<Rightarrow> int" where
  "up_after h m = or_config (hk_up_after h) (cf_up_after (mo_cfg m))"

definition monitoring :: "hooks \<Rightarrow> bool" where
  "monitoring h = (case hk_enabled h of Some b \<Rightarrow> b | None \<Rightarrow> True)"

definition probing :: "hooks \<Rightarrow> bool" where
  "probing h = (if hk_latency h = Some False then False else monitoring h)"

definition dns_enabled :: "hooks \<Rightarrow> bool" where
  "dns_enabled h = (case hk_dns h of Some b \<Rightarrow> b | None \<Rightarrow> True)"

definition speedtest_trigger :: "string \<Rightarrow> string" where
  "speedtest_trigger t =
     (if t \<in> {''startup'', ''scheduled'', ''reconnect'', ''degraded'', ''manual''} then t else ''other'')"

text \<open>\<open>util.DurMS\<close>\<close>

definition dur_ms :: "duration \<Rightarrow> rat" where
  "dur_ms d = of_int (d sdiv 1000) / 1000"

text \<open>\<open>d.Seconds()\<close>\<close>

definition dur_seconds :: "duration \<Rightarrow> rat" where
  "dur_seconds d = of_int d / 1000000000"

section \<open>Families, the link and their streaks\<close>

definition new_family :: family_state where
  "new_family = \<lparr>fs_online = True, fs_since = zero_time, fs_ok = 0, fs_bad = 0,
     fs_run = reset_run, fs_latency = 0\<rparr>"

definition idle_monitor :: "mon_config \<Rightarrow> store \<Rightarrow> monitor" where
  "idle_monitor cfg st =
     \<lparr>mo_cfg = cfg, mo_store = st, mo_calls = [], mo_online = True, mo_since = zero_time,
      mo_last_event = zero_time, mo_pending = [], mo_dns_ms = 0, mo_dns_ok = False,
      mo_dns_seen = False, mo_dns_gen = 0, mo_dns_busy = False, mo_dns_was = False, mo_ok = 0,
      mo_bad = 0, mo_last_note = zero_time, mo_run = reset_run, mo_prev_during = False,
      mo_prev_trigger = '''', mo_down_paused = zero_time, mo_paused_gap = 0, mo_frozen_gap = 0,
      mo_outage_gen = 0, mo_deg_streak = 0, mo_degraded = False, mo_deg_sent = False,
      mo_deg_seq = 0, mo_deg_id = 0, mo_deg_retry = 0, mo_fams = Map.empty, mo_order = [],
      mo_active = []\<rparr>"

text \<open>\<open>New\<close>: one family state per family the targets name.\<close>

fun add_families :: "target list \<Rightarrow> monitor \<Rightarrow> monitor" where
  "add_families [] m = m"
| "add_families (t # ts) m =
     (if tg_family t \<noteq> [] \<and> mo_fams m (tg_family t) = None
      then add_families ts
             (m\<lparr>mo_order := mo_order m @ [tg_family t],
                mo_fams := (mo_fams m)(tg_family t \<mapsto> new_family),
                mo_active := mo_active m @ [tg_family t]\<rparr>)
      else add_families ts m)"

definition new_monitor :: "mon_config \<Rightarrow> target list \<Rightarrow> store \<Rightarrow> monitor" where
  "new_monitor cfg ts st = add_families ts (idle_monitor cfg st)"

definition reset_family :: "family_state \<Rightarrow> family_state" where
  "reset_family fs = fs\<lparr>fs_ok := 0, fs_bad := 0, fs_run := reset_run\<rparr>"

definition reset_degraded :: "monitor \<Rightarrow> monitor" where
  "reset_degraded m = m\<lparr>mo_deg_streak := 0, mo_degraded := False, mo_deg_sent := False, mo_deg_id := 0\<rparr>"

definition reset_streaks :: "monitor \<Rightarrow> monitor" where
  "reset_streaks m =
     reset_degraded (m\<lparr>mo_ok := 0, mo_bad := 0, mo_run := reset_run, mo_prev_during := False,
       mo_prev_trigger := '''', mo_fams := map_option reset_family \<circ> mo_fams m\<rparr>)"

definition note_pause :: "gtime \<Rightarrow> monitor \<Rightarrow> monitor" where
  "note_pause now m =
     (if \<not> mo_online m \<and> t_is_zero (mo_down_paused m) then m\<lparr>mo_down_paused := now\<rparr> else m)"

definition note_resume :: "gtime \<Rightarrow> monitor \<Rightarrow> monitor" where
  "note_resume now m =
     (if \<not> t_is_zero (mo_down_paused m)
      then let d = t_sub now (mo_down_paused m);
               m = (if d > 0 then m\<lparr>mo_paused_gap := mo_paused_gap m + d\<rparr> else m)
           in m\<lparr>mo_down_paused := zero_time\<rparr>
      else m)"

section \<open>Events and their retry buffer\<close>

definition max_pending_events :: nat where "max_pending_events = 64"

definition buffer_pending_event :: "gtime \<Rightarrow> string \<Rightarrow> int \<Rightarrow> monitor \<Rightarrow> monitor" where
  "buffer_pending_event ts kind dur m =
     (let m = (if length (mo_pending m) \<ge> max_pending_events
               then on_mreg (stats_inc ''monitor.event_dropped'') (m\<lparr>mo_pending := tl (mo_pending m)\<rparr>)
               else m);
          m = m\<lparr>mo_pending := mo_pending m @ [\<lparr>pe_ts = ts, pe_kind = kind, pe_dur = dur\<rparr>]\<rparr>
      in on_mreg (stats_set ''monitor.pending_events'' (int (length (mo_pending m)))) m)"

definition put_event :: "world \<Rightarrow> gtime \<Rightarrow> string \<Rightarrow> int \<Rightarrow> monitor \<Rightarrow> bool \<times> monitor" where
  "put_event w ts kind dur m =
     (let (err, st) = insert_event w (t_unix ts) kind dur [] (mo_store m)
      in (err = None, m\<lparr>mo_store := st\<rparr>))"

text \<open>\<open>flushPendingEvents\<close>: from the front, until one cannot be written.\<close>

function flush_pending_events :: "world \<Rightarrow> monitor \<Rightarrow> monitor" where
  "flush_pending_events w m =
     (case mo_pending m of
        [] \<Rightarrow> m
      | ev # rest \<Rightarrow>
          (case put_event w (pe_ts ev) (pe_kind ev) (pe_dur ev) m of
             (False, m1) \<Rightarrow> m1
           | (True, m1) \<Rightarrow>
               flush_pending_events w
                 (on_mreg (stats_set ''monitor.pending_events'' (int (length rest)))
                   (m1\<lparr>mo_pending := rest\<rparr>))))"
  by pat_completeness auto
termination
  by (relation "measure (\<lambda>(w, m). length (mo_pending m))") (auto simp: on_mreg_def)

declare flush_pending_events.simps [simp del]

text \<open>\<open>ceilSeconds\<close>\<close>

definition ceil_seconds :: "duration \<Rightarrow> int" where
  "ceil_seconds d = (let s = d sdiv second in if d > s * second then s + 1 else s)"

text \<open>\<open>transition\<close>: the verdict changes at \<open>sec\<close> (a reading taken by the round).  The parts the
  code computes under the lock come first: the outage's length, and the second its event is
  written at.\<close>

definition outage_length :: "bool \<Rightarrow> gtime \<Rightarrow> monitor \<Rightarrow> int" where
  "outage_length online sec m =
     (let elapsed = (if t_sub sec (mo_since m) < 0 then 0 else t_sub sec (mo_since m));
          dur = dur_secs elapsed; gap = dur_secs (mo_paused_gap m)
      in if online \<and> gap > 0 then (if dur - gap < 0 then 0 else dur - gap) else dur)"

definition event_second :: "bool \<Rightarrow> gtime \<Rightarrow> monitor \<Rightarrow> gtime" where
  "event_second online sec m =
     (let elapsed = (if t_sub sec (mo_since m) < 0 then 0 else t_sub sec (mo_since m));
          last = mo_last_event m;
          ev = sec;
          ev = (if \<not> t_is_zero last
                then (let ev = (if t_unix ev < t_unix last then last else ev)
                      in if \<not> online \<and> t_unix ev = t_unix last then time_unix (t_unix last + 1) else ev)
                else ev);
          width = dur_secs elapsed + ceil_seconds (mo_frozen_gap m)
      in if online \<and> outage_length online sec m > 0 \<and> \<not> t_is_zero last \<and> t_unix ev - t_unix last < width
         then time_unix (t_unix last + width) else ev)"

text \<open>What changes under the lock, then the write (or the retry buffer) and the callbacks.\<close>

definition switch_to :: "bool \<Rightarrow> gtime \<Rightarrow> gtime \<Rightarrow> monitor \<Rightarrow> monitor" where
  "switch_to online sec ev m =
     m\<lparr>mo_last_event := ev, mo_outage_gen := Suc (mo_outage_gen m), mo_down_paused := zero_time,
       mo_paused_gap := 0, mo_frozen_gap := 0, mo_online := online, mo_since := sec\<rparr>"

definition record_event :: "world \<Rightarrow> gtime \<Rightarrow> string \<Rightarrow> int \<Rightarrow> monitor \<Rightarrow> monitor" where
  "record_event w ev kind dur m =
     (let (ok, m) = put_event w ev kind dur m in if ok then m else buffer_pending_event ev kind dur m)"

definition transition :: "world \<Rightarrow> bool \<Rightarrow> gtime \<Rightarrow> monitor \<Rightarrow> monitor" where
  "transition w online sec m =
     (let dur = outage_length online sec m;
          ev = event_second online sec m;
          m = switch_to online sec ev m;
          m = (if online
               then call_back (Reconnected dur)
                      (record_event w ev ''up'' dur
                        (on_mreg (stats_addf ''monitor.outage_s_sum'' (of_int dur)) m))
               else record_event w ev ''down'' (-1) (on_mreg (stats_inc ''monitor.downs'') m))
      in call_back (Transitioned online dur) m)"

section \<open>Rounds\<close>

text \<open>A failing streak that ended below the threshold is a blip; one that reached it only on
  rounds a speedtest ran in was suppressed.\<close>

definition note_blip :: "monitor \<Rightarrow> monitor" where
  "note_blip m =
     (if mo_online m \<and> mo_bad m > 0 then
        (let counted = run_counted (mo_bad m) (mo_run m);
             m = (if counted > 0
                  then on_mreg (stats_set_max ''monitor.blip_streak_max'' counted)
                         (on_mreg (stats_inc ''monitor.blips'') m)
                  else m)
         in if \<not> t_is_zero (fr_due (mo_run m))
            then on_mreg (stats_inc (''monitor.speedtest_downs_suppressed.'' @ fr_trigger (mo_run m))) m
            else m)
      else m)"

definition count_link_round :: "hooks \<Rightarrow> probe_result \<Rightarrow> bool \<Rightarrow> string \<Rightarrow> monitor \<Rightarrow> monitor" where
  "count_link_round h res during trigger m =
     (let m = on_mreg (stats_inc ''monitor.rounds'') m in
      if pr_online res
      then (note_blip m)\<lparr>mo_ok := mo_ok m + 1, mo_bad := 0, mo_run := reset_run\<rparr>
      else (on_mreg (stats_inc ''monitor.bad_rounds'') m)
             \<lparr>mo_bad := mo_bad m + 1, mo_ok := 0,
              mo_run := run_fail (pr_ts res) (mo_bad m + 1) (down_after h m) during trigger (mo_run m)\<rparr>)"

definition note_delay :: "probe_result \<Rightarrow> gtime \<Rightarrow> monitor \<Rightarrow> monitor" where
  "note_delay res sec m =
     (if t_before sec (pr_ts res)
      then on_mreg (stats_addf (''monitor.speedtest_delay_s_sum.'' @ fr_trigger (mo_run m))
                      (dur_seconds (t_sub (pr_ts res) sec)))
             (on_mreg (stats_inc (''monitor.speedtest_downs_delayed.'' @ fr_trigger (mo_run m))) m)
      else m)"

definition advance :: "world \<Rightarrow> hooks \<Rightarrow> probe_result \<Rightarrow> bool \<Rightarrow> string \<Rightarrow> monitor \<Rightarrow> monitor" where
  "advance w h res during trigger m =
     (let m = count_link_round h res during trigger m in
      if \<not> mo_online m \<and> mo_ok m \<ge> up_after h m then transition w True (pr_ts res) m
      else if mo_online m \<and> run_counted (mo_bad m) (mo_run m) \<ge> down_after h m
      then (let sec = run_dated (pr_ts res) (mo_run m) in transition w False sec (note_delay res sec m))
      else m)"

text \<open>The family's own state after a round, then what \<open>advanceFamily\<close> does to the monitor.\<close>

definition family_round ::
  "int \<Rightarrow> int \<Rightarrow> family_result \<Rightarrow> gtime \<Rightarrow> bool \<Rightarrow> family_state \<Rightarrow> int \<times> family_state" where
  "family_round da ua fr ts during fs =
     (let fs = (if fr_online fr
                then fs\<lparr>fs_ok := fs_ok fs + 1, fs_bad := 0, fs_run := reset_run\<rparr>
                else (let fs = fs\<lparr>fs_bad := fs_bad fs + 1, fs_ok := 0\<rparr>
                      in fs\<lparr>fs_run := run_fail ts (fs_bad fs) da during [] (fs_run fs)\<rparr>));
          flip = (if \<not> fs_online fs \<and> fs_ok fs \<ge> ua then 1
                  else if fs_online fs \<and> run_counted (fs_bad fs) (fs_run fs) \<ge> da then -1 else 0);
          fs = fs\<lparr>fs_latency := dur_ms (fr_latency fr)\<rparr>;
          fs = (if flip = 1 then fs\<lparr>fs_online := True, fs_since := ts\<rparr>
                else if flip = -1 then fs\<lparr>fs_online := False, fs_since := run_dated ts (fs_run fs)\<rparr>
                else fs)
      in (flip, fs))"

fun string_less :: "string \<Rightarrow> string \<Rightarrow> bool" where
  "string_less _ [] = False"
| "string_less [] (_ # _) = True"
| "string_less (c # cs) (d # ds) =
     (if c = d then string_less cs ds else (of_char c :: nat) < of_char d)"

fun insert_sorted :: "string \<Rightarrow> string list \<Rightarrow> string list" where
  "insert_sorted x [] = [x]"
| "insert_sorted x (y # ys) = (if string_less y x then y # insert_sorted x ys else x # y # ys)"

text \<open>\<open>sort.Strings\<close>\<close>

definition sort_strings :: "string list \<Rightarrow> string list" where
  "sort_strings xs = foldr insert_sorted xs []"

definition advance_family ::
  "hooks \<Rightarrow> family_result \<Rightarrow> gtime \<Rightarrow> bool \<Rightarrow> monitor \<Rightarrow> monitor" where
  "advance_family h fr ts during m =
     (let fam = fr_family fr;
          m = (if mo_fams m fam = None
               then m\<lparr>mo_fams := (mo_fams m)(fam \<mapsto> new_family\<lparr>fs_since := ts\<rparr>),
                      mo_order := sort_strings (mo_order m @ [fam])\<rparr>
               else m)
      in case mo_fams m fam of
           None \<Rightarrow> m
         | Some fs \<Rightarrow>
             (let (flip, fs) = family_round (down_after h m) (up_after h m) fr ts during fs;
                  m = m\<lparr>mo_fams := (mo_fams m)(fam \<mapsto> fs)\<rparr>
              in if flip \<noteq> 0 \<and> fam = ''ipv4'' then on_mreg (stats_inc ''monitor.flap.ipv4'') m
                 else if flip \<noteq> 0 \<and> fam = ''ipv6'' then on_mreg (stats_inc ''monitor.flap.ipv6'') m
                 else m))"

definition note_families :: "hooks \<Rightarrow> probe_result \<Rightarrow> monitor \<Rightarrow> monitor" where
  "note_families h res m =
     (let act = map fst (pr_families res);
          m = m\<lparr>mo_active := act,
                mo_fams := (\<lambda>fam. if fam \<in> set act then mo_fams m fam
                                  else map_option reset_family (mo_fams m fam))\<rparr>;
          delta = (if \<not> t_is_zero (mo_last_note m) \<and> t_sub (pr_ts res) (mo_last_note m) > 0 \<and>
                      t_sub (pr_ts res) (mo_last_note m) \<le> interval h m + 60 * second
                   then t_sub (pr_ts res) (mo_last_note m) else interval h m);
          m = m\<lparr>mo_last_note := pr_ts res\<rparr>
      in case (map_of (pr_families res) ''ipv4'', map_of (pr_families res) ''ipv6'') of
           (Some v4, Some v6) \<Rightarrow>
             (if fr_online v4 \<noteq> fr_online v6
              then (if \<not> fr_online v4 then on_mreg (stats_addf ''monitor.v4_only_down_s'' (dur_seconds delta)) m
                    else on_mreg (stats_addf ''monitor.v6_only_down_s'' (dur_seconds delta)) m)
              else m)
         | _ \<Rightarrow> m)"

definition note_speedtest_round :: "probe_result \<Rightarrow> bool \<Rightarrow> string \<Rightarrow> monitor \<Rightarrow> monitor" where
  "note_speedtest_round res during trigger m =
     (let m = (if during
               then (let m = on_mreg (stats_inc (''monitor.speedtest_rounds.'' @ trigger)) m
                     in if \<not> pr_online res then on_mreg (stats_inc (''monitor.speedtest_bad_rounds.'' @ trigger)) m
                        else m)
               else if mo_prev_during m \<and> \<not> pr_online res
               then on_mreg (stats_inc (''monitor.speedtest_tail_bad_rounds.'' @ mo_prev_trigger m)) m
               else m)
      in m\<lparr>mo_prev_during := during, mo_prev_trigger := trigger\<rparr>)"

section \<open>The slow-link trigger\<close>

definition degraded_rounds :: int where "degraded_rounds = 2"

definition check_degraded :: "hooks \<Rightarrow> rat \<Rightarrow> bool \<Rightarrow> bool \<Rightarrow> monitor \<Rightarrow> monitor" where
  "check_degraded h best have_reading online m =
     (let thr = (case hk_degraded_ping h of None \<Rightarrow> 0 | Some t \<Rightarrow> t) in
      if thr \<le> 0 \<or> \<not> online then reset_degraded m
      else if \<not> have_reading then m
      else if best > thr then
        (let m = m\<lparr>mo_deg_streak := mo_deg_streak m + 1\<rparr> in
         if mo_deg_streak m < degraded_rounds then m
         else
           (let m = (if \<not> mo_degraded m
                     then on_mreg (stats_inc ''monitor.degraded_episodes'') (m\<lparr>mo_degraded := True\<rparr>) else m);
                m = (if mo_deg_sent m \<and> mo_deg_retry m = mo_deg_id m
                     then m\<lparr>mo_deg_retry := 0, mo_deg_sent := False\<rparr> else m)
            in if \<not> mo_deg_sent m \<and> hk_on_degraded h
               then call_back Degraded
                      (m\<lparr>mo_deg_sent := True, mo_deg_seq := Suc (mo_deg_seq m), mo_deg_id := Suc (mo_deg_seq m)\<rparr>)
               else m))
      else reset_degraded m)"

definition degraded_dispatch :: "monitor \<Rightarrow> nat" where
  "degraded_dispatch m = mo_deg_id m"

definition retry_degraded :: "nat \<Rightarrow> monitor \<Rightarrow> monitor" where
  "retry_degraded i m = (if i = 0 then m else if mo_deg_retry m \<ge> i then m else m\<lparr>mo_deg_retry := i\<rparr>)"

fun best_latency :: "rat option \<Rightarrow> (string \<times> family_result) list \<Rightarrow> rat option" where
  "best_latency best [] = best"
| "best_latency best ((_, fr) # frs) =
     best_latency
       (if \<not> fr_online fr then best
        else case best of None \<Rightarrow> Some (dur_ms (fr_latency fr))
             | Some b \<Rightarrow> if dur_ms (fr_latency fr) < b then Some (dur_ms (fr_latency fr)) else best) frs"

definition note_degraded :: "hooks \<Rightarrow> probe_result \<Rightarrow> bool \<Rightarrow> monitor \<Rightarrow> monitor" where
  "note_degraded h res during m =
     (let best = best_latency None (pr_families res)
      in check_degraded h (case best of Some b \<Rightarrow> b | None \<Rightarrow> 0) (best \<noteq> None \<and> \<not> during) (mo_online m) m)"

end
