(* ===== verification/MonitorLoop.thy ===== *)
theory MonitorLoop
  imports Monitor
begin

text \<open>
  The rest of \<open>internal/monitor/monitor.go\<close>: a whole round, the spans nobody watched, and one
  turn of the loop \<open>Run\<close>.
\<close>

section \<open>A round\<close>

text \<open>What a round meets: the speedtest readings around the probe, what the probe found, whether
  the context had ended by then.\<close>

record round_env =
  re_world :: world
  re_hooks :: hooks
  re_seq0 :: nat
  re_seq1 :: nat
  re_trigger :: string
  re_result :: probe_result
  re_ended :: bool

definition sample_of :: "gtime \<Rightarrow> target_result \<Rightarrow> sample" where
  "sample_of ts tr = \<lparr>s_ts = ts, s_target = tg_name (tr_target tr), s_family = tg_family (tr_target tr),
     s_latency = dur_ms (tr_latency tr), s_ok = tr_ok tr\<rparr>"

fun count_targets :: "target_result list \<Rightarrow> monitor \<Rightarrow> monitor" where
  "count_targets [] m = m"
| "count_targets (tr # trs) m =
     count_targets trs
       (if tr_ok tr then on_mreg (stats_observe ''probe.latency'' (dur_seconds (tr_latency tr))) m
        else on_mreg (stats_inc (''probe.fail.'' @ dial_err_class (tr_err tr))) m)"

definition forget_dns :: "monitor \<Rightarrow> monitor" where
  "forget_dns m = m\<lparr>mo_dns_seen := False, mo_dns_gen := Suc (mo_dns_gen m)\<rparr>"

fun advance_families :: "hooks \<Rightarrow> gtime \<Rightarrow> bool \<Rightarrow> (string \<times> family_result) list \<Rightarrow> monitor \<Rightarrow> monitor" where
  "advance_families h ts during [] m = m"
| "advance_families h ts during ((_, fr) # frs) m =
     advance_families h ts during frs (advance_family h fr ts during m)"

text \<open>The DNS probe a round starts: the round's time, and the generation it began in.\<close>

type_synonym dns_probe = "gtime \<times> nat"

definition start_dns :: "hooks \<Rightarrow> gtime \<Rightarrow> monitor \<Rightarrow> dns_probe option \<times> monitor" where
  "start_dns h ts m =
     (let on = dns_enabled h;
          m = (if \<not> on \<and> mo_dns_was m then forget_dns m else m);
          m = m\<lparr>mo_dns_was := on\<rparr>
      in if on \<and> \<not> mo_dns_busy m then (Some (ts, mo_dns_gen m), m\<lparr>mo_dns_busy := True\<rparr>) else (None, m))"

definition round_body :: "round_env \<Rightarrow> monitor \<Rightarrow> dns_probe option \<times> monitor" where
  "round_body e m =
     (let h = re_hooks e; res = re_result e; w = re_world e;
          during = (re_seq0 e mod 2 = 1 \<or> re_seq1 e \<noteq> re_seq0 e);
          trigger = (if during then speedtest_trigger (re_trigger e) else '''');
          m = on_mreg (stats_set ''probe.last_round_ts'' (t_unix (pr_ts res))) m;
          m = count_targets (pr_targets res) m;
          m = m\<lparr>mo_store := snd (insert_samples w (map (sample_of (pr_ts res)) (pr_targets res)) (mo_store m))\<rparr>;
          (dns, m) = start_dns h (pr_ts res) m;
          m = advance_families h (pr_ts res) during (pr_families res) m;
          m = note_families h res m;
          m = advance w h res during trigger m;
          m = note_speedtest_round res during trigger m;
          m = note_degraded h res during m
      in (dns, m))"

definition monitor_round :: "round_env \<Rightarrow> monitor \<Rightarrow> dns_probe option \<times> monitor" where
  "monitor_round e m =
     (let m = flush_pending_events (re_world e) m in
      if re_ended e \<or> pr_skipped (re_result e) then (None, reset_streaks m)
      else round_body e m)"

text \<open>The DNS probe comes back on its own goroutine, in two critical sections: before and after
  it counts its result.  Each answers whether the goroutine goes on.\<close>

definition dns_counts ::
  "dns_probe \<Rightarrow> duration \<Rightarrow> bool \<Rightarrow> go_error option \<Rightarrow> bool \<Rightarrow> int \<Rightarrow> monitor \<Rightarrow> bool \<times> monitor" where
  "dns_counts p dur ok err ended now m =
     (if mo_dns_gen m \<noteq> snd p then (False, m\<lparr>mo_dns_busy := False\<rparr>)
      else let m = on_mreg (stats_set ''dns.last_attempt_ts'' now) (on_mreg (stats_inc ''dns.attempts'') m);
               m = (if ok then on_mreg (stats_set ''dns.last_ok_ts'' now)
                                 (on_mreg (stats_observe ''dns.latency'' (dur_seconds dur)) m) else m)
           in if \<not> ok \<and> ended then (False, m\<lparr>mo_dns_busy := False\<rparr>)
              else (True, if \<not> ok then on_mreg (stats_inc (''dns.fail.'' @ dial_err_class err)) m else m))"

definition dns_publishes ::
  "world \<Rightarrow> dns_probe \<Rightarrow> duration \<Rightarrow> bool \<Rightarrow> bool \<Rightarrow> monitor \<Rightarrow> monitor" where
  "dns_publishes w p dur ok ended m =
     (let m = (if mo_dns_gen m \<noteq> snd p then m
               else let m = m\<lparr>mo_dns_ms := dur_ms dur, mo_dns_ok := ok, mo_dns_seen := True\<rparr>
                    in if ended then m
                       else m\<lparr>mo_store := snd (insert_dns w (fst p) (dur_ms dur) ok (mo_store m))\<rparr>)
      in m\<lparr>mo_dns_busy := False\<rparr>)"

section \<open>Spans nobody watched\<close>

definition suspend_gap_slack :: duration where "suspend_gap_slack = 10 * minute"
definition pause_checkpoint :: duration where "pause_checkpoint = 5 * minute"
definition startup_gap_min :: duration where "startup_gap_min = 2 * minute"
definition plausible_wall_epoch :: int where "plausible_wall_epoch = 1672531200"
definition schedule_recheck :: duration where "schedule_recheck = 30 * second"
definition max_held_gaps :: nat where "max_held_gaps = 64"

definition unobserved_gap :: "gtime \<Rightarrow> gtime \<Rightarrow> duration \<Rightarrow> int" where
  "unobserved_gap prev now threshold =
     (if t_unix prev < plausible_wall_epoch \<or> t_unix now < plausible_wall_epoch then 0
      else let gap = t_unix now - t_unix prev in
        if gap \<le> threshold sdiv second then 0 else gap)"

definition unobserved_in_outage :: "duration \<Rightarrow> duration \<Rightarrow> duration" where
  "unobserved_in_outage wall ticked = (if ticked \<le> 0 then 0 else if ticked > wall then wall else ticked)"

record pending_gap =
  pg_start :: gtime
  pg_secs :: int
  pg_deduct :: duration
  pg_frozen :: duration
  pg_gen :: nat
  pg_pause :: bool

definition revert_gap_deduction :: "pending_gap \<Rightarrow> monitor \<Rightarrow> monitor" where
  "revert_gap_deduction p m =
     (if pg_deduct p \<le> 0 \<and> pg_frozen p \<le> 0 then m
      else if pg_gen p \<noteq> mo_outage_gen m then m
      else m\<lparr>mo_paused_gap := (if mo_paused_gap m > pg_deduct p then mo_paused_gap m - pg_deduct p else 0),
             mo_frozen_gap := (if mo_frozen_gap m > pg_frozen p then mo_frozen_gap m - pg_frozen p else 0)\<rparr>)"

definition drop_refused_pause_deduction :: "pending_gap \<Rightarrow> monitor \<Rightarrow> monitor" where
  "drop_refused_pause_deduction p m =
     (if \<not> t_is_zero (mo_down_paused m) \<and> pg_gen p = mo_outage_gen m \<and>
         \<not> t_before (pg_start p) (mo_down_paused m)
      then m\<lparr>mo_down_paused := t_add (mo_down_paused m) (secs_dur (pg_secs p))\<rparr> else m)"

definition flush_gap :: "world \<Rightarrow> pending_gap \<Rightarrow> monitor \<Rightarrow> pending_gap option \<times> monitor" where
  "flush_gap w p m =
     (let ((stored, err), st) = insert_pause w (t_unix (pg_start p)) (pg_secs p) (mo_store m);
          m = m\<lparr>mo_store := st\<rparr> in
      if err \<noteq> None then (Some p, on_mreg (stats_inc ''monitor.unobserved_gap_retries'') m)
      else if \<not> stored then
        (None, on_mreg (stats_inc ''monitor.unobserved_gap_refused'')
                 (if pg_pause p then drop_refused_pause_deduction p m else revert_gap_deduction p m))
      else if pg_pause p then (None, m)
      else (None, on_mreg (stats_addf ''monitor.unobserved_s'' (of_int (pg_secs p)))
                    (on_mreg (stats_inc ''monitor.unobserved_gaps'') m)))"

definition append_held_gap :: "pending_gap list \<Rightarrow> pending_gap \<Rightarrow> monitor \<Rightarrow> pending_gap list \<times> monitor" where
  "append_held_gap held p m =
     (if length held \<ge> max_held_gaps
      then (tl held @ [p],
            revert_gap_deduction (hd held) (on_mreg (stats_inc ''monitor.unobserved_gap_dropped'') m))
      else (held @ [p], m))"

fun retry_held_gaps :: "world \<Rightarrow> pending_gap list \<Rightarrow> monitor \<Rightarrow> pending_gap list \<times> monitor" where
  "retry_held_gaps w [] m = ([], m)"
| "retry_held_gaps w (p # ps) m =
     (let (still, m) = flush_gap w p m; (keep, m) = retry_held_gaps w ps m
      in (case still of Some q \<Rightarrow> q # keep | None \<Rightarrow> keep, m))"

definition book_unobserved_gap ::
  "world \<Rightarrow> gtime \<Rightarrow> gtime \<Rightarrow> bool \<Rightarrow> duration \<Rightarrow> duration \<Rightarrow> monitor \<Rightarrow>
   (bool \<times> pending_gap option) \<times> monitor" where
  "book_unobserved_gap w prev now pause_open waited ticked m =
     (let gap = unobserved_gap prev now (waited + suspend_gap_slack) in
      if gap = 0 then ((False, None), m)
      else if pause_open then ((True, None), m)
      else let p = \<lparr>pg_start = prev, pg_secs = gap, pg_deduct = 0, pg_frozen = 0, pg_gen = 0, pg_pause = False\<rparr>;
               deduct = unobserved_in_outage (secs_dur gap) ticked;
               (p, m) = (if \<not> mo_online m
                         then (p\<lparr>pg_gen := mo_outage_gen m, pg_deduct := deduct, pg_frozen := secs_dur gap - deduct\<rparr>,
                               m\<lparr>mo_paused_gap := mo_paused_gap m + deduct,
                                 mo_frozen_gap := mo_frozen_gap m + (secs_dur gap - deduct)\<rparr>)
                         else (p, m));
               (left, m) = flush_gap w p m
           in ((True, left), m))"

definition book_pause_span ::
  "world \<Rightarrow> gtime \<Rightarrow> duration \<Rightarrow> duration \<Rightarrow> monitor \<Rightarrow> pending_gap option \<times> monitor" where
  "book_pause_span w start stretch ticked m =
     (let p = \<lparr>pg_start = start, pg_secs = dur_secs stretch, pg_deduct = 0, pg_frozen = 0,
               pg_gen = mo_outage_gen m, pg_pause = True\<rparr>;
          m = (if \<not> mo_online m
               then m\<lparr>mo_frozen_gap := mo_frozen_gap m + (secs_dur (pg_secs p) - ticked)\<rparr> else m)
      in flush_gap w p m)"

section \<open>The loop\<close>

text \<open>The locals of \<open>Run\<close>.\<close>

record loop =
  lp_mon :: monitor
  lp_held :: "pending_gap list"
  lp_last_round :: gtime
  lp_last_wall :: gtime
  lp_last_interval :: duration
  lp_paused :: bool
  lp_pause_tick :: gtime
  lp_pause_start :: gtime

definition hold_back :: "pending_gap option \<Rightarrow> loop \<Rightarrow> loop" where
  "hold_back left l = (case left of None \<Rightarrow> l
     | Some p \<Rightarrow> let (held, m) = append_held_gap (lp_held l) p (lp_mon l)
                in l\<lparr>lp_held := held, lp_mon := m\<rparr>)"

definition flush_pause :: "world \<Rightarrow> gtime \<Rightarrow> bool \<Rightarrow> loop \<Rightarrow> loop" where
  "flush_pause w fin force l =
     (if t_is_zero (lp_pause_start l) then l
      else if t_unix (lp_pause_start l) < plausible_wall_epoch \<or> t_unix fin < plausible_wall_epoch
      then l\<lparr>lp_mon := on_mreg (stats_inc ''monitor.pause_clock_corrections'') (lp_mon l), lp_pause_start := fin\<rparr>
      else let stretch = secs_dur (t_unix fin - t_unix (lp_pause_start l));
               ticked = t_sub fin (lp_pause_start l);
               stretch = (if ticked > stretch then ticked else stretch) in
        if stretch \<le> 0 \<or> (\<not> force \<and> stretch < pause_checkpoint) then l
        else let (left, m) = book_pause_span w (lp_pause_start l) stretch ticked (lp_mon l);
                 l = hold_back left (l\<lparr>lp_mon := m\<rparr>)
             in l\<lparr>lp_pause_start := fin\<rparr>)"

text \<open>What one turn reads: the clock at the top, whether monitoring is on each time it is asked,
  the clock when a pause ends or goes on, the wait that is left, and the round if one is due.\<close>

record turn_env =
  te_world :: world
  te_wall :: gtime
  te_on1 :: bool
  te_resume_tick :: gtime
  te_resume_wall :: gtime
  te_resumed :: gtime
  te_on2 :: bool
  te_pause_now :: gtime
  te_until :: duration
  te_round :: round_env
  te_after :: gtime

definition resume_pause :: "turn_env \<Rightarrow> loop \<Rightarrow> loop" where
  "resume_pause e l =
     (let l = l\<lparr>lp_mon := on_mreg (stats_addf ''monitor.paused_s''
                  (dur_seconds (t_sub (te_resume_tick e) (lp_pause_tick l)))) (lp_mon l)\<rparr>;
          l = flush_pause (te_world e) (te_resume_wall e) True l
      in l\<lparr>lp_pause_start := zero_time, lp_paused := False,
           lp_mon := note_resume (te_resumed e) (lp_mon l)\<rparr>)"

definition stay_paused :: "turn_env \<Rightarrow> loop \<Rightarrow> loop" where
  "stay_paused e l =
     (let now = te_pause_now e;
          l = (if \<not> lp_paused l
               then l\<lparr>lp_paused := True, lp_pause_start := now,
                      lp_mon := on_mreg (stats_inc ''monitor.pauses'') (forget_dns (note_pause now (lp_mon l)))\<rparr>
               else flush_pause (te_world e) now False
                      (l\<lparr>lp_mon := on_mreg (stats_addf ''monitor.paused_s''
                           (dur_seconds (t_sub now (lp_pause_tick l)))) (lp_mon l)\<rparr>))
      in l\<lparr>lp_pause_tick := now, lp_mon := reset_streaks (lp_mon l), lp_last_interval := schedule_recheck\<rparr>)"

text \<open>One turn of the \<open>for\<close> loop, to the point where it waits or runs the next turn.\<close>

definition turn_top :: "turn_env \<Rightarrow> loop \<Rightarrow> loop" where
  "turn_top e l =
     (let (held, m) = retry_held_gaps (te_world e) (lp_held l) (lp_mon l);
          m = flush_pending_events (te_world e) m;
          ((booked, left), m) = book_unobserved_gap (te_world e) (lp_last_wall l) (te_wall e)
             (\<not> t_is_zero (lp_pause_start l)) (lp_last_interval l) (t_sub (te_wall e) (lp_last_wall l)) m;
          l = hold_back left (l\<lparr>lp_held := held, lp_mon := m\<rparr>);
          l = (if booked then l\<lparr>lp_mon := reset_streaks (lp_mon l)\<rparr> else l)
      in l\<lparr>lp_last_wall := te_wall e\<rparr>)"

definition turn :: "turn_env \<Rightarrow> loop \<Rightarrow> dns_probe option \<times> loop" where
  "turn e l =
     (let l = turn_top e l;
          l = (if lp_paused l \<and> te_on1 e then resume_pause e l else l)
      in if \<not> te_on2 e then (None, stay_paused e l)
         else if te_until e \<le> 0
         then (let (dns, m) = monitor_round (te_round e) (lp_mon l)
               in (dns, l\<lparr>lp_last_interval := 0, lp_mon := m, lp_last_round := te_after e\<rparr>))
         else (None, l\<lparr>lp_last_interval := te_until e\<rparr>))"

text \<open>\<open>Run\<close> up to its loop.  \<open>newest\<close> is the newest event on disk, \<open>boot\<close> the two clock readings
  the startup gap is judged by, \<open>first\<close> the round taken at once when monitoring is on.\<close>

definition future_slack :: duration where "future_slack = 48 * hour"

definition run_start ::
  "world \<Rightarrow> gtime \<Rightarrow> int option \<Rightarrow> gtime \<Rightarrow> gtime \<Rightarrow> round_env option \<Rightarrow> gtime \<Rightarrow> gtime \<Rightarrow> hooks \<Rightarrow>
   monitor \<Rightarrow> loop" where
  "run_start w now newest judged boot first after wall h m =
     (let m = m\<lparr>mo_since := now, mo_fams := map_option (\<lambda>fs. fs\<lparr>fs_since := now\<rparr>) \<circ> mo_fams m\<rparr>;
          m = (case newest of
                 Some ts \<Rightarrow> if ts \<le> t_unix (t_add judged future_slack) then m\<lparr>mo_last_event := time_unix ts\<rparr> else m
               | None \<Rightarrow> m);
          (last, st) = last_observed_ts w (mo_store m);
          m = m\<lparr>mo_store := st\<rparr>;
          (left, m) = (case last of
             Inr (Some ts) \<Rightarrow>
               (let gap = t_sub boot (time_unix ts) in
                if gap > startup_gap_min
                then flush_gap w \<lparr>pg_start = time_unix ts, pg_secs = dur_secs gap, pg_deduct = 0, pg_frozen = 0,
                       pg_gen = mo_outage_gen m, pg_pause = True\<rparr> m
                else (None, m))
           | _ \<Rightarrow> (None, m));
          (held, m) = (case left of None \<Rightarrow> ([], m) | Some p \<Rightarrow> append_held_gap [] p m);
          m = (case first of None \<Rightarrow> m | Some e \<Rightarrow> snd (monitor_round e m))
      in \<lparr>lp_mon = m, lp_held = held, lp_last_round = after, lp_last_wall = wall,
          lp_last_interval = interval h m, lp_paused = False, lp_pause_tick = zero_time,
          lp_pause_start = zero_time\<rparr>)"

section \<open>The published status\<close>

record family_status =
  st_family :: string
  st_f_online :: bool
  st_f_since :: gtime
  st_f_latency :: rat

record status =
  su_online :: bool
  su_since :: gtime
  su_paused :: bool
  su_probing :: bool
  su_families :: "family_status list"
  su_dns_ms :: rat
  su_dns_ok :: bool
  su_dns_active :: bool

definition snapshot :: "hooks \<Rightarrow> monitor \<Rightarrow> status" where
  "snapshot h m =
     (let live = probing h \<and> dns_enabled h \<and> mo_dns_seen m in
      \<lparr>su_online = mo_online m, su_since = mo_since m, su_paused = \<not> monitoring h, su_probing = probing h,
       su_families =
         (if probing h
          then List.map_filter (\<lambda>fam. if fam \<notin> set (mo_active m) then None
                 else map_option (\<lambda>fs. \<lparr>st_family = fam, st_f_online = fs_online fs, st_f_since = fs_since fs,
                                       st_f_latency = fs_latency fs\<rparr>) (mo_fams m fam)) (mo_order m)
          else []),
       su_dns_ms = (if live then mo_dns_ms m else 0), su_dns_ok = (live \<and> mo_dns_ok m),
       su_dns_active = live\<rparr>)"

end
