(* ===== verification/EventDoor.thy ===== *)
theory EventDoor
  imports Prelude "HOL-Library.Multiset"
begin

text \<open>
  The interface between the monitor and the store's event table.  A door takes one event and
  says whether it was written; the law is that the record then grew by exactly that event's row,
  or not at all.  On top of it: what a bounded retry queue in front of such a door conserves.
\<close>

text \<open>Writing from the front of a queue until one write fails; \<open>tally\<close> publishes the depth.\<close>

fun drain :: "('e \<Rightarrow> 's \<Rightarrow> bool \<times> 's) \<Rightarrow> (nat \<Rightarrow> 's \<Rightarrow> 's) \<Rightarrow> 'e list \<Rightarrow> 's \<Rightarrow> 'e list \<times> 's" where
  "drain put tally [] s = ([], s)"
| "drain put tally (e # es) s = (case put e s of
     (False, s) \<Rightarrow> (e # es, s)
   | (True, s) \<Rightarrow> drain put tally es (tally (length es) s))"

text \<open>Offering one event: into the record, or into the queue.\<close>

definition offer :: "('e \<Rightarrow> 's \<Rightarrow> bool \<times> 's) \<Rightarrow> nat \<Rightarrow> 'e \<Rightarrow> 'e list \<Rightarrow> 's \<Rightarrow> 'e list \<times> 's" where
  "offer put cap e q s = (case put e s of
     (True, s) \<Rightarrow> (q, s)
   | (False, s) \<Rightarrow> (push_bounded cap q e, s))"

locale event_door =
  fixes put :: "'e \<Rightarrow> 's \<Rightarrow> bool \<times> 's"
    and tally :: "nat \<Rightarrow> 's \<Rightarrow> 's"
    and recorded :: "'s \<Rightarrow> 'row list"
    and row :: "'e \<Rightarrow> 'row"
  assumes put_law: "put e s = (ok, s') \<Longrightarrow> recorded s' = recorded s @ (if ok then [row e] else [])"
    and tally_law: "recorded (tally n s) = recorded s"
begin

lemma drain_order:
  "drain put tally q s = (q', s') \<Longrightarrow>
     \<exists>written. q = written @ q' \<and> recorded s' = recorded s @ map row written"
proof (induction q arbitrary: s)
  case (Cons e es)
  obtain ok s1 where p: "put e s = (ok, s1)" by (cases "put e s")
  show ?case
  proof (cases ok)
    case True
    then have "drain put tally es (tally (length es) s1) = (q', s')" using Cons.prems p by simp
    from Cons.IH [OF this] obtain written where
      "es = written @ q'" "recorded s' = recorded s1 @ map row written" by (auto simp: tally_law)
    then have "e # es = (e # written) @ q' \<and> recorded s' = recorded s @ map row (e # written)"
      using put_law [OF p] True by simp
    then show ?thesis by blast
  next
    case False
    then show ?thesis using Cons.prems p put_law [OF p] by auto
  qed
qed simp

lemma drain_conserves:
  assumes "drain put tally q s = (q', s')"
  shows "mset (recorded s') + mset (map row q') = mset (recorded s) + mset (map row q)"
  using drain_order [OF assms] by auto

lemma offer_conserves:
  assumes "offer put cap e q s = (q', s')" and "length q < cap"
  shows "mset (recorded s') + mset (map row q') = mset (recorded s) + mset (map row q) + {#row e#}"
proof -
  obtain ok s1 where p: "put e s = (ok, s1)" by (cases "put e s")
  show ?thesis using assms put_law [OF p] by (cases ok) (auto simp: offer_def p push_bounded_room)
qed

end

end
