(* ===== verification/MonitorFacts.thy ===== *)
theory MonitorFacts
  imports MonitorLoop UptimeFacts StoreFacts EventDoor
begin

text \<open>
  What the monitor promises: its verdicts follow the shared debounce contract, no transition is
  lost or recorded twice, events never run backwards, and the pair of events an outage leaves
  behind is wide enough that the uptime figures charge exactly the outage's length.
\<close>

section \<open>Frames\<close>

lemma on_mreg_frame [simp]:
  "mo_online (on_mreg f m) = mo_online m" "mo_ok (on_mreg f m) = mo_ok m" "mo_bad (on_mreg f m) = mo_bad m"
  "mo_run (on_mreg f m) = mo_run m" "mo_cfg (on_mreg f m) = mo_cfg m" "mo_pending (on_mreg f m) = mo_pending m"
  "mo_since (on_mreg f m) = mo_since m" "mo_last_event (on_mreg f m) = mo_last_event m"
  "mo_paused_gap (on_mreg f m) = mo_paused_gap m" "mo_frozen_gap (on_mreg f m) = mo_frozen_gap m"
  "mo_outage_gen (on_mreg f m) = mo_outage_gen m" "mo_down_paused (on_mreg f m) = mo_down_paused m"
  "mo_fams (on_mreg f m) = mo_fams m" "mo_calls (on_mreg f m) = mo_calls m"
  "t_events (mo_store (on_mreg f m)) = t_events (mo_store m)"
  "t_pauses (mo_store (on_mreg f m)) = t_pauses (mo_store m)"
  "st_guard (mo_store (on_mreg f m)) = st_guard (mo_store m)"
  by (simp_all add: on_mreg_def on_reg_def)

section \<open>The link and the families are debounced\<close>

definition link_view :: "monitor \<Rightarrow> streaks" where
  "link_view m = \<lparr>sk_online = mo_online m, sk_ok = mo_ok m, sk_bad = mo_bad m, sk_run = mo_run m\<rparr>"

type_synonym link_round = "world \<times> hooks \<times> probe_result \<times> bool \<times> string"

definition link_judge :: "link_round \<Rightarrow> monitor \<Rightarrow> monitor" where
  "link_judge r m = (case r of (w, h, res, during, trigger) \<Rightarrow> advance w h res during trigger m)"

definition link_seen :: "link_round \<Rightarrow> monitor \<Rightarrow> round_in" where
  "link_seen r m = (case r of (w, h, res, during, trigger) \<Rightarrow>
     \<lparr>ri_good = pr_online res, ri_ts = pr_ts res, ri_during = during, ri_trigger = trigger,
      ri_down_after = down_after h m, ri_up_after = up_after h m\<rparr>)"

lemma link_view_simps [simp]:
  "link_view (on_mreg f m) = link_view m"
  "link_view (m\<lparr>mo_store := st\<rparr>) = link_view m"
  "link_view (call_back c m) = link_view m"
  "link_view (m\<lparr>mo_pending := ps\<rparr>) = link_view m"
  by (simp_all add: link_view_def call_back_def)

lemma link_view_buffer [simp]: "link_view (buffer_pending_event ts kind dur m) = link_view m"
  by (simp add: buffer_pending_event_def Let_def)

lemma link_view_put [simp]: "link_view (snd (put_event w ts kind dur m)) = link_view m"
  by (simp add: put_event_def split: prod.split)

lemma link_view_record [simp]: "link_view (record_event w ts kind dur m) = link_view m"
  using link_view_put [of w ts kind dur m]
  by (cases "put_event w ts kind dur m") (simp add: record_event_def del: link_view_put)

lemma link_view_transition [simp]:
  "link_view (transition w online sec m) = (link_view m)\<lparr>sk_online := online\<rparr>"
  by (simp add: transition_def Let_def) (simp add: link_view_def switch_to_def)

lemma down_after_cong [simp]: "down_after h (on_mreg f m) = down_after h m" "up_after h (on_mreg f m) = up_after h m"
  by (simp_all add: down_after_def up_after_def)

lemma link_view_note [simp]: "link_view (note_blip m) = link_view m" "link_view (note_delay res sec m) = link_view m"
  by (simp_all add: note_blip_def note_delay_def Let_def)

lemma cfg_note [simp]: "mo_cfg (note_blip m) = mo_cfg m"
  by (simp add: note_blip_def Let_def)

lemma count_link_view:
  "link_view (count_link_round h res during trigger m) = count_round (link_seen (w, h, res, during, trigger) m) (link_view m)"
proof -
  have 1: "mo_online (note_blip m) = mo_online m" for m
    using arg_cong [OF link_view_note(1) [of m], of sk_online] by (simp add: link_view_def)
  show ?thesis
    by (simp add: count_link_round_def count_round_def link_seen_def Let_def) (simp add: link_view_def 1)
qed

lemma thresholds_after_count [simp]:
  "down_after h (count_link_round h' res during trigger m) = down_after h m"
  "up_after h (count_link_round h' res during trigger m) = up_after h m"
  by (simp_all add: down_after_def up_after_def count_link_round_def Let_def)

lemma link_judge_view: "link_view (link_judge r m) = db_step (link_seen r m) (link_view m)"
proof -
  obtain w h res during trigger where r: "r = (w, h, res, during, trigger)" by (cases r) auto
  define c where "c = count_link_round h res during trigger m"
  have v: "link_view c = count_round (link_seen r m) (link_view m)"
    unfolding c_def r by (rule count_link_view)
  have th: "down_after h c = down_after h m" "up_after h c = up_after h m" by (simp_all add: c_def)
  have fl: "flips_up (link_seen r m) (link_view c) = (\<not> mo_online c \<and> mo_ok c \<ge> up_after h m)"
    "flips_down (link_seen r m) (link_view c) =
       (mo_online c \<and> run_counted (mo_bad c) (mo_run c) \<ge> down_after h m)"
    by (simp_all add: flips_up_def flips_down_def link_seen_def r link_view_def)
  have "link_view (link_judge r m) =
      (if flips_up (link_seen r m) (link_view c) then (link_view c)\<lparr>sk_online := True\<rparr>
       else if flips_down (link_seen r m) (link_view c) then (link_view c)\<lparr>sk_online := False\<rparr>
       else link_view c)"
    unfolding fl by (simp add: link_judge_def r advance_def Let_def c_def [symmetric] th)
  then show ?thesis by (simp add: db_step_def Let_def v)
qed

lemma link_forget_view: "link_view (reset_streaks m) = db_reset (link_view m)"
  by (simp add: reset_streaks_def reset_degraded_def link_view_def db_reset_def)

interpretation link: debounced link_judge "\<lambda>_ :: link_round. reset_streaks" link_view link_seen
  by unfold_locales (simp_all only: link_judge_view link_forget_view)

definition family_view :: "family_state \<Rightarrow> streaks" where
  "family_view fs = \<lparr>sk_online = fs_online fs, sk_ok = fs_ok fs, sk_bad = fs_bad fs, sk_run = fs_run fs\<rparr>"

type_synonym family_in = "int \<times> int \<times> family_result \<times> gtime \<times> bool"

definition family_judge :: "family_in \<Rightarrow> family_state \<Rightarrow> family_state" where
  "family_judge r fs = (case r of (da, ua, fr, ts, during) \<Rightarrow> snd (family_round da ua fr ts during fs))"

definition family_seen :: "family_in \<Rightarrow> family_state \<Rightarrow> round_in" where
  "family_seen r fs = (case r of (da, ua, fr, ts, during) \<Rightarrow>
     \<lparr>ri_good = fr_online fr, ri_ts = ts, ri_during = during, ri_trigger = [], ri_down_after = da,
      ri_up_after = ua\<rparr>)"

interpretation family: debounced family_judge "\<lambda>_ :: family_in. reset_family" family_view family_seen
proof unfold_locales
  fix r :: family_in and fs
  obtain da ua fr ts during where r: "r = (da, ua, fr, ts, during)" by (cases r) auto
  show "family_view (family_judge r fs) = db_step (family_seen r fs) (family_view fs)"
    by (simp add: family_judge_def family_seen_def r family_round_def db_step_def count_round_def Let_def
        flips_up_def flips_down_def family_view_def)
  show "family_view (reset_family fs) = db_reset (family_view fs)"
    by (simp add: family_view_def reset_family_def db_reset_def)
qed

section \<open>No transition is lost\<close>

definition pending_row :: "pending_event \<Rightarrow> event_row" where
  "pending_row pe = event_row_of (t_unix (pe_ts pe)) (pe_kind pe) (pe_dur pe) []"

definition door_put :: "world \<times> pending_event \<Rightarrow> monitor \<Rightarrow> bool \<times> monitor" where
  "door_put e m = put_event (fst e) (pe_ts (snd e)) (pe_kind (snd e)) (pe_dur (snd e)) m"

definition door_tally :: "nat \<Rightarrow> monitor \<Rightarrow> monitor" where
  "door_tally n m = on_mreg (stats_set ''monitor.pending_events'' (int n)) m"

lemma put_event_law:
  assumes "put_event w ts kind dur m = (ok, m')"
  shows "t_events (mo_store m') = t_events (mo_store m) @ (if ok then [event_row_of (t_unix ts) kind dur []] else [])"
    and "mo_pending m' = mo_pending m"
proof -
  obtain err st where "insert_event w (t_unix ts) kind dur [] (mo_store m) = (err, st)" by (metis surj_pair)
  note i = this insert_event_law [OF this]
  have "ok = (err = None)" "m' = m\<lparr>mo_store := st\<rparr>"
    using assms by (auto simp: put_event_def i(1))
  then show "t_events (mo_store m') = t_events (mo_store m) @ (if ok then [event_row_of (t_unix ts) kind dur []] else [])"
    and "mo_pending m' = mo_pending m" using i(2) by simp_all
qed

interpretation door: event_door door_put door_tally "\<lambda>m. t_events (mo_store m)" "\<lambda>e. pending_row (snd e)"
proof unfold_locales
  fix e :: "world \<times> pending_event" and m ok m'
  assume "door_put e m = (ok, m')"
  then show "t_events (mo_store m') = t_events (mo_store m) @ (if ok then [pending_row (snd e)] else [])"
    using put_event_law(1) by (simp add: door_put_def pending_row_def)
qed (simp add: door_tally_def)

lemma put_event_pending:
  "put_event w ts kind dur (m\<lparr>mo_pending := q\<rparr>) =
     (fst (put_event w ts kind dur m), (snd (put_event w ts kind dur m))\<lparr>mo_pending := q\<rparr>)"
  by (simp add: put_event_def split: prod.split)

lemma door_tally_pending: "door_tally n (m\<lparr>mo_pending := q\<rparr>) = (door_tally n m)\<lparr>mo_pending := q\<rparr>"
  by (simp add: door_tally_def on_mreg_def)

lemma drain_pending:
  "drain door_put door_tally es (m\<lparr>mo_pending := q\<rparr>) =
     (fst (drain door_put door_tally es m), (snd (drain door_put door_tally es m))\<lparr>mo_pending := q\<rparr>)"
proof (induction es arbitrary: m)
  case (Cons e es)
  obtain ok m1 where p: "door_put e m = (ok, m1)" by (cases "door_put e m")
  have "door_put e (m\<lparr>mo_pending := q\<rparr>) = (ok, m1\<lparr>mo_pending := q\<rparr>)"
    using p put_event_pending by (simp add: door_put_def)
  then show ?case using p Cons.IH by (cases ok) (simp_all add: door_tally_pending)
qed simp

text \<open>The retry loop is the door's \<open>drain\<close>.\<close>

lemma flush_is_drain:
  "flush_pending_events w m =
     (let (q, m') = drain door_put door_tally (map (Pair w) (mo_pending m)) m
      in m'\<lparr>mo_pending := map snd q\<rparr>)"
proof (induction "mo_pending m" arbitrary: m)
  case Nil
  then show ?case by (simp add: flush_pending_events.simps [of w m])
next
  case (Cons pe rest)
  have pend: "mo_pending m = pe # rest" using Cons(2) by simp
  obtain ok m1 where p: "put_event w (pe_ts pe) (pe_kind pe) (pe_dur pe) m = (ok, m1)" by (metis surj_pair)
  have dp: "door_put (w, pe) m = (ok, m1)" using p by (simp add: door_put_def)
  have m1: "mo_pending m1 = pe # rest" using put_event_law(2) [OF p] pend by simp
  show ?case
  proof (cases ok)
    case False
    then show ?thesis
      using m1 by (simp add: flush_pending_events.simps [of w m] pend p dp map_idI comp_def)
  next
    case True
    let ?m2 = "on_mreg (stats_set ''monitor.pending_events'' (int (length rest))) (m1\<lparr>mo_pending := rest\<rparr>)"
    have m2: "?m2 = (door_tally (length rest) m1)\<lparr>mo_pending := rest\<rparr>"
      by (simp add: door_tally_def on_mreg_def)
    have "flush_pending_events w m = flush_pending_events w ?m2"
      using True by (simp add: flush_pending_events.simps [of w m] pend p)
    also have "\<dots> = (let (q, m') = drain door_put door_tally (map (Pair w) (mo_pending ?m2)) ?m2
        in m'\<lparr>mo_pending := map snd q\<rparr>)"
      by (rule Cons(1)) (simp add: on_mreg_def)
    also have "\<dots> = (let (q, m') = drain door_put door_tally (map (Pair w) rest) (door_tally (length rest) m1)
        in m'\<lparr>mo_pending := map snd q\<rparr>)"
      unfolding m2 drain_pending by (simp add: Let_def case_prod_beta)
    finally show ?thesis using True dp pend by simp
  qed
qed

definition owed_rows :: "monitor \<Rightarrow> event_row multiset" where
  "owed_rows m = mset (t_events (mo_store m)) + mset (map pending_row (mo_pending m))"

lemma flush_conserves: "owed_rows (flush_pending_events w m) = owed_rows m"
proof -
  obtain q m' where d: "drain door_put door_tally (map (Pair w) (mo_pending m)) m = (q, m')" by (metis surj_pair)
  have "mset (t_events (mo_store m')) + mset (map (\<lambda>e. pending_row (snd e)) q) =
      mset (t_events (mo_store m)) + mset (map (\<lambda>e. pending_row (snd e)) (map (Pair w) (mo_pending m)))"
    by (rule door.drain_conserves [OF d])
  then show ?thesis by (simp add: owed_rows_def flush_is_drain d comp_def)
qed

lemma record_event_conserves:
  assumes "length (mo_pending m) < max_pending_events"
  shows "owed_rows (record_event w ev kind dur m) = owed_rows m + {#event_row_of (t_unix ev) kind dur []#}"
proof -
  obtain ok m1 where p: "put_event w ev kind dur m = (ok, m1)" by (metis surj_pair)
  note l = put_event_law [OF p]
  show ?thesis
    using assms l by (cases ok) (simp_all add: owed_rows_def record_event_def p buffer_pending_event_def
        Let_def pending_row_def)
qed

text \<open>The row a transition leaves behind, now or from the retry buffer.\<close>

definition transition_row :: "bool \<Rightarrow> gtime \<Rightarrow> monitor \<Rightarrow> event_row" where
  "transition_row online sec m =
     event_row_of (t_unix (event_second online sec m)) (if online then ''up'' else ''down'')
       (if online then outage_length online sec m else -1) []"

lemma owed_rows_frame [simp]:
  "owed_rows (call_back c m) = owed_rows m" "owed_rows (on_mreg f m) = owed_rows m"
  "owed_rows (switch_to online sec ev m) = owed_rows m"
  by (simp_all add: owed_rows_def call_back_def switch_to_def)

lemma transition_conserves:
  assumes "length (mo_pending m) < max_pending_events"
  shows "owed_rows (transition w online sec m) = owed_rows m + {#transition_row online sec m#}"
proof -
  have "length (mo_pending (on_mreg f (switch_to b sec ev m))) < max_pending_events" for f b ev
    using assms by (simp add: switch_to_def)
  note r = record_event_conserves [OF this]
  show ?thesis by (simp add: transition_def Let_def r transition_row_def)
qed

lemma pending_bound_flush:
  "length (mo_pending (flush_pending_events w m)) \<le> length (mo_pending m)"
proof -
  obtain q m' where d: "drain door_put door_tally (map (Pair w) (mo_pending m)) m = (q, m')" by (metis surj_pair)
  from door.drain_order [OF d] have "length q \<le> length (mo_pending m)"
    by (metis length_append length_map le_add2)
  then show ?thesis by (simp add: flush_is_drain d)
qed

text \<open>Any interleaving of transitions with retries of the buffered events.\<close>

datatype event_op = Switch world bool gtime | Retry world

fun event_step :: "event_op \<Rightarrow> monitor \<Rightarrow> monitor" where
  "event_step (Switch w online sec) m = transition w online sec m"
| "event_step (Retry w) m = flush_pending_events w m"

fun event_run :: "event_op list \<Rightarrow> monitor \<Rightarrow> monitor" where
  "event_run [] m = m"
| "event_run (op # ops) m = event_run ops (event_step op m)"

text \<open>The rows those transitions are to leave behind.\<close>

fun due_rows :: "event_op list \<Rightarrow> monitor \<Rightarrow> event_row list" where
  "due_rows [] m = []"
| "due_rows (op # ops) m =
     (case op of Switch w online sec \<Rightarrow> [transition_row online sec m] | Retry w \<Rightarrow> []) @
     due_rows ops (event_step op m)"

lemma pending_bound_record:
  "length (mo_pending (record_event w ev kind dur m)) \<le> Suc (length (mo_pending m))"
proof -
  obtain ok m1 where p: "put_event w ev kind dur m = (ok, m1)" by (metis surj_pair)
  show ?thesis using put_event_law(2) [OF p]
    by (cases ok; cases "mo_pending m") (simp_all add: record_event_def p buffer_pending_event_def Let_def)
qed

lemma pending_bound_transition:
  "length (mo_pending (transition w online sec m)) \<le> Suc (length (mo_pending m))"
proof -
  have s: "mo_pending (call_back c m) = mo_pending m" for c m by (simp add: call_back_def)
  have "mo_pending (on_mreg f (switch_to b sec ev m)) = mo_pending m" for f b ev by (simp add: switch_to_def)
  then show ?thesis
    using pending_bound_record [of w _ _ _ "on_mreg _ (switch_to _ sec _ m)"]
    by (simp add: transition_def Let_def s)
qed

lemma event_run_conserves:
  "length (mo_pending m) + length (due_rows ops m) \<le> max_pending_events \<Longrightarrow>
   owed_rows (event_run ops m) = owed_rows m + mset (due_rows ops m) \<and>
   length (mo_pending (event_run ops m)) \<le> length (mo_pending m) + length (due_rows ops m)"
proof (induction ops arbitrary: m)
  case (Cons op ops)
  show ?case
  proof (cases op)
    case (Switch w online sec)
    then have room: "length (mo_pending m) < max_pending_events" using Cons.prems by simp
    have "length (mo_pending (event_step op m)) + length (due_rows ops (event_step op m)) \<le> max_pending_events"
      using Cons.prems Switch pending_bound_transition [of w online sec m] by simp
    from Cons.IH [OF this] show ?thesis
      using Switch transition_conserves [OF room, of w online sec] pending_bound_transition [of w online sec m]
      by simp
  next
    case (Retry w)
    have "length (mo_pending (event_step op m)) + length (due_rows ops (event_step op m)) \<le> max_pending_events"
      using Cons.prems Retry pending_bound_flush [of w m] by simp
    from Cons.IH [OF this] show ?thesis
      using Retry flush_conserves [of w m] pending_bound_flush [of w m] by simp
  qed
qed simp

section \<open>Event seconds\<close>

lemma event_second_monotone:
  assumes "\<not> t_is_zero (mo_last_event m)"
  shows "t_unix (mo_last_event m) \<le> t_unix (event_second online sec m)"
    and "\<not> online \<Longrightarrow> t_unix (mo_last_event m) < t_unix (event_second online sec m)"
  using assms by (auto simp: event_second_def Let_def)

text \<open>A run of rows in which no second goes back and every 'down' is strictly after its predecessor.\<close>

fun rising :: "int \<Rightarrow> event_row list \<Rightarrow> bool" where
  "rising t [] = True"
| "rising t (e # es) = (t \<le> ev_ts e \<and> (ev_type e = ''down'' \<longrightarrow> t < ev_ts e) \<and> rising (ev_ts e) es)"

lemma last_event_frame [simp]:
  "mo_last_event (call_back c m) = mo_last_event m"
  "mo_last_event (switch_to online sec ev m) = ev"
  "mo_last_event (buffer_pending_event ts kind dur m) = mo_last_event m"
  "mo_last_event (snd (put_event w ts kind dur m)) = mo_last_event m"
  by (simp_all add: call_back_def switch_to_def buffer_pending_event_def put_event_def Let_def split: prod.split)

lemma last_event_record [simp]: "mo_last_event (record_event w ts kind dur m) = mo_last_event m"
  using last_event_frame(4) [of w ts kind dur m]
  by (cases "put_event w ts kind dur m") (simp add: record_event_def del: last_event_frame(4))

lemma last_event_transition [simp]:
  "mo_last_event (transition w online sec m) = event_second online sec m"
  by (simp add: transition_def Let_def)

lemma last_event_flush [simp]: "mo_last_event (flush_pending_events w m) = mo_last_event m"
proof (induction w m rule: flush_pending_events.induct)
  case (1 w m)
  show ?case
  proof (cases "mo_pending m")
    case Nil
    then show ?thesis by (simp add: flush_pending_events.simps [of w m])
  next
    case (Cons pe rest)
    obtain ok m1 where p: "put_event w (pe_ts pe) (pe_kind pe) (pe_dur pe) m = (ok, m1)" by (metis surj_pair)
    have "mo_last_event m1 = mo_last_event m" using last_event_frame(4) [of w "pe_ts pe" "pe_kind pe" "pe_dur pe" m] p by simp
    then show ?thesis
      using 1 [OF Cons, OF p [symmetric]] by (cases ok) (simp_all add: flush_pending_events.simps [of w m] Cons p)
  qed
qed

lemma zero_time_unix: "t_is_zero t \<Longrightarrow> t_unix t < 0"
  by (simp add: t_is_zero_def t_unix_def)

lemma due_rows_rising:
  "0 \<le> t_unix (mo_last_event m) \<Longrightarrow> rising (t_unix (mo_last_event m)) (due_rows ops m)"
proof (induction ops arbitrary: m)
  case (Cons op ops)
  show ?case
  proof (cases op)
    case (Switch w online sec)
    have nz: "\<not> t_is_zero (mo_last_event m)" using Cons.prems zero_time_unix by fastforce
    note rise = event_second_monotone [OF nz, of online sec]
    have "0 \<le> t_unix (mo_last_event (event_step op m))" using rise(1) Cons.prems Switch by simp
    from Cons.IH [OF this] show ?thesis
      using rise Switch by (simp add: transition_row_def event_row_of_def)
  next
    case (Retry w)
    then show ?thesis using Cons.IH [of "event_step op m"] Cons.prems by simp
  qed
qed simp

lemma ceil_seconds_covers: "d \<le> ceil_seconds d * second"
proof (cases "0 \<le> d")
  case True
  then show ?thesis by (auto simp: ceil_seconds_def Let_def sdiv_nonneg)
next
  case False
  then have "d sdiv second = - ((- d) div second)" by (simp add: sdiv_nonpos)
  then show ?thesis by (auto simp: ceil_seconds_def Let_def)
qed

text \<open>The stored pair is at least as wide as the outage and everything booked into it that did
  not count toward its length.\<close>

lemma pair_width:
  assumes "\<not> t_is_zero (mo_last_event m)" and "0 < outage_length True sec m"
  shows "dur_secs (max 0 (t_sub sec (mo_since m))) + ceil_seconds (mo_frozen_gap m) \<le>
    t_unix (event_second True sec m) - t_unix (mo_last_event m)"
proof -
  have e: "(if t_sub sec (mo_since m) < 0 then 0 else t_sub sec (mo_since m)) = max 0 (t_sub sec (mo_since m))"
    by simp
  show ?thesis using assms unfolding event_second_def e Let_def by (simp split: if_splits)
qed

lemma outage_length_up:
  "0 < outage_length True sec m \<Longrightarrow>
     outage_length True sec m =
       dur_secs (max 0 (t_sub sec (mo_since m))) - max 0 (dur_secs (mo_paused_gap m))"
  by (auto simp: outage_length_def Let_def max_def split: if_splits)

lemma pair_room:
  assumes "\<not> t_is_zero (mo_last_event m)" and "0 < outage_length True sec m"
    and "R * second \<le> mo_paused_gap m + mo_frozen_gap m" and "0 \<le> mo_paused_gap m"
  shows "outage_length True sec m + R \<le> t_unix (event_second True sec m) - t_unix (mo_last_event m)"
proof -
  have p: "dur_secs (mo_paused_gap m) = mo_paused_gap m div second"
    using assms(4) by (rule dur_secs_nonneg)
  have "R * second \<le> mo_paused_gap m + ceil_seconds (mo_frozen_gap m) * second"
    using assms(3) ceil_seconds_covers [of "mo_frozen_gap m"] by linarith
  then have "(R - ceil_seconds (mo_frozen_gap m)) * second \<le> mo_paused_gap m" by (simp add: algebra_simps)
  then have "R - ceil_seconds (mo_frozen_gap m) \<le> mo_paused_gap m div second"
    by (metis mult.commute nonzero_mult_div_cancel_left zdiv_mono1 zero_less_numeral zero_neq_numeral)
  then show ?thesis
    using pair_width [OF assms(1,2)] outage_length_up [OF assms(2)] p by linarith
qed

lemma charged_in_full:
  assumes "0 \<le> co_observed c" and "finite P'" and "P \<inter> {co_start c..<co_end c} \<subseteq> P'"
    and "co_observed c + int (card P') \<le> co_end c - co_start c"
  shows "int (card (charged P c)) = co_observed c"
proof -
  let ?W = "{co_start c..<co_end c} - P"
  have "co_start c \<le> co_end c" using assms(1,4) by linarith
  then have "int (card ?W) = co_end c - co_start c - int (card (P \<inter> {co_start c..<co_end c}))"
    using watched_count [of "co_start c" "co_end c" P] by simp
  moreover have "card (P \<inter> {co_start c..<co_end c}) \<le> card P'" using assms(2,3) by (rule card_mono)
  ultimately have W: "co_observed c \<le> int (card ?W)" using assms(4) by linarith
  show ?thesis using charged_card [of P c] W assms(1) by simp
qed

end
