(* ===== verification/Examples.thy ===== *)
theory Examples
  imports Uptime UptimeFacts
begin

text \<open>
  A small concrete store, and the environment a call on it meets: what the witnesses of the
  properties are evaluated on.
\<close>

text \<open>A small store: one outage of 80 watched seconds, twenty more paused.\<close>

definition eg_guard :: clock_guard where
  "eg_guard = fresh_guard (time_unix 1700000000) 0 0"

definition eg_store :: store where
  "eg_store =
     \<lparr>t_samples = [\<lparr>sr_ts = 1700000000, sr_target = ''a'', sr_latency = Some 5, sr_ok = True, sr_family = Some ''ipv4''\<rparr>],
      t_dns = [],
      t_events = [\<lparr>ev_ts = 1700000100, ev_type = ''down'', ev_dur = None, ev_detail = []\<rparr>,
                  \<lparr>ev_ts = 1700000200, ev_type = ''up'', ev_dur = Some 80, ev_detail = []\<rparr>],
      t_pauses = [(1700000150, 20)], t_settings = Map.empty, faults = [], reg = empty_registry,
      rec_cache = [], rec_gen = 0,
      bf_waiting = 0, bf_gate = False, bf_rounds = [], bf_dns = [], bf_rows = 0, bf_due = zero_time,
      bf_quiet = zero_time, bf_failing = False, bf_drop_said = False, bf_missed = False,
      bf_closed = False, bf_written_off = False,
      st_live = no_outages, st_guard = eg_guard, st_quar = [], st_speed_spans = []\<rparr>"

definition eg_env :: save_env where
  "eg_env = \<lparr>en_now = time_unix 1700001000, en_then = time_unix 1700001000, en_gate = True, en_every = None\<rparr>"

definition eg_world :: world where
  "eg_world = \<lparr>w_now = 1700001000, w_uptime = 0, w_save = eg_env, w_cancelled = False\<rparr>"

lemma eg_quiet: "quiet eg_store"
  by (simp add: quiet_def memo_ok_def eg_store_def)

lemma eg_events: "sort_key event_key (t_events eg_store) = t_events eg_store"
  by (simp add: eg_store_def event_key_def)

lemmas eg_defs = uptime_since_def andthen_def query_def db_exec_def save_for_read_def save_buffered_def save_begin_def
  monitoring_since_def eg_world_def first_recorded_def min_of_def max_of_def readable_def eg_store_def
  completed_outages_since_def completed_of_def events_between_def current_horizon_def metrics_future_skew_def
  dur_secs_def remember_anchor_def pause_union_for_def pause_spans_def pause_spans_of_def event_key_def
  plausible_epoch_def signed_divide_int_def
  observed_downtime_in_def outage_spans_def spans_in_def observed_outage_spans_def
  orphan_gap_downtime_def newest_event_def open_downtime_def span_overlap_def go_search.simps secs_dur_def

lemma eg_run: "fst (uptime_since eg_world 0 0 eg_store) =
  Inr \<lparr>ob_window = 1000000000000, ob_observed = 980000000000, ob_down = 80000000000\<rparr>"
  by (simp add: eg_defs)

end
