(* ===== verification/Update.thy ===== *)
theory Update
  imports Tables
begin

text \<open>
  The update check (\<open>internal/update/update.go\<close>): reading a version number, comparing two of
  them, the poll with its cached answer, and the schedule of the polls.

  The HTTP request and the decoding of its JSON body are not under the repository's sources:
  a \<open>fetch_reply\<close> says what they answered.  The toggle is read anew by every function that asks
  for it, so each reading is an input.  The regular expression
  \<open>^v?(\d+)\.(\d+)\.(\d+)\<close> is a scanner: a run of digits is always taken whole, because the
  character the expression wants after it is never a digit.
\<close>

section \<open>Version numbers\<close>

definition is_digit :: "char \<Rightarrow> bool" where
  "is_digit c \<longleftrightarrow> digit_val c \<noteq> None"

definition take_digits :: "string \<Rightarrow> (string \<times> string) option" where
  "take_digits s = (let ds = takeWhile is_digit s in
     if ds = [] then None else Some (ds, dropWhile is_digit s))"

definition take_dot :: "string \<Rightarrow> string option" where
  "take_dot s = (case s of [] \<Rightarrow> None | c # cs \<Rightarrow> if c = CHR ''.'' then Some cs else None)"

definition trim_v :: "string \<Rightarrow> string" where
  "trim_v s = (case s of [] \<Rightarrow> [] | c # cs \<Rightarrow> if c = CHR ''v'' then cs else s)"

text \<open>The three groups of the match and what follows it.\<close>

definition semver_re :: "string \<Rightarrow> ((string \<times> string \<times> string) \<times> string) option" where
  "semver_re s =
     Option.bind (take_digits (trim_v s)) (\<lambda>(a, r).
     Option.bind (take_dot r) (\<lambda>r.
     Option.bind (take_digits r) (\<lambda>(b, r).
     Option.bind (take_dot r) (\<lambda>r.
     Option.bind (take_digits r) (\<lambda>(c, r). Some ((a, b, c), r))))))"

text \<open>The matched text, with the \<open>v\<close> it may start with.\<close>

definition find_semver :: "string \<Rightarrow> string" where
  "find_semver s = (case semver_re s of None \<Rightarrow> []
     | Some ((a, b, c), r) \<Rightarrow>
         (if trim_v s = s then [] else ''v'') @ a @ ''.'' @ b @ ''.'' @ c)"

definition is_release :: "string \<Rightarrow> bool" where
  "is_release s \<longleftrightarrow> semver_re s \<noteq> None"

definition is_prerelease :: "string \<Rightarrow> bool" where
  "is_prerelease s = (case semver_re s of None \<Rightarrow> False | Some (_, r) \<Rightarrow> starts_with ''-'' r)"

text \<open>\<open>strconv.Atoi\<close> clamps a number that does not fit, and its error is dropped.\<close>

definition parse_version :: "string \<Rightarrow> (int \<times> int \<times> int) option" where
  "parse_version s = (case semver_re s of None \<Rightarrow> None
     | Some ((a, b, c), _) \<Rightarrow> Some (parse_int_lax a, parse_int_lax b, parse_int_lax c))"

definition newer :: "string \<Rightarrow> string \<Rightarrow> bool" where
  "newer current latest = (case (parse_version current, parse_version latest) of
     (Some (c0, c1, c2), Some (l0, l1, l2)) \<Rightarrow>
        if l0 \<noteq> c0 then l0 > c0
        else if l1 \<noteq> c1 then l1 > c1
        else if l2 \<noteq> c2 then l2 > c2
        else is_prerelease current \<and> \<not> is_prerelease latest
   | _ \<Rightarrow> False)"

section \<open>The checker\<close>

record checker =
  ck_current :: string
  ck_latest :: string
  ck_checked :: gtime

definition new_checker :: "string \<Rightarrow> checker" where
  "new_checker cur = \<lparr>ck_current = cur, ck_latest = [], ck_checked = zero_time\<rparr>"

record update_snapshot =
  us_current :: string
  us_latest :: string
  us_available :: bool
  us_enabled :: bool
  us_checked_unix :: int

definition update_status :: "bool \<Rightarrow> checker \<Rightarrow> update_snapshot" where
  "update_status en c =
     \<lparr>us_current = ck_current c, us_latest = ck_latest c,
      us_available = (en \<and> ck_latest c \<noteq> [] \<and> newer (ck_current c) (ck_latest c)),
      us_enabled = en,
      us_checked_unix = (if t_is_zero (ck_checked c) then 0 else t_unix (ck_checked c))\<rparr>"

text \<open>What the request met: no response, or a status and the decoded \<open>version\<close> field
  (\<open>None\<close> when the body does not decode).\<close>

datatype fetch_reply = NoReply | Reply int "string option"

definition fetch_version :: "fetch_reply \<Rightarrow> string + string" where
  "fetch_version reply = (case reply of
     NoReply \<Rightarrow> Inl ''request''
   | Reply status body \<Rightarrow>
       if status \<noteq> 200 then Inl ''status''
       else (case body of None \<Rightarrow> Inl ''decode''
         | Some v \<Rightarrow> if \<not> is_release v then Inl ''bogus version''
                    else Inr (trim_v (find_semver v))))"

definition check_once :: "bool \<Rightarrow> fetch_reply \<Rightarrow> gtime \<Rightarrow> checker \<Rightarrow> checker" where
  "check_once en reply now c =
     (if \<not> en then c
      else if \<not> is_release (ck_current c) then c
      else case fetch_version reply of
        Inl _ \<Rightarrow> c
      | Inr v \<Rightarrow> c\<lparr>ck_latest := v, ck_checked := now\<rparr>)"

section \<open>The schedule\<close>

definition startup_delay :: duration where "startup_delay = 5 * second"
definition update_check_interval :: duration where "update_check_interval = 24 * hour"

definition first_poll_retry :: "duration list" where
  "first_poll_retry = [minute, 5 * minute, 15 * minute, hour]"

definition next_interval :: "bool \<Rightarrow> checker \<Rightarrow> nat \<Rightarrow> duration \<times> nat" where
  "next_interval en c attempts =
     (if \<not> en \<or> \<not> is_release (ck_current c) then (update_check_interval, attempts)
      else if \<not> t_is_zero (ck_checked c) then (update_check_interval, attempts)
      else (first_poll_retry ! min attempts (length first_poll_retry - 1), attempts + 1))"

text \<open>One wake of \<open>Loop\<close>: what the check met, and the two readings of the toggle.\<close>

record wake =
  wk_enabled :: bool
  wk_reply :: fetch_reply
  wk_now :: gtime
  wk_enabled_after :: bool

definition check_and_next :: "wake \<Rightarrow> checker \<times> nat \<Rightarrow> duration \<times> checker \<times> nat" where
  "check_and_next w = (\<lambda>(c, attempts).
     let c = check_once (wk_enabled w) (wk_reply w) (wk_now w) c;
         (d, attempts) = next_interval (wk_enabled_after w) c attempts
     in (d, c, attempts))"

text \<open>\<open>Loop\<close> sleeps on three things.  The state keeps the delay the timer was armed with (it has
  run out when \<open>TimerFired\<close> is taken) and whether a kick is queued.\<close>

record update_loop =
  ul_checker :: checker
  ul_attempts :: nat
  ul_timer :: duration
  ul_kick :: bool

datatype loop_event = TimerFired wake | KickTaken wake | CheckNow

definition start_update_loop :: "string \<Rightarrow> update_loop" where
  "start_update_loop cur =
     \<lparr>ul_checker = new_checker cur, ul_attempts = 0, ul_timer = startup_delay, ul_kick = False\<rparr>"

definition rearm :: "wake \<Rightarrow> update_loop \<Rightarrow> update_loop" where
  "rearm w l = (case check_and_next w (ul_checker l, ul_attempts l) of
     (d, c, n) \<Rightarrow> l\<lparr>ul_checker := c, ul_attempts := n, ul_timer := d\<rparr>)"

definition update_step :: "loop_event \<Rightarrow> update_loop \<Rightarrow> update_loop option" where
  "update_step e l = (case e of
     TimerFired w \<Rightarrow> Some (rearm w l)
   | KickTaken w \<Rightarrow> if ul_kick l then Some (rearm w (l\<lparr>ul_kick := False\<rparr>)) else None
   | CheckNow \<Rightarrow> Some (l\<lparr>ul_kick := True\<rparr>))"

fun update_run :: "loop_event list \<Rightarrow> update_loop \<Rightarrow> update_loop option" where
  "update_run [] l = Some l"
| "update_run (e # es) l = Option.bind (update_step e l) (update_run es)"

section \<open>The order of versions\<close>

text \<open>The abstract version: the three numbers, and whether it is final.  A final release is above
  its own prereleases.\<close>

datatype version = Version (v_major: int) (v_minor: int) (v_patch: int) (v_final: bool)

instantiation version :: linorder
begin

definition less_version :: "version \<Rightarrow> version \<Rightarrow> bool" where
  "less_version a b \<longleftrightarrow>
     v_major a < v_major b \<or> v_major a = v_major b \<and>
     (v_minor a < v_minor b \<or> v_minor a = v_minor b \<and>
     (v_patch a < v_patch b \<or> v_patch a = v_patch b \<and> \<not> v_final a \<and> v_final b))"

definition less_eq_version :: "version \<Rightarrow> version \<Rightarrow> bool" where
  "less_eq_version a b \<longleftrightarrow> a < b \<or> (a::version) = b"

instance
proof
  fix x y z :: version
  show "(x < y) = (x \<le> y \<and> \<not> y \<le> x)" "x \<le> x" "x \<le> y \<or> y \<le> x"
    by (cases x; cases y; auto simp: less_eq_version_def less_version_def)+
  show "x \<le> y \<Longrightarrow> y \<le> z \<Longrightarrow> x \<le> z" "x \<le> y \<Longrightarrow> y \<le> x \<Longrightarrow> x = y"
    by (cases x; cases y; cases z; auto simp: less_eq_version_def less_version_def)+
qed

end

definition version_of :: "string \<Rightarrow> version option" where
  "version_of s = map_option (\<lambda>(a, b, c). Version a b c (\<not> is_prerelease s)) (parse_version s)"

lemma parse_version_None: "parse_version s = None \<longleftrightarrow> \<not> is_release s"
  by (auto simp: parse_version_def is_release_def split: option.splits)

lemma version_of_None: "version_of s = None \<longleftrightarrow> \<not> is_release s"
  by (auto simp: version_of_def parse_version_None)

lemma newer_less:
  "newer a b \<longleftrightarrow> (case (version_of a, version_of b) of (Some x, Some y) \<Rightarrow> x < y | _ \<Rightarrow> False)"
  by (auto simp: newer_def version_of_def less_version_def split: option.splits)

section \<open>What a check may cache\<close>

lemma semver_re_parts:
  assumes "semver_re s = Some ((a, b, c), r)"
  shows "trim_v s = a @ ''.'' @ b @ ''.'' @ c @ r"
    and "a \<noteq> []" "b \<noteq> []" "c \<noteq> []"
    and "list_all is_digit a" "list_all is_digit b" "list_all is_digit c"
    and "r = [] \<or> \<not> is_digit (hd r)"
proof -
  have dig: "s = d @ r \<and> d \<noteq> [] \<and> list_all is_digit d \<and> (r = [] \<or> \<not> is_digit (hd r))"
    if "take_digits s = Some (d, r)" for s d r
    using that hd_dropWhile[of is_digit s]
    by (cases "dropWhile is_digit s = []")
       (auto simp: take_digits_def Let_def list_all_iff dest: set_takeWhileD split: if_splits)
  have dot: "s = ''.'' @ r" if "take_dot s = Some r" for s r
    using that by (auto simp: take_dot_def split: list.splits if_splits)
  show "trim_v s = a @ ''.'' @ b @ ''.'' @ c @ r" "a \<noteq> []" "b \<noteq> []" "c \<noteq> []"
    "list_all is_digit a" "list_all is_digit b" "list_all is_digit c" "r = [] \<or> \<not> is_digit (hd r)"
    using assms by (auto simp: semver_re_def bind_eq_Some_conv dest!: dig dot)
qed

lemma takeWhile_stop: "list_all P d \<Longrightarrow> r = [] \<or> \<not> P (hd r) \<Longrightarrow> takeWhile P (d @ r) = d"
  by (induction d) (auto split: list.splits, cases r, auto)

lemma dropWhile_stop: "list_all P d \<Longrightarrow> r = [] \<or> \<not> P (hd r) \<Longrightarrow> dropWhile P (d @ r) = r"
  by (induction d) (auto split: list.splits, cases r, auto)

lemma take_digits_append:
  "d \<noteq> [] \<Longrightarrow> list_all is_digit d \<Longrightarrow> r = [] \<or> \<not> is_digit (hd r) \<Longrightarrow>
   take_digits (d @ r) = Some (d, r)"
  by (simp add: take_digits_def Let_def takeWhile_stop dropWhile_stop)

lemma digit_not_dot: "\<not> is_digit (CHR ''.'')" and digit_not_v: "\<not> is_digit (CHR ''v'')"
  by (simp_all add: is_digit_def digit_val_def)

lemma semver_re_append:
  assumes "a \<noteq> []" "b \<noteq> []" "c \<noteq> []" "list_all is_digit a" "list_all is_digit b" "list_all is_digit c"
    and "r = [] \<or> \<not> is_digit (hd r)"
  shows "semver_re (a @ ''.'' @ b @ ''.'' @ c @ r) = Some ((a, b, c), r)"
proof -
  have "trim_v (a @ s) = a @ s" for s
    using assms(1,4) digit_not_v by (cases a) (auto simp: trim_v_def)
  moreover have "take_digits (d @ CHR ''.'' # s) = Some (d, CHR ''.'' # s)"
    if "d \<noteq> []" "list_all is_digit d" for d s
    using take_digits_append[OF that, of "CHR ''.'' # s"] by (simp add: digit_not_dot)
  ultimately show ?thesis
    using assms take_digits_append[OF assms(3,6,7)]
    by (simp add: semver_re_def take_dot_def)
qed

text \<open>The core of a version: what \<open>fetch\<close> keeps of the field it was handed.\<close>

definition bare_version :: "string \<Rightarrow> string" where
  "bare_version s = trim_v (find_semver s)"

lemma core_parts:
  assumes "semver_re s = Some ((a, b, c), r)"
  shows "bare_version s = a @ ''.'' @ b @ ''.'' @ c"
proof -
  note p = semver_re_parts[OF assms]
  have "trim_v (a @ t) = a @ t" for t
    using p(2,5) digit_not_v by (cases a) (auto simp: trim_v_def)
  then show ?thesis
    using assms by (simp add: bare_version_def find_semver_def) (simp add: trim_v_def)
qed

lemma semver_re_core:
  assumes "semver_re s = Some ((a, b, c), r)"
  shows "semver_re (bare_version s) = Some ((a, b, c), [])"
  using semver_re_append[of a b c "[]"] semver_re_parts[OF assms] core_parts[OF assms] by simp

lemma core_release:
  assumes "is_release s"
  shows "is_release (bare_version s)" "parse_version (bare_version s) = parse_version s" "\<not> is_prerelease (bare_version s)"
    "bare_version s \<noteq> []" "\<forall>x \<in> set (bare_version s). is_digit x \<or> x = CHR ''.''"
proof -
  obtain a b c r where m: "semver_re s = Some ((a, b, c), r)"
    using assms by (auto simp: is_release_def)
  show "is_release (bare_version s)" "parse_version (bare_version s) = parse_version s" "\<not> is_prerelease (bare_version s)"
    using semver_re_core[OF m] m by (simp_all add: is_release_def parse_version_def is_prerelease_def)
  show "bare_version s \<noteq> []" "\<forall>x \<in> set (bare_version s). is_digit x \<or> x = CHR ''.''"
    using core_parts[OF m] semver_re_parts(5-7)[OF m] by (auto simp: list_all_iff)
qed

lemma fetch_version_Inr:
  "fetch_version reply = Inr v \<longleftrightarrow>
     (\<exists>field. reply = Reply 200 (Some field) \<and> is_release field \<and> v = bare_version field)"
  by (auto simp: fetch_version_def bare_version_def split: fetch_reply.splits option.splits)

section \<open>Runs of the loop\<close>

text \<open>The wakes of a run in order, and the one that filled the cache: the last that was enabled and
  got a valid answer.\<close>

fun wakes :: "loop_event list \<Rightarrow> wake list" where
  "wakes [] = []"
| "wakes (TimerFired w # es) = w # wakes es"
| "wakes (KickTaken w # es) = w # wakes es"
| "wakes (CheckNow # es) = wakes es"

definition answered :: "wake \<Rightarrow> bool" where
  "answered w \<longleftrightarrow> wk_enabled w \<and> (case fetch_version (wk_reply w) of Inl _ \<Rightarrow> False | Inr _ \<Rightarrow> True)"

definition answer :: "wake \<Rightarrow> string" where
  "answer w = (case fetch_version (wk_reply w) of Inl _ \<Rightarrow> [] | Inr v \<Rightarrow> v)"

lemma check_once_cases:
  "check_once en reply now c =
     (if en \<and> is_release (ck_current c) then
        (case fetch_version reply of Inl _ \<Rightarrow> c | Inr v \<Rightarrow> c\<lparr>ck_latest := v, ck_checked := now\<rparr>)
      else c)"
  by (simp add: check_once_def)

lemma rearm_simps:
  "ck_current (ul_checker (rearm w l)) = ck_current (ul_checker l)"
  "ul_kick (rearm w l) = ul_kick l"
  "ck_latest (ul_checker (rearm w l)) =
     (if answered w \<and> is_release (ck_current (ul_checker l)) then answer w
      else ck_latest (ul_checker l))"
  "ck_checked (ul_checker (rearm w l)) =
     (if answered w \<and> is_release (ck_current (ul_checker l)) then wk_now w
      else ck_checked (ul_checker l))"
  by (auto simp: rearm_def check_and_next_def check_once_cases answered_def answer_def Let_def
      split: prod.splits sum.splits)

lemma update_run_current:
  "update_run es l = Some l' \<Longrightarrow> ck_current (ul_checker l') = ck_current (ul_checker l)"
proof (induction es arbitrary: l)
  case (Cons e es)
  then obtain m where "update_step e l = Some m" "update_run es m = Some l'"
    by (auto simp: bind_eq_Some_conv)
  then show ?case
    using Cons.IH[of m] by (auto simp: update_step_def rearm_simps split: loop_event.splits if_splits)
qed simp

lemma update_run_cache:
  assumes "update_run es l = Some l'" and "is_release (ck_current (ul_checker l))"
  shows "ck_latest (ul_checker l') =
    (case rev (filter answered (wakes es)) of [] \<Rightarrow> ck_latest (ul_checker l) | w # _ \<Rightarrow> answer w)"
  using assms
proof (induction es arbitrary: l)
  case (Cons e es)
  then obtain m where m: "update_step e l = Some m" "update_run es m = Some l'"
    by (auto simp: bind_eq_Some_conv)
  moreover have "is_release (ck_current (ul_checker m))"
    using m Cons.prems by (auto simp: update_step_def rearm_simps split: loop_event.splits if_splits)
  ultimately show ?case
    using Cons.IH[of m] m
    by (cases e) (auto simp: update_step_def rearm_simps split: list.splits if_splits)
qed simp

lemma update_run_dev:
  assumes "update_run es l = Some l'" and "\<not> is_release (ck_current (ul_checker l))"
  shows "ck_latest (ul_checker l') = ck_latest (ul_checker l)"
  using assms
proof (induction es arbitrary: l)
  case (Cons e es)
  then obtain m where m: "update_step e l = Some m" "update_run es m = Some l'"
    by (auto simp: bind_eq_Some_conv)
  moreover have "\<not> is_release (ck_current (ul_checker m))"
    using m Cons.prems by (auto simp: update_step_def rearm_simps split: loop_event.splits if_splits)
  ultimately show ?case
    using Cons.IH[of m] m Cons.prems
    by (cases e) (auto simp: update_step_def rearm_simps split: list.splits if_splits)
qed simp

lemma answered_core:
  assumes "answered w"
  obtains field where "wk_reply w = Reply 200 (Some field)" "is_release field" "answer w = bare_version field"
proof -
  from assms obtain v where "fetch_version (wk_reply w) = Inr v"
    by (auto simp: answered_def split: sum.splits)
  moreover from this obtain field where
    "wk_reply w = Reply 200 (Some field)" "is_release field" "v = bare_version field"
    by (auto simp: fetch_version_Inr)
  ultimately show thesis using that by (simp add: answer_def)
qed

text \<open>The cached text is always a bare version: nothing a reply carries after the three numbers
  is kept.\<close>

lemma update_run_bare:
  assumes "update_run es l = Some l'" and "is_release (ck_current (ul_checker l))"
    and "ck_latest (ul_checker l) = []"
  shows "ck_latest (ul_checker l') = [] \<or> (\<exists>w \<in> set (wakes es). answered w \<and>
     ck_latest (ul_checker l') = answer w)"
proof (cases "rev (filter answered (wakes es))")
  case (Cons w ws)
  then have "w \<in> set (filter answered (wakes es))"
    by (metis list.set_intros(1) set_rev)
  then show ?thesis using update_run_cache[OF assms(1,2)] Cons by auto
qed (use update_run_cache[OF assms(1,2)] assms(3) in simp)

section \<open>The retry ladder\<close>

lemma update_run_append:
  "update_run (es @ fs) l = Option.bind (update_run es l) (update_run fs)"
proof (induction es arbitrary: l)
  case (Cons e es)
  show ?case by (cases "update_step e l") (simp_all add: Cons.IH)
qed simp

lemma wakes_append: "wakes (es @ fs) = wakes es @ wakes fs"
  by (induction es rule: wakes.induct) auto

text \<open>While nothing was answered the schedule climbs the ladder once per wake that found the
  toggle on; \<open>n\<close> counts those.\<close>

definition ladder_step :: "nat \<Rightarrow> duration" where
  "ladder_step n = first_poll_retry ! min n (length first_poll_retry - 1)"

lemma rearm_schedule:
  assumes "is_release (ck_current (ul_checker l))" and "\<not> t_is_zero (wk_now w)"
  shows "ul_timer (rearm w l) =
      (if wk_enabled_after w \<and> t_is_zero (ck_checked (ul_checker l)) \<and> \<not> answered w
       then ladder_step (ul_attempts l) else update_check_interval)"
    and "ul_attempts (rearm w l) = ul_attempts l +
      (if wk_enabled_after w \<and> t_is_zero (ck_checked (ul_checker l)) \<and> \<not> answered w then 1 else 0)"
  using assms by (auto simp: rearm_def check_and_next_def check_once_cases next_interval_def Let_def
      ladder_step_def answered_def split: prod.splits sum.splits if_splits)

lemma update_run_schedule:
  assumes "update_run es (start_update_loop cur) = Some l" and "is_release cur"
    and "\<forall>w \<in> set (wakes es). \<not> t_is_zero (wk_now w)"
  shows "t_is_zero (ck_checked (ul_checker l)) \<longleftrightarrow> filter answered (wakes es) = []"
    and "filter answered (wakes es) = [] \<Longrightarrow>
      ul_attempts l = length (filter wk_enabled_after (wakes es))"
    and "wakes es \<noteq> [] \<Longrightarrow> ul_timer l =
      (if wk_enabled_after (last (wakes es)) \<and> filter answered (wakes es) = []
       then ladder_step (length (filter wk_enabled_after (wakes es)) - 1)
       else update_check_interval)"
proof -
  have "(t_is_zero (ck_checked (ul_checker l)) \<longleftrightarrow> filter answered (wakes es) = []) \<and>
    (filter answered (wakes es) = [] \<longrightarrow>
      ul_attempts l = length (filter wk_enabled_after (wakes es))) \<and>
    (wakes es \<noteq> [] \<longrightarrow> ul_timer l =
      (if wk_enabled_after (last (wakes es)) \<and> filter answered (wakes es) = []
       then ladder_step (length (filter wk_enabled_after (wakes es)) - 1)
       else update_check_interval))"
    using assms(1,3)
  proof (induction es arbitrary: l rule: rev_induct)
    case Nil
    then show ?case by (auto simp: start_update_loop_def new_checker_def)
  next
    case (snoc e es)
    then obtain m where m: "update_run es (start_update_loop cur) = Some m" "update_step e m = Some l"
      by (auto simp: update_run_append bind_eq_Some_conv)
    have rel: "is_release (ck_current (ul_checker m))"
      using update_run_current[OF m(1)] assms(2) by (simp add: start_update_loop_def new_checker_def)
    have IH: "(t_is_zero (ck_checked (ul_checker m)) \<longleftrightarrow> filter answered (wakes es) = []) \<and>
      (filter answered (wakes es) = [] \<longrightarrow>
        ul_attempts m = length (filter wk_enabled_after (wakes es))) \<and>
      (wakes es \<noteq> [] \<longrightarrow> ul_timer m =
        (if wk_enabled_after (last (wakes es)) \<and> filter answered (wakes es) = []
         then ladder_step (length (filter wk_enabled_after (wakes es)) - 1)
         else update_check_interval))"
      using snoc.IH[OF m(1)] snoc.prems(2) by (simp add: wakes_append)
    have turn: ?case if "l = rearm w n" "wakes [e] = [w]" "n = m \<or> n = m\<lparr>ul_kick := False\<rparr>" for w n
    proof -
      have "\<not> t_is_zero (wk_now w)"
        using snoc.prems(2) that(2) by (simp add: wakes_append)
      then show ?thesis
        using IH that(3) rel rearm_schedule[of n w] unfolding that(1) wakes_append that(2)
        by (auto simp: rearm_simps)
    qed
    show ?case
      using m(2) turn IH by (cases e) (auto simp: update_step_def wakes_append split: if_splits)
  qed
  then show "t_is_zero (ck_checked (ul_checker l)) \<longleftrightarrow> filter answered (wakes es) = []"
    "filter answered (wakes es) = [] \<Longrightarrow> ul_attempts l = length (filter wk_enabled_after (wakes es))"
    "wakes es \<noteq> [] \<Longrightarrow> ul_timer l =
      (if wk_enabled_after (last (wakes es)) \<and> filter answered (wakes es) = []
       then ladder_step (length (filter wk_enabled_after (wakes es)) - 1)
       else update_check_interval)"
    by auto
qed

lemma ladder_step_bounds: "minute \<le> ladder_step n \<and> ladder_step n \<le> hour"
  by (cases "n = 0"; cases "n = 1"; cases "n = 2")
     (auto simp: ladder_step_def first_poll_retry_def min_def numeral_eq_Suc)

end
