(* ===== verification/Text.thy ===== *)
theory Text
  imports Tables
begin

text \<open>
  A \<open>float64\<close> that may be a NaN or an infinity, and the text primitives of Go's \<open>strings\<close> the settings use, on byte strings: \<open>TrimSpace\<close> with the
  UTF-8 encodings of every Unicode space, \<open>HasPrefix\<close>, \<open>ContainsAny\<close>, and \<open>capLen\<close> of
  \<open>internal/settings/settings.go\<close>, which cuts a text without splitting a character.
\<close>

section \<open>Floats\<close>

text \<open>\<open>Infinite True\<close> is the positive infinity.  Every comparison with a NaN is false.\<close>

datatype gfloat = Finite rat | NotANumber | Infinite bool

fun gf_less :: "gfloat \<Rightarrow> gfloat \<Rightarrow> bool" where
  "gf_less (Finite a) (Finite b) = (a < b)"
| "gf_less (Finite a) (Infinite pos) = pos"
| "gf_less (Infinite pos) (Finite b) = (\<not> pos)"
| "gf_less (Infinite p) (Infinite q) = (\<not> p \<and> q)"
| "gf_less NotANumber y = False"
| "gf_less x NotANumber = False"

definition gf_le :: "gfloat \<Rightarrow> gfloat \<Rightarrow> bool" where
  "gf_le a b \<longleftrightarrow> gf_less a b \<or> (a = b \<and> a \<noteq> NotANumber)"

section \<open>Trimming\<close>

text \<open>The encodings of the characters \<open>unicode.IsSpace\<close> accepts; none begins another.\<close>

definition space_runes :: "string list" where
  "space_runes =
     map (\<lambda>c. [c]) [CHR 0x09, CHR 0x0A, CHR 0x0B, CHR 0x0C, CHR 0x0D, CHR 0x20] @
     [[CHR 0xC2, CHR 0x85], [CHR 0xC2, CHR 0xA0], [CHR 0xE1, CHR 0x9A, CHR 0x80]] @
     map (\<lambda>n. [CHR 0xE2, CHR 0x80, char_of n]) ([128..<139::nat] @ [168, 169, 175]) @
     [[CHR 0xE2, CHR 0x81, CHR 0x9F], [CHR 0xE3, CHR 0x80, CHR 0x80]]"

lemma space_runes_nonempty: "p \<in> set space_runes \<Longrightarrow> p \<noteq> []"
  by (auto simp: space_runes_def)

text \<open>Dropping words of a list of words from the front of a text.\<close>

function skip_words :: "string list \<Rightarrow> string \<Rightarrow> string" where
  "skip_words ws s = (case find (\<lambda>p. p \<noteq> [] \<and> starts_with p s) ws of
     None \<Rightarrow> s | Some p \<Rightarrow> skip_words ws (drop (length p) s))"
  by pat_completeness auto
termination
proof (relation "measure (length \<circ> snd)", simp, goal_cases)
  case (1 ws s p)
  then have "p \<noteq> []" "starts_with p s" by (auto simp: find_Some_iff)
  then show ?case by (cases p; cases s) auto
qed

declare skip_words.simps [simp del]

lemma skip_words_stop: "find (\<lambda>p. p \<noteq> [] \<and> starts_with p s) ws = None \<Longrightarrow> skip_words ws s = s"
  by (subst skip_words.simps) simp

lemma skip_words_go:
  "find (\<lambda>p. p \<noteq> [] \<and> starts_with p s) ws = Some p \<Longrightarrow> skip_words ws s = skip_words ws (drop (length p) s)"
  by (subst skip_words.simps) simp

definition trim_left :: "string \<Rightarrow> string" where
  "trim_left s = skip_words space_runes s"

definition trim_right :: "string \<Rightarrow> string" where
  "trim_right s = rev (skip_words (map rev space_runes) (rev s))"

definition trim_space :: "string \<Rightarrow> string" where
  "trim_space s = trim_right (trim_left s)"

definition contains_any :: "string \<Rightarrow> string \<Rightarrow> bool" where
  "contains_any s chars \<longleftrightarrow> list_ex (\<lambda>c. c \<in> set chars) s"

text \<open>\<open>" \t\r\n"\<close>.\<close>

definition blank_chars :: string where
  "blank_chars = [CHR 0x20, CHR 0x09, CHR 0x0D, CHR 0x0A]"

section \<open>Cutting\<close>

definition rune_start :: "char \<Rightarrow> bool" where
  "rune_start c \<longleftrightarrow> (let n = (of_char c :: nat) in \<not> (128 \<le> n \<and> n < 192))"

fun back_off :: "string \<Rightarrow> nat \<Rightarrow> nat" where
  "back_off s 0 = 0"
| "back_off s (Suc n) = (if \<not> rune_start (s ! Suc n) then back_off s n else Suc n)"

definition cap_len :: "string \<Rightarrow> nat \<Rightarrow> string" where
  "cap_len s n = (if length s \<le> n then s else take (back_off s n) s)"

section \<open>Facts\<close>

lemma starts_with_iff: "starts_with p s \<longleftrightarrow> (\<exists>r. s = p @ r)"
  by (induction p s rule: starts_with.induct) auto

lemma skip_words_suffix: "\<exists>p. s = p @ skip_words ws s"
proof (induction ws s rule: skip_words.induct)
  case (1 ws s)
  show ?case
  proof (cases "find (\<lambda>p. p \<noteq> [] \<and> starts_with p s) ws")
    case None
    then show ?thesis using skip_words_stop by auto
  next
    case (Some p)
    then have "s = p @ drop (length p) s" by (auto simp: find_Some_iff starts_with_iff)
    moreover obtain q where "drop (length p) s = q @ skip_words ws (drop (length p) s)" using 1 Some by blast
    ultimately have "s = (p @ q) @ skip_words ws (drop (length p) s)" by simp
    then show ?thesis unfolding skip_words_go [OF Some] by blast
  qed
qed

lemma skip_words_none: "p \<in> set ws \<Longrightarrow> p \<noteq> [] \<Longrightarrow> \<not> starts_with p (skip_words ws s)"
proof (induction ws s rule: skip_words.induct)
  case (1 ws s)
  show ?case
  proof (cases "find (\<lambda>p. p \<noteq> [] \<and> starts_with p s) ws")
    case None
    then show ?thesis using 1(2,3) by (auto simp: skip_words_stop find_None_iff)
  next
    case (Some q)
    then show ?thesis using 1 by (simp add: skip_words_go)
  qed
qed

lemma skip_words_fixed: "(\<And>p. p \<in> set ws \<Longrightarrow> p \<noteq> [] \<Longrightarrow> \<not> starts_with p s) \<Longrightarrow> skip_words ws s = s"
  by (rule skip_words_stop) (auto simp: find_None_iff)

definition no_space_ends :: "string \<Rightarrow> bool" where
  "no_space_ends s \<longleftrightarrow> (\<forall>p \<in> set space_runes. \<not> starts_with p s \<and> \<not> starts_with (rev p) (rev s))"

lemma trim_space_fixed:
  assumes "no_space_ends s"
  shows "trim_space s = s"
proof -
  have "skip_words space_runes s = s" using assms by (intro skip_words_fixed) (simp add: no_space_ends_def)
  moreover have "skip_words (map rev space_runes) (rev s) = rev s"
    using assms by (intro skip_words_fixed) (auto simp: no_space_ends_def)
  ultimately show ?thesis by (simp add: trim_space_def trim_left_def trim_right_def)
qed

lemma trim_right_prefix: "\<exists>q. s = trim_right s @ q"
  using skip_words_suffix [of "rev s" "map rev space_runes"] unfolding trim_right_def
  by (metis rev_append rev_rev_ident)

lemma trim_space_ends: "no_space_ends (trim_space s)"
  unfolding no_space_ends_def
proof (intro ballI conjI)
  fix p assume p: "p \<in> set space_runes"
  then have ne: "p \<noteq> []" by (rule space_runes_nonempty)
  obtain q where q: "trim_left s = trim_space s @ q" using trim_right_prefix [of "trim_left s"] by (auto simp: trim_space_def)
  show "\<not> starts_with p (trim_space s)"
  proof
    assume "starts_with p (trim_space s)"
    then have "starts_with p (trim_left s)" unfolding q by (auto simp: starts_with_iff)
    then show False using skip_words_none [OF p ne] by (simp add: trim_left_def)
  qed
  show "\<not> starts_with (rev p) (rev (trim_space s))"
    using p ne skip_words_none [of "rev p" "map rev space_runes" "rev (trim_left s)"]
    by (simp add: trim_space_def trim_right_def)
qed

lemma trim_space_idem [simp]: "trim_space (trim_space s) = trim_space s"
  by (intro trim_space_fixed trim_space_ends)

lemma trim_space_infix: "\<exists>p q. s = p @ trim_space s @ q"
  using skip_words_suffix [of s space_runes] trim_right_prefix [of "trim_left s"]
  by (metis trim_left_def trim_space_def)

lemma length_trim_space: "length (trim_space s) \<le> length s"
proof -
  obtain p q where "s = p @ trim_space s @ q" using trim_space_infix by blast
  then have "length s = length p + length (trim_space s) + length q" by (metis length_append add.assoc)
  then show ?thesis by simp
qed

lemma trim_space_Nil [simp]: "trim_space [] = []"
  using length_trim_space [of "[]"] by simp

lemma back_off_le: "back_off s n \<le> n"
  by (induction s n rule: back_off.induct) auto

lemma back_off_boundary: "back_off s n = 0 \<or> rune_start (s ! back_off s n)"
  by (induction s n rule: back_off.induct) auto

lemma cap_len_le: "length (cap_len s n) \<le> n"
  using back_off_le [of s n] by (auto simp: cap_len_def)

lemma cap_len_short [simp]: "length s \<le> n \<Longrightarrow> cap_len s n = s"
  by (simp add: cap_len_def)

lemma cap_len_idem [simp]: "cap_len (cap_len s n) n = cap_len s n"
  by (simp add: cap_len_le)

lemma cap_len_prefix: "\<exists>r. s = cap_len s n @ r"
  by (metis append_Nil2 append_take_drop_id cap_len_def)

text \<open>Capping a trimmed text twice: the second time only trims what the cut exposed.\<close>

lemma trim_cap_again: "cap_len (trim_space (cap_len (trim_space s) n)) n = trim_space (cap_len (trim_space s) n)"
  by (intro cap_len_short order_trans [OF length_trim_space] cap_len_le)

end
