(* ===== verification/SpeedTable.thy ===== *)
theory SpeedTable
  imports Uptime Text
begin

text \<open>
  The speedtest history of \<open>internal/store/store.go\<close>: the table \<open>speed\<close> and its row kinds
  (results, members of a kept round, accounting rows, failure records), the insert that
  allocates a free second, the windowed and thinned reads, the byte sums, the deletes, the
  selection report \<open>speed_servers\<close> and the upload convictions \<open>server_health\<close>.

  A table is the list of its rows in rowid order; \<open>ORDER BY ts\<close> is a stable sort of it and
  \<open>DESC\<close> its reverse.  A \<open>REAL\<close> column holds NULL, a number or an infinity; a NaN is bound as
  NULL.  Every read of a text column goes through \<open>COALESCE(x, '')\<close> (or tests NULL and the
  empty text alike), so a text column is a string and NULL is the empty one.
\<close>

section \<open>Rows\<close>

definition bind_float :: "gfloat \<Rightarrow> gfloat option" where
  "bind_float f = (if f = NotANumber then None else Some f)"

definition nz_finite :: "gfloat option \<Rightarrow> gfloat" where
  "nz_finite c = (case c of Some (Finite q) \<Rightarrow> Finite q | _ \<Rightarrow> Finite 0)"

definition ptr_finite :: "gfloat option \<Rightarrow> gfloat option" where
  "ptr_finite c = (case c of Some (Finite q) \<Rightarrow> Some (Finite q) | _ \<Rightarrow> None)"

record speed_texts =
  x_server :: string
  x_server_id :: string
  x_ipv4 :: string
  x_ipv6 :: string
  x_isp :: string
  x_isp_location :: string
  x_dns_ip :: string
  x_dns_provider :: string
  x_dns_location :: string
  x_colo :: string
  x_exit :: string
  x_trigger :: string
  x_engine :: string
  x_ip_family :: string
  x_udp_direction :: string
  x_race_outcome :: string
  x_race_origins :: string
  x_race_kind :: string
  x_race_label :: string

record speed_sample =
  sp_ts :: int
  sp_down :: gfloat
  sp_up :: gfloat
  sp_ping :: gfloat
  sp_texts :: speed_texts
  sp_jitter :: "gfloat option"
  sp_ping_best :: "gfloat option"
  sp_loss :: "gfloat option"
  sp_healthy :: "bool option"
  sp_down_bytes :: "int option"
  sp_up_bytes :: "int option"
  sp_idle :: "gfloat option"
  sp_load_down :: "gfloat option"
  sp_load_up :: "gfloat option"
  sp_load_down_p95 :: "gfloat option"
  sp_load_up_p95 :: "gfloat option"
  sp_failed :: bool
  sp_stage :: string
  sp_usage_run :: "int option"
  sp_race_ms :: "gfloat option"
  sp_racers :: "int option"
  sp_race_lat :: "gfloat option"
  sp_race_lon :: "gfloat option"
  sp_round :: "int option"
  sp_win_reason :: string

text \<open>The marker column can hold a text only through a crafted import.\<close>

datatype marker = MNull | MInt int | MText string

record speed_row =
  rw_ts :: int
  rw_down :: "gfloat option"
  rw_up :: "gfloat option"
  rw_ping :: "gfloat option"
  rw_texts :: speed_texts
  rw_jitter :: "gfloat option"
  rw_ping_best :: "gfloat option"
  rw_loss :: "gfloat option"
  rw_healthy :: "int option"
  rw_down_bytes :: "int option"
  rw_up_bytes :: "int option"
  rw_idle :: "gfloat option"
  rw_load_down :: "gfloat option"
  rw_load_up :: "gfloat option"
  rw_load_down_p95 :: "gfloat option"
  rw_load_up_p95 :: "gfloat option"
  rw_failed :: marker
  rw_stage :: string
  rw_usage_run :: "int option"
  rw_race_ms :: "gfloat option"
  rw_racers :: "int option"
  rw_race_lat :: "gfloat option"
  rw_race_lon :: "gfloat option"
  rw_round :: "int option"

section \<open>Which rows are which\<close>

definition speed_not_failed :: "speed_row \<Rightarrow> bool" where
  "speed_not_failed r \<longleftrightarrow> rw_failed r = MNull \<or> rw_failed r = MInt 0"

definition speed_is_result :: "speed_row \<Rightarrow> bool" where
  "speed_is_result r \<longleftrightarrow> speed_not_failed r \<and> rw_round r = None"

definition speed_is_accounting :: "speed_row \<Rightarrow> bool" where
  "speed_is_accounting r \<longleftrightarrow> \<not> speed_not_failed r"

definition speed_has_stage :: "speed_row \<Rightarrow> bool" where
  "speed_has_stage r \<longleftrightarrow> rw_stage r \<noteq> []"

definition int_marker :: "marker \<Rightarrow> bool" where
  "int_marker m = (case m of MInt _ \<Rightarrow> True | _ \<Rightarrow> False)"

definition speed_is_failure :: "speed_row \<Rightarrow> bool" where
  "speed_is_failure r \<longleftrightarrow> speed_is_accounting r \<and> int_marker (rw_failed r) \<and> speed_has_stage r \<and>
     rw_usage_run r = None \<and> rw_round r = None"

definition speed_is_listed :: "speed_row \<Rightarrow> bool" where
  "speed_is_listed r \<longleftrightarrow> speed_not_failed r \<or> speed_is_failure r"

text \<open>\<open>scanSpeed\<close>: a marker that is no integer is a scan error.\<close>

definition scan_speed :: "speed_row \<Rightarrow> db_error + speed_sample" where
  "scan_speed r = (case rw_failed r of
     MText _ \<Rightarrow> Inl (DbMsg ''sql: Scan error on column failed'')
   | m \<Rightarrow>
     let failed = (case m of MInt k \<Rightarrow> k \<noteq> 0 | _ \<Rightarrow> False) in
     Inr \<lparr>sp_ts = rw_ts r, sp_down = nz_finite (rw_down r), sp_up = nz_finite (rw_up r),
       sp_ping = nz_finite (rw_ping r), sp_texts = rw_texts r, sp_jitter = ptr_finite (rw_jitter r),
       sp_ping_best = ptr_finite (rw_ping_best r), sp_loss = ptr_finite (rw_loss r),
       sp_healthy = map_option (\<lambda>h. h = 1) (rw_healthy r),
       sp_down_bytes = rw_down_bytes r, sp_up_bytes = rw_up_bytes r,
       sp_idle = ptr_finite (rw_idle r), sp_load_down = ptr_finite (rw_load_down r),
       sp_load_up = ptr_finite (rw_load_up r), sp_load_down_p95 = ptr_finite (rw_load_down_p95 r),
       sp_load_up_p95 = ptr_finite (rw_load_up_p95 r), sp_failed = failed,
       sp_stage = (if failed then rw_stage r else []), sp_usage_run = None,
       sp_race_ms = ptr_finite (rw_race_ms r), sp_racers = rw_racers r,
       sp_race_lat = ptr_finite (rw_race_lat r), sp_race_lon = ptr_finite (rw_race_lon r),
       sp_round = rw_round r, sp_win_reason = []\<rparr>)"

fun scan_rows :: "speed_row list \<Rightarrow> db_error + speed_sample list" where
  "scan_rows [] = Inr []"
| "scan_rows (r # rs) = bind_result (scan_speed r) (\<lambda>x. bind_result (scan_rows rs) (\<lambda>xs. Inr (x # xs)))"

section \<open>The tables beside the store\<close>

record server_row =
  sv_run :: int
  sv_id :: string
  sv_server :: string
  sv_distance :: "gfloat option"
  sv_rank :: int
  sv_rank_ping :: "gfloat option"
  sv_selected :: bool
  sv_measured :: bool
  sv_err :: string
  sv_down :: "gfloat option"
  sv_up :: "gfloat option"
  sv_ping :: "gfloat option"
  sv_ping_best :: "gfloat option"
  sv_jitter :: "gfloat option"
  sv_down_bytes :: int
  sv_up_bytes :: int
  sv_capacity :: "gfloat option"
  sv_believed :: "gfloat option"
  sv_capped :: string
  sv_score :: "gfloat option"
  sv_winner :: bool
  sv_win_reason :: string

record health_row =
  hl_id :: string
  hl_expires :: int
  hl_fails :: int

record speed_db =
  sd_store :: store
  sd_rows :: "speed_row list"
  sd_servers :: "server_row list"
  sd_health :: "health_row list"

text \<open>One statement against the database, and one whose failure is counted.\<close>

definition sd_exec :: "speed_db \<Rightarrow> db_error option \<times> speed_db" where
  "sd_exec d = (case db_exec (sd_store d) of (e, s) \<Rightarrow> (e, d\<lparr>sd_store := s\<rparr>))"

definition sd_record :: "db_error option \<Rightarrow> speed_db \<Rightarrow> speed_db" where
  "sd_record e d = d\<lparr>sd_store := record_db_err e (sd_store d)\<rparr>"

definition sd_query :: "(speed_db \<Rightarrow> db_error + 'a) \<Rightarrow> (speed_db, db_error, 'a) call" where
  "sd_query f d = (case sd_exec d of (Some e, d) \<Rightarrow> (Inl e, d) | (None, d) \<Rightarrow> (f d, d))"

definition sd_counted :: "(speed_db \<Rightarrow> db_error + 'a) \<Rightarrow> (speed_db, db_error, 'a) call" where
  "sd_counted f d = (case sd_query f d of
     (Inl e, d) \<Rightarrow> (Inl e, sd_record (Some e) d) | (Inr x, d) \<Rightarrow> (Inr x, d))"

definition sd_save :: "world \<Rightarrow> speed_db \<Rightarrow> speed_db" where
  "sd_save w d = d\<lparr>sd_store := snd (save_buffered SaveOrder (w_save w) (sd_store d))\<rparr>"

section \<open>The insert\<close>

definition max_speed_bytes_per_run :: int where "max_speed_bytes_per_run = 2 ^ 42"

definition clamp_speed_bytes :: "int option \<Rightarrow> int option" where
  "clamp_speed_bytes v = (case v of None \<Rightarrow> None
     | Some n \<Rightarrow> Some (if n < 0 then 0 else if n > max_speed_bytes_per_run then max_speed_bytes_per_run else n))"

text \<open>The second the statement picks: the one asked for when no row is on it, else the smallest
  free successor of an occupied second from there on.\<close>

definition free_second :: "int list \<Rightarrow> int \<Rightarrow> int" where
  "free_second occ t =
     (case min_of ((if t \<in> set occ then [] else [t]) @
                   map (\<lambda>x. x + 1) (filter (\<lambda>x. x \<ge> t \<and> x + 1 \<notin> set occ) occ)) of
        None \<Rightarrow> t | Some m \<Rightarrow> m)"

definition speed_row_of :: "int \<Rightarrow> speed_sample \<Rightarrow> speed_row" where
  "speed_row_of ts sp =
     \<lparr>rw_ts = ts, rw_down = bind_float (sp_down sp), rw_up = bind_float (sp_up sp),
      rw_ping = bind_float (sp_ping sp), rw_texts = sp_texts sp,
      rw_jitter = Option.bind (sp_jitter sp) bind_float,
      rw_ping_best = Option.bind (sp_ping_best sp) bind_float,
      rw_loss = Option.bind (sp_loss sp) bind_float,
      rw_healthy = map_option (\<lambda>b. if b then 1 else 0) (sp_healthy sp),
      rw_down_bytes = clamp_speed_bytes (sp_down_bytes sp),
      rw_up_bytes = clamp_speed_bytes (sp_up_bytes sp),
      rw_idle = Option.bind (sp_idle sp) bind_float,
      rw_load_down = Option.bind (sp_load_down sp) bind_float,
      rw_load_up = Option.bind (sp_load_up sp) bind_float,
      rw_load_down_p95 = Option.bind (sp_load_down_p95 sp) bind_float,
      rw_load_up_p95 = Option.bind (sp_load_up_p95 sp) bind_float,
      rw_failed = (if sp_failed sp then MInt 1 else MNull),
      rw_stage = (if sp_failed sp then sp_stage sp else []),
      rw_usage_run = sp_usage_run sp,
      rw_race_ms = Option.bind (sp_race_ms sp) bind_float, rw_racers = sp_racers sp,
      rw_race_lat = Option.bind (sp_race_lat sp) bind_float,
      rw_race_lon = Option.bind (sp_race_lon sp) bind_float,
      rw_round = sp_round sp\<rparr>"

text \<open>The row is in once the first statement returned; reading its second back may still fail.\<close>

definition insert_speed_ts :: "world \<Rightarrow> speed_sample \<Rightarrow> (speed_db, db_error, int) call" where
  "insert_speed_ts w sp d =
     (let d = sd_save w d in
      case sd_exec d of
        (Some e, d) \<Rightarrow> (Inl e, sd_record (Some e) d)
      | (None, d) \<Rightarrow>
          let ts = free_second (map rw_ts (sd_rows d)) (sp_ts sp);
              d = d\<lparr>sd_rows := sd_rows d @ [speed_row_of ts sp]\<rparr>
          in sd_counted (\<lambda>_. Inr ts) d)"

definition insert_speed :: "world \<Rightarrow> speed_sample \<Rightarrow> speed_db \<Rightarrow> db_error option \<times> speed_db" where
  "insert_speed w sp d = (case insert_speed_ts w sp d of
     (Inl e, d) \<Rightarrow> (Some e, d) | (Inr _, d) \<Rightarrow> (None, d))"

section \<open>Windowed reads\<close>

text \<open>\<open>None\<close> for \<open>until\<close> is the zero time: up to the present.\<close>

definition speed_window :: "int \<Rightarrow> int \<Rightarrow> int option \<Rightarrow> int \<Rightarrow> bool" where
  "speed_window now since until ts \<longleftrightarrow>
     ts \<ge> since \<and> ts < (case until of None \<Rightarrow> current_horizon now | Some u \<Rightarrow> u)"

definition by_ts :: "speed_row list \<Rightarrow> speed_row list" where
  "by_ts rows = sort_key rw_ts rows"

text \<open>\<open>ts / ?\<close> is SQLite's integer division, which truncates toward zero.\<close>

definition speed_history_range ::
  "int \<Rightarrow> int \<Rightarrow> int option \<Rightarrow> int \<Rightarrow> (speed_db, db_error, speed_sample list) call" where
  "speed_history_range now since until bucket = sd_query (\<lambda>d.
     let win = filter (\<lambda>r. speed_is_result r \<and> speed_window now since until (rw_ts r)) (sd_rows d);
         kept = (if bucket > 1
                 then filter (\<lambda>r. \<not> list_ex (\<lambda>q. rw_ts q sdiv bucket = rw_ts r sdiv bucket \<and>
                                                  rw_ts q > rw_ts r) win) win
                 else win)
     in scan_rows (by_ts kept))"

definition speed_history :: "int \<Rightarrow> int \<Rightarrow> (speed_db, db_error, speed_sample list) call" where
  "speed_history now since = speed_history_range now since None 1"

text \<open>\<open>SpeedHistoryBudget\<close>: the distinct seconds of the window, thinned by rank with the newest
  pinned, then one row per kept second.\<close>

definition thin_seconds :: "int list \<Rightarrow> nat \<Rightarrow> int list" where
  "thin_seconds secs budget =
     (if length secs > budget
      then (map (\<lambda>i. secs ! (i * length secs div budget)) [0 ..< budget])
             [budget - 1 := secs ! (length secs - 1)]
      else secs)"

definition first_per_second :: "speed_row list \<Rightarrow> speed_row list" where
  "first_per_second rows = fold (\<lambda>r acc. if rw_ts r \<in> rw_ts ` set acc then acc else acc @ [r]) rows []"

definition speed_history_budget ::
  "int \<Rightarrow> int \<Rightarrow> int option \<Rightarrow> int \<Rightarrow> (speed_db, db_error, speed_sample list \<times> int) call" where
  "speed_history_budget now since until budget0 =
     (let budget = nat (if budget0 < 1 then 1 else budget0) in
      andthen (sd_query (\<lambda>d. Inr (remdups_adj (map rw_ts (by_ts
          (filter (\<lambda>r. speed_not_failed r \<and> speed_window now since until (rw_ts r)) (sd_rows d)))))))
        (\<lambda>secs. if secs = [] then ret ([], 0)
                else andthen (sd_query (\<lambda>d. scan_rows (first_per_second (by_ts
                       (filter (\<lambda>r. speed_not_failed r \<and> rw_ts r \<in> set (thin_seconds secs budget))
                          (sd_rows d))))))
                     (\<lambda>out. ret (out, int (length secs)))))"

definition speed_run_count :: "int \<Rightarrow> int option \<Rightarrow> (speed_db, db_error, nat) call" where
  "speed_run_count since until = sd_counted (\<lambda>d. Inr (length (filter (\<lambda>r.
     speed_not_failed r \<and> rw_round r = None \<and> rw_ts r \<ge> since \<and>
     (case until of None \<Rightarrow> True | Some u \<Rightarrow> rw_ts r < u)) (sd_rows d))))"

definition speed_count :: "(speed_db, db_error, nat) call" where
  "speed_count = sd_query (\<lambda>d. Inr (length (filter speed_not_failed (sd_rows d))))"

definition speed_listed_count :: "(speed_db, db_error, nat) call" where
  "speed_listed_count = sd_query (\<lambda>d. Inr (length (filter speed_is_listed (sd_rows d))))"

definition speed_run_offset :: "int \<Rightarrow> (speed_db, db_error, nat) call" where
  "speed_run_offset ts =
     sd_query (\<lambda>d. Inr (length (filter (\<lambda>r. speed_is_listed r \<and> rw_ts r > ts) (sd_rows d))))"

definition speed_run_exists :: "int \<Rightarrow> (speed_db, db_error, bool) call" where
  "speed_run_exists ts =
     sd_counted (\<lambda>d. Inr (length (filter (\<lambda>r. speed_is_listed r \<and> rw_ts r = ts) (sd_rows d)) > 0))"

definition page_limit :: "int \<Rightarrow> nat" where
  "page_limit l = nat (if l \<le> 0 \<or> l > 5000 then 50 else l)"

definition speed_results :: "int \<Rightarrow> (speed_db, db_error, speed_sample list) call" where
  "speed_results limit = sd_query (\<lambda>d.
     scan_rows (take (page_limit limit) (rev (by_ts (filter speed_is_result (sd_rows d))))))"

definition speed_runs :: "int \<Rightarrow> int \<Rightarrow> (speed_db, db_error, speed_sample list) call" where
  "speed_runs limit offset = sd_query (\<lambda>d.
     scan_rows (take (page_limit limit) (drop (nat (if offset < 0 then 0 else offset))
       (rev (by_ts (filter speed_is_listed (sd_rows d)))))))"

definition newest_where :: "(speed_row \<Rightarrow> bool) \<Rightarrow> speed_db \<Rightarrow> db_error + speed_sample option" where
  "newest_where P d = (case rev (by_ts (filter P (sd_rows d))) of
     [] \<Rightarrow> Inr None | r # _ \<Rightarrow> bind_result (scan_speed r) (\<lambda>x. Inr (Some x)))"

definition latest_speed :: "int \<Rightarrow> (speed_db, db_error, speed_sample option) call" where
  "latest_speed now = sd_counted (newest_where (\<lambda>r. speed_is_result r \<and> rw_ts r \<le> current_horizon now))"

definition latest_conn_info :: "int \<Rightarrow> (speed_db, db_error, speed_sample option) call" where
  "latest_conn_info now = sd_query (newest_where (\<lambda>r. speed_is_result r \<and> rw_ts r \<le> current_horizon now \<and>
     (x_isp (rw_texts r) \<noteq> [] \<or> x_ipv4 (rw_texts r) \<noteq> [])))"

section \<open>Bytes\<close>

text \<open>SQLite's integer \<open>SUM\<close> fails when a partial sum leaves the 64-bit range.\<close>

fun sum_int64 :: "int \<Rightarrow> int list \<Rightarrow> db_error + int" where
  "sum_int64 acc [] = Inr acc"
| "sum_int64 acc (x # xs) =
     (if in_int64 (acc + x) then sum_int64 (acc + x) xs else Inl (DbMsg ''integer overflow''))"

definition row_bytes :: "speed_row \<Rightarrow> int" where
  "row_bytes r = (case rw_down_bytes r of None \<Rightarrow> 0 | Some b \<Rightarrow> b) + (case rw_up_bytes r of None \<Rightarrow> 0 | Some b \<Rightarrow> b)"

definition speed_data_usage_since :: "int \<Rightarrow> int \<Rightarrow> (speed_db, db_error, int) call" where
  "speed_data_usage_since now since = sd_query (\<lambda>d.
     sum_int64 0 (map row_bytes (filter (\<lambda>r. rw_ts r \<ge> since \<and> rw_ts r \<le> current_horizon now) (sd_rows d))))"

record data_usage =
  du_6h :: int
  du_24h :: int
  du_7d :: int
  du_30d :: int
  du_1y :: int
  du_all :: int

definition speed_data_usage :: "int \<Rightarrow> (speed_db, db_error, data_usage) call" where
  "speed_data_usage now = sd_query (\<lambda>d.
     let rows = filter (\<lambda>r. rw_ts r \<le> current_horizon now) (sd_rows d);
         cut = (\<lambda>h. sum_int64 0 (map row_bytes (filter (\<lambda>r. rw_ts r \<ge> now - h * 3600) rows)))
     in bind_result (cut 6) (\<lambda>a. bind_result (cut 24) (\<lambda>b. bind_result (cut (7 * 24)) (\<lambda>c.
        bind_result (cut (30 * 24)) (\<lambda>e. bind_result (cut (365 * 24)) (\<lambda>f.
        bind_result (sum_int64 0 (map row_bytes rows)) (\<lambda>g.
          Inr \<lparr>du_6h = a, du_24h = b, du_7d = c, du_30d = e, du_1y = f, du_all = g\<rparr>)))))))"

text \<open>The mean of the newest twenty runs that recorded the direction, each with its round's
  members; \<open>CAST\<close> truncates.\<close>

definition avg_bytes :: "(speed_row \<Rightarrow> int option) \<Rightarrow> int \<Rightarrow> speed_row list \<Rightarrow> int" where
  "avg_bytes col horizon rows =
     (let runs = take 20 (rev (by_ts (filter (\<lambda>r. speed_is_result r \<and> col r \<noteq> None \<and> rw_ts r \<le> horizon) rows)));
          b = (\<lambda>r. the (col r) + sum_list (map (\<lambda>l. case col l of None \<Rightarrow> 0 | Some n \<Rightarrow> n)
                     (filter (\<lambda>l. rw_round l = Some (rw_ts r)) rows)))
      in if runs = [] then 0 else sum_list (map b runs) sdiv int (length runs))"

definition speed_avg_bytes :: "int \<Rightarrow> (speed_db, db_error, int \<times> int) call" where
  "speed_avg_bytes now = sd_counted (\<lambda>d.
     Inr (avg_bytes rw_down_bytes (current_horizon now) (sd_rows d),
          avg_bytes rw_up_bytes (current_horizon now) (sd_rows d)))"

definition speed_avg_servers :: "int \<Rightarrow> (speed_db, db_error, rat) call" where
  "speed_avg_servers now = sd_counted (\<lambda>d.
     let runs = take 20 (rev (by_ts (filter (\<lambda>r. speed_is_result r \<and> rw_down_bytes r \<noteq> None \<and>
                   rw_ts r \<le> current_horizon now) (sd_rows d))));
         n = (\<lambda>r. max 1 (length (filter (\<lambda>v. sv_run v = rw_ts r \<and> sv_measured v) (sd_servers d))));
         avg = (if runs = [] then 1 else of_nat (sum_list (map n runs)) / of_nat (length runs))
     in Inr (if \<not> avg \<ge> (1::rat) then 1 else avg))"

section \<open>Deletes\<close>

fun remove_first :: "('a \<Rightarrow> bool) \<Rightarrow> 'a list \<Rightarrow> 'a list" where
  "remove_first P [] = []"
| "remove_first P (x # xs) = (if P x then xs else x # remove_first P xs)"

text \<open>The one row of the first statement: a row naming no run is taken before one that names
  this run, and the older rowid first.\<close>

definition delete_named :: "int \<Rightarrow> speed_row list \<Rightarrow> speed_row list" where
  "delete_named ts rows =
     (if list_ex (\<lambda>r. rw_ts r = ts \<and> rw_usage_run r = None) rows
      then remove_first (\<lambda>r. rw_ts r = ts \<and> rw_usage_run r = None) rows
      else remove_first (\<lambda>r. rw_ts r = ts \<and> rw_usage_run r = Some ts) rows)"

definition delete_speed_rows :: "int \<Rightarrow> speed_row list \<Rightarrow> nat \<times> speed_row list" where
  "delete_speed_rows ts rows =
     (let left = delete_named ts rows;
          n = length rows - length left;
          kept = filter (\<lambda>r. rw_round r \<noteq> Some ts) left;
          m = length left - length kept
      in (n + m, filter (\<lambda>r. \<not> (rw_usage_run r = Some ts \<and> speed_is_accounting r)) kept))"

text \<open>One transaction: any statement of it may fail, and then nothing changed.\<close>

definition delete_speed :: "int \<Rightarrow> (speed_db, db_error, nat) call" where
  "delete_speed ts d = (case sd_exec d of
     (Some e, d) \<Rightarrow> (Inl e, sd_record (Some e) d)
   | (None, d) \<Rightarrow> (case delete_speed_rows ts (sd_rows d) of (n, rows) \<Rightarrow>
       (Inr n, d\<lparr>sd_rows := rows, sd_servers := filter (\<lambda>v. sv_run v \<noteq> ts) (sd_servers d)\<rparr>)))"

section \<open>The selection report\<close>

definition insert_speed_servers :: "world \<Rightarrow> server_row list \<Rightarrow> speed_db \<Rightarrow> db_error option \<times> speed_db" where
  "insert_speed_servers w rows d =
     (if rows = [] then (None, d)
      else case sd_exec (sd_save w d) of
        (Some e, d) \<Rightarrow> (Some e, sd_record (Some e) d)
      | (None, d) \<Rightarrow> (None, d\<lparr>sd_servers := sd_servers d @ rows\<rparr>))"

definition scan_server :: "server_row \<Rightarrow> server_row" where
  "scan_server v = v\<lparr>sv_distance := Some (nz_finite (sv_distance v)), sv_down := Some (nz_finite (sv_down v)),
     sv_up := Some (nz_finite (sv_up v)), sv_ping := Some (nz_finite (sv_ping v)),
     sv_capacity := Some (nz_finite (sv_capacity v)), sv_believed := Some (nz_finite (sv_believed v)),
     sv_score := Some (nz_finite (sv_score v)), sv_rank_ping := ptr_finite (sv_rank_ping v),
     sv_ping_best := ptr_finite (sv_ping_best v), sv_jitter := ptr_finite (sv_jitter v)\<rparr>"

definition speed_servers :: "int \<Rightarrow> (speed_db, db_error, server_row list) call" where
  "speed_servers run = sd_counted (\<lambda>d.
     Inr (map scan_server (sort_key sv_rank (filter (\<lambda>v. sv_run v = run) (sd_servers d)))))"

definition newest_winners :: "(server_row \<Rightarrow> bool) \<Rightarrow> int \<Rightarrow> (speed_db, db_error, server_row list) call" where
  "newest_winners P limit =
     (if limit \<le> 0 then ret []
      else sd_counted (\<lambda>d. Inr (map scan_server (take (nat limit)
             (rev (sort_key sv_run (filter (\<lambda>v. sv_winner v \<and> P v) (sd_servers d))))))))"

definition last_speed_winners :: "int \<Rightarrow> (speed_db, db_error, server_row list) call" where
  "last_speed_winners limit = newest_winners (\<lambda>_. True) limit"

definition last_speed_winners_excluding :: "int \<Rightarrow> string list \<Rightarrow> (speed_db, db_error, server_row list) call" where
  "last_speed_winners_excluding limit reasons =
     (if limit \<le> 0 then ret []
      else if reasons = [] then last_speed_winners limit
      else newest_winners (\<lambda>v. sv_win_reason v \<notin> set reasons) limit)"

definition pos_cell :: "gfloat option \<Rightarrow> bool" where
  "pos_cell c = (case c of Some (Finite q) \<Rightarrow> q > 0 | Some (Infinite b) \<Rightarrow> b | _ \<Rightarrow> False)"

definition zero_cell :: "gfloat option \<Rightarrow> bool" where
  "zero_cell c \<longleftrightarrow> c = Some (Finite 0)"

text \<open>\<open>finite_pos\<close>: the check the code repeats on a scanned value.\<close>

definition finite_pos :: "gfloat option \<Rightarrow> rat option" where
  "finite_pos c = (case c of Some (Finite q) \<Rightarrow> if q > 0 then Some q else None | _ \<Rightarrow> None)"

definition same_direction :: "string \<Rightarrow> server_row \<Rightarrow> bool" where
  "same_direction dir v \<longleftrightarrow>
     (if dir = ''down'' then pos_cell (sv_down v) \<and> zero_cell (sv_up v)
      else if dir = ''up'' then pos_cell (sv_up v) \<and> zero_cell (sv_down v)
      else pos_cell (sv_down v) \<and> pos_cell (sv_up v))"

definition recent_server_scores :: "string \<Rightarrow> string \<Rightarrow> int \<Rightarrow> (speed_db, db_error, rat list) call" where
  "recent_server_scores sid dir n =
     (if sid = [] \<or> n \<le> 0 then ret []
      else sd_counted (\<lambda>d. Inr (List.map_filter (\<lambda>v. finite_pos (sv_score v)) (take (nat n)
             (rev (sort_key sv_run (filter (\<lambda>v. sv_id v = sid \<and> sv_measured v \<and> pos_cell (sv_score v) \<and>
                same_direction dir v) (sd_servers d))))))))"

definition win_reasons_for :: "int list \<Rightarrow> (speed_db, db_error, int \<rightharpoonup> string) call" where
  "win_reasons_for runs =
     (if runs = [] then ret Map.empty
      else sd_counted (\<lambda>d. Inr (fold (\<lambda>v m. if sv_win_reason v \<noteq> [] then m(sv_run v \<mapsto> sv_win_reason v) else m)
             (filter (\<lambda>v. sv_winner v \<and> sv_run v \<in> set runs) (sd_servers d)) Map.empty)))"

definition middle :: "rat list \<Rightarrow> rat" where
  "middle xs = (let s = sort xs; n = length s in
     if odd n then s ! (n div 2) else (s ! (n div 2 - 1) + s ! (n div 2)) / 2)"

definition recent_rank_pings_for :: "string \<Rightarrow> int \<Rightarrow> (speed_db, db_error, rat list) call" where
  "recent_rank_pings_for sid runs = sd_counted (\<lambda>d.
     Inr (List.map_filter (\<lambda>v. finite_pos (sv_rank_ping v)) (take (nat runs)
       (rev (sort_key sv_run (filter (\<lambda>v. sv_id v = sid \<and> pos_cell (sv_rank_ping v)) (sd_servers d)))))))"

fun rank_pings :: "string list \<Rightarrow> int \<Rightarrow> (string \<rightharpoonup> rat) \<Rightarrow> (speed_db, db_error, string \<rightharpoonup> rat) call" where
  "rank_pings [] runs out = ret out"
| "rank_pings (sid # ids) runs out =
     andthen (recent_rank_pings_for sid runs)
       (\<lambda>v. rank_pings ids runs (if v = [] then out else out(sid \<mapsto> middle v)))"

definition recent_rank_pings :: "string list \<Rightarrow> int \<Rightarrow> (speed_db, db_error, string \<rightharpoonup> rat) call" where
  "recent_rank_pings ids runs = (if ids = [] \<or> runs \<le> 0 then ret Map.empty else rank_pings ids runs Map.empty)"

section \<open>Upload convictions\<close>

definition save_server_health :: "health_row \<Rightarrow> speed_db \<Rightarrow> db_error option \<times> speed_db" where
  "save_server_health h d =
     (if hl_id h = [] then (None, d)
      else case sd_exec d of
        (Some e, d) \<Rightarrow> (Some e, sd_record (Some e) d)
      | (None, d) \<Rightarrow> (None, d\<lparr>sd_health := filter (\<lambda>g. hl_id g \<noteq> hl_id h) (sd_health d) @ [h]\<rparr>))"

definition forget_server_health :: "string \<Rightarrow> speed_db \<Rightarrow> db_error option \<times> speed_db" where
  "forget_server_health sid d =
     (if sid = [] then (None, d)
      else case sd_exec d of
        (Some e, d) \<Rightarrow> (Some e, sd_record (Some e) d)
      | (None, d) \<Rightarrow> (None, d\<lparr>sd_health := filter (\<lambda>g. hl_id g \<noteq> sid) (sd_health d)\<rparr>))"

text \<open>A failed sweep does not stop the read.\<close>

definition server_health :: "int \<Rightarrow> duration \<Rightarrow> (speed_db, db_error, health_row list) call" where
  "server_health now keep d =
     (let cutoff = now - dur_secs keep;
          d = (case sd_exec d of
                 (Some e, d) \<Rightarrow> sd_record (Some e) d
               | (None, d) \<Rightarrow> d\<lparr>sd_health := filter (\<lambda>g. hl_expires g > cutoff) (sd_health d)\<rparr>)
      in sd_counted (\<lambda>d. Inr (filter (\<lambda>g. hl_expires g > cutoff) (sd_health d))) d)"

end
