(* ===== verification/SpeedFacts.thy ===== *)
theory SpeedFacts
  imports SpeedTable UptimeFacts
begin

text \<open>
  Facts about the speedtest history: the second an insert lands on, the thinning of a wide
  window, the sums that cannot overflow and the rows a delete takes.
\<close>

lemmas sd_call_defs = sd_query_def sd_counted_def sd_exec_def sd_record_def

section \<open>The free second\<close>

lemma least_free:
  fixes t :: int
  assumes "finite S"
  obtains u where "t \<le> u" "u \<notin> S" "\<And>v. t \<le> v \<Longrightarrow> v < u \<Longrightarrow> v \<in> S"
proof -
  define free where "free n = (t + int n \<notin> S)" for n
  have "\<exists>n. free n"
  proof (rule ccontr)
    assume "\<nexists>n. free n"
    then have "range (\<lambda>n. t + int n) \<subseteq> S" by (auto simp: free_def)
    moreover have "infinite (range (\<lambda>n. t + int n))"
      using finite_imageD[of "\<lambda>n. t + int n" UNIV] by (auto simp: inj_on_def)
    ultimately show False using assms by (auto dest: finite_subset)
  qed
  then obtain n where n: "free n" "\<And>m. m < n \<Longrightarrow> \<not> free m"
    by (metis LeastI not_less_Least)
  show thesis
  proof (rule that)
    show "t \<le> t + int n" "t + int n \<notin> S" using n(1) by (simp_all add: free_def)
    show "v \<in> S" if "t \<le> v" "v < t + int n" for v
      using n(2)[of "nat (v - t)"] that by (simp add: free_def)
  qed
qed

lemma free_second_spec:
  "t \<le> free_second occ t" "free_second occ t \<notin> set occ"
  "t \<le> v \<Longrightarrow> v < free_second occ t \<Longrightarrow> v \<in> set occ"
proof -
  obtain u where u: "t \<le> u" "u \<notin> set occ" "\<And>v. t \<le> v \<Longrightarrow> v < u \<Longrightarrow> v \<in> set occ"
    using least_free[of "set occ" t] by auto
  let ?cand = "(if t \<in> set occ then [] else [t]) @
    map (\<lambda>x. x + 1) (filter (\<lambda>x. x \<ge> t \<and> x + 1 \<notin> set occ) occ)"
  have "u \<in> set ?cand"
  proof (cases "u = t")
    case False
    then have "u - 1 \<in> set occ" "u - 1 \<ge> t" using u(1) u(3)[of "u - 1"] by auto
    then show ?thesis using u(2) by (auto simp: image_iff intro!: bexI[of _ "u - 1"])
  qed (use u in simp)
  moreover have "u \<le> x" if "x \<in> set ?cand" for x
    using that u(3)[of x] by (cases "x < u") (auto split: if_splits)
  ultimately have "free_second occ t = u"
    using min_of_Some[of ?cand u] by (auto simp: free_second_def simp del: set_append)
  then show "t \<le> free_second occ t" "free_second occ t \<notin> set occ"
    "t \<le> v \<Longrightarrow> v < free_second occ t \<Longrightarrow> v \<in> set occ"
    using u by auto
qed

lemma sd_save_tables [simp]:
  "sd_rows (sd_save w d) = sd_rows d" "sd_servers (sd_save w d) = sd_servers d"
  "sd_health (sd_save w d) = sd_health d"
  by (simp_all add: sd_save_def)

lemma sd_query_tables:
  "sd_query f d = (r, d') \<Longrightarrow> sd_rows d' = sd_rows d \<and> sd_servers d' = sd_servers d \<and> sd_health d' = sd_health d"
  by (auto simp: sd_query_def sd_exec_def split: prod.splits option.splits)

lemma sd_query_Inr:
  "sd_query f d = (Inr x, d') \<Longrightarrow> \<exists>s. f (d\<lparr>sd_store := s\<rparr>) = Inr x \<and> d' = d\<lparr>sd_store := s\<rparr>"
  by (auto simp: sd_query_def sd_exec_def split: prod.splits option.splits)

lemma sd_counted_tables:
  "sd_counted f d = (r, d') \<Longrightarrow> sd_rows d' = sd_rows d \<and> sd_servers d' = sd_servers d \<and> sd_health d' = sd_health d"
  by (auto simp: sd_counted_def sd_record_def dest: sd_query_tables split: prod.splits sum.splits)

lemma sd_exec_quiet: "faults (sd_store d) = [] \<Longrightarrow> sd_exec d = (None, d)"
  by (simp add: sd_exec_def db_exec_no_faults)

lemma sd_query_quiet: "faults (sd_store d) = [] \<Longrightarrow> sd_query f d = (f d, d)"
  by (simp add: sd_query_def sd_exec_quiet)

lemma sd_counted_quiet: "faults (sd_store d) = [] \<Longrightarrow> f d = Inr x \<Longrightarrow> sd_counted f d = (Inr x, d)"
  by (simp add: sd_counted_def sd_query_quiet)

text \<open>Every way an insert can end.\<close>

lemma insert_speed_ts_rows:
  assumes "insert_speed_ts w sp d = (r, d')"
  shows "sd_rows d' = sd_rows d \<and> (\<exists>e. r = Inl e) \<or>
    sd_rows d' = sd_rows d @ [speed_row_of (free_second (map rw_ts (sd_rows d)) (sp_ts sp)) sp] \<and>
    (r = Inr (free_second (map rw_ts (sd_rows d)) (sp_ts sp)) \<or> (\<exists>e. r = Inl e))"
  using assms
  by (auto simp: insert_speed_ts_def sd_call_defs Let_def sd_save_def
      split: prod.splits option.splits sum.splits)

lemma rw_ts_speed_row_of [simp]: "rw_ts (speed_row_of ts sp) = ts"
  by (simp add: speed_row_of_def)

section \<open>Thinning\<close>

lemma thin_index_step:
  assumes "0 < b" and "b < (n::nat)"
  shows "i * n div b < Suc i * n div b"
proof -
  have "i * n div b + 1 = (i * n + b) div b" using assms by simp
  also have "\<dots> \<le> Suc i * n div b" using assms by (intro div_le_mono) simp
  finally show ?thesis by simp
qed


lemma thin_index_mono:
  assumes "0 < b" and "b < (n::nat)" and "i < j"
  shows "i * n div b < j * n div b"
  using lift_Suc_mono_less[of "\<lambda>i. i * n div b", OF thin_index_step[OF assms(1,2)] assms(3)] by simp

lemma thin_index_bound:
  assumes "0 < b" and "i < b" and "0 < (n::nat)"
  shows "i * n div b < n"
  using assms by (simp add: less_mult_imp_div_less)

lemma thin_seconds_nth:
  assumes "0 < b" and "b < length secs" and "i < b"
  shows "thin_seconds secs b ! i =
    secs ! (if i = b - 1 then length secs - 1 else i * length secs div b)"
  using assms by (auto simp: thin_seconds_def nth_list_update)

lemma thin_index_le:
  assumes "0 < b" and "b < (n::nat)" and "i < j" and "j < b"
  shows "(if i = b - 1 then n - 1 else i * n div b) < (if j = b - 1 then n - 1 else j * n div b)"
  using assms thin_index_mono[OF assms(1-3)] thin_index_bound[of b j n] by (auto split: if_splits)

lemma thin_seconds_facts:
  assumes "sorted_wrt (<) secs" and "0 < b" and "secs \<noteq> []"
  shows "length (thin_seconds secs b) = min (length secs) b"
    and "sorted_wrt (<) (thin_seconds secs b)"
    and "set (thin_seconds secs b) \<subseteq> set secs"
    and "last (thin_seconds secs b) = last secs"
proof -
  show len: "length (thin_seconds secs b) = min (length secs) b"
    by (simp add: thin_seconds_def)
  show "sorted_wrt (<) (thin_seconds secs b)"
  proof (cases "b < length secs")
    case True
    have "thin_seconds secs b ! i < thin_seconds secs b ! j" if "i < j" "j < b" for i j
      using that True assms(2,3) thin_index_le[OF assms(2) True that] thin_index_bound[of b j "length secs"]
      by (simp add: thin_seconds_nth) (auto intro!: sorted_wrt_nth_less[OF assms(1)] split: if_splits)
    then show ?thesis using len True by (auto simp: sorted_wrt_iff_nth_less)
  qed (use assms(1) in \<open>simp add: thin_seconds_def\<close>)
  show "set (thin_seconds secs b) \<subseteq> set secs"
  proof (cases "b < length secs")
    case True
    have "thin_seconds secs b ! i \<in> set secs" if "i < b" for i
      using that True assms(2,3) thin_index_bound[of b i "length secs"]
      by (simp add: thin_seconds_nth)
    then show ?thesis using True len by (auto simp: in_set_conv_nth)
  qed (simp add: thin_seconds_def)
  show "last (thin_seconds secs b) = last secs"
  proof (cases "b < length secs")
    case True
    then have "thin_seconds secs b \<noteq> []" using len assms(2) by (metis length_0_conv min_def neq0_conv not_less)
    then show ?thesis
      using True assms len by (simp add: last_conv_nth thin_seconds_nth min_def)
  qed (simp add: thin_seconds_def)
qed


lemma scan_rows_ts: "scan_rows rows = Inr xs \<Longrightarrow> map sp_ts xs = map rw_ts rows"
proof (induction rows arbitrary: xs)
  case (Cons r rows)
  then obtain y ys where "scan_speed r = Inr y" "scan_rows rows = Inr ys" "xs = y # ys"
    by (auto simp: bind_result_def split: sum.splits)
  moreover from this have "sp_ts y = rw_ts r"
    by (auto simp: scan_speed_def Let_def split: marker.splits)
  ultimately show ?case using Cons.IH by simp
qed simp

text \<open>No read of measurements or of the runs table meets a row it cannot scan.\<close>

lemma scan_rows_ok: "\<forall>r \<in> set rows. \<forall>t. rw_failed r \<noteq> MText t \<Longrightarrow> \<exists>xs. scan_rows rows = Inr xs"
proof (induction rows)
  case (Cons r rows)
  then obtain xs where "scan_rows rows = Inr xs" by auto
  moreover obtain x where "scan_speed r = Inr x"
    using Cons.prems by (cases "rw_failed r") (auto simp: scan_speed_def Let_def)
  ultimately show ?case by simp
qed simp

lemma listed_scans: "speed_is_listed r \<Longrightarrow> rw_failed r \<noteq> MText t"
  by (auto simp: speed_is_listed_def speed_is_failure_def speed_not_failed_def int_marker_def)

lemma fold_first_per_second:
  fixes acc rows
  defines "res \<equiv> fold (\<lambda>r acc. if rw_ts r \<in> rw_ts ` set acc then acc else acc @ [r]) rows acc"
  shows "rw_ts ` set res = rw_ts ` set acc \<union> rw_ts ` set rows"
    and "distinct (map rw_ts acc) \<Longrightarrow> distinct (map rw_ts res)"
    and "sorted (map rw_ts (acc @ rows)) \<Longrightarrow> sorted (map rw_ts res)"
  unfolding res_def
  by (induction rows arbitrary: acc) (auto simp: sorted_append image_iff)

lemma sorted_remdups_adj_less: "sorted (xs :: int list) \<Longrightarrow> sorted_wrt (<) (remdups_adj xs)"
  by (induction xs rule: remdups_adj.induct) force+

lemma first_per_second_ts:
  assumes "sorted (map rw_ts rows)"
  shows "map rw_ts (first_per_second rows) = remdups_adj (map rw_ts rows)"
proof (rule sorted_distinct_set_unique)
  show "sorted (map rw_ts (first_per_second rows))" "distinct (map rw_ts (first_per_second rows))"
    "set (map rw_ts (first_per_second rows)) = set (remdups_adj (map rw_ts rows))"
    using fold_first_per_second[where acc = "[]" and rows = rows] assms
    by (simp_all add: first_per_second_def)
  show "sorted (remdups_adj (map rw_ts rows))" "distinct (remdups_adj (map rw_ts rows))"
    using assms sorted_remdups_adj_less[OF assms] by (simp_all add: strict_sorted_iff)
qed

lemma by_ts_sorted [simp]: "sorted (map rw_ts (by_ts rows))"
  by (simp add: by_ts_def)

lemma set_by_ts [simp]: "set (by_ts rows) = set rows"
  by (simp add: by_ts_def)

definition window_seconds :: "int \<Rightarrow> int \<Rightarrow> int option \<Rightarrow> speed_row list \<Rightarrow> int list" where
  "window_seconds now since until rows = remdups_adj (map rw_ts (by_ts
     (filter (\<lambda>r. speed_not_failed r \<and> speed_window now since until (rw_ts r)) rows)))"

lemma window_seconds_sorted: "sorted_wrt (<) (window_seconds now since until rows)"
  by (simp add: window_seconds_def sorted_remdups_adj_less)

lemma window_seconds_set:
  "set (window_seconds now since until rows) =
     rw_ts ` {r \<in> set rows. speed_not_failed r \<and> speed_window now since until (rw_ts r)}"
  by (auto simp: window_seconds_def)

text \<open>What the two passes deliver: exactly the kept seconds.\<close>

lemma speed_history_budget_secs:
  assumes "speed_history_budget now since until budget d = (Inr (out, n), d')"
  shows "n = int (length (window_seconds now since until (sd_rows d)))"
    and "map sp_ts out = (if window_seconds now since until (sd_rows d) = [] then []
       else thin_seconds (window_seconds now since until (sd_rows d)) (nat (max 1 budget)))"
proof -
  let ?ws = "window_seconds now since until (sd_rows d)" and ?b = "nat (max 1 budget)"
  have b: "nat (if budget < 1 then 1 else budget) = ?b" by (simp add: max_def)
  obtain secs d1 where 1: "sd_query (\<lambda>d. Inr (remdups_adj (map rw_ts (by_ts
        (filter (\<lambda>r. speed_not_failed r \<and> speed_window now since until (rw_ts r)) (sd_rows d)))))) d
        = (Inr secs, d1)"
    and 2: "(if secs = [] then ret ([], 0)
      else andthen (sd_query (\<lambda>d. scan_rows (first_per_second (by_ts
             (filter (\<lambda>r. speed_not_failed r \<and> rw_ts r \<in> set (thin_seconds secs ?b)) (sd_rows d))))))
           (\<lambda>out. ret (out, int (length secs)))) d1 = (Inr (out, n), d')"
    using assms unfolding speed_history_budget_def Let_def b andthen_Inr by auto
  obtain s where "secs = ?ws" "d1 = d\<lparr>sd_store := s\<rparr>"
    using sd_query_Inr[OF 1] by (auto simp: window_seconds_def)
  note * = 2[unfolded this]
  show "n = int (length ?ws)"
    using * by (auto simp: andthen_Inr split: if_splits)
  show "map sp_ts out = (if ?ws = [] then [] else thin_seconds ?ws ?b)"
  proof (cases "?ws = []")
    case False
    let ?rows = "by_ts (filter (\<lambda>r. speed_not_failed r \<and> rw_ts r \<in> set (thin_seconds ?ws ?b)) (sd_rows d))"
    have "0 < ?b" by simp
    note thin = thin_seconds_facts[OF window_seconds_sorted this False]
    have "map sp_ts out = map rw_ts (first_per_second ?rows)"
      using * False by (auto simp: andthen_Inr scan_rows_ts dest!: sd_query_Inr)
    also have "\<dots> = thin_seconds ?ws ?b"
    proof (rule sorted_distinct_set_unique)
      show "sorted (map rw_ts (first_per_second ?rows))" "distinct (map rw_ts (first_per_second ?rows))"
        using sorted_remdups_adj_less[of "map rw_ts ?rows"]
        by (simp_all add: first_per_second_ts strict_sorted_iff)
      show "sorted (thin_seconds ?ws ?b)" "distinct (thin_seconds ?ws ?b)"
        using thin(2) by (simp_all add: strict_sorted_iff)
      show "set (map rw_ts (first_per_second ?rows)) = set (thin_seconds ?ws ?b)"
        using subsetD[OF thin(3)] by (fastforce simp: first_per_second_ts window_seconds_set)
    qed
    finally show ?thesis using False by simp
  qed (use * in simp)
qed

section \<open>Sums\<close>

lemma sum_int64_exact:
  assumes "\<forall>x \<in> set xs. 0 \<le> x" and "0 \<le> acc" and "acc + sum_list xs \<le> 9223372036854775807"
  shows "sum_int64 acc xs = Inr (acc + sum_list xs)"
  using assms
proof (induction xs arbitrary: acc)
  case (Cons x xs)
  then have "0 \<le> sum_list xs" by (simp add: sum_list_nonneg)
  with Cons show ?case by (simp add: in_int64_def)
qed simp

definition clamped_row :: "speed_row \<Rightarrow> bool" where
  "clamped_row r \<longleftrightarrow>
     (\<forall>b \<in> set_option (rw_down_bytes r) \<union> set_option (rw_up_bytes r). 0 \<le> b \<and> b \<le> max_speed_bytes_per_run)"

lemma clamp_speed_bytes_bounds: "\<forall>b \<in> set_option (clamp_speed_bytes v). 0 \<le> b \<and> b \<le> max_speed_bytes_per_run"
  by (auto simp: clamp_speed_bytes_def max_speed_bytes_per_run_def split: option.splits)

lemma speed_row_of_clamped: "clamped_row (speed_row_of ts sp)"
  using clamp_speed_bytes_bounds by (auto simp: clamped_row_def speed_row_of_def)

lemma row_bytes_bounds: "clamped_row r \<Longrightarrow> 0 \<le> row_bytes r \<and> row_bytes r \<le> 2 * max_speed_bytes_per_run"
  by (auto simp: clamped_row_def row_bytes_def max_speed_bytes_per_run_def split: option.splits)

lemma usage_sum_exact:
  assumes "\<forall>r \<in> set rows. clamped_row r" and "length rows < 2 ^ 20"
  shows "sum_int64 0 (map row_bytes (filter P rows)) = Inr (sum_list (map row_bytes (filter P rows)))"
proof -
  have b: "0 \<le> row_bytes r \<and> row_bytes r \<le> 2 ^ 43" if "r \<in> set rows" for r
    using row_bytes_bounds[of r] assms(1) that by (simp add: max_speed_bytes_per_run_def)
  have "sum_list (map row_bytes (filter P rows)) \<le> int (length (filter P rows)) * 2 ^ 43"
    using sum_list_mono[of "filter P rows" row_bytes "\<lambda>_. 2 ^ 43"] b
    by (simp add: sum_list_triv)
  also have "\<dots> \<le> int (length rows) * 2 ^ 43"
    by (intro mult_right_mono) auto
  also have "\<dots> \<le> 9223372036854775807"
    using assms(2) by simp
  finally show ?thesis
    using sum_int64_exact[of "map row_bytes (filter P rows)" 0] b by auto
qed

section \<open>Deletes\<close>

lemma remove_first_distinct:
  "distinct (map f xs) \<Longrightarrow> (\<And>x. x \<in> set xs \<Longrightarrow> P x \<Longrightarrow> f x = k) \<Longrightarrow>
   remove_first P xs = filter (\<lambda>x. \<not> P x) xs"
proof (induction xs)
  case (Cons a xs)
  show ?case
  proof (cases "P a")
    case True
    have "\<not> P x" if "x \<in> set xs" for x
    proof
      assume "P x"
      then have "f x = f a" using Cons.prems(2)[of x] Cons.prems(2)[of a] True that by simp
      then show False using Cons.prems(1) that by (auto simp: image_iff)
    qed
    then show ?thesis using True by (auto intro!: filter_True[symmetric])
  qed (use Cons in auto)
qed simp

lemma delete_named_distinct:
  assumes "distinct (map rw_ts rows)"
  shows "delete_named ts rows =
    filter (\<lambda>r. \<not> (rw_ts r = ts \<and> (rw_usage_run r = None \<or> rw_usage_run r = Some ts))) rows"
proof -
  have one: "r = q" if "r \<in> set rows" "q \<in> set rows" "rw_ts r = ts" "rw_ts q = ts" for r q
    using assms that by (auto simp: distinct_map dest: inj_onD)
  have rf: "remove_first P rows = filter (\<lambda>x. \<not> P x) rows" if "\<And>x. P x \<Longrightarrow> rw_ts x = ts" for P
    using remove_first_distinct[OF assms, of P ts] that by simp
  show ?thesis
  proof (cases "list_ex (\<lambda>r. rw_ts r = ts \<and> rw_usage_run r = None) rows")
    case True
    then obtain r where "r \<in> set rows" "rw_ts r = ts" "rw_usage_run r = None"
      by (auto simp: list_ex_iff)
    then have "rw_usage_run q = None" if "q \<in> set rows" "rw_ts q = ts" for q
      using one[of r q] that by simp
    moreover have "delete_named ts rows = filter (\<lambda>r. \<not> (rw_ts r = ts \<and> rw_usage_run r = None)) rows"
      using True rf[of "\<lambda>r. rw_ts r = ts \<and> rw_usage_run r = None"] by (simp add: delete_named_def)
    ultimately show ?thesis by (auto intro!: filter_cong)
  next
    case False
    then have "delete_named ts rows = filter (\<lambda>r. \<not> (rw_ts r = ts \<and> rw_usage_run r = Some ts)) rows"
      using rf[of "\<lambda>r. rw_ts r = ts \<and> rw_usage_run r = Some ts"] by (simp add: delete_named_def)
    then show ?thesis using False by (auto simp: list_ex_iff intro!: filter_cong)
  qed
qed

lemma delete_speed_quiet:
  "faults (sd_store d) = [] \<Longrightarrow> delete_speed ts d =
     (Inr (fst (delete_speed_rows ts (sd_rows d))),
      d\<lparr>sd_rows := snd (delete_speed_rows ts (sd_rows d)),
        sd_servers := filter (\<lambda>v. sv_run v \<noteq> ts) (sd_servers d)\<rparr>)"
  by (simp add: delete_speed_def sd_exec_quiet split_beta)

end
