(* ===== verification/SettingsTable.thy ===== *)
theory SettingsTable
  imports Store
begin

text \<open>
  The key-value table \<open>settings\<close> of \<open>internal/store/store.go\<close>: the read of all rows and the one
  transaction every settings write is.
\<close>

definition all_settings :: "(store, db_error, string \<rightharpoonup> string) call" where
  "all_settings = query t_settings"

text \<open>\<open>SetSettingsDiff\<close>: the old values are read first, then one write transaction; the answer is
  the keys whose value changed.  Opening the transaction may fail uncounted, a row or the
  commit counts.\<close>

definition set_settings_diff :: "(string \<times> string) list \<Rightarrow> (store, db_error, string list) call" where
  "set_settings_diff kv s =
     (if kv = [] then (Inr [], s)
      else case all_settings s of
        (Inl e, s) \<Rightarrow> (Inl e, s)
      | (Inr old, s) \<Rightarrow> (case db_exec s of
          (Some e, s) \<Rightarrow> (Inl e, s)
        | (None, s) \<Rightarrow> (case db_exec s of
            (Some e, s) \<Rightarrow> (Inl e, record_db_err (Some e) s)
          | (None, s) \<Rightarrow>
              (Inr (map fst (filter (\<lambda>(k, v). old k \<noteq> Some v) kv)),
               s\<lparr>t_settings := t_settings s ++ map_of kv\<rparr>))))"

definition set_setting :: "string \<Rightarrow> string \<Rightarrow> store \<Rightarrow> db_error option \<times> store" where
  "set_setting k v s = (case set_settings_diff [(k, v)] s of
     (Inl e, s) \<Rightarrow> (Some e, s) | (Inr _, s) \<Rightarrow> (None, s))"

end
