(* ===== verification/Digest.thy ===== *)
theory Digest
  imports SpeedTable SettingsTable
begin

text \<open>
  The periodic summary (\<open>internal/digest/digest.go\<close>): when a digest is due and which window it
  covers (\<open>tick\<close>), the figures of a window (\<open>Summarize\<close>), and the text and fields made of
  them.

  The webhook is a parameter: whether one is configured, and what a delivery answers.  The
  clock is read twice in a tick (by \<open>tick\<close> and by \<open>lastSent\<close>), so both readings are inputs.
  Texts are UTF-8 byte strings.
\<close>

section \<open>Summaries\<close>

definition key_last_sent :: string where "key_last_sent = ''digest_last_sent''"
definition digest_check_interval :: duration where "digest_check_interval = 30 * minute"
definition disclose_floor :: duration where "disclose_floor = minute"

definition digest_period :: "string \<Rightarrow> duration" where
  "digest_period freq =
     (if freq = ''daily'' then 24 * hour else if freq = ''weekly'' then 7 * 24 * hour else 0)"

record summary =
  sm_since :: gtime
  sm_until :: gtime
  sm_window :: duration
  sm_obs :: observation
  sm_runs :: nat
  sm_med_down :: "rat option"
  sm_med_up :: "rat option"
  sm_med_ping :: "rat option"
  sm_outages :: int
  sm_downtime :: int

definition gt_zero :: "gfloat \<Rightarrow> bool" where
  "gt_zero f = (case f of Finite q \<Rightarrow> q > 0 | NotANumber \<Rightarrow> False | Infinite pos \<Rightarrow> pos)"

definition median_by :: "speed_sample list \<Rightarrow> (speed_sample \<Rightarrow> gfloat \<times> bool) \<Rightarrow> rat option" where
  "median_by runs pick =
     (let vals = List.map_filter (\<lambda>r. case pick r of
                   (Finite q, True) \<Rightarrow> Some q | _ \<Rightarrow> None) runs
      in if vals = [] then None else Some (middle vals))"

definition positive_pick :: "(speed_sample \<Rightarrow> gfloat) \<Rightarrow> speed_sample \<Rightarrow> gfloat \<times> bool" where
  "positive_pick f r = (f r, gt_zero (f r))"

definition on_store :: "(store, db_error, 'a) call \<Rightarrow> (speed_db, db_error, 'a) call" where
  "on_store m d = (case m (sd_store d) of (r, s) \<Rightarrow> (r, d\<lparr>sd_store := s\<rparr>))"

text \<open>The window given to \<open>ResolvedOutagesSince\<close>, clamped to the retention floor.\<close>

definition outage_since :: "duration \<Rightarrow> gtime \<Rightarrow> gtime \<Rightarrow> gtime" where
  "outage_since retention now since =
     (if retention > 0
      then let floor = t_add now (- retention) in if t_after floor since then floor else since
      else since)"

definition summarize :: "world \<Rightarrow> duration \<Rightarrow> gtime \<Rightarrow> gtime \<Rightarrow> (speed_db, db_error, summary) call" where
  "summarize w retention since now =
     andthen (on_store (uptime_since w (t_unix since) retention)) (\<lambda>obs.
     andthen (speed_history (w_now w) (t_unix since)) (\<lambda>runs.
     andthen (on_store (resolved_outages_since w (t_unix (outage_since retention now since))))
       (\<lambda>(outages, down).
     ret \<lparr>sm_since = since, sm_until = now, sm_window = t_sub now since, sm_obs = obs,
          sm_runs = length runs, sm_med_down = median_by runs (positive_pick sp_down),
          sm_med_up = median_by runs (positive_pick sp_up),
          sm_med_ping = median_by runs (positive_pick sp_ping),
          sm_outages = outages, sm_downtime = down\<rparr>)))"

section \<open>The text\<close>

definition round_half_even :: "rat \<Rightarrow> int" where
  "round_half_even q = (let f = \<lfloor>q\<rfloor>; r = q - of_int f in
     if r < 1/2 then f else if r > 1/2 then f + 1 else if even f then f else f + 1)"

text \<open>\<open>%.pf\<close> of a non-negative number: rounded to nearest, ties to even.\<close>

definition pad_left :: "nat \<Rightarrow> string \<Rightarrow> string" where
  "pad_left n s = replicate (n - length s) (CHR ''0'') @ s"

definition fmt_fixed :: "nat \<Rightarrow> rat \<Rightarrow> string" where
  "fmt_fixed p q =
     (let n = round_half_even (abs q * 10 ^ p); k = nat n
      in (if q < 0 then ''-'' else []) @ nat_text (k div 10 ^ p) @
         (if p = 0 then [] else ''.'' @ pad_left p (nat_text (k mod 10 ^ p))))"

definition fmt_med :: "rat option \<Rightarrow> nat \<Rightarrow> string" where
  "fmt_med v p = (case v of None \<Rightarrow> ''-'' | Some q \<Rightarrow> fmt_fixed p q)"

definition plural :: "int \<Rightarrow> string" where
  "plural n = (if n = 1 then [] else ''s'')"

definition human_dur :: "int \<Rightarrow> string" where
  "human_dur s0 = (let s = (if s0 < 0 then 0 else s0) in
     if s < 60 then int_text s @ ''s''
     else if s < 3600 then int_text (s div 60) @ ''m '' @ int_text (s mod 60) @ ''s''
     else int_text (s div 3600) @ ''h '' @ int_text (s mod 3600 div 60) @ ''m'')"

definition human_window :: "duration \<Rightarrow> string" where
  "human_window d0 = (let d = (if d0 < 0 then 0 else d0);
       days = d div (24 * hour); hours = d mod (24 * hour) div hour;
       mins = d mod hour div minute; secs = d mod minute div second in
     if days > 0 \<and> hours > 0 then int_text days @ ''d '' @ int_text hours @ ''h''
     else if days > 0 then int_text days @ ''d''
     else if hours > 0 \<and> mins > 0 then int_text hours @ ''h '' @ int_text mins @ ''m''
     else if hours > 0 then int_text hours @ ''h''
     else if mins > 0 then int_text mins @ ''m''
     else int_text secs @ ''s'')"

definition observed_line :: "summary \<Rightarrow> string" where
  "observed_line s =
     (if sm_window s - ob_observed (sm_obs s) < disclose_floor then []
      else if \<not> ob_defined (sm_obs s)
      then ''observed none of '' @ human_window (sm_window s) @
           '' - monitoring was off for the whole period, so there is no uptime figure for it''
      else ''observed '' @ human_window (ob_observed (sm_obs s)) @ '' of '' @ human_window (sm_window s) @
           '' - the rest was not monitored (scheduled off, paused, asleep, or past retention); '' @
           ''the figures above describe what was observed'')"

definition mid_dot :: string where "mid_dot = [CHR 0x20, CHR 0xC2, CHR 0xB7, CHR 0x20]"
definition arrow_down :: string where "arrow_down = [CHR 0xE2, CHR 0x86, CHR 0x93]"
definition arrow_up :: string where "arrow_up = [CHR 0xE2, CHR 0x86, CHR 0x91]"
definition chart_mark :: string where "chart_mark = [CHR 0xF0, CHR 0x9F, CHR 0x93, CHR 0x8A]"
definition line_feed :: string where "line_feed = [CHR 0x0A]"

definition uptime_pct :: "summary \<Rightarrow> rat" where
  "uptime_pct s = ob_ratio (sm_obs s) * 100"

definition message :: "summary \<Rightarrow> string" where
  "message s =
     (let speed = (if sm_runs s > 0
            then ''median '' @ arrow_down @ '' '' @ fmt_med (sm_med_down s) 1 @ '' Mbps'' @ mid_dot @
                 arrow_up @ '' '' @ fmt_med (sm_med_up s) 1 @ '' Mbps'' @ mid_dot @
                 fmt_med (sm_med_ping s) 0 @ '' ms ping ('' @ nat_text (sm_runs s) @ '' test'' @
                 plural (int (sm_runs s)) @ '')''
            else ''no speedtests'');
          outages = (if sm_outages s > 0
            then int_text (sm_outages s) @ '' outage'' @ plural (sm_outages s) @ mid_dot @
                 human_dur (sm_downtime s) @ '' down''
            else ''no outages recorded'');
          uptime = (if ob_defined (sm_obs s) then ''Uptime '' @ fmt_fixed 2 (uptime_pct s) @ ''%''
                    else ''Uptime not measured'');
          first = [chart_mark @ '' Pingularity summary'' @ mid_dot @ ''last '' @ human_window (sm_window s),
                   uptime @ mid_dot @ outages];
          obs = observed_line s;
          rows = (if obs \<noteq> [] then first @ [obs] else first)
      in concat (map (\<lambda>l. l @ line_feed) rows) @ speed)"

definition round_away :: "rat \<Rightarrow> int" where
  "round_away q = (if q < 0 then - \<lfloor>- q + 1/2\<rfloor> else \<lfloor>q + 1/2\<rfloor>)"

definition round1 :: "rat \<Rightarrow> rat" where "round1 f = of_int (round_away (f * 10)) / 10"
definition round2 :: "rat \<Rightarrow> rat" where "round2 f = of_int (round_away (f * 100)) / 100"

datatype field = FText string | FInt int | FNum rat

definition opt_field :: "string \<Rightarrow> rat option \<Rightarrow> (string \<rightharpoonup> field) \<Rightarrow> (string \<rightharpoonup> field)" where
  "opt_field k v m = (case v of None \<Rightarrow> m | Some q \<Rightarrow> m(k \<mapsto> FNum (round1 q)))"

definition fields_of :: "summary \<Rightarrow> (string \<rightharpoonup> field)" where
  "fields_of s =
     (let f = [''event'' \<mapsto> FText ''digest'', ''window_s'' \<mapsto> FInt (dur_secs (sm_window s)),
               ''outages'' \<mapsto> FInt (sm_outages s), ''downtime_s'' \<mapsto> FInt (sm_downtime s),
               ''speed_runs'' \<mapsto> FInt (int (sm_runs s)),
               ''observed_s'' \<mapsto> FInt (dur_secs (ob_observed (sm_obs s)))];
          f = (if ob_defined (sm_obs s) then f(''uptime_pct'' \<mapsto> FNum (round2 (uptime_pct s))) else f);
          f = opt_field ''median_down_mbps'' (sm_med_down s) f;
          f = opt_field ''median_up_mbps'' (sm_med_up s) f
      in opt_field ''median_ping_ms'' (sm_med_ping s) f)"

section \<open>The tick\<close>

record digest =
  dg_pending :: gtime    \<comment> \<open>\<open>pendingSince\<close>; the zero time when nothing is pending\<close>
  dg_mem :: gtime        \<comment> \<open>\<open>lastSentMem\<close>\<close>

record tick_in =
  ti_freq :: string
  ti_configured :: bool
  ti_now :: gtime
  ti_now2 :: gtime       \<comment> \<open>the reading \<open>lastSent\<close> takes\<close>
  ti_world :: world
  ti_retention :: duration
  ti_delivery :: "string option"  \<comment> \<open>the error the webhook answers\<close>

definition last_sent :: "gtime \<Rightarrow> (store, db_error, gtime) call" where
  "last_sent now = andthen all_settings (\<lambda>m. ret
     (case m key_last_sent of
        None \<Rightarrow> zero_time
      | Some txt \<Rightarrow> (case parse_int txt of
          None \<Rightarrow> zero_time
        | Some n \<Rightarrow> if n \<le> 0 then zero_time
                   else let t = time_unix n in if t_after t now then zero_time else t)))"

definition set_last_sent :: "gtime \<Rightarrow> store \<Rightarrow> store" where
  "set_last_sent t s = snd (set_setting key_last_sent (int_text (t_unix t)) s)"

definition send_digest :: "tick_in \<Rightarrow> gtime \<Rightarrow> speed_db \<Rightarrow> summary option \<times> speed_db" where
  "send_digest i since d =
     (case summarize (ti_world i) (ti_retention i) since (ti_now i) d of
        (Inl e, d) \<Rightarrow> (None, d)
      | (Inr s, d) \<Rightarrow> ((case ti_delivery i of None \<Rightarrow> Some s | Some _ \<Rightarrow> None), d))"

text \<open>From a due watermark on: which window is sent, and what a delivery or its failure leaves.\<close>

definition send_due :: "tick_in \<Rightarrow> duration \<Rightarrow> gtime \<Rightarrow> digest \<Rightarrow> speed_db \<Rightarrow>
    summary option \<times> digest \<times> speed_db" where
  "send_due i p since0 g d =
     (let fresh = t_is_zero (dg_pending g);
          since = (if fresh then
                     (if t_sub (ti_now i) since0 > p + digest_check_interval
                      then t_add (ti_now i) (- p) else since0)
                   else dg_pending g);
          g = (if fresh then g\<lparr>dg_pending := since\<rparr> else g)
      in case send_digest i since d of
           (None, d) \<Rightarrow> (None, g, d)
         | (Some s, d) \<Rightarrow>
             (Some s, g\<lparr>dg_mem := ti_now i, dg_pending := zero_time\<rparr>,
              d\<lparr>sd_store := set_last_sent (ti_now i) (sd_store d)\<rparr>))"

text \<open>A tick answers the summary it delivered, if it delivered one.\<close>

definition digest_tick :: "tick_in \<Rightarrow> digest \<times> speed_db \<Rightarrow> summary option \<times> digest \<times> speed_db" where
  "digest_tick i = (\<lambda>(g, d).
     let p = digest_period (ti_freq i) in
     if p \<le> 0 then (None, g\<lparr>dg_pending := zero_time\<rparr>, d)
     else if \<not> ti_configured i then (None, g\<lparr>dg_pending := zero_time\<rparr>, d)
     else
       let now = ti_now i;
           g = (if t_after (dg_mem g) now then g\<lparr>dg_mem := zero_time\<rparr> else g);
           g = (if t_after (dg_pending g) now then g\<lparr>dg_pending := zero_time\<rparr> else g)
       in (case on_store (last_sent (ti_now2 i)) d of
             (Inl e, d) \<Rightarrow>
               if t_is_zero (dg_mem g) then (None, g, d)
               else if t_sub now (dg_mem g) < p then (None, g, d)
               else send_due i p (dg_mem g) g d
           | (Inr stored, d) \<Rightarrow>
               let mark = (if t_after (dg_mem g) stored then dg_mem g else stored) in
               if t_is_zero mark
               then (None, g\<lparr>dg_mem := now\<rparr>, d\<lparr>sd_store := set_last_sent now (sd_store d)\<rparr>)
               else if t_sub now mark < p then (None, g, d)
               else send_due i p mark g d))"

fun digest_run :: "tick_in list \<Rightarrow> digest \<times> speed_db \<Rightarrow> summary list \<times> digest \<times> speed_db" where
  "digest_run [] s = ([], s)"
| "digest_run (i # is) s = (case digest_tick i s of
     (out, s) \<Rightarrow> (case digest_run is s of
       (outs, s) \<Rightarrow> ((case out of None \<Rightarrow> outs | Some m \<Rightarrow> m # outs), s)))"

end
