(* ===== verification/CallFrames.thy ===== *)
theory CallFrames
  imports Uptime StoreFacts
begin

text \<open>
  What the reads of the uptime figures leave alone.  A read saves the held rounds first, takes
  outcomes from the environment, moves the recovery memo and may write the monitoring anchor;
  the interface \<open>read_frame\<close> says that a part of the store is none of these, and every call
  then keeps it.
\<close>

definition keeps :: "('s \<Rightarrow> 'v) \<Rightarrow> ('s, 'e, 'a) call \<Rightarrow> bool" where
  "keeps f m \<longleftrightarrow> (\<forall>s. f (snd (m s)) = f s)"

lemma keeps_ret [intro]: "keeps f (ret x)"
  by (simp add: keeps_def)

lemma keeps_andthen [intro]: "keeps f m \<Longrightarrow> (\<And>x. keeps f (g x)) \<Longrightarrow> keeps f (andthen m g)"
  unfolding keeps_def andthen_def by (auto split: prod.splits sum.splits) (metis snd_conv)+

lemma keepsD: "keeps f m \<Longrightarrow> m s = (r, s') \<Longrightarrow> f s' = f s"
  by (metis keeps_def snd_conv)

locale read_frame =
  fixes part :: "store \<Rightarrow> 'v"
  assumes save: "part (snd (save_buffered reason en s)) = part s"
    and exec: "part (snd (db_exec s)) = part s"
    and counted: "part (record_db_err e s) = part s"
    and memo: "part (s\<lparr>rec_cache := c\<rparr>) = part s"
    and anchor: "part (s\<lparr>t_settings := (t_settings s)(first_seen_key \<mapsto> v)\<rparr>) = part s"
begin

lemma query_keeps [intro]: "keeps part (query f)"
  using exec by (auto simp: keeps_def query_def split: prod.splits option.splits) (metis snd_conv)+

lemma save_keeps_part [intro]: "keeps part (save_for_read w)"
  by (simp add: keeps_def save_for_read_def save)

lemma publish_keeps: "part (publish gen after m b s) = part s"
  by (simp add: publish_def memo Let_def)

lemma rec_scan_keeps: "keeps part (rec_scan gen after before front lo k)"
proof -
  have "part (snd (rec_scan gen after before front lo k s)) = part s" for s
  proof (induction gen after before front lo k s rule: rec_scan.induct)
    case (1 gen after before front lo k s)
    obtain r s1 where q: "query (\<lambda>s. first_up (t_samples s) lo (min before (lo + 3600 * 2 ^ k))) s = (r, s1)"
      by (metis surj_pair)
    then have "part s1 = part s" using keepsD[OF query_keeps q] by simp
    then show ?case
      using 1 q by (subst rec_scan.simps)
        (auto simp: Let_def publish_keeps split: sum.splits option.splits)
  qed
  then show ?thesis by (simp add: keeps_def)
qed

lemma recovery_keeps [intro]: "keeps part (first_quorum_recovery w a b)"
  unfolding first_quorum_recovery_def
proof (rule keeps_andthen)
  show "keeps part (\<lambda>s. let (front, r) = memo_of s a in
      if r \<noteq> 0 then (Inr (if r \<le> b then Some r else None), s)
      else rec_scan (rec_gen s) a b front (if front > a then front else a) 0 s)" for x :: unit
    using rec_scan_keeps by (auto simp: keeps_def Let_def split: prod.splits)
qed auto

lemma newest_sample_keeps [intro]: "keeps part (newest_sample_at w now)"
  unfolding newest_sample_at_def by auto

lemma pauses_keeps [intro]: "keeps part (pause_spans a b)" "keeps part (paused_overlap a b)"
  unfolding pause_spans_def paused_overlap_def by auto

lemma outages_keeps [intro]: "keeps part (completed_outages_since a b)" "keeps part (pause_union_for outs a b)"
  unfolding completed_outages_since_def pause_union_for_def by auto

lemma gap_loop_keeps [intro]: "keeps part (gap_loop w since now gs acc)"
proof (induction gs arbitrary: acc)
  case (Cons g gs)
  then show ?case by (cases g; cases acc) (auto simp: Let_def intro!: keeps_andthen)
qed auto

lemma orphan_keeps [intro]: "keeps part (orphan_gap_downtime w since now)"
  unfolding orphan_gap_downtime_def by auto

lemma open_end_keeps [intro]: "keeps part (open_outage_end w t now)"
  unfolding open_outage_end_def by (auto intro!: keeps_andthen split: option.split)

lemma open_downtime_keeps [intro]: "keeps part (open_downtime w since now away e)"
  unfolding open_downtime_def by (auto intro!: keeps_andthen simp: Let_def split: option.split)

lemma trailing_keeps [intro]: "keeps part (trailing_resolved w since now e)"
  unfolding trailing_resolved_def by (auto intro!: keeps_andthen simp: Let_def split: option.split)

lemma remember_keeps: "part (remember_anchor a s) = part s"
  using exec[of s] by (auto simp: remember_anchor_def anchor counted split: prod.splits option.splits)

lemma anchor_keeps [intro]: "keeps part (monitoring_since w now)"
  unfolding monitoring_since_def
proof (intro keeps_andthen)
  fix first :: "int option" and v :: "string option"
  show "keeps part (\<lambda>s.
       let anchor = (case first of Some t \<Rightarrow> if t < now then t else now | None \<Rightarrow> now);
           stored = (case v of None \<Rightarrow> 0
             | Some txt \<Rightarrow> (case parse_int txt of None \<Rightarrow> 0
                 | Some n \<Rightarrow> if n \<ge> plausible_epoch \<and> n \<le> now then n else 0));
           anchor = (if stored \<noteq> 0 \<and> stored < anchor then stored else anchor);
           s = (if anchor \<ge> plausible_epoch \<and> anchor < now \<and> (stored = 0 \<or> anchor < stored)
                then remember_anchor anchor s else s)
       in (Inr anchor, s))"
    by (simp add: keeps_def Let_def remember_keeps)
qed auto

lemma uptime_keeps [intro]: "keeps part (uptime_since w since retention)"
  unfolding uptime_since_def by (auto simp: Let_def intro!: keeps_andthen split: prod.split)

lemma resolved_keeps [intro]: "keeps part (resolved_outages_since w since)"
  unfolding resolved_outages_since_def by (auto simp: Let_def intro!: keeps_andthen split: prod.split)

end

text \<open>The tables the figures are read from, and every setting but the anchor.\<close>

lemma save_keeps_settings: "t_settings (snd (save_buffered reason en (s :: store))) = t_settings s"
  using record_save[of reason en s] by (simp add: record_of_def)

interpretation outage_rows: read_frame "\<lambda>s. (t_events s, t_pauses s)"
  by unfold_locales (simp_all add: record_db_err_frame)

interpretation other_setting: read_frame "\<lambda>s. (t_settings s)(first_seen_key := None)"
  by unfold_locales (simp_all add: save_keeps_settings)

end
