(* ===== verification/DigestFacts.thy ===== *)
theory DigestFacts
  imports Digest SpeedFacts CallFrames
begin

text \<open>
  Facts about the digest: the delivered windows follow each other without a gap or an overlap,
  the median of a list, and the span texts.
\<close>

section \<open>Medians\<close>

lemma length_filter_sort: "length (filter P (sort xs)) = length (filter P xs)"
  by (simp add: filter_sort)

lemma filter_at_least:
  assumes "\<And>i. i \<in> I \<Longrightarrow> i < length xs \<and> P (xs ! i)"
  shows "card I \<le> length (filter P xs)"
proof -
  have "I \<subseteq> {i. i < length xs \<and> P (xs ! i)}" using assms by auto
  then show ?thesis
    unfolding length_filter_conv_card by (intro card_mono) auto
qed

lemma middle_median:
  assumes "xs \<noteq> []"
  shows "length xs \<le> 2 * length (filter (\<lambda>x. x \<le> middle xs) xs)"
    and "length xs \<le> 2 * length (filter (\<lambda>x. middle xs \<le> x) xs)"
proof -
  let ?s = "sort xs" and ?n = "length xs" and ?k = "length xs div 2"
  have mono: "?s ! i \<le> ?s ! j" if "i \<le> j" "j < ?n" for i j
    using that by (intro sorted_nth_mono) auto
  have k: "?k < ?n" using assms by (cases xs) auto
  have lo: "?s ! i \<le> middle xs" if "i < ?n - ?k" for i
  proof (cases "odd ?n")
    case True
    then have "i \<le> ?k" using that by presburger
    then show ?thesis using True mono[of i ?k] k by (simp add: middle_def Let_def)
  next
    case False
    then have "i \<le> ?k - 1" "?k - 1 \<le> ?k" using that k by presburger+
    then have "?s ! i \<le> ?s ! (?k - 1)" "?s ! (?k - 1) \<le> ?s ! ?k" using mono k by auto
    then show ?thesis using False by (simp add: middle_def Let_def)
  qed
  have hi: "middle xs \<le> ?s ! i" if "?k \<le> i" "i < ?n" for i
  proof (cases "odd ?n")
    case True
    then show ?thesis using mono[of ?k i] that by (simp add: middle_def Let_def)
  next
    case False
    have "?s ! (?k - 1) \<le> ?s ! ?k" "?s ! ?k \<le> ?s ! i" using mono that k by auto
    then show ?thesis using False by (simp add: middle_def Let_def)
  qed
  have "card {..< ?n - ?k} \<le> length (filter (\<lambda>x. x \<le> middle xs) ?s)"
    by (rule filter_at_least) (use lo in auto)
  then show "?n \<le> 2 * length (filter (\<lambda>x. x \<le> middle xs) xs)"
    by (simp add: length_filter_sort)
  have "card {?k ..< ?n} \<le> length (filter (\<lambda>x. middle xs \<le> x) ?s)"
    by (rule filter_at_least) (use hi in auto)
  then show "?n \<le> 2 * length (filter (\<lambda>x. middle xs \<le> x) xs)"
    by (simp add: length_filter_sort)
qed

section \<open>Span texts\<close>

lemma nat_text_inj: "nat_text m = nat_text n \<Longrightarrow> m = n"
  by (metis parse_nat_text option.inject)

lemma nat_text_zero: "nat_text 0 = ''0''"
  by code_simp

lemma human_window_zero: "human_window d = ''0s'' \<longleftrightarrow> d < second"
proof (cases "d < minute")
  case True
  let ?s = "(if d < 0 then 0 else d) div second"
  have "human_window d = int_text ?s @ ''s''"
    using True by (auto simp: human_window_def Let_def)
  moreover have "int_text ?s = ''0'' \<longleftrightarrow> ?s = 0"
    using nat_text_inj[of "nat ?s" 0] nat_text_zero by (auto simp: int_text_def)
  moreover have "?s = 0 \<longleftrightarrow> d < second"
    using pos_imp_zdiv_nonneg_iff[of second d] zdiv_eq_0_iff[of d second] by auto
  ultimately show ?thesis by simp
next
  case False
  have unit: "d div (24 * hour) > 0 \<or> d mod (24 * hour) div hour > 0 \<or> d mod hour div minute > 0"
  proof (cases "d < hour")
    case True
    then show ?thesis using False by (simp add: pos_imp_zdiv_pos_iff)
  next
    case large: False
    then show ?thesis by (cases "d < 24 * hour") (simp_all add: pos_imp_zdiv_pos_iff)
  qed
  have "last (human_window d) = CHR ''h'' \<or> last (human_window d) = CHR ''d'' \<or>
    last (human_window d) = CHR ''m''"
    using False unit by (simp add: human_window_def Let_def)
  then have "human_window d \<noteq> ''0s''" by auto
  then show ?thesis using False by simp
qed

section \<open>The windows of a run\<close>

text \<open>No clock step: every reading of the run keeps one offset between wall and monotonic.\<close>

definition steady :: "int \<Rightarrow> gtime \<Rightarrow> bool" where
  "steady k t \<longleftrightarrow> (case mono_ns t of None \<Rightarrow> True | Some m \<Rightarrow> m = wall_ns t + k)"

lemma steady_diff: "steady k a \<Longrightarrow> steady k b \<Longrightarrow> t_diff a b = wall_ns a - wall_ns b"
  by (auto simp: steady_def t_diff_def split: option.splits)

lemma steady_simps [simp]: "steady k zero_time" "steady k (time_unix n)"
  by (simp_all add: steady_def zero_time_def time_unix_def)

fun tiles :: "int \<Rightarrow> (int \<times> int) list \<Rightarrow> bool" where
  "tiles t [] = True"
| "tiles t ((a, b) # ws) = (a = t \<and> a < b \<and> tiles b ws)"

definition window_of :: "summary \<Rightarrow> int \<times> int" where
  "window_of s = (wall_ns (sm_since s), wall_ns (sm_until s))"

text \<open>The persisted watermark, when it is readable, is no newer than the one in memory.\<close>

definition stored_behind :: "int \<Rightarrow> store \<Rightarrow> bool" where
  "stored_behind l s = (case t_settings s key_last_sent of None \<Rightarrow> True
     | Some txt \<Rightarrow> (case parse_int txt of None \<Rightarrow> True | Some n \<Rightarrow> n * 1000000000 \<le> l))"

text \<open>Between two ticks: the last delivery ended at \<open>l\<close>, the newest tick was at \<open>t\<close>.\<close>

definition armed :: "int \<Rightarrow> duration \<Rightarrow> int \<Rightarrow> int \<Rightarrow> digest \<Rightarrow> store \<Rightarrow> bool" where
  "armed k p l t g s \<longleftrightarrow>
     wall_ns (dg_mem g) = l \<and> steady k (dg_mem g) \<and> 0 < l \<and> l \<le> t \<and>
     stored_behind l s \<and>
     (if t_is_zero (dg_pending g) then t - l < p else wall_ns (dg_pending g) = l \<and> steady k (dg_pending g))"


text \<open>The clock readings of a run: strictly rising, never more than one poll apart.\<close>

fun polled :: "int \<Rightarrow> int \<Rightarrow> duration \<Rightarrow> tick_in list \<Rightarrow> bool" where
  "polled k t p [] = True"
| "polled k t p (i # is) =
     (steady k (ti_now i) \<and> steady k (ti_now2 i) \<and> t < wall_ns (ti_now i) \<and>
      wall_ns (ti_now i) - t \<le> digest_check_interval \<and> in_int64 (wall_ns (ti_now i)) \<and>
      digest_period (ti_freq i) = p \<and> ti_configured i \<and> polled k (wall_ns (ti_now i)) p is)"

lemma digest_period_cases: "digest_period f = p \<Longrightarrow> 0 < p \<Longrightarrow> p = 24 * hour \<or> p = 7 * 24 * hour"
  by (auto simp: digest_period_def split: if_splits)

lemma t_sub_le_iff:
  "t_diff a b = d \<Longrightarrow> \<bar>c\<bar> < 9223372036854775807 \<Longrightarrow> (t_sub a b < c \<longleftrightarrow> d < c) \<and> (t_sub a b > c \<longleftrightarrow> d > c)"
  by (auto simp: t_sub_def sat64_def)

lemma stored_behind_later: "stored_behind l s \<Longrightarrow> l \<le> l' \<Longrightarrow> stored_behind l' s"
  by (auto simp: stored_behind_def split: option.splits)

text \<open>What a tick does to the settings: nothing, except that a delivery may write the watermark.\<close>

lemma last_sent_keeps: "last_sent now s = (r, s') \<Longrightarrow> t_settings s' = t_settings s"
  by (auto simp: last_sent_def all_settings_def andthen_def query_def db_exec_def
      split: prod.splits sum.splits option.splits list.splits)

lemma set_last_sent_settings:
  "t_settings (set_last_sent t s) = t_settings s \<or>
   t_settings (set_last_sent t s) = (t_settings s)(key_last_sent \<mapsto> int_text (t_unix t))"
  by (auto simp: set_last_sent_def set_setting_def set_settings_diff_def all_settings_def query_def
      db_exec_def split: prod.splits sum.splits option.splits list.splits)

lemma db_exec_settings: "db_exec s = (e, s') \<Longrightarrow> t_settings s' = t_settings s"
  by (metis db_exec_frame(5) snd_conv)

lemma all_settings_value: "all_settings s = (Inr m, s') \<Longrightarrow> m = t_settings s"
  by (auto simp: db_exec_settings all_settings_def query_def split: prod.splits option.splits)

lemma last_sent_value:
  assumes "last_sent now s = (Inr stored, s')"
  shows "stored = zero_time \<or> (\<exists>txt n. t_settings s key_last_sent = Some txt \<and>
    parse_int txt = Some n \<and> stored = time_unix n)"
proof -
  obtain m s1 where "all_settings s = (Inr m, s1)"
    and v: "ret (case m key_last_sent of
        None \<Rightarrow> zero_time
      | Some txt \<Rightarrow> (case parse_int txt of
          None \<Rightarrow> zero_time
        | Some n \<Rightarrow> if n \<le> 0 then zero_time
                   else let t = time_unix n in if t_after t now then zero_time else t)) s1 =
        (Inr stored :: db_error + gtime, s')"
    using assms unfolding last_sent_def andthen_Inr by (elim exE conjE) (rule that)
  then have "m = t_settings s" using all_settings_value by blast
  then show ?thesis
    using v by (cases "t_settings s key_last_sent"; cases "parse_int (the (t_settings s key_last_sent))")
      (auto simp: Let_def split: if_splits)
qed

lemma stored_behind_written:
  assumes "in_int64 (wall_ns t)"
    and "t_settings s key_last_sent = Some (int_text (t_unix t))"
  shows "stored_behind (wall_ns t) s"
proof -
  have "in_int64 (t_unix t)" using assms(1) by (auto simp: in_int64_def t_unix_def)
  moreover have "t_unix t * 1000000000 \<le> wall_ns t"
    using div_mult_mod_eq[of "wall_ns t" 1000000000] pos_mod_sign[of 1000000000 "wall_ns t"]
    by (simp add: t_unix_def)
  ultimately show ?thesis using assms(2) parse_int_text by (simp add: stored_behind_def)
qed

lemma on_store_inv: "on_store m d = (r, d') \<Longrightarrow> m (sd_store d) = (r, sd_store d')"
  by (auto simp: on_store_def split: prod.splits)

lemma sd_query_setting:
  assumes "sd_query f d = (r, d')"
  shows "t_settings (sd_store d') k = t_settings (sd_store d) k"
proof -
  obtain e s where "db_exec (sd_store d) = (e, s)" by (metis surj_pair)
  moreover from this have "t_settings s = t_settings (sd_store d)"
    using db_exec_frame(5)[of "sd_store d"] by simp
  ultimately show ?thesis using assms by (auto simp: sd_query_def sd_exec_def split: option.splits)
qed

lemma figures_keep_setting:
  assumes "k \<noteq> first_seen_key"
  shows "uptime_since w since retention s = (r, s') \<Longrightarrow> t_settings s' k = t_settings s k"
    and "resolved_outages_since w since s = (r', s') \<Longrightarrow> t_settings s' k = t_settings s k"
  using keepsD[OF other_setting.uptime_keeps] keepsD[OF other_setting.resolved_keeps] assms
  by (metis fun_upd_other)+

lemma summarize_setting:
  assumes "summarize w retention since now d = (r, d')"
  shows "t_settings (sd_store d') key_last_sent = t_settings (sd_store d) key_last_sent"
    and "r = Inr m \<Longrightarrow> sm_since m = since \<and> sm_until m = now"
proof -
  have k: "key_last_sent \<noteq> first_seen_key" by (simp add: key_last_sent_def first_seen_key_def)
  note [dest!] = on_store_inv
  show "t_settings (sd_store d') key_last_sent = t_settings (sd_store d) key_last_sent"
    using assms figures_keep_setting[OF k]
    by (auto simp: summarize_def andthen_def speed_history_def speed_history_range_def
        dest!: sd_query_setting[where k = key_last_sent] split: prod.splits sum.splits)
  show "r = Inr m \<Longrightarrow> sm_since m = since \<and> sm_until m = now"
    using assms by (auto simp: summarize_def andthen_def split: prod.splits sum.splits)
qed

lemma send_due_armed:
  assumes "armed k p l t g (sd_store d)" and "polled k t p [i]" and "0 < p"
    and "wall_ns mark = l" and "steady k mark"
    and "send_due i p mark g d = (out, g', d')"
  shows "case out of None \<Rightarrow> armed k p l (wall_ns (ti_now i)) g' (sd_store d')
    | Some m \<Rightarrow> window_of m = (l, wall_ns (ti_now i)) \<and>
        armed k p (wall_ns (ti_now i)) (wall_ns (ti_now i)) g' (sd_store d')"
proof -
  let ?now = "ti_now i" and ?n = "wall_ns (ti_now i)"
  have p: "p = 24 * hour \<or> p = 7 * 24 * hour"
    using digest_period_cases assms(2,3) by auto
  have now: "steady k ?now" "t < ?n" "?n - t \<le> digest_check_interval" "in_int64 ?n"
    using assms(2) by auto
  define since where "since = (if t_is_zero (dg_pending g) then mark else dg_pending g)"
  have cap: "\<not> t_sub ?now mark > p + digest_check_interval" if "t_is_zero (dg_pending g)"
    using t_sub_le_iff[OF steady_diff[OF now(1) assms(5)], of "p + digest_check_interval"] p assms(1,4) now that
    by (auto simp: armed_def digest_check_interval_def)
  have w: "wall_ns since = l" "steady k since"
    using assms(1,4,5) by (auto simp: armed_def since_def)
  have nz: "\<not> t_is_zero since" using w assms(1) by (auto simp: t_is_zero_def armed_def)
  define h where "h = (if t_is_zero (dg_pending g) then g\<lparr>dg_pending := since\<rparr> else g)"
  have h: "dg_mem h = dg_mem g" "dg_pending h = since" by (simp_all add: h_def since_def)
  have run: "(case send_digest i since d of
      (None, d) \<Rightarrow> (None, h, d)
    | (Some s, d) \<Rightarrow> (Some s, h\<lparr>dg_mem := ?now, dg_pending := zero_time\<rparr>,
        d\<lparr>sd_store := set_last_sent ?now (sd_store d)\<rparr>)) = (out, g', d')"
    using assms(6) cap
    by (cases "t_is_zero (dg_pending g)")
       (auto simp: send_due_def since_def h_def Let_def split: prod.splits option.splits)
  obtain x d1 where s: "send_digest i since d = (x, d1)" by (metis surj_pair)
  have keep: "t_settings (sd_store d1) key_last_sent = t_settings (sd_store d) key_last_sent"
    and win: "\<And>m. x = Some m \<Longrightarrow> sm_since m = since \<and> sm_until m = ?now"
    using s summarize_setting by (auto simp: send_digest_def split: prod.splits sum.splits option.splits)
  show ?thesis
  proof (cases x)
    case None
    then show ?thesis
      using run s h w nz keep assms(1) now(2) by (auto simp: armed_def stored_behind_def)
  next
    case (Some m)
    have "stored_behind ?n (sd_store d)"
      using assms(1) now(2) stored_behind_later[of l "sd_store d" ?n] by (simp add: armed_def)
    note behind = this
    have "stored_behind ?n (set_last_sent ?now (sd_store d1))"
      using set_last_sent_settings[of ?now "sd_store d1"]
    proof
      assume "t_settings (set_last_sent ?now (sd_store d1)) = t_settings (sd_store d1)"
      then show ?thesis using behind keep by (simp add: stored_behind_def)
    qed (simp add: stored_behind_written[OF now(4)])
    moreover have "0 < ?n" using assms(1) now(2) by (simp add: armed_def)
    ultimately show ?thesis
      using run s Some h now win[OF Some] w assms(3) by (auto simp: armed_def window_of_def)
  qed
qed

lemma tick_armed:
  assumes "armed k p l t g (sd_store d)" and "polled k t p [i]" and "0 < p"
    and "digest_tick i (g, d) = (out, g', d')"
  shows "case out of None \<Rightarrow> armed k p l (wall_ns (ti_now i)) g' (sd_store d')
    | Some m \<Rightarrow> window_of m = (l, wall_ns (ti_now i)) \<and>
        armed k p (wall_ns (ti_now i)) (wall_ns (ti_now i)) g' (sd_store d')"
proof -
  let ?now = "ti_now i" and ?n = "wall_ns (ti_now i)"
  have now: "steady k ?now" "steady k (ti_now2 i)" "t < ?n" "digest_period (ti_freq i) = p" "ti_configured i"
    using assms(2) by auto
  have mem: "wall_ns (dg_mem g) = l" "steady k (dg_mem g)" "0 < l" "l < ?n"
    using assms(1) now(3) by (auto simp: armed_def)
  have keep_mem: "\<not> t_after (dg_mem g) ?now"
    using steady_diff[OF mem(2) now(1)] mem by (simp add: t_after_def)
  have keep_pending: "t_is_zero (dg_pending g) \<or> \<not> t_after (dg_pending g) ?now"
    using assms(1) mem(4) steady_diff[OF _ now(1), of "dg_pending g"] by (auto simp: armed_def t_after_def)
  define h where "h = (if t_after (dg_pending g) ?now then g\<lparr>dg_pending := zero_time\<rparr> else g)"
  have h: "armed k p l t h (sd_store d)" "dg_mem h = dg_mem g"
    using keep_pending assms(1) by (auto simp: h_def armed_def)
  have idle: "armed k p l ?n h s"
    if "t_sub ?now mark < p" "wall_ns mark = l" "steady k mark" "t_settings s = t_settings (sd_store d)"
    for mark s
  proof -
    have "\<bar>p\<bar> < 9223372036854775807" using digest_period_cases[OF now(4) assms(3)] by auto
    then have "?n - l < p"
      using t_sub_le_iff[OF steady_diff[OF now(1) that(3)], of p] that(1,2) by simp
    then show ?thesis using h(1) now(3) that(4) by (auto simp: armed_def stored_behind_def)
  qed
  have due: ?thesis
    if "send_due i p mark h d1 = (out, g', d')" "wall_ns mark = l" "steady k mark"
      "t_settings (sd_store d1) = t_settings (sd_store d)" for mark d1
  proof -
    have "armed k p l t h (sd_store d1)" using h(1) that(4) by (simp add: armed_def stored_behind_def)
    then show ?thesis using send_due_armed[OF _ assms(2,3) that(2,3,1)] by simp
  qed
  obtain r d1 where q: "on_store (last_sent (ti_now2 i)) d = (r, d1)" by (metis surj_pair)
  have s1: "t_settings (sd_store d1) = t_settings (sd_store d)"
    using on_store_inv[OF q] last_sent_keeps by blast
  have tick: "digest_tick i (g, d) = (case r of
       Inl e \<Rightarrow> if t_is_zero (dg_mem g) then (None, h, d1)
               else if t_sub ?now (dg_mem g) < p then (None, h, d1)
               else send_due i p (dg_mem g) h d1
     | Inr stored \<Rightarrow>
         let mark = (if t_after (dg_mem g) stored then dg_mem g else stored) in
         if t_is_zero mark
         then (None, h\<lparr>dg_mem := ?now\<rparr>, d1\<lparr>sd_store := set_last_sent ?now (sd_store d1)\<rparr>)
         else if t_sub ?now mark < p then (None, h, d1) else send_due i p mark h d1)"
    using assms(3) now(4,5) q keep_mem h(2) by (simp add: digest_tick_def h_def Let_def split: sum.split)
  show ?thesis
  proof (cases r)
    case (Inl e)
    then show ?thesis
      using tick assms(4) due[OF _ mem(1,2) s1] idle[OF _ mem(1,2) s1] mem
      by (auto simp: t_is_zero_def split: if_splits)
  next
    case (Inr stored)
    define mark where "mark = (if t_after (dg_mem g) stored then dg_mem g else stored)"
    have stored: "stored = zero_time \<or> (\<exists>n. stored = time_unix n \<and> n * 1000000000 \<le> l)"
      using last_sent_value[of "ti_now2 i" "sd_store d" stored] on_store_inv[OF q] Inr assms(1)
      by (auto simp: armed_def stored_behind_def)
    then have "steady k stored" "wall_ns stored \<le> l"
      using mem(3) by (auto simp: zero_time_def time_unix_def steady_def)
    then have mark: "wall_ns mark = l" "steady k mark"
      using mem steady_diff[OF mem(2), of stored] by (auto simp: mark_def t_after_def)
    then have "\<not> t_is_zero mark" using mem(3) by (auto simp: t_is_zero_def)
    then show ?thesis
      using tick Inr assms(4) due[OF _ mark s1] idle[OF _ mark s1]
      by (auto simp: mark_def[symmetric] Let_def split: if_splits)
  qed
qed

lemma run_tiles:
  assumes "armed k p l t g (sd_store d)" and "polled k t p is" and "0 < p"
    and "digest_run is (g, d) = (outs, g', d')"
  shows "tiles l (map window_of outs)"
  using assms
proof (induction "is" arbitrary: l t g d outs)
  case (Cons i "is")
  obtain x g1 d1 where x: "digest_tick i (g, d) = (x, g1, d1)" by (metis surj_pair)
  obtain ys where ys: "digest_run is (g1, d1) = (ys, g', d')"
    "outs = (case x of None \<Rightarrow> ys | Some m \<Rightarrow> m # ys)"
    using Cons.prems(4) x by (auto split: prod.splits)
  have i: "polled k t p [i]" "polled k (wall_ns (ti_now i)) p is" "t < wall_ns (ti_now i)"
    using Cons.prems(2) by auto
  note step = tick_armed[OF Cons.prems(1) i(1) Cons.prems(3) x]
  show ?case
  proof (cases x)
    case None
    then show ?thesis using Cons.IH[OF _ i(2) Cons.prems(3) ys(1)] step ys(2) by simp
  next
    case (Some m)
    moreover have "l \<le> t" using Cons.prems(1) by (simp add: armed_def)
    ultimately show ?thesis using Cons.IH[OF _ i(2) Cons.prems(3) ys(1)] step ys(2) i(3) by simp
  qed
qed simp

end
