(* ===== verification/HistoryProps.thy ===== *)
theory HistoryProps
  imports Examples Update SpeedFacts DigestFacts
begin

text \<open>
  Properties of the update check, the digest and the speedtest history, each with a concrete
  instance.
\<close>

section \<open>Update checks\<close>

definition eg_wake :: "fetch_reply \<Rightarrow> int \<Rightarrow> wake" where
  "eg_wake r t = \<lparr>wk_enabled = True, wk_reply = r, wk_now = time_unix t, wk_enabled_after = True\<rparr>"

lemmas eg_version_defs = semver_re_def take_digits_def take_dot_def trim_v_def find_semver_def is_release_def
  is_digit_def digit_val_def

text \<open>C36: after any sequence of timer ticks and kicks the checker holds the numeric core of the last
  valid answer (a 200 reply whose version field starts with a version) and never what follows it,
  failed checks having changed nothing; and the badge is shown exactly when checking is enabled and
  that version is above the running build's in the order of versions, where a final release is above
  its own prereleases.  A build that is not a release never caches an answer.\<close>

theorem update_badge:
  assumes "update_run es (start_update_loop cur) = Some l"
  shows "ck_latest (ul_checker l) =
      (if is_release cur then
         (case rev (filter answered (wakes es)) of [] \<Rightarrow> [] | w # _ \<Rightarrow> answer w) else []) \<and>
    (ck_latest (ul_checker l) \<noteq> [] \<longrightarrow> is_release (ck_latest (ul_checker l)) \<and>
       (\<forall>c \<in> set (ck_latest (ul_checker l)). is_digit c \<or> c = CHR ''.'')) \<and>
    (us_available (update_status en (ul_checker l)) \<longleftrightarrow> en \<and>
       (case (version_of cur, version_of (ck_latest (ul_checker l))) of
          (Some x, Some y) \<Rightarrow> x < y | _ \<Rightarrow> False))"
proof -
  have cur: "ck_current (ul_checker (start_update_loop cur)) = cur"
    "ck_latest (ul_checker (start_update_loop cur)) = []"
    by (simp_all add: start_update_loop_def new_checker_def)
  have cache: "ck_latest (ul_checker l) = (if is_release cur then
      (case rev (filter answered (wakes es)) of [] \<Rightarrow> [] | w # _ \<Rightarrow> answer w) else [])"
    using update_run_cache [OF assms] update_run_dev [OF assms] cur by (simp split: list.split)
  have bare: "is_release (ck_latest (ul_checker l)) \<and>
      (\<forall>c \<in> set (ck_latest (ul_checker l)). is_digit c \<or> c = CHR ''.'')" if "ck_latest (ul_checker l) \<noteq> []"
  proof -
    note full = that
    have "is_release cur" using full cache by (auto split: if_splits)
    then obtain w where "answered w" "ck_latest (ul_checker l) = answer w"
      using update_run_bare [OF assms] cur full by auto
    then show ?thesis using answered_core core_release by metis
  qed
  have "version_of [] = None"
    by (simp add: version_of_None is_release_def semver_re_def take_digits_def trim_v_def)
  then have badge: "us_available (update_status en (ul_checker l)) \<longleftrightarrow> en \<and> newer cur (ck_latest (ul_checker l))"
    using update_run_current [OF assms] cur
    by (auto simp: update_status_def newer_less split: option.splits)
  show ?thesis
    by (rule conjI [OF cache conjI [OF impI [OF bare] badge [unfolded newer_less]]])
qed

lemma update_badge_witness:
  "map_option (\<lambda>l. us_latest (update_status True (ul_checker l))) (update_run
     [TimerFired (eg_wake (Reply 200 (Some ''v1.10.0-rc.1 <b>'')) 1700000000),
      TimerFired (eg_wake NoReply 1700086400)] (start_update_loop ''1.9.3'')) = Some ''1.10.0''"
proof -
  let ?es = "[TimerFired (eg_wake (Reply 200 (Some ''v1.10.0-rc.1 <b>'')) 1700000000),
      TimerFired (eg_wake NoReply 1700086400)]"
  obtain l where l: "update_run ?es (start_update_loop ''1.9.3'') = Some l"
    by (simp add: update_step_def)
  have "ck_latest (ul_checker l) = ''1.10.0''"
    using update_badge [OF l, of True]
    by (simp add: answered_def answer_def eg_wake_def fetch_version_def eg_version_defs)
  then show ?thesis unfolding l by (simp add: update_status_def)
qed

text \<open>Before the first valid answer a release build climbs the ladder of one, five and fifteen
  minutes to one hour, one rung per wake that found checking on, so its next check is never more than
  an hour away; from the first valid answer on, or with checking off, the next check is a day away.\<close>

theorem update_ladder:
  assumes "update_run es (start_update_loop cur) = Some l" and "is_release cur"
    and "\<forall>w \<in> set (wakes es). \<not> t_is_zero (wk_now w)" and "wakes es \<noteq> []"
  shows "ul_timer l =
      (if wk_enabled_after (last (wakes es)) \<and> filter answered (wakes es) = []
       then ladder_step (length (filter wk_enabled_after (wakes es)) - 1)
       else 24 * hour) \<and>
    (wk_enabled_after (last (wakes es)) \<and> filter answered (wakes es) = [] \<longrightarrow>
       minute \<le> ul_timer l \<and> ul_timer l \<le> hour)"
  using update_run_schedule (3) [OF assms] ladder_step_bounds by (simp add: update_check_interval_def)

lemma update_ladder_witness:
  "map_option ul_timer (update_run
     [TimerFired (eg_wake NoReply 1700000000), TimerFired (eg_wake NoReply 1700000060)]
     (start_update_loop ''1.9.3'')) = Some (5 * minute)"
proof -
  let ?es = "[TimerFired (eg_wake NoReply 1700000000), TimerFired (eg_wake NoReply 1700000060)]"
  obtain l where l: "update_run ?es (start_update_loop ''1.9.3'') = Some l"
    by (simp add: update_step_def)
  have "is_release ''1.9.3''" "\<forall>w \<in> set (wakes ?es). \<not> t_is_zero (wk_now w)" "wakes ?es \<noteq> []"
    by (simp_all add: eg_version_defs eg_wake_def)
  from update_ladder [OF l this] have "ul_timer l = 5 * minute"
    by (simp add: eg_wake_def answered_def fetch_version_def ladder_step_def first_poll_retry_def)
  then show ?thesis unfolding l by simp
qed

section \<open>The periodic digest\<close>

definition eg_speed :: speed_db where
  "eg_speed = \<lparr>sd_store = eg_store, sd_rows = [], sd_servers = [], sd_health = []\<rparr>"

definition eg_tick :: "string option \<Rightarrow> int \<Rightarrow> tick_in" where
  "eg_tick err t = \<lparr>ti_freq = ''daily'', ti_configured = True, ti_now = time_unix t, ti_now2 = time_unix t,
     ti_world = eg_world, ti_retention = 0, ti_delivery = err\<rparr>"

definition eg_digest :: digest where
  "eg_digest = \<lparr>dg_pending = zero_time, dg_mem = time_unix 1700000000\<rparr>"

text \<open>C35: while the cadence stays the same, a webhook is configured and the polls are at most one
  interval apart on a clock that does not step, the delivered windows follow each other exactly: the
  first begins where the last delivery ended, each next one where the one before it ended, whatever
  deliveries, reads or writes of the watermark fail in between.\<close>

theorem digest_windows_tile:
  assumes "armed k p l t g (sd_store d)" and "polled k t p ticks" and "0 < p"
    and "digest_run ticks (g, d) = (outs, g', d')"
  shows "tiles l (map window_of outs)"
  using assms by (rule run_tiles)

lemma digest_windows_tile_witness:
  "tiles 1700000000000000000 (map window_of (fst (digest_run
     [eg_tick (Some ''503'') 1700086400, eg_tick None 1700088200] (eg_digest, eg_speed))))"
proof -
  let ?is = "[eg_tick (Some ''503'') 1700086400, eg_tick None 1700088200]"
  have "armed 0 (24 * hour) 1700000000000000000 1700086399000000000 eg_digest (sd_store eg_speed)"
    by (simp add: armed_def eg_digest_def eg_speed_def eg_store_def steady_def time_unix_def stored_behind_def)
  moreover have "polled 0 1700086399000000000 (24 * hour) ?is"
    by (simp add: eg_tick_def steady_def time_unix_def digest_check_interval_def in_int64_def digest_period_def)
  moreover obtain outs g' d' where r: "digest_run ?is (eg_digest, eg_speed) = (outs, g', d')"
    by (metis surj_pair)
  ultimately have "tiles 1700000000000000000 (map window_of outs)"
    using digest_windows_tile [of 0 "24 * hour" _ _ eg_digest eg_speed ?is outs g' d'] by simp
  then show ?thesis unfolding r by simp
qed

section \<open>The speedtest history\<close>

definition eg_texts :: speed_texts where
  "eg_texts = \<lparr>x_server = ''s'', x_server_id = ''1'', x_ipv4 = [], x_ipv6 = [], x_isp = [], x_isp_location = [],
     x_dns_ip = [], x_dns_provider = [], x_dns_location = [], x_colo = [], x_exit = [], x_trigger = [],
     x_engine = ''ookla'', x_ip_family = [], x_udp_direction = [], x_race_outcome = [], x_race_origins = [],
     x_race_kind = [], x_race_label = []\<rparr>"

definition eg_sample :: "int \<Rightarrow> speed_sample" where
  "eg_sample t = \<lparr>sp_ts = t, sp_down = Finite 100, sp_up = Finite 20, sp_ping = Finite 9, sp_texts = eg_texts,
     sp_jitter = None, sp_ping_best = None, sp_loss = None, sp_healthy = None,
     sp_down_bytes = Some 1000, sp_up_bytes = Some (- 5), sp_idle = None, sp_load_down = None,
     sp_load_up = None, sp_load_down_p95 = None, sp_load_up_p95 = None, sp_failed = False, sp_stage = [],
     sp_usage_run = None, sp_race_ms = None, sp_racers = None, sp_race_lat = None, sp_race_lon = None,
     sp_round = None, sp_win_reason = []\<rparr>"

definition eg_runs :: "int list \<Rightarrow> speed_db" where
  "eg_runs ts = eg_speed\<lparr>sd_rows := map (\<lambda>t. speed_row_of t (eg_sample t)) ts\<rparr>"

lemma eg_runs_simps [simp]:
  "sd_rows (eg_runs ts) = map (\<lambda>t. speed_row_of t (eg_sample t)) ts" "sd_store (eg_runs ts) = eg_store"
  by (simp_all add: eg_runs_def eg_speed_def)

lemma eg_faults [simp]: "faults eg_store = []"
  by (simp add: eg_store_def)

lemma eg_horizon [simp]: "current_horizon 1700001000 = 1700001120"
  by (simp add: current_horizon_def metrics_future_skew_def dur_secs_def signed_divide_int_def)

lemma eg_row [simp]:
  "speed_not_failed (speed_row_of t (eg_sample u))" "row_bytes (speed_row_of t (eg_sample u)) = 1000"
  "rw_usage_run (speed_row_of t (eg_sample u)) = None" "rw_round (speed_row_of t (eg_sample u)) = None"
  by (simp_all add: speed_not_failed_def speed_row_of_def eg_sample_def row_bytes_def clamp_speed_bytes_def
      max_speed_bytes_per_run_def)

lemma eg_scan [simp]: "\<exists>x. scan_speed (speed_row_of t (eg_sample u)) = Inr x"
  by (simp add: scan_speed_def speed_row_of_def eg_sample_def Let_def)

lemma eg_save: "snd (save_buffered SaveOrder eg_env eg_store) = eg_store"
  by (simp add: save_buffered_def save_begin_def eg_store_def)

text \<open>A recorded run lands on the first free second at or after the one asked for: no row of the
  history is on it, every second skipped is taken, the other rows stay as they are, the seconds
  stay distinct, and its byte counts are within the bounds the sums rely on.\<close>

theorem insert_takes_first_free_second:
  assumes "insert_speed_ts w sp d = (Inr ts, d')"
  shows "sp_ts sp \<le> ts \<and> ts \<notin> rw_ts ` set (sd_rows d) \<and> {sp_ts sp..<ts} \<subseteq> rw_ts ` set (sd_rows d) \<and>
    sd_rows d' = sd_rows d @ [speed_row_of ts sp] \<and> clamped_row (speed_row_of ts sp) \<and>
    (distinct (map rw_ts (sd_rows d)) \<longrightarrow> distinct (map rw_ts (sd_rows d')))"
proof -
  let ?ts = "free_second (map rw_ts (sd_rows d)) (sp_ts sp)"
  have "ts = ?ts" "sd_rows d' = sd_rows d @ [speed_row_of ?ts sp]"
    using insert_speed_ts_rows [OF assms] by auto
  moreover have "{sp_ts sp..<?ts} \<subseteq> rw_ts ` set (sd_rows d)"
    using free_second_spec (3) [where occ = "map rw_ts (sd_rows d)" and t = "sp_ts sp"] by auto
  ultimately show ?thesis
    using free_second_spec (1,2) [where occ = "map rw_ts (sd_rows d)" and t = "sp_ts sp"]
    by (auto simp: speed_row_of_clamped)
qed

lemma insert_takes_first_free_second_witness:
  "fst (insert_speed_ts eg_world (eg_sample 1700000000) (eg_runs [1700000000, 1700000001])) = Inr 1700000002"
proof -
  obtain ts d' where r:
    "insert_speed_ts eg_world (eg_sample 1700000000) (eg_runs [1700000000, 1700000001]) = (Inr ts, d')"
    by (simp add: insert_speed_ts_def sd_save_def eg_save eg_world_def Let_def sd_exec_quiet sd_counted_quiet)
  have "1700000000 \<le> ts" "ts \<noteq> 1700000000" "ts \<noteq> 1700000001"
    "{1700000000..<ts} \<subseteq> {1700000000, 1700000001}"
    using insert_takes_first_free_second [OF r] by (simp_all add: eg_sample_def)
  then have "ts = 1700000002"
    using subsetD [of "{1700000000..<ts}" "{1700000000, 1700000001}" 1700000002] by fastforce
  then show ?thesis unfolding r by simp
qed

text \<open>A thinned history holds exactly as many runs as the smaller of the budget and the seconds of
  the window that have a measurement, in order, each on a second of the window that has one, and the
  newest of them is always the last; the disclosed number is that of the window.\<close>

theorem history_budget:
  assumes "speed_history_budget now since until budget d = (Inr (out, n), d')"
  shows "n = int (card (rw_ts ` {r \<in> set (sd_rows d). speed_not_failed r \<and> speed_window now since until (rw_ts r)})) \<and>
    length out = nat (min n (max 1 budget)) \<and> sorted_wrt (<) (map sp_ts out) \<and>
    sp_ts ` set out \<subseteq> rw_ts ` {r \<in> set (sd_rows d). speed_not_failed r \<and> speed_window now since until (rw_ts r)} \<and>
    (n > 0 \<longrightarrow> sp_ts (last out) =
      Max (rw_ts ` {r \<in> set (sd_rows d). speed_not_failed r \<and> speed_window now since until (rw_ts r)}))"
proof -
  let ?ws = "window_seconds now since until (sd_rows d)" and ?b = "nat (max 1 budget)"
  note out = speed_history_budget_secs [OF assms]
  have ws: "set ?ws = rw_ts ` {r \<in> set (sd_rows d). speed_not_failed r \<and> speed_window now since until (rw_ts r)}"
    by (rule window_seconds_set)
  have card: "card (set ?ws) = length ?ws"
    using window_seconds_sorted by (simp add: distinct_card strict_sorted_iff)
  show ?thesis
  proof (cases "?ws = []")
    case True
    then show ?thesis using out card by (auto simp: ws [symmetric])
  next
    case False
    have "0 < ?b" by simp
    note thin = thin_seconds_facts [OF window_seconds_sorted this False]
    have ts: "map sp_ts out = thin_seconds ?ws ?b" using out(2) False by simp
    then have len: "length out = min (length ?ws) ?b" using thin(1) by (metis length_map)
    then have "out \<noteq> []" using False \<open>0 < ?b\<close> by (auto simp: min_def split: if_splits)
    then have "sp_ts (last out) = last ?ws" using ts thin(4) by (metis last_map)
    moreover have "last ?ws = Max (set ?ws)"
    proof (rule Max_eqI [symmetric])
      show "last ?ws \<in> set ?ws" using False by simp
      have "sorted ?ws" using window_seconds_sorted by (simp add: strict_sorted_iff)
      then show "y \<le> last ?ws" if "y \<in> set ?ws" for y
        using that False by (auto simp: in_set_conv_nth last_conv_nth sorted_iff_nth_mono)
    qed simp
    moreover have "sp_ts ` set out \<subseteq> set ?ws" using ts thin(3) by (metis image_set)
    ultimately show ?thesis
      using out(1) card len ts thin(2) ws by (auto simp: min_def max_def)
  qed
qed

lemma history_budget_witness:
  "\<exists>out d'. speed_history_budget 1700001000 1700000000 None 2
     (eg_runs [1700000010, 1700000020, 1700000030]) = (Inr (out, 3), d') \<and> length out = 2"
proof -
  let ?d = "eg_runs [1700000010, 1700000020, 1700000030]"
  have ok: "\<exists>xs. scan_rows (map (\<lambda>t. speed_row_of t (eg_sample t)) ts) = Inr xs" for ts
    by (rule scan_rows_ok) (simp add: speed_row_of_def eg_sample_def)
  obtain out n d' where r: "speed_history_budget 1700001000 1700000000 None 2 ?d = (Inr (out, n), d')"
    using ok [of "[1700000010, 1700000030]"]
    by (auto simp: speed_history_budget_def andthen_def sd_query_quiet speed_window_def by_ts_def
        thin_seconds_def first_per_second_def upt_rec)
  have "n = 3"
    using history_budget [OF r]
    by (simp add: speed_window_def Collect_conv_if conj_disj_distribR Collect_disj_eq image_Un)
  then show ?thesis using r history_budget [OF r] by auto
qed

text \<open>With fewer than about a million rows, each within the bounds every insert enforces, the
  byte total of any window comes back exact: the 64-bit sum cannot overflow.\<close>

theorem usage_sum_never_overflows:
  assumes "\<forall>r \<in> set (sd_rows d). clamped_row r" and "length (sd_rows d) < 2 ^ 20"
    and "faults (sd_store d) = []"
  shows "speed_data_usage_since now since d = (Inr (sum_list (map row_bytes
     (filter (\<lambda>r. since \<le> rw_ts r \<and> rw_ts r \<le> current_horizon now) (sd_rows d)))), d)"
  using usage_sum_exact [OF assms(1,2)] assms(3)
  by (simp add: speed_data_usage_since_def sd_query_def sd_exec_def db_exec_no_faults)

lemma usage_sum_never_overflows_witness:
  "fst (speed_data_usage_since 1700001000 1700000015 (eg_runs [1700000010, 1700000020, 1700000030])) = Inr 2000"
  using usage_sum_never_overflows [of "eg_runs [1700000010, 1700000020, 1700000030]" 1700001000 1700000015]
  by (simp add: speed_row_of_clamped)

text \<open>Deleting a run takes its own row, the members of its round and the accounting row that bills
  it, and nothing else; in particular no measurement of another run goes with it, not even one
  on the next second.\<close>

theorem delete_takes_one_run:
  assumes "distinct (map rw_ts (sd_rows d))" and "delete_speed ts d = (Inr n, d')"
  shows "sd_rows d' = filter (\<lambda>r. \<not> (rw_ts r = ts \<and> (rw_usage_run r = None \<or> rw_usage_run r = Some ts)) \<and>
       rw_round r \<noteq> Some ts \<and> \<not> (rw_usage_run r = Some ts \<and> speed_is_accounting r)) (sd_rows d) \<and>
    (\<forall>r \<in> set (sd_rows d). speed_not_failed r \<and> rw_ts r \<noteq> ts \<and> rw_round r \<noteq> Some ts \<longrightarrow> r \<in> set (sd_rows d'))"
  using assms(2)
  by (auto simp: delete_speed_def delete_speed_rows_def delete_named_distinct [OF assms(1)] sd_exec_def
      sd_record_def Let_def speed_is_accounting_def filter_filter conj_ac
      split: prod.splits option.splits intro!: filter_cong)

lemma delete_takes_one_run_witness:
  "map rw_ts (sd_rows (snd (delete_speed 1700000020 (eg_runs [1700000010, 1700000020, 1700000021])))) =
     [1700000010, 1700000021]"
proof -
  let ?d = "eg_runs [1700000010, 1700000020, 1700000021]"
  obtain n d' where r: "delete_speed 1700000020 ?d = (Inr n, d')"
    by (simp add: delete_speed_quiet)
  have "distinct (map rw_ts (sd_rows ?d))" by simp
  from delete_takes_one_run [OF this r] show ?thesis
    unfolding r by simp
qed

end
