(* ===== verification/Selection.thy ===== *)
theory Selection
  imports Tables Complex_Main
begin

text \<open>
  Which server a speedtest measures and which of several measurements is kept
  (\<open>internal/speedtest/ookla.go\<close>, \<open>selection.go\<close>): the trim of the candidate list, the
  promotion and the challenge of the incumbent, the scores of a round and its winner, the
  bytes stamped on the winner and the selection report.

  Speeds and latencies are real numbers (the capacity of a run is a geometric mean, \<open>powr\<close>).
  Words of a provider's name are split at the ASCII characters that are no letters or digits;
  bytes of other characters count as letters and keep their case.  A server's address in memory,
  which the code uses to tell two entries apart, is its position in the list.
\<close>

section \<open>Servers\<close>

record net_server =
  ns_id :: string
  ns_sponsor :: string
  ns_name :: string
  ns_distance :: real
  ns_latency :: duration

definition auto_ping_min :: nat where "auto_ping_min = 5"
definition auto_ping_max :: nat where "auto_ping_max = 12"
definition auto_margin_km :: real where "auto_margin_km = 25"
definition auto_isp_max :: nat where "auto_isp_max = 4"

definition word_char :: "char \<Rightarrow> bool" where
  "word_char c \<longleftrightarrow> (let n = (of_char c :: nat) in
     (97 \<le> n \<and> n \<le> 122) \<or> (65 \<le> n \<and> n \<le> 90) \<or> (48 \<le> n \<and> n \<le> 57) \<or> 128 \<le> n)"

fun words_from :: "string \<Rightarrow> string \<Rightarrow> string list" where
  "words_from [] acc = (if acc = [] then [] else [rev acc])"
| "words_from (c # cs) acc =
     (if word_char c then words_from cs (lower_char c # acc)
      else if acc = [] then words_from cs [] else rev acc # words_from cs [])"

definition name_words :: "string \<Rightarrow> string list" where
  "name_words s = words_from s []"

definition isp_generic_words :: "string list" where
  "isp_generic_words =
     [''internet'', ''communications'', ''telecom'', ''telecommunications'', ''network'', ''networks'',
      ''wireless'', ''mobility'', ''mobile'', ''cable'', ''fibre'', ''fiber'', ''broadband'', ''services'',
      ''solutions'', ''group'', ''canada'', ''the'', ''inc'', ''llc'', ''ltd'', ''corp'', ''co'', ''and'']"

definition sponsor_matches_isp :: "string \<Rightarrow> string \<Rightarrow> bool" where
  "sponsor_matches_isp sponsor isp =
     (let isp_words = name_words isp in
      list_ex (\<lambda>w. length w \<ge> 3 \<and> w \<notin> set isp_generic_words \<and> w \<in> set isp_words) (name_words sponsor))"

section \<open>Trimming the candidates\<close>

text \<open>\<open>trimToCap\<close>: the ISP's lanes, then the first server of every other sponsor, then the nearest
  of the rest; and a seat for the ISP whenever it has a server at all.\<close>

fun trim_fill :: "nat \<Rightarrow> string \<Rightarrow> nat set \<Rightarrow> (nat \<times> net_server) list \<Rightarrow>
    net_server list \<Rightarrow> string list \<Rightarrow> net_server list \<Rightarrow> net_server list \<times> net_server list" where
  "trim_fill cap isp taken [] cand seen dupes = (cand, dupes)"
| "trim_fill cap isp taken ((i, s) # rest) cand seen dupes =
     (if length cand = cap then (cand, dupes)
      else if i \<in> taken then trim_fill cap isp taken rest cand seen dupes
      else if ns_sponsor s \<in> set seen
      then trim_fill cap isp taken rest cand seen
             (if isp = [] \<or> \<not> sponsor_matches_isp (ns_sponsor s) isp then dupes @ [s] else dupes)
      else trim_fill cap isp taken rest (cand @ [s]) (ns_sponsor s # seen) dupes)"

definition isp_lanes :: "nat \<Rightarrow> nat \<Rightarrow> string \<Rightarrow> net_server list \<Rightarrow> (nat \<times> net_server) list" where
  "isp_lanes cap isp_max isp pool =
     (if isp = [] then []
      else take (min isp_max cap) (filter (\<lambda>(i, s). sponsor_matches_isp (ns_sponsor s) isp) (enumerate 0 pool)))"

definition trim_pool :: "net_server list \<Rightarrow> string \<Rightarrow> nat \<Rightarrow> nat \<Rightarrow> net_server list" where
  "trim_pool pool isp cap isp_max =
     (if length pool > cap
      then let lanes = isp_lanes cap isp_max isp pool;
               (cand, dupes) = trim_fill cap isp (fst ` set lanes) (enumerate 0 pool)
                  (map snd lanes) (map (ns_sponsor \<circ> snd) lanes) []
           in cand @ take (cap - length cand) dupes
      else pool)"

definition trim_to_cap :: "net_server list \<Rightarrow> net_server list \<Rightarrow> string \<Rightarrow> nat \<Rightarrow> nat \<Rightarrow> net_server list" where
  "trim_to_cap pool sorted_list isp cap isp_max =
     (let cand = trim_pool pool isp cap isp_max in
      if isp = [] then cand
      else if list_ex (\<lambda>s. sponsor_matches_isp (ns_sponsor s) isp) cand then cand
      else case find (\<lambda>s. sponsor_matches_isp (ns_sponsor s) isp) sorted_list of
          None \<Rightarrow> cand
        | Some s \<Rightarrow> if length cand < cap then cand @ [s] else cand[length cand - 1 := s])"

text \<open>The distance window, then the trim.\<close>

fun window_size :: "nat \<Rightarrow> real \<Rightarrow> nat \<Rightarrow> net_server list \<Rightarrow> nat" where
  "window_size least limit n [] = n"
| "window_size least limit n (s # rest) =
     (if n < least \<or> ns_distance s \<le> limit then window_size least limit (Suc n) rest else n)"

definition auto_candidates_n :: "net_server list \<Rightarrow> string \<Rightarrow> nat \<Rightarrow> net_server list" where
  "auto_candidates_n sorted_list isp want =
     (let least = (if want > auto_ping_min then want else auto_ping_min);
          cap = (if want > auto_ping_max then want else auto_ping_max);
          n = (case sorted_list of [] \<Rightarrow> 0
               | s # _ \<Rightarrow> window_size least (ns_distance s + auto_margin_km) 0 sorted_list)
      in trim_to_cap (take n sorted_list) sorted_list isp cap auto_isp_max)"

definition auto_candidates :: "net_server list \<Rightarrow> string \<Rightarrow> net_server list" where
  "auto_candidates sorted_list isp = auto_candidates_n sorted_list isp 1"

section \<open>Ranking pings\<close>

definition rank_ping_latency :: "bool \<Rightarrow> bool \<Rightarrow> duration \<Rightarrow> duration \<times> bool" where
  "rank_ping_latency failed sampled latency =
     (if failed \<or> \<not> sampled then (0, False)
      else if latency \<le> 0 then (1, True)
      else (latency, True))"

definition ping_ms_of :: "duration \<Rightarrow> real" where
  "ping_ms_of d = of_int d / 1000000"

definition apply_rank_ping :: "bool \<Rightarrow> bool \<Rightarrow> duration \<Rightarrow> net_server \<Rightarrow> real option \<times> net_server" where
  "apply_rank_ping failed sampled lowest s =
     (case rank_ping_latency failed sampled lowest of
        (lat, True) \<Rightarrow> (Some (ping_ms_of lat), s\<lparr>ns_latency := lat\<rparr>)
      | (_, False) \<Rightarrow> (None, s\<lparr>ns_latency := 0\<rparr>))"

definition rank_less :: "net_server \<Rightarrow> net_server \<Rightarrow> bool" where
  "rank_less a b =
     (if ns_latency a > 0 \<and> ns_latency b > 0 then ns_latency a < ns_latency b
      else ns_latency a > 0)"

definition server_label :: "net_server \<Rightarrow> string" where
  "server_label s = ns_sponsor s @ '', '' @ ns_name s"

section \<open>The incumbent\<close>

definition rank_margin :: "duration \<Rightarrow> duration" where
  "rank_margin fastest = (let m = (fastest * 15) sdiv 100 in if m < 2 * millisecond then 2 * millisecond else m)"

definition first_index :: "('a \<Rightarrow> bool) \<Rightarrow> 'a list \<Rightarrow> nat option" where
  "first_index P xs = find (\<lambda>i. P (xs ! i)) [0..<length xs]"

definition move_front :: "nat \<Rightarrow> 'a list \<Rightarrow> 'a list" where
  "move_front i xs = xs ! i # take i xs @ drop (Suc i) xs"

definition in_band :: "duration \<Rightarrow> net_server \<Rightarrow> bool" where
  "in_band limit s \<longleftrightarrow> ns_latency s > 0 \<and> ns_latency s \<le> limit"

definition promote_incumbent :: "net_server list \<Rightarrow> string \<Rightarrow> string \<Rightarrow> net_server list \<times> nat \<times> string" where
  "promote_incumbent ranked incumbent isp =
     (if length ranked < 2 \<or> ns_latency (ranked ! 0) \<le> 0 then (ranked, 0, [])
      else
        let limit = ns_latency (ranked ! 0) + rank_margin (ns_latency (ranked ! 0));
            band = takeWhile (in_band limit) ranked;
            own = (if incumbent \<noteq> [] then first_index (\<lambda>s. ns_id s = incumbent) band else None);
            pick = (case own of
                Some i \<Rightarrow> Some (i, ''incumbent'')
              | None \<Rightarrow>
                  if isp \<noteq> [] \<and> \<not> sponsor_matches_isp (ns_sponsor (ranked ! 0)) isp
                  then map_option (\<lambda>i. (i, ''on_net''))
                         (first_index (\<lambda>s. sponsor_matches_isp (ns_sponsor s) isp) band)
                  else None)
        in case pick of
             None \<Rightarrow> (ranked, 0, [])
           | Some (i, why) \<Rightarrow> if i = 0 then (ranked, 0, []) else (move_front i ranked, i, why))"

definition challenge_incumbent :: "net_server list \<Rightarrow> string \<Rightarrow> net_server list \<times> nat \<times> string" where
  "challenge_incumbent ranked incumbent =
     (if incumbent = [] \<or> length ranked < 2 \<or> ns_latency (ranked ! 0) \<le> 0 then (ranked, 0, [])
      else
        let limit = ns_latency (ranked ! 0) + rank_margin (ns_latency (ranked ! 0));
            seated = first_index (\<lambda>s. ns_id s = incumbent) (takeWhile (in_band limit) ranked) \<noteq> None
        in if \<not> seated then (ranked, 0, [])
           else case first_index (\<lambda>s. ns_id s \<noteq> incumbent) (takeWhile (\<lambda>s. ns_latency s > 0) ranked) of
               None \<Rightarrow> (ranked, 0, [])
             | Some i \<Rightarrow> if i = 0 then (ranked, 0, ''challenger'')
                        else (move_front i ranked, i, ''challenger''))"

definition challenge_min_history :: nat where "challenge_min_history = 3"
definition challenge_floor_pct :: real where "challenge_floor_pct = 15"
definition challenge_believe_factor :: real where "challenge_believe_factor = 3"

definition history_median :: "real list \<Rightarrow> real" where
  "history_median history =
     (if history = [] then 0
      else let h = sort history; n = length h in
        if even n then (h ! (n div 2 - 1) + h ! (n div 2)) / 2 else h ! (n div 2))"

definition history_good :: "real list \<Rightarrow> real" where
  "history_good history =
     (if history = [] then 0
      else let h = sort history; n = length h in if n \<ge> 5 then h ! (n - 2) else h ! (n - 1))"

definition challenge_won :: "real \<Rightarrow> real list \<Rightarrow> bool \<times> real \<times> real" where
  "challenge_won score history =
     (if length history < challenge_min_history \<or> \<not> score > 0 then (False, 0, 0)
      else let med = history_median history; good = history_good history;
               bar = max (med * (100 + challenge_floor_pct) / 100) good
           in (score * 100 > bar * 100, bar, med))"

section \<open>Scores\<close>

record test_result =
  rs_down :: real
  rs_up :: real
  rs_ping :: real
  rs_jitter :: "real option"
  rs_server :: string
  rs_server_id :: string
  rs_down_bytes :: int
  rs_up_bytes :: int
  rs_extra_down :: int
  rs_extra_up :: int
  rs_ping_best :: "real option"
  rs_idle :: "real option"
  rs_load_down :: "real option"
  rs_load_up :: "real option"

definition ping_weight_ms :: real where "ping_weight_ms = 100"
definition max_score_ping_ms :: real where "max_score_ping_ms = 20"
definition unmeasured_ping_ms :: real where "unmeasured_ping_ms = 1000"
definition down_capacity_weight :: real where "down_capacity_weight = 7/10"
definition implausible_factor :: real where "implausible_factor = 2"
definition consensus_spread :: real where "consensus_spread = 125/100"

definition result_capacity :: "test_result \<Rightarrow> string \<Rightarrow> real" where
  "result_capacity r dir =
     (let d = max 0 (rs_down r); u = max 0 (rs_up r) in
      if dir = ''down'' then d else if dir = ''up'' then u
      else d powr down_capacity_weight * u powr (1 - down_capacity_weight))"

definition positive_readings :: "(test_result \<Rightarrow> real) \<Rightarrow> test_result list \<Rightarrow> real list" where
  "positive_readings pick rs = sort (filter (\<lambda>v. v > 0) (map pick rs))"

definition beyond_round :: "(test_result \<Rightarrow> real) \<Rightarrow> test_result list \<Rightarrow> bool" where
  "beyond_round pick rs =
     (let vals = positive_readings pick rs in
      if length vals < 3 then False
      else let top = vals ! (length vals - 1); mid = vals ! (length vals div 2) in
        if mid \<le> 0 \<or> top \<le> mid * implausible_factor then False
        else let rest = take (length vals - 1) vals in
          rest ! 0 > 0 \<and> rest ! (length rest - 1) \<le> rest ! 0 * consensus_spread)"

definition implausible_directions :: "test_result list \<Rightarrow> bool \<times> bool" where
  "implausible_directions rs =
     (if length rs < 3 then (False, False) else (beyond_round rs_down rs, beyond_round rs_up rs))"

definition middle_of :: "test_result list \<Rightarrow> (test_result \<Rightarrow> real) \<Rightarrow> real" where
  "middle_of rs pick =
     (let vals = positive_readings pick rs in if vals = [] then 0 else vals ! (length vals div 2))"

definition believable_capacity :: "test_result \<Rightarrow> string \<Rightarrow> test_result list \<Rightarrow> real" where
  "believable_capacity r dir rs =
     (let (bad_down, bad_up) = implausible_directions rs in
      if \<not> bad_down \<and> \<not> bad_up then result_capacity r dir
      else
        let capped = r;
            capped = (if bad_down then capped\<lparr>rs_down := min (rs_down r) (middle_of rs rs_down)\<rparr> else capped);
            capped = (if bad_up then capped\<lparr>rs_up := min (rs_up r) (middle_of rs rs_up)\<rparr> else capped)
        in result_capacity capped dir)"

definition valid_ms :: "real \<Rightarrow> bool" where "valid_ms v \<longleftrightarrow> v > 0"

definition decision_ping_ms :: "test_result \<Rightarrow> real" where
  "decision_ping_ms r = (case rs_ping_best r of
     Some v \<Rightarrow> if valid_ms v then v else rs_ping r | None \<Rightarrow> rs_ping r)"

text \<open>A missing round is the empty list: it rejects no direction.\<close>

definition round_score :: "test_result \<Rightarrow> string \<Rightarrow> test_result list \<Rightarrow> real" where
  "round_score r dir rs =
     (let ping = decision_ping_ms r;
          ping = (if \<not> valid_ms ping then unmeasured_ping_ms
                  else if ping > max_score_ping_ms then max_score_ping_ms else ping);
          capacity = (if rs = [] then result_capacity r dir else believable_capacity r dir rs)
      in capacity * ping_weight_ms / (ping_weight_ms + ping))"

definition result_score :: "test_result \<Rightarrow> string \<Rightarrow> real" where
  "result_score r dir = round_score r dir []"

definition cmp_opt_lower :: "real option \<Rightarrow> real option \<Rightarrow> int" where
  "cmp_opt_lower a b = (case (a, b) of
     (None, None) \<Rightarrow> 0 | (None, Some _) \<Rightarrow> 1 | (Some _, None) \<Rightarrow> -1
   | (Some x, Some y) \<Rightarrow> if x < y then -1 else if x > y then 1 else 0)"

definition bufferbloat_ms :: "test_result \<Rightarrow> real option" where
  "bufferbloat_ms r = (case rs_idle r of None \<Rightarrow> None
     | Some idle \<Rightarrow> foldl (\<lambda>worst loaded. case loaded of None \<Rightarrow> worst
           | Some v \<Rightarrow> let d = max 0 (v - idle) in
               (case worst of None \<Rightarrow> Some d | Some b \<Rightarrow> if d > b then Some d else Some b))
         None [rs_load_down r, rs_load_up r])"

definition better_result :: "string \<Rightarrow> test_result list \<Rightarrow> test_result \<Rightarrow> test_result \<Rightarrow> bool" where
  "better_result dir rnd a b =
     (let sa = round_score a dir rnd; sb = round_score b dir rnd;
          pa = decision_ping_ms a; pb = decision_ping_ms b in
      if sa \<noteq> sb then sa > sb
      else if pa \<noteq> pb then valid_ms pa \<and> (\<not> valid_ms pb \<or> pa < pb)
      else let c = cmp_opt_lower (rs_jitter a) (rs_jitter b) in
        if c \<noteq> 0 then c < 0
        else cmp_opt_lower (bufferbloat_ms a) (bufferbloat_ms b) < 0)"

text \<open>The scan both winner rules share: the position of the last entry that beat the one kept so
  far.\<close>

definition best_by :: "('a \<Rightarrow> 'a \<Rightarrow> bool) \<Rightarrow> 'a list \<Rightarrow> nat" where
  "best_by beats rs = fold (\<lambda>i win. if beats (rs ! i) (rs ! win) then i else win) [1..<length rs] 0"

definition best_index :: "test_result list \<Rightarrow> string \<Rightarrow> nat" where
  "best_index rs dir = best_by (better_result dir rs) rs"

definition lower_ping :: "test_result \<Rightarrow> test_result \<Rightarrow> bool" where
  "lower_ping r b =
     (let rp = decision_ping_ms r; bp = decision_ping_ms b in
      if \<not> valid_ms rp then False else if \<not> valid_ms bp then True else rp < bp)"

definition lowest_ping_index :: "test_result list \<Rightarrow> nat" where
  "lowest_ping_index rs = best_by lower_ping rs"

section \<open>Bytes of a round\<close>

definition total_bytes :: "test_result list \<Rightarrow> int \<times> int" where
  "total_bytes rs = (sum_list (map rs_down_bytes rs), sum_list (map rs_up_bytes rs))"

definition total_extra_bytes :: "test_result list \<Rightarrow> int \<times> int" where
  "total_extra_bytes rs = (sum_list (map rs_extra_down rs), sum_list (map rs_extra_up rs))"

definition fold_round_bytes :: "test_result \<Rightarrow> test_result list \<Rightarrow> int \<Rightarrow> int \<Rightarrow> bool \<Rightarrow> test_result" where
  "fold_round_bytes best results spent_down spent_up keep_losers =
     (let (dn, up) = (if keep_losers then (rs_down_bytes best, rs_up_bytes best) else total_bytes results);
          (xd, xu) = total_extra_bytes results;
          best = best\<lparr>rs_down_bytes := dn + spent_down, rs_extra_down := xd, rs_extra_up := xu\<rparr>
      in if rs_up_bytes best = 0
         then best\<lparr>rs_extra_up := rs_extra_up best + (up + spent_up)\<rparr>
         else best\<lparr>rs_up_bytes := up + spent_up\<rparr>)"

section \<open>The selection report\<close>

record candidate_report =
  cr_id :: string
  cr_server :: string
  cr_distance :: real
  cr_rank_ping :: "real option"
  cr_rank :: nat
  cr_selected :: bool
  cr_measured :: bool
  cr_err :: string
  cr_down :: real
  cr_up :: real
  cr_ping :: real
  cr_ping_best :: "real option"
  cr_jitter :: "real option"
  cr_down_bytes :: int
  cr_up_bytes :: int
  cr_capacity :: real
  cr_believed :: real
  cr_capped :: string
  cr_score :: real
  cr_winner :: bool
  cr_reason :: string

definition blank_row :: candidate_report where
  "blank_row = \<lparr>cr_id = [], cr_server = [], cr_distance = 0, cr_rank_ping = None, cr_rank = 0,
     cr_selected = False, cr_measured = False, cr_err = [], cr_down = 0, cr_up = 0, cr_ping = 0,
     cr_ping_best = None, cr_jitter = None, cr_down_bytes = 0, cr_up_bytes = 0, cr_capacity = 0,
     cr_believed = 0, cr_capped = [], cr_score = 0, cr_winner = False, cr_reason = []\<rparr>"

definition candidate_rows :: "net_server list \<Rightarrow> (string \<rightharpoonup> real) \<Rightarrow> candidate_report list" where
  "candidate_rows ranked rank_pings = map (\<lambda>(i, s). blank_row\<lparr>cr_id := ns_id s, cr_server := server_label s,
     cr_distance := ns_distance s, cr_rank_ping := rank_pings (ns_id s), cr_rank := i + 1\<rparr>) (enumerate 0 ranked)"

definition pinned_row :: "net_server \<Rightarrow> bool \<Rightarrow> candidate_report" where
  "pinned_row s selected = blank_row\<lparr>cr_id := ns_id s, cr_server := server_label s, cr_distance := ns_distance s,
     cr_rank := 0, cr_selected := selected\<rparr>"

text \<open>The last result of an id wins its row, as the map the code builds.\<close>

definition result_by_id :: "test_result list \<Rightarrow> string \<rightharpoonup> test_result" where
  "result_by_id results = map_of (rev (map (\<lambda>r. (rs_server_id r, r)) results))"

definition finish_row ::
  "test_result list \<Rightarrow> (string \<rightharpoonup> string) \<Rightarrow> string \<Rightarrow> string \<Rightarrow> string \<Rightarrow> candidate_report \<Rightarrow> candidate_report" where
  "finish_row results errs dir winner reason c0 =
     (let c = (case errs (cr_id c0) of Some e \<Rightarrow> c0\<lparr>cr_err := e\<rparr> | None \<Rightarrow> c0) in
      case result_by_id results (cr_id c) of
        None \<Rightarrow> c
      | Some r \<Rightarrow>
          let (bad_down, bad_up) = implausible_directions results;
              cd = bad_down \<and> rs_down r > middle_of results rs_down;
              cu = bad_up \<and> rs_up r > middle_of results rs_up;
              c = c\<lparr>cr_measured := True, cr_down := rs_down r, cr_up := rs_up r, cr_ping := rs_ping r,
                    cr_ping_best := rs_ping_best r, cr_jitter := rs_jitter r,
                    cr_down_bytes := rs_down_bytes r, cr_up_bytes := rs_up_bytes r,
                    cr_capacity := result_capacity r dir,
                    cr_believed := believable_capacity r dir results,
                    cr_capped := (if cd \<and> cu then ''down,up'' else if cd then ''down'' else if cu then ''up'' else []),
                    cr_score := round_score r dir results\<rparr>
          in if cr_id c = winner then c\<lparr>cr_winner := True, cr_reason := reason\<rparr> else c)"

definition finish_selection ::
  "candidate_report list \<Rightarrow> test_result list \<Rightarrow> (string \<rightharpoonup> string) \<Rightarrow> string \<Rightarrow> string \<Rightarrow> string \<Rightarrow> candidate_report list" where
  "finish_selection cands results errs dir winner reason = map (finish_row results errs dir winner reason) cands"

definition challenge_run :: "string \<Rightarrow> bool" where
  "challenge_run reason \<longleftrightarrow> reason = ''challenger'' \<or> reason = ''challenger_won'' \<or> reason = ''challenger_failed''"

definition challenge_lost :: "string \<Rightarrow> bool" where
  "challenge_lost reason \<longleftrightarrow> reason = ''challenger''"

definition pinned_run :: "string \<Rightarrow> bool" where
  "pinned_run reason \<longleftrightarrow> reason = ''pinned'' \<or> reason = ''pinned_bestof'' \<or> reason = ''pinned_companion''"

end
