(* ===== verification/SelectionFacts.thy ===== *)
theory SelectionFacts
  imports Selection "HOL-Library.Multiset" "HOL-Library.Product_Lexorder"
begin

text \<open>
  Facts about the selection: the trim keeps its cap and seats the ISP, a reordering moves one
  server to the head and leaves the others in order, the winner of a round is beaten by nobody,
  and a reading the rest of the round contradicts is capped.
\<close>

section \<open>The trim\<close>

lemma trim_fill_length:
  "length cand \<le> cap \<Longrightarrow> trim_fill cap isp taken pool cand seen dupes = (cand', dupes') \<Longrightarrow> length cand' \<le> cap"
  by (induction cap isp taken pool cand seen dupes rule: trim_fill.induct) (auto split: if_splits)

lemma trim_fill_set:
  "trim_fill cap isp taken pool cand seen dupes = (cand', dupes') \<Longrightarrow>
     set cand' \<union> set dupes' \<subseteq> set cand \<union> set dupes \<union> snd ` set pool"
  by (induction cap isp taken pool cand seen dupes rule: trim_fill.induct) (force split: if_splits)+

text \<open>Nothing is used twice: an entry of the result is one of those already in, or one of the pool
  that was not taken.\<close>

lemma trim_fill_count:
  "trim_fill cap isp taken pool cand seen dupes = (cand', dupes') \<Longrightarrow>
     count (mset (cand' @ dupes')) x \<le>
     count (mset (cand @ dupes @ map snd (filter (\<lambda>(i, s). i \<notin> taken) pool))) x"
  by (induction cap isp taken pool cand seen dupes rule: trim_fill.induct) (fastforce split: if_splits)+

lemma distinct_if_count: "(\<And>x. count (mset ys) x \<le> 1) \<Longrightarrow> distinct ys"
proof (induction ys)
  case (Cons a ys)
  have "count (mset ys) x \<le> 1" for x
    by (rule order_trans[OF _ Cons.prems[of x]]) simp
  moreover have "count (mset ys) a = 0" using Cons.prems[of a] by simp
  then have "a \<notin> set ys" by (metis count_mset_0_iff)
  ultimately show ?case using Cons.IH by simp
qed simp

lemma trim_fill_distinct:
  assumes "trim_fill cap isp taken pool cand seen dupes = (cand', dupes')"
    and "distinct (cand @ dupes @ map snd (filter (\<lambda>(i, s). i \<notin> taken) pool))"
  shows "distinct (cand' @ dupes')"
proof -
  have le: "count (mset (cand' @ dupes')) x \<le> 1" for x
  proof -
    have "count (mset (cand @ dupes @ map snd (filter (\<lambda>(i, s). i \<notin> taken) pool))) x \<le> 1"
      using assms(2) unfolding distinct_count_atmost_1 by (simp split: if_splits)
    then show ?thesis using trim_fill_count[OF assms(1), of x] by (rule order_trans[rotated])
  qed
  then show ?thesis by (rule distinct_if_count)
qed

lemma enumerate_snd: "snd ` set (enumerate n xs) = set xs"
  by (metis list.set_map map_snd_enumerate)

lemma lanes_facts:
  fixes cap isp_max isp pool
  defines "lanes \<equiv> isp_lanes cap isp_max isp pool"
  shows "length lanes \<le> min isp_max cap" and "set lanes \<subseteq> set (enumerate 0 pool)"
    and "distinct pool \<Longrightarrow> distinct (map snd lanes)"
    and "\<forall>(i, s) \<in> set lanes. sponsor_matches_isp (ns_sponsor s) isp"
proof -
  let ?own = "filter (\<lambda>(i, s). sponsor_matches_isp (ns_sponsor s) isp) (enumerate 0 pool)"
  have l: "lanes = (if isp = [] then [] else take (min isp_max cap) ?own)"
    by (simp add: lanes_def isp_lanes_def)
  show "length lanes \<le> min isp_max cap" by (auto simp: l)
  have sub: "set lanes \<subseteq> set ?own" by (auto simp: l dest: in_set_takeD)
  then show "set lanes \<subseteq> set (enumerate 0 pool)"
    and "\<forall>(i, s) \<in> set lanes. sponsor_matches_isp (ns_sponsor s) isp" by auto
  show "distinct (map snd lanes)" if "distinct pool"
  proof -
    have "distinct (map snd (enumerate 0 pool))" using that by simp
    then have "distinct (map snd ?own)" by (rule distinct_map_filter)
    then show ?thesis by (simp add: l take_map[symmetric])
  qed
qed

lemma trim_pool_facts:
  fixes pool isp cap isp_max
  defines "out \<equiv> trim_pool pool isp cap isp_max"
  shows "length out \<le> cap" and "set out \<subseteq> set pool" and "distinct pool \<Longrightarrow> distinct out"
proof -
  let ?lanes = "isp_lanes cap isp_max isp pool"
  obtain cand dupes where f: "trim_fill cap isp (fst ` set ?lanes) (enumerate 0 pool)
      (map snd ?lanes) (map (ns_sponsor \<circ> snd) ?lanes) [] = (cand, dupes)" by (metis surj_pair)
  have out: "out = (if length pool > cap then cand @ take (cap - length cand) dupes else pool)"
    using f by (simp add: out_def trim_pool_def Let_def)
  have len: "length cand \<le> cap"
    using trim_fill_length[OF _ f] lanes_facts(1)[of cap isp_max isp pool] by simp
  then show "length out \<le> cap" by (auto simp: out)
  have "snd ` set ?lanes \<subseteq> set pool"
    using image_mono[OF lanes_facts(2)[of cap isp_max isp pool], of snd] by (simp add: enumerate_snd)
  then have "set cand \<union> set dupes \<subseteq> set pool"
    using trim_fill_set[OF f] by (simp add: enumerate_snd) blast
  then show "set out \<subseteq> set pool" by (auto simp: out dest: in_set_takeD)
  show "distinct out" if "distinct pool"
  proof -
    have apart: "s \<notin> set (map snd ?lanes)" if "(i, s) \<in> set (enumerate 0 pool)" "i \<notin> fst ` set ?lanes" for i s
    proof
      assume "s \<in> set (map snd ?lanes)"
      then obtain j where j: "(j, s) \<in> set ?lanes" by auto
      then have "(j, s) \<in> set (enumerate 0 pool)" using lanes_facts(2) by blast
      then have "j = i" using that(1) \<open>distinct pool\<close>
        by (auto simp: in_set_enumerate_eq nth_eq_iff_index_eq)
      then show False using that(2) j by force
    qed
    have "distinct (map snd (filter (\<lambda>(i, s). i \<notin> fst ` set ?lanes) (enumerate 0 pool)))"
      using \<open>distinct pool\<close> by (intro distinct_map_filter) simp
    moreover have "set (map snd ?lanes) \<inter>
        set (map snd (filter (\<lambda>(i, s). i \<notin> fst ` set ?lanes) (enumerate 0 pool))) = {}"
    proof -
      have "x \<notin> set (map snd ?lanes)"
        if "x \<in> set (map snd (filter (\<lambda>(i, s). i \<notin> fst ` set ?lanes) (enumerate 0 pool)))" for x
        using that apart by fastforce
      then show ?thesis by blast
    qed
    ultimately have "distinct (cand @ dupes)"
      using lanes_facts(3)[OF \<open>distinct pool\<close>, of cap isp_max isp]
      by (intro trim_fill_distinct[OF f]) (simp only: distinct_append append_Nil)
    then show ?thesis using that by (auto simp: out dest: in_set_takeD)
  qed
qed

lemma trim_to_cap_facts:
  fixes pool sorted_list isp cap isp_max
  defines "out \<equiv> trim_to_cap pool sorted_list isp cap isp_max"
  shows "length out \<le> cap" and "set out \<subseteq> set pool \<union> set sorted_list" and "distinct pool \<Longrightarrow> distinct out"
    and "0 < cap \<Longrightarrow> isp \<noteq> [] \<Longrightarrow> s \<in> set sorted_list \<Longrightarrow> sponsor_matches_isp (ns_sponsor s) isp \<Longrightarrow>
      \<exists>t \<in> set out. sponsor_matches_isp (ns_sponsor t) isp"
proof -
  let ?cand = "trim_pool pool isp cap isp_max" and ?own = "\<lambda>s. sponsor_matches_isp (ns_sponsor s) isp"
  note c = trim_pool_facts[of pool isp cap isp_max]
  consider (kept) "out = ?cand" "isp = [] \<or> list_ex ?own ?cand \<or> find ?own sorted_list = None"
    | (seat) t where "find ?own sorted_list = Some t" "isp \<noteq> []" "\<not> list_ex ?own ?cand"
        "out = (if length ?cand < cap then ?cand @ [t] else ?cand[length ?cand - 1 := t])"
    by (cases "isp = [] \<or> list_ex ?own ?cand") (auto simp: out_def trim_to_cap_def Let_def split: option.splits)
  then have "length out \<le> cap \<and> set out \<subseteq> set pool \<union> set sorted_list \<and> (distinct pool \<longrightarrow> distinct out) \<and>
    (0 < cap \<longrightarrow> isp \<noteq> [] \<longrightarrow> (\<exists>s \<in> set sorted_list. ?own s) \<longrightarrow> (\<exists>t \<in> set out. ?own t))"
  proof cases
    case kept
    then show ?thesis using c by (auto simp: find_None_iff list_ex_iff)
  next
    case seat
    have t: "t \<in> set sorted_list" "?own t" "t \<notin> set ?cand"
      using seat(1,3) by (auto simp: find_Some_iff list_ex_iff)
    show ?thesis
    proof (cases "length ?cand < cap")
      case True
      then show ?thesis using seat(4) t c by auto
    next
      case False
      then have "length ?cand = cap" using c(1) by simp
      then have "0 < cap \<Longrightarrow> t \<in> set (?cand[length ?cand - 1 := t])"
        by (intro set_update_memI) simp
      then show ?thesis
        using False seat(4) t c set_update_subset_insert[of ?cand "length ?cand - 1" t]
        by (auto simp: distinct_list_update)
    qed
  qed
  then show "length out \<le> cap" "set out \<subseteq> set pool \<union> set sorted_list" "distinct pool \<Longrightarrow> distinct out"
    "0 < cap \<Longrightarrow> isp \<noteq> [] \<Longrightarrow> s \<in> set sorted_list \<Longrightarrow> sponsor_matches_isp (ns_sponsor s) isp \<Longrightarrow>
      \<exists>t \<in> set out. sponsor_matches_isp (ns_sponsor t) isp" by auto
qed

section \<open>Reordering\<close>

lemma first_index_Some:
  "first_index P xs = Some i \<longleftrightarrow> i < length xs \<and> P (xs ! i) \<and> (\<forall>j < i. \<not> P (xs ! j))"
  by (auto simp: first_index_def find_Some_iff)

lemma takeWhile_index: "i < length (takeWhile P xs) \<Longrightarrow> i < length xs \<and> takeWhile P xs ! i = xs ! i \<and> P (xs ! i)"
  by (metis length_takeWhile_le less_le_trans nth_mem set_takeWhileD takeWhile_nth)

lemma move_front_mset: "i < length xs \<Longrightarrow> mset (move_front i xs) = mset xs"
  using arg_cong[OF id_take_nth_drop, of i xs mset] by (simp add: move_front_def)

text \<open>A reordering of the ranked list either leaves it or moves one answered server of the band to
  the head.\<close>

lemma promote_incumbent_facts:
  assumes "promote_incumbent ranked incumbent isp = (out, i, why)"
  shows "out = (if why = [] then ranked else move_front i ranked)"
    and "why \<noteq> [] \<Longrightarrow> 0 < i \<and> i < length ranked \<and>
      in_band (ns_latency (ranked ! 0) + rank_margin (ns_latency (ranked ! 0))) (ranked ! i) \<and>
      (why = ''incumbent'' \<and> ns_id (ranked ! i) = incumbent \<or>
       why = ''on_net'' \<and> sponsor_matches_isp (ns_sponsor (ranked ! i)) isp)"
  using assms
  by (auto simp: promote_incumbent_def Let_def first_index_Some split: if_splits option.splits
      dest!: takeWhile_index)

lemma challenge_incumbent_facts:
  assumes "challenge_incumbent ranked incumbent = (out, i, why)"
  shows "out = (if i = 0 then ranked else move_front i ranked)" and "i < length ranked \<or> why = [] \<and> i = 0"
    and "why \<noteq> [] \<Longrightarrow> ns_id (out ! 0) \<noteq> incumbent \<and> ns_latency (out ! 0) > 0 \<and>
      (\<exists>s \<in> set ranked. ns_id s = incumbent \<and>
         in_band (ns_latency (ranked ! 0) + rank_margin (ns_latency (ranked ! 0))) s)"
    and "why = [] \<Longrightarrow> i = 0"
proof -
  have band: "\<exists>s \<in> set ranked. ns_id s = incumbent \<and> in_band limit s"
    if "first_index (\<lambda>s. ns_id s = incumbent) (takeWhile (in_band limit) ranked) = Some k" for k limit
    using that by (auto simp: first_index_Some dest!: takeWhile_index)
  show "out = (if i = 0 then ranked else move_front i ranked)" "i < length ranked \<or> why = [] \<and> i = 0"
    "why = [] \<Longrightarrow> i = 0"
    using assms by (auto simp: challenge_incumbent_def Let_def first_index_Some split: if_splits option.splits
        dest!: takeWhile_index)
  show "why \<noteq> [] \<Longrightarrow> ns_id (out ! 0) \<noteq> incumbent \<and> ns_latency (out ! 0) > 0 \<and>
      (\<exists>s \<in> set ranked. ns_id s = incumbent \<and>
         in_band (ns_latency (ranked ! 0) + rank_margin (ns_latency (ranked ! 0))) s)"
  proof -
    assume "why \<noteq> []"
    moreover have "ns_id (ranked ! k) \<noteq> incumbent \<and> ns_latency (ranked ! k) > 0"
      if "first_index (\<lambda>s. ns_id s \<noteq> incumbent) (takeWhile (\<lambda>s. ns_latency s > 0) ranked) = Some k" for k
      using that by (auto simp: first_index_Some dest!: takeWhile_index)
    ultimately show ?thesis
      using assms band by (auto simp: challenge_incumbent_def Let_def move_front_def split: if_splits option.splits)
  qed
qed

section \<open>Rankings\<close>

text \<open>What a comparison has to satisfy for the scan to end on an entry nobody beats: asymmetry, and
  that who beats \<open>c\<close> beats \<open>b\<close> or is beaten through it.\<close>

locale ranking =
  fixes ok :: "'a \<Rightarrow> bool" and beats :: "'a \<Rightarrow> 'a \<Rightarrow> bool"
  assumes asym: "ok a \<Longrightarrow> ok b \<Longrightarrow> beats a b \<Longrightarrow> \<not> beats b a"
    and via: "ok a \<Longrightarrow> ok b \<Longrightarrow> ok c \<Longrightarrow> beats a c \<Longrightarrow> beats a b \<or> beats b c"
begin

lemma scan_unbeaten:
  assumes "list_all ok rs" and "n < length rs"
  defines "win \<equiv> fold (\<lambda>i win. if beats (rs ! i) (rs ! win) then i else win) [1..<Suc n] 0"
  shows "win \<le> n \<and> (\<forall>j \<le> n. \<not> beats (rs ! j) (rs ! win)) \<and> (\<forall>j < win. beats (rs ! win) (rs ! j))"
  using assms(2) unfolding win_def
proof (induction n)
  case 0
  then have "ok (rs ! 0)" using assms(1) by (simp add: list_all_length)
  then show ?case using asym[of "rs ! 0" "rs ! 0"] by auto
next
  case (Suc n)
  define w where "w = fold (\<lambda>i win. if beats (rs ! i) (rs ! win) then i else win) [1..<Suc n] 0"
  have IH: "w \<le> n" "\<And>j. j \<le> n \<Longrightarrow> \<not> beats (rs ! j) (rs ! w)" "\<And>j. j < w \<Longrightarrow> beats (rs ! w) (rs ! j)"
    using Suc.IH[OF Suc_lessD[OF Suc.prems]] unfolding w_def[symmetric] by blast+
  have ok: "ok (rs ! j)" if "j \<le> Suc n" for j using that Suc.prems assms(1) by (auto simp: list_all_length)
  have step: "fold (\<lambda>i win. if beats (rs ! i) (rs ! win) then i else win) [1..<Suc (Suc n)] 0 =
      (if beats (rs ! Suc n) (rs ! w) then Suc n else w)"
    by (simp add: w_def)
  show ?case
  proof (cases "beats (rs ! Suc n) (rs ! w)")
    case True
    have new: "beats (rs ! Suc n) (rs ! j)" if "j \<le> n" for j
      using via[OF ok ok ok, of "Suc n" j w] True IH(1,2) that by auto
    then have "\<not> beats (rs ! j) (rs ! Suc n)" if "j \<le> Suc n" for j
      using asym[OF ok ok, of "Suc n" j] asym[OF ok ok, of "Suc n" "Suc n"] that by (cases "j = Suc n") auto
    then show ?thesis unfolding step using True new by auto
  next
    case False
    then show ?thesis unfolding step using IH by (auto simp: le_Suc_eq)
  qed
qed

lemma best_unbeaten:
  assumes "list_all ok rs" and "rs \<noteq> []"
  shows "best_by beats rs < length rs"
    and "j < length rs \<Longrightarrow> \<not> beats (rs ! j) (rs ! best_by beats rs)"
    and "j < best_by beats rs \<Longrightarrow> beats (rs ! best_by beats rs) (rs ! j)"
proof -
  have "length rs = Suc (length rs - 1)" using assms(2) by (cases rs) auto
  then have "best_by beats rs = fold (\<lambda>i win. if beats (rs ! i) (rs ! win) then i else win)
      [1..<Suc (length rs - 1)] 0" by (simp add: best_by_def)
  then have "best_by beats rs \<le> length rs - 1 \<and>
      (\<forall>j \<le> length rs - 1. \<not> beats (rs ! j) (rs ! best_by beats rs)) \<and>
      (\<forall>j < best_by beats rs. beats (rs ! best_by beats rs) (rs ! j))"
    using scan_unbeaten[OF assms(1), of "length rs - 1"] assms(2) by (metis diff_less length_greater_0_conv zero_less_one)
  with assms(2) show "best_by beats rs < length rs"
    and "j < length rs \<Longrightarrow> \<not> beats (rs ! j) (rs ! best_by beats rs)"
    and "j < best_by beats rs \<Longrightarrow> beats (rs ! best_by beats rs) (rs ! j)"
    by (simp_all add: Suc_le_eq[symmetric] less_Suc_eq_le neq_Nil_conv) (auto simp: less_Suc_eq_le)
qed

end

text \<open>A measurement that carries no negative ping (an unmeasured one is zero).\<close>

definition proper :: "test_result \<Rightarrow> bool" where
  "proper r \<longleftrightarrow> 0 \<le> rs_ping r"

lemma proper_ping: "proper r \<Longrightarrow> 0 \<le> decision_ping_ms r"
  by (auto simp: proper_def decision_ping_ms_def valid_ms_def split: option.splits)

text \<open>The comparison is a lexicographic one; a missing value comes last.\<close>

definition last_if_missing :: "real option \<Rightarrow> bool \<times> real" where
  "last_if_missing v = (case v of None \<Rightarrow> (True, 0) | Some x \<Rightarrow> (False, x))"

lemma cmp_opt_lower_key:
  "cmp_opt_lower a b < 0 \<longleftrightarrow> last_if_missing a < last_if_missing b"
  "cmp_opt_lower a b = 0 \<longleftrightarrow> last_if_missing a = last_if_missing b"
  by (auto simp: cmp_opt_lower_def last_if_missing_def split: option.splits)

definition result_key :: "string \<Rightarrow> test_result list \<Rightarrow> test_result \<Rightarrow>
    real \<times> (bool \<times> real) \<times> (bool \<times> real) \<times> bool \<times> real" where
  "result_key dir rnd r = (- round_score r dir rnd, (\<not> valid_ms (decision_ping_ms r), decision_ping_ms r),
     last_if_missing (rs_jitter r), last_if_missing (bufferbloat_ms r))"

lemma better_result_key:
  assumes "proper a" and "proper b"
  shows "better_result dir rnd a b \<longleftrightarrow> result_key dir rnd a < result_key dir rnd b"
proof -
  have "(if pa \<noteq> pb then valid_ms pa \<and> (\<not> valid_ms pb \<or> pa < pb) else c) \<longleftrightarrow>
    (\<not> valid_ms pa, pa) < (\<not> valid_ms pb, pb) \<or> pa = pb \<and> c" if "0 \<le> pa" "0 \<le> pb" for pa pb c
    using that by (auto simp: valid_ms_def)
  note ping = this[OF proper_ping[OF assms(1)] proper_ping[OF assms(2)]]
  show ?thesis
    unfolding better_result_def Let_def ping
    by (auto simp: result_key_def cmp_opt_lower_key)
qed

interpretation rounds: ranking proper "better_result dir rnd"
  by unfold_locales (auto simp: better_result_key)

interpretation pings: ranking "\<lambda>_. True" lower_ping
  by unfold_locales (auto simp: lower_ping_def Let_def valid_ms_def split: if_splits)

interpretation racers: ranking "\<lambda>_. True" rank_less
  by unfold_locales (auto simp: rank_less_def split: if_splits)

section \<open>The believability of a reading\<close>

lemma positive_readings_facts:
  "sorted (positive_readings pick rs)" "v \<in> set (positive_readings pick rs) \<Longrightarrow> 0 < v"
  by (auto simp: positive_readings_def)

lemma middle_of_nonneg: "0 \<le> middle_of rs pick"
proof (cases "positive_readings pick rs = []")
  case False
  then have "positive_readings pick rs ! (length (positive_readings pick rs) div 2) \<in> set (positive_readings pick rs)"
    by (intro nth_mem) (simp add: div_less_dividend)
  then have "0 < positive_readings pick rs ! (length (positive_readings pick rs) div 2)"
    by (rule positive_readings_facts(2))
  then show ?thesis by (simp add: middle_of_def Let_def)
qed (simp add: middle_of_def)

lemma believable_down:
  "believable_capacity r ''down'' rs =
     (if fst (implausible_directions rs) then min (max 0 (rs_down r)) (middle_of rs rs_down)
      else max 0 (rs_down r))"
  using middle_of_nonneg[of rs rs_down]
  by (auto simp: believable_capacity_def result_capacity_def Let_def split: prod.split)

lemma believable_up:
  "believable_capacity r ''up'' rs =
     (if snd (implausible_directions rs) then min (max 0 (rs_up r)) (middle_of rs rs_up)
      else max 0 (rs_up r))"
  using middle_of_nonneg[of rs rs_up]
  by (auto simp: believable_capacity_def result_capacity_def Let_def split: prod.split)

text \<open>What convicts a reading: three of them at least, the top one above twice the middle, and the
  others within the spread of each other.\<close>

lemma beyond_round_iff:
  "beyond_round pick rs \<longleftrightarrow> (let vals = positive_readings pick rs in
     3 \<le> length vals \<and> last vals > 2 * vals ! (length vals div 2) \<and>
     (\<forall>x \<in> set (butlast vals). \<forall>y \<in> set (butlast vals). x \<le> y * consensus_spread))"
proof -
  define vals where "vals = positive_readings pick rs"
  define rest where "rest = take (length vals - 1) vals"
  have srt: "sorted vals" and pos: "\<And>v. v \<in> set vals \<Longrightarrow> 0 < v"
    using positive_readings_facts by (auto simp: vals_def)
  show ?thesis
  proof (cases "3 \<le> length vals")
    case True
    have mid: "0 < vals ! (length vals div 2)" using True by (intro pos nth_mem) simp
    have rest: "rest = butlast vals" "length rest = length vals - 1"
      by (simp_all add: rest_def butlast_conv_take)
    have ne: "rest \<noteq> []" using True rest(2) by auto
    have srest: "sorted rest" using srt by (simp add: rest_def sorted_wrt_take)
    have first: "rest ! 0 \<in> set rest" "rest ! (length rest - 1) \<in> set rest"
      using ne by auto
    have bounds: "rest ! 0 \<le> x \<and> x \<le> rest ! (length rest - 1)" if "x \<in> set rest" for x
      using that srest by (auto simp: in_set_conv_nth intro!: sorted_nth_mono)
    have p0: "0 < rest ! 0" using first(1) pos by (auto simp: rest_def dest: in_set_takeD)
    have "rest ! (length rest - 1) \<le> rest ! 0 * consensus_spread \<longleftrightarrow>
      (\<forall>x \<in> set rest. \<forall>y \<in> set rest. x \<le> y * consensus_spread)"
    proof
      assume h: "rest ! (length rest - 1) \<le> rest ! 0 * consensus_spread"
      show "\<forall>x \<in> set rest. \<forall>y \<in> set rest. x \<le> y * consensus_spread"
      proof (intro ballI)
        fix x y assume "x \<in> set rest" "y \<in> set rest"
        then have "x \<le> rest ! 0 * consensus_spread" "rest ! 0 * consensus_spread \<le> y * consensus_spread"
          using bounds[of x] bounds[of y] h by (auto simp: consensus_spread_def)
        then show "x \<le> y * consensus_spread" by linarith
      qed
    qed (use first in blast)
    moreover have "last vals = vals ! (length vals - 1)" using True by (intro last_conv_nth) auto
    ultimately show ?thesis
      using True mid p0 unfolding beyond_round_def vals_def[symmetric] Let_def rest_def[symmetric] rest(1)[symmetric]
      by (auto simp: implausible_factor_def mult.commute)
  qed (simp add: beyond_round_def vals_def[symmetric] Let_def)
qed

section \<open>The challenge\<close>

lemma history_good_median:
  assumes "3 \<le> length history" and "\<forall>x \<in> set history. 0 < x"
  shows "history_median history \<le> history_good history" "0 < history_good history"
proof -
  let ?h = "sort history" and ?n = "length history"
  have mono: "i \<le> j \<Longrightarrow> j < ?n \<Longrightarrow> ?h ! i \<le> ?h ! j" for i j by (simp add: sorted_nth_mono)
  have ne: "history \<noteq> []" using assms(1) by auto
  have good: "history_good history = ?h ! (if ?n \<ge> 5 then ?n - 2 else ?n - 1)"
    using ne by (simp add: history_good_def Let_def)
  define g where "g = (if ?n \<ge> 5 then ?n - 2 else ?n - 1)"
  have g: "?n div 2 \<le> g" "g < ?n" using assms(1) by (auto simp: g_def)
  have "?h ! (?n div 2 - 1) \<le> ?h ! g" "?h ! (?n div 2) \<le> ?h ! g" using mono g by auto
  then show "history_median history \<le> history_good history"
    using ne good by (auto simp: history_median_def Let_def g_def[symmetric])
  have "?h ! g \<in> set history" using g(2) by (metis length_sort nth_mem set_sort)
  then show "0 < history_good history" using assms(2) good by (simp add: g_def[symmetric])
qed

section \<open>Bytes\<close>

definition billed :: "test_result \<Rightarrow> int" where
  "billed r = rs_down_bytes r + rs_up_bytes r + rs_extra_down r + rs_extra_up r"

definition moved :: "test_result list \<Rightarrow> int" where
  "moved rs = sum_list (map billed rs)"

lemma moved_totals:
  "moved rs = fst (total_bytes rs) + snd (total_bytes rs) + fst (total_extra_bytes rs) + snd (total_extra_bytes rs)"
  by (induction rs) (auto simp: moved_def billed_def total_bytes_def total_extra_bytes_def)

lemma sum_list_remove:
  "win < length rs \<Longrightarrow> sum_list (map f rs) = (f (rs ! win) :: int) + sum_list (map f (take win rs @ drop (Suc win) rs))"
  using arg_cong[OF id_take_nth_drop, of win rs "\<lambda>xs. sum_list (map f xs)"] by simp

end
