(* ===== verification/SelectionProps.thy ===== *)
theory SelectionProps
  imports SelectionFacts
begin

text \<open>
  Properties of the server selection, each with a concrete instance.
\<close>

definition eg_result :: "string \<Rightarrow> real \<Rightarrow> real \<Rightarrow> real \<Rightarrow> test_result" where
  "eg_result sid down up ping =
     \<lparr>rs_down = down, rs_up = up, rs_ping = ping, rs_jitter = None, rs_server = sid, rs_server_id = sid,
      rs_down_bytes = 1000, rs_up_bytes = (if up > 0 then 500 else 0), rs_extra_down = 7, rs_extra_up = 3,
      rs_ping_best = None, rs_idle = None, rs_load_down = None, rs_load_up = None\<rparr>"

definition eg_server :: "string \<Rightarrow> string \<Rightarrow> duration \<Rightarrow> net_server" where
  "eg_server sid sponsor latency =
     \<lparr>ns_id = sid, ns_sponsor = sponsor, ns_name = ''Town'', ns_distance = 1, ns_latency = latency\<rparr>"

section \<open>The winner of a round\<close>

text \<open>The run a Best-of round keeps is beaten by no measurement of the round and beats every one
  before it, so of equals the earlier is kept; in particular no other score is higher.\<close>

theorem round_winner_unbeaten:
  assumes "rs \<noteq> []" and "list_all proper rs"
  shows "best_index rs dir < length rs \<and>
    (\<forall>j < length rs. \<not> better_result dir rs (rs ! j) (rs ! best_index rs dir) \<and>
       round_score (rs ! j) dir rs \<le> round_score (rs ! best_index rs dir) dir rs) \<and>
    (\<forall>j < best_index rs dir. better_result dir rs (rs ! best_index rs dir) (rs ! j))"
proof -
  note best = rounds.best_unbeaten [where dir = dir and rnd = rs, OF assms(2,1), folded best_index_def]
  have "round_score (rs ! j) dir rs \<le> round_score (rs ! best_index rs dir) dir rs" if "j < length rs" for j
    using best(2) [OF that] by (auto simp: better_result_def Let_def split: if_splits)
  then show ?thesis using best by blast
qed

lemma round_winner_unbeaten_witness:
  "best_index [eg_result ''a'' 90 0 10, eg_result ''b'' 100 0 12, eg_result ''c'' 95 0 9] ''down'' = 1"
proof -
  let ?rs = "[eg_result ''a'' 90 0 10, eg_result ''b'' 100 0 12, eg_result ''c'' 95 0 9]"
  have rs: "?rs \<noteq> []" "list_all proper ?rs" by (simp_all add: proper_def eg_result_def)
  have "\<not> fst (implausible_directions ?rs)"
    by (simp add: implausible_directions_def beyond_round_def positive_readings_def eg_result_def
        implausible_factor_def)
  then have s: "round_score (eg_result x d 0 p) ''down'' ?rs = d * 100 / (100 + p)" if "0 < d" "0 < p" "p \<le> 20" for x d p
    using that by (simp add: round_score_def believable_down decision_ping_ms_def valid_ms_def eg_result_def
        max_score_ping_ms_def ping_weight_ms_def)
  have scores: "round_score (?rs ! 0) ''down'' ?rs < round_score (?rs ! 1) ''down'' ?rs"
    "round_score (?rs ! 2) ''down'' ?rs < round_score (?rs ! 1) ''down'' ?rs"
    using s [of 90 10 "''a''"] s [of 100 12 "''b''"] s [of 95 9 "''c''"] by simp_all
  note win = round_winner_unbeaten [OF rs, of "''down''"]
  have "1 < length ?rs" by simp
  then have top: "round_score (?rs ! 1) ''down'' ?rs \<le> round_score (?rs ! best_index ?rs ''down'') ''down'' ?rs"
    using win by blast
  have len: "best_index ?rs ''down'' < 3" using win by (metis length_Cons list.size(3) numeral_3_eq_3)
  have "best_index ?rs ''down'' \<noteq> 0" "best_index ?rs ''down'' \<noteq> 2"
    using top scores by (metis not_less)+
  then show ?thesis using len by linarith
qed

text \<open>A reading is held down only when the round contradicts it: at least three readings of that
  direction, the top one above twice the middle one, and all the others within a quarter of each
  other; and then exactly to the middle.  Without that consensus every reading counts as measured.\<close>

theorem reading_capped_by_consensus:
  "believable_capacity r ''down'' rs = (let vals = positive_readings rs_down rs; raw = max 0 (rs_down r) in
     if 3 \<le> length rs \<and> 3 \<le> length vals \<and> last vals > 2 * vals ! (length vals div 2) \<and>
        (\<forall>x \<in> set (butlast vals). \<forall>y \<in> set (butlast vals). x \<le> y * consensus_spread)
     then min raw (vals ! (length vals div 2)) else raw)"
proof -
  have "fst (implausible_directions rs) \<longleftrightarrow> 3 \<le> length rs \<and> beyond_round rs_down rs"
    by (simp add: implausible_directions_def)
  moreover have "middle_of rs rs_down = (positive_readings rs_down rs) ! (length (positive_readings rs_down rs) div 2)"
    if "beyond_round rs_down rs" using that by (auto simp: middle_of_def beyond_round_iff Let_def)
  ultimately show ?thesis unfolding believable_down by (simp add: beyond_round_iff Let_def)
qed

lemma reading_capped_by_consensus_witness:
  "believable_capacity (eg_result ''c'' 151 0 9) ''down''
     [eg_result ''a'' 48 0 9, eg_result ''b'' 49 0 9, eg_result ''c'' 151 0 9] = 49 \<and>
   believable_capacity (eg_result ''c'' 500 0 9) ''down''
     [eg_result ''a'' 10 0 9, eg_result ''b'' 20 0 9, eg_result ''c'' 500 0 9] = 500"
  unfolding reading_capped_by_consensus by (simp add: positive_readings_def eg_result_def Let_def consensus_spread_def)

section \<open>Whose turn it is\<close>

text \<open>A challenge is run only against an incumbent that is seated (in the field, answered and
  within the band of the fastest); it measures an answered server that is not the incumbent, and the
  list is otherwise the ranking: the same servers, one of them moved to the head.\<close>

theorem challenge_measures_a_rival:
  assumes "challenge_incumbent ranked incumbent = (out, i, why)"
  shows "mset out = mset ranked \<and> (i \<noteq> 0 \<longrightarrow> out = move_front i ranked) \<and> (why = [] \<longrightarrow> out = ranked) \<and>
    (why \<noteq> [] \<longrightarrow> ns_id (out ! 0) \<noteq> incumbent \<and> ns_latency (out ! 0) > 0 \<and>
       (\<exists>s \<in> set ranked. ns_id s = incumbent \<and> 0 < ns_latency s \<and>
          ns_latency s \<le> ns_latency (ranked ! 0) + rank_margin (ns_latency (ranked ! 0))))"
  using challenge_incumbent_facts [OF assms] move_front_mset [of i ranked]
  by (auto simp: in_band_def)

lemma challenge_measures_a_rival_witness:
  "map ns_id (fst (challenge_incumbent [eg_server ''a'' ''A'' 9000000, eg_server ''b'' ''B'' 10000000] ''a'')) =
     [''b'', ''a'']"
proof -
  let ?l = "[eg_server ''a'' ''A'' 9000000, eg_server ''b'' ''B'' 10000000]"
  have r: "challenge_incumbent ?l ''a'' = (move_front 1 ?l, 1, ''challenger'')"
    by (simp add: challenge_incumbent_def eg_server_def first_index_def in_band_def rank_margin_def
        signed_divide_int_def upt_rec)
  show ?thesis
    using challenge_measures_a_rival [OF r] unfolding r by (simp add: move_front_def eg_server_def)
qed

text \<open>The candidates raced are at most the cap, all from the list, none twice, and include a
  server of the user's own provider whenever the list has one.\<close>

theorem candidates_bounded_and_own_seated:
  assumes "distinct sorted_list"
  shows "length (auto_candidates_n sorted_list isp want) \<le> max want 12 \<and>
    set (auto_candidates_n sorted_list isp want) \<subseteq> set sorted_list \<and>
    distinct (auto_candidates_n sorted_list isp want) \<and>
    (isp \<noteq> [] \<and> (\<exists>s \<in> set sorted_list. sponsor_matches_isp (ns_sponsor s) isp) \<longrightarrow>
       (\<exists>s \<in> set (auto_candidates_n sorted_list isp want). sponsor_matches_isp (ns_sponsor s) isp))"
proof -
  have "max want 12 = (if want > auto_ping_max then want else auto_ping_max)" by (simp add: auto_ping_max_def)
  then obtain n where n: "auto_candidates_n sorted_list isp want =
      trim_to_cap (take n sorted_list) sorted_list isp (max want 12) auto_isp_max"
    unfolding auto_candidates_n_def Let_def by simp
  have sub: "set (trim_to_cap (take n sorted_list) sorted_list isp (max want 12) auto_isp_max) \<subseteq> set sorted_list"
    using trim_to_cap_facts(2) [of "take n sorted_list"] set_take_subset [of n sorted_list] by fastforce
  have seat: "0 < max want (12::nat)" by simp
  show ?thesis
    unfolding n using sub trim_to_cap_facts(1) trim_to_cap_facts(3) [of "take n sorted_list"]
      trim_to_cap_facts(4) [OF seat] assms by (simp add: distinct_take) blast
qed

lemma candidates_bounded_and_own_seated_witness:
  "length (auto_candidates_n [eg_server ''a'' ''A'' 0, eg_server ''b'' ''Beta'' 0] ''Beta'' 1) \<le> 12"
  using candidates_bounded_and_own_seated [of "[eg_server ''a'' ''A'' 0, eg_server ''b'' ''Beta'' 0]" "''Beta''" 1]
  by (simp add: eg_server_def)

text \<open>The believability limit of a challenger lies strictly above the bar it has to clear, for
  every record long enough to judge by, so capping a reading can never turn a win into a loss.\<close>

theorem challenge_cap_above_bar:
  assumes "3 \<le> length history" and "\<forall>x \<in> set history. 0 < x" and "challenge_won score history = (won, bar, med)"
    and "0 < score"
  shows "bar < challenge_believe_factor * history_good history \<and> med \<le> bar \<and> (won \<longleftrightarrow> score > bar)"
proof -
  note g = history_good_median [OF assms(1,2)]
  have b: "med = history_median history" "won \<longleftrightarrow> score > bar"
    "bar = max (history_median history * 115 / 100) (history_good history)"
    using assms(1,3,4) by (auto simp: challenge_won_def challenge_min_history_def challenge_floor_pct_def Let_def)
  then show ?thesis using g by (auto simp: challenge_believe_factor_def max_def)
qed

lemma challenge_cap_above_bar_witness:
  "fst (challenge_won 116 [100, 100, 100]) \<and> \<not> fst (challenge_won 115 [100, 100, 100])"
proof -
  have h: "3 \<le> length [100, 100, 100::real]" "\<forall>x \<in> set [100, 100, 100::real]. 0 < x" by simp_all
  have bar: "fst (snd (challenge_won s [100, 100, 100])) = 115" if "0 < s" for s
    using that by (simp add: challenge_won_def challenge_min_history_def history_median_def history_good_def
        challenge_floor_pct_def Let_def)
  have "fst (challenge_won s [100, 100, 100]) \<longleftrightarrow> s > 115" if "0 < s" for s
    using challenge_cap_above_bar [OF h _ that, of "fst (challenge_won s [100, 100, 100])"] bar [OF that]
    by (cases "challenge_won s [100, 100, 100]") auto
  then show ?thesis by simp
qed

section \<open>What a round cost\<close>

text \<open>However a round is recorded, its rows bill every byte it moved exactly once: with the losers
  discarded the winner's row carries them all, with the losers kept their own rows carry theirs; and a
  winner that measured no upload still shows none.\<close>

theorem round_bytes_billed_once:
  assumes "win < length rs"
  shows "billed (fold_round_bytes (rs ! win) rs sd su keep) +
      (if keep then \<Sum>r \<leftarrow> take win rs @ drop (Suc win) rs. rs_down_bytes r + rs_up_bytes r else 0) =
      moved rs + sd + su \<and>
    (rs_up_bytes (rs ! win) = 0 \<longrightarrow> rs_up_bytes (fold_round_bytes (rs ! win) rs sd su keep) = 0)"
proof -
  have "(\<Sum>r \<leftarrow> rs. rs_down_bytes r + rs_up_bytes r) = fst (total_bytes rs) + snd (total_bytes rs)"
    by (simp add: total_bytes_def sum_list_addf)
  then show ?thesis
    using sum_list_remove [OF assms, of "\<lambda>r. rs_down_bytes r + rs_up_bytes r"]
    by (auto simp: fold_round_bytes_def moved_totals billed_def Let_def split: prod.split)
qed

lemma round_bytes_billed_once_witness:
  "billed (fold_round_bytes (eg_result ''b'' 100 0 12)
     [eg_result ''a'' 90 20 10, eg_result ''b'' 100 0 12] 40 2 False) = 2562"
  using round_bytes_billed_once [of 1 "[eg_result ''a'' 90 20 10, eg_result ''b'' 100 0 12]" 40 2 False]
  by (simp add: moved_def billed_def eg_result_def)

end
