(* ===== verification/Values.thy ===== *)
theory Values
  imports Text SampleBuf
begin

text \<open>
  The runtime settings as data (\<open>internal/settings/settings.go\<close>): the record \<open>Values\<close>, what
  \<open>normalize\<close> makes of it, the saved server lists and the schedule windows.

  A local time is its weekday, hour and minute: the time zone is the caller's.
\<close>

section \<open>Bounds\<close>

definition min_latency_every :: duration where "min_latency_every = second"
definition max_latency :: duration where "max_latency = hour"
definition min_speed :: duration where "min_speed = minute"
definition max_speed :: duration where "max_speed = 24 * hour"
definition min_timeout :: duration where "min_timeout = second"
definition max_timeout :: duration where "max_timeout = 30 * second"
definition min_streak :: int where "min_streak = 1"
definition max_streak :: int where "max_streak = 10"
definition max_duration :: duration where "max_duration = 10 * 365 * 24 * hour"
definition min_iperf_dur :: int where "min_iperf_dur = 1"
definition max_iperf_dur :: int where "max_iperf_dur = 30"
definition min_iperf_streams :: int where "min_iperf_streams = 1"
definition max_iperf_streams :: int where "max_iperf_streams = 32"
definition max_ookla_connections :: int where "max_ookla_connections = 16"
definition max_speed_challenge_every :: int where "max_speed_challenge_every = 1000"
definition max_speed_best_of :: int where "max_speed_best_of = 16"
definition legacy_best_of_count :: int where "legacy_best_of_count = 3"
definition max_iperf_omit :: int where "max_iperf_omit = 5"
definition max_iperf_window :: int where "max_iperf_window = 65536"
definition max_speed_retries :: int where "max_speed_retries = 3"
definition max_iperf_mss :: int where "max_iperf_mss = 9000"
definition max_url :: nat where "max_url = 2048"
definition max_server_addr :: nat where "max_server_addr = 255"
definition max_label_len :: nat where "max_label_len = 120"
definition max_server_id :: nat where "max_server_id = 64"
definition max_user :: nat where "max_user = 128"
definition max_windows :: nat where "max_windows = 12"
definition max_speed_servers :: nat where "max_speed_servers = 12"
definition max_iperf_servers :: nat where "max_iperf_servers = 12"
definition all_days :: string where "all_days = ''1111111''"

lemmas bound_defs = min_latency_every_def max_latency_def min_speed_def max_speed_def min_timeout_def
  max_timeout_def min_streak_def max_streak_def max_duration_def min_iperf_dur_def max_iperf_dur_def
  min_iperf_streams_def max_iperf_streams_def max_ookla_connections_def
  max_speed_challenge_every_def max_speed_best_of_def legacy_best_of_count_def max_iperf_omit_def
  max_iperf_window_def max_speed_retries_def max_iperf_mss_def max_url_def max_server_addr_def
  max_label_len_def max_server_id_def max_user_def max_windows_def max_speed_servers_def
  max_iperf_servers_def all_days_def

section \<open>The record\<close>

record window =
  wi_days :: string
  wi_start :: int
  wi_end :: int

record saved_server =
  ss_id :: string
  ss_sponsor :: string
  ss_name :: string
  ss_country :: string
  ss_lat :: gfloat
  ss_lon :: gfloat

record iperf_target =
  it_label :: string
  it_addr :: string
  it_bind :: string
  it_ipver :: string
  it_auth :: bool
  it_username :: string
  it_password :: string
  it_rsa_key :: string
  it_pkcs1 :: bool

record config_values =
  va_latency :: duration
  va_latency_enabled :: bool
  va_dns_probe :: bool
  va_netinfo_enabled :: bool
  va_speed :: duration
  va_retention :: duration
  va_speed_retention :: duration
  va_downtime_retention :: duration
  va_timeout :: duration
  va_save_every :: duration
  va_down_after :: int
  va_up_after :: int
  va_speed_server_id :: string
  va_speed_servers :: "saved_server list"
  va_speedtest_enabled :: bool
  va_speedtest_on_reconnect :: bool
  va_ipv6_mode :: string
  va_exit_target :: string
  va_monitoring :: bool
  va_thresh_down_mbps :: gfloat
  va_thresh_up_mbps :: gfloat
  va_thresh_ping_ms :: gfloat
  va_thresh_jitter_ms :: gfloat
  va_thresh_loss_pct :: gfloat
  va_thresh_consec :: int
  va_thresh_bloat_down_ms :: gfloat
  va_thresh_bloat_up_ms :: gfloat
  va_alert_on_outage :: bool
  va_webhook_url :: string
  va_webhook_format :: string
  va_heartbeat_url :: string
  va_digest_freq :: string
  va_sched_lat_enabled :: bool
  va_sched_lat_windows :: "window list"
  va_sched_speed_enabled :: bool
  va_sched_speed_windows :: "window list"
  va_access_local_only :: bool
  va_auth_enabled :: bool
  va_auth_user :: string
  va_auth_hash :: string
  va_update_check_enabled :: bool
  va_quick_setup_done :: bool
  va_log_level :: string
  va_log_redact_pii :: bool
  va_speedtest_adaptive :: bool
  va_speedtest_on_degraded :: bool
  va_degraded_ping_ms :: gfloat
  va_speedtest_skip_busy :: bool
  va_speed_busy_mbps :: gfloat
  va_speedtest_record_failures :: bool
  va_speed_engine :: string
  va_iperf_server :: string
  va_iperf_servers :: "iperf_target list"
  va_speed_direction :: string
  va_speed_retries :: int
  va_iperf_direction :: string
  va_iperf_retries :: int
  va_iperf_dur :: int
  va_iperf_streams :: int
  va_iperf_omit :: int
  va_iperf_udp :: bool
  va_iperf_udp_rate :: int
  va_iperf_window :: int
  va_ookla_connections :: int
  va_speed_challenge_every :: int
  va_ookla_loss :: bool
  va_speed_discard_losers :: bool
  va_speed_best_of_count :: int
  va_iperf_congestion :: string
  va_iperf_no_delay :: bool
  va_iperf_dscp :: string
  va_iperf_mss :: int

definition zero_target :: iperf_target where
  "zero_target = \<lparr>it_label = [], it_addr = [], it_bind = [], it_ipver = [], it_auth = False, it_username = [],
     it_password = [], it_rsa_key = [], it_pkcs1 = False\<rparr>"

definition active_iperf :: "config_values \<Rightarrow> iperf_target" where
  "active_iperf v = (case find (\<lambda>t. it_addr t = va_iperf_server v) (va_iperf_servers v) of
     Some t \<Rightarrow> t | None \<Rightarrow> zero_target)"

section \<open>Sealed secrets\<close>

definition seal_prefix :: string where "seal_prefix = ''enc:v1:''"

definition is_sealed :: "string \<Rightarrow> bool" where "is_sealed v = starts_with seal_prefix v"

section \<open>Normalization\<close>

definition clamp_d :: "duration \<Rightarrow> duration \<Rightarrow> duration \<Rightarrow> duration" where
  "clamp_d d lo hi = (if d < lo then lo else if d > hi then hi else d)"

definition clamp_i :: "int \<Rightarrow> int \<Rightarrow> int \<Rightarrow> int" where
  "clamp_i n lo hi = (if n < lo then lo else if n > hi then hi else n)"

definition clamp_f :: "gfloat \<Rightarrow> gfloat \<Rightarrow> gfloat \<Rightarrow> gfloat" where
  "clamp_f f lo hi = (if gf_less f lo then lo else if gf_less hi f then hi else f)"

definition sanitize_thresh :: "gfloat \<Rightarrow> gfloat" where
  "sanitize_thresh f = (case f of Finite q \<Rightarrow> if q < 0 then Finite 0 else f | _ \<Rightarrow> Finite 0)"

definition one_of :: "string list \<Rightarrow> string \<Rightarrow> string \<Rightarrow> string" where
  "one_of allowed fallback s = (if s \<in> set allowed then s else fallback)"

definition valid_coord :: "gfloat \<Rightarrow> gfloat \<Rightarrow> bool" where
  "valid_coord lat lon \<longleftrightarrow> gf_le (Finite (-90)) lat \<and> gf_le lat (Finite 90) \<and>
     gf_le (Finite (-180)) lon \<and> gf_le lon (Finite 180)"

definition norm_days :: "string \<Rightarrow> string" where
  "norm_days s = (if length s \<noteq> 7 then all_days
     else if list_ex (\<lambda>c. c \<noteq> CHR ''0'' \<and> c \<noteq> CHR ''1'') s then all_days else s)"

definition clamp_min :: "int \<Rightarrow> int" where
  "clamp_min m = (if m < 0 then 0 else if m > 1439 then 1439 else m)"

definition sanitize_windows :: "window list \<Rightarrow> window list" where
  "sanitize_windows ws =
     map (\<lambda>w. \<lparr>wi_days = norm_days (wi_days w), wi_start = clamp_min (wi_start w), wi_end = clamp_min (wi_end w)\<rparr>)
       (if length ws > max_windows then take max_windows ws else ws)"

definition sanitize_exit_target :: "string \<Rightarrow> string" where
  "sanitize_exit_target s0 = (let s = trim_space s0 in
     if starts_with ''-'' s \<or> contains_any s blank_chars \<or> length s > 255 then [] else s)"

definition sanitize_iperf_token :: "string \<Rightarrow> string" where
  "sanitize_iperf_token s0 = (let s = trim_space s0 in
     if s = [] \<or> starts_with ''-'' s \<or> contains_any s blank_chars \<or> length s > 32 then [] else s)"

definition clean_server :: "saved_server \<Rightarrow> saved_server" where
  "clean_server s =
     (let ok = valid_coord (ss_lat s) (ss_lon s) in
      \<lparr>ss_id = cap_len (trim_space (ss_id s)) max_server_id,
       ss_sponsor = cap_len (trim_space (ss_sponsor s)) max_label_len,
       ss_name = cap_len (trim_space (ss_name s)) max_label_len,
       ss_country = cap_len (trim_space (ss_country s)) max_label_len,
       ss_lat = (if ok then ss_lat s else Finite 0), ss_lon = (if ok then ss_lon s else Finite 0)\<rparr>)"

text \<open>The scan both saved lists use: cleaned entries whose key is usable and new, until the list is
  full.\<close>

fun keep_first :: "('a \<Rightarrow> 'a) \<Rightarrow> ('a \<Rightarrow> string) \<Rightarrow> (string \<Rightarrow> bool) \<Rightarrow> nat \<Rightarrow> string list \<Rightarrow> 'a list \<Rightarrow> 'a list" where
  "keep_first clean key usable room seen [] = []"
| "keep_first clean key usable room seen (x # xs) =
     (let k = key (clean x) in
      if \<not> usable k \<or> k \<in> set seen then keep_first clean key usable room seen xs
      else clean x # (if room \<le> 1 then [] else keep_first clean key usable (room - 1) (k # seen) xs))"

definition sanitize_speed_servers :: "saved_server list \<Rightarrow> saved_server list" where
  "sanitize_speed_servers = keep_first clean_server ss_id (\<lambda>k. k \<noteq> []) max_speed_servers []"

definition clean_target :: "iperf_target \<Rightarrow> iperf_target" where
  "clean_target t =
     (let bind = trim_space (it_bind t);
          bind = (if starts_with ''-'' bind \<or> contains_any bind blank_chars then [] else bind);
          pw = (if is_sealed (it_password t) then [] else it_password t) in
      \<lparr>it_label = cap_len (trim_space (it_label t)) 60,
       it_addr = cap_len (trim_space (it_addr t)) 255,
       it_bind = cap_len bind 255,
       it_ipver = (if it_ipver t \<noteq> ''4'' \<and> it_ipver t \<noteq> ''6'' then ''auto'' else it_ipver t),
       it_auth = it_auth t,
       it_username = cap_len (trim_space (it_username t)) 120,
       it_password = cap_len pw 255,
       it_rsa_key = cap_len (trim_space (it_rsa_key t)) 8192,
       it_pkcs1 = it_pkcs1 t\<rparr>)"

definition sanitize_iperf_servers :: "iperf_target list \<Rightarrow> iperf_target list" where
  "sanitize_iperf_servers =
     keep_first clean_target it_addr (\<lambda>k. k \<noteq> [] \<and> \<not> starts_with ''-'' k) max_iperf_servers []"

definition norm_user :: "string \<Rightarrow> string" where
  "norm_user s = (let u = cap_len (trim_space s) max_user in if u = [] then ''admin'' else u)"

definition normalize :: "config_values \<Rightarrow> config_values" where
  "normalize v =
     (let lat_windows = sanitize_windows (va_sched_lat_windows v);
          speed_windows = sanitize_windows (va_sched_speed_windows v) in
      v\<lparr>va_latency := clamp_d (va_latency v) min_latency_every max_latency,
        va_speed := clamp_d (va_speed v) min_speed max_speed,
        va_timeout := clamp_d (va_timeout v) min_timeout max_timeout,
        va_save_every := clamp_d (va_save_every v) 0 max_save_every,
        va_retention := clamp_d (va_retention v) 0 max_duration,
        va_speed_retention := clamp_d (va_speed_retention v) 0 max_duration,
        va_downtime_retention := clamp_d (va_downtime_retention v) 0 max_duration,
        va_down_after := clamp_i (va_down_after v) min_streak max_streak,
        va_up_after := clamp_i (va_up_after v) min_streak max_streak,
        va_ipv6_mode := one_of [''on'', ''off'', ''auto''] ''auto'' (va_ipv6_mode v),
        va_webhook_format := one_of [''auto'', ''ntfy'', ''generic''] ''auto'' (va_webhook_format v),
        va_speed_server_id := cap_len (trim_space (va_speed_server_id v)) max_server_id,
        va_speed_servers := sanitize_speed_servers (va_speed_servers v),
        va_exit_target := sanitize_exit_target (va_exit_target v),
        va_log_level := one_of [''debug'', ''info'', ''warn'', ''error'', ''off''] ''info'' (va_log_level v),
        va_thresh_down_mbps := sanitize_thresh (va_thresh_down_mbps v),
        va_thresh_up_mbps := sanitize_thresh (va_thresh_up_mbps v),
        va_thresh_ping_ms := sanitize_thresh (va_thresh_ping_ms v),
        va_thresh_jitter_ms := sanitize_thresh (va_thresh_jitter_ms v),
        va_thresh_loss_pct :=
          (let loss = sanitize_thresh (va_thresh_loss_pct v) in if gf_less (Finite 100) loss then Finite 100 else loss),
        va_thresh_bloat_down_ms := sanitize_thresh (va_thresh_bloat_down_ms v),
        va_thresh_bloat_up_ms := sanitize_thresh (va_thresh_bloat_up_ms v),
        va_degraded_ping_ms := clamp_f (sanitize_thresh (va_degraded_ping_ms v)) (Finite 0) (Finite 5000),
        va_speed_busy_mbps := clamp_f (sanitize_thresh (va_speed_busy_mbps v)) (Finite 0) (Finite 10000),
        va_thresh_consec := clamp_i (va_thresh_consec v) min_streak max_streak,
        va_webhook_url := cap_len (trim_space (va_webhook_url v)) max_url,
        va_heartbeat_url := cap_len (trim_space (va_heartbeat_url v)) max_url,
        va_digest_freq := one_of [''daily'', ''weekly''] ''off'' (va_digest_freq v),
        va_speed_engine := one_of [''ookla'', ''iperf3''] ''ookla'' (va_speed_engine v),
        va_iperf_server := cap_len (trim_space (va_iperf_server v)) max_server_addr,
        va_iperf_servers := sanitize_iperf_servers (va_iperf_servers v),
        va_iperf_dur := clamp_i (va_iperf_dur v) min_iperf_dur max_iperf_dur,
        va_iperf_streams := clamp_i (va_iperf_streams v) min_iperf_streams max_iperf_streams,
        va_ookla_connections := clamp_i (va_ookla_connections v) 0 max_ookla_connections,
        va_speed_challenge_every := clamp_i (va_speed_challenge_every v) 0 max_speed_challenge_every,
        va_speed_best_of_count := clamp_i (va_speed_best_of_count v) 1 max_speed_best_of,
        va_iperf_omit := clamp_i (va_iperf_omit v) 0 max_iperf_omit,
        va_speed_direction := one_of [''both'', ''down'', ''up''] ''both'' (va_speed_direction v),
        va_iperf_direction := one_of [''both'', ''down'', ''up'', ''bidir''] ''both'' (va_iperf_direction v),
        va_iperf_udp_rate := clamp_i (va_iperf_udp_rate v) 0 10000,
        va_iperf_window := clamp_i (va_iperf_window v) 0 max_iperf_window,
        va_speed_retries := clamp_i (va_speed_retries v) 0 max_speed_retries,
        va_iperf_retries := clamp_i (va_iperf_retries v) 0 max_speed_retries,
        va_iperf_congestion := sanitize_iperf_token (va_iperf_congestion v),
        va_iperf_dscp := sanitize_iperf_token (va_iperf_dscp v),
        va_iperf_mss := clamp_i (va_iperf_mss v) 0 max_iperf_mss,
        va_sched_lat_windows := lat_windows,
        va_sched_speed_windows := speed_windows,
        va_sched_lat_enabled := va_sched_lat_enabled v \<and> lat_windows \<noteq> [],
        va_sched_speed_enabled := va_sched_speed_enabled v \<and> speed_windows \<noteq> [],
        va_auth_user := norm_user (va_auth_user v)\<rparr>)"

section \<open>Schedules\<close>

record local_time =
  lt_weekday :: int
  lt_hour :: int
  lt_minute :: int

definition day_on :: "string \<Rightarrow> int \<Rightarrow> bool" where
  "day_on days wd = (days ! nat (wd mod 7) = CHR ''1'')"

definition window_active :: "string \<Rightarrow> int \<Rightarrow> int \<Rightarrow> local_time \<Rightarrow> bool" where
  "window_active days start fin t =
     (if length days \<noteq> 7 then True
      else let wd = lt_weekday t; m = lt_hour t * 60 + lt_minute t in
        if start = fin then day_on days wd
        else if start < fin then day_on days wd \<and> m \<ge> start \<and> m < fin
        else if m \<ge> start then day_on days wd
        else if m < fin then day_on days (wd - 1)
        else False)"

definition windows_active :: "window list \<Rightarrow> local_time \<Rightarrow> bool" where
  "windows_active ws t = list_ex (\<lambda>w. window_active (wi_days w) (wi_start w) (wi_end w) t) ws"

definition windows_ever_active :: "window list \<Rightarrow> bool" where
  "windows_ever_active ws = list_ex (\<lambda>w. length (wi_days w) \<noteq> 7 \<or> CHR ''1'' \<in> set (wi_days w)) ws"

definition speed_allowed :: "config_values \<Rightarrow> local_time \<Rightarrow> bool" where
  "speed_allowed v t = (if \<not> va_sched_speed_enabled v then True else windows_active (va_sched_speed_windows v) t)"

definition latency_allowed :: "config_values \<Rightarrow> local_time \<Rightarrow> bool" where
  "latency_allowed v t = (if \<not> va_sched_lat_enabled v then True else windows_active (va_sched_lat_windows v) t)"

definition never_active_schedules :: "config_values \<Rightarrow> string list" where
  "never_active_schedules v =
     (if va_sched_lat_enabled v \<and> \<not> windows_ever_active (va_sched_lat_windows v) then [''latency''] else []) @
     (if va_sched_speed_enabled v \<and> \<not> windows_ever_active (va_sched_speed_windows v) then [''speedtest''] else [])"

section \<open>Thresholds\<close>

record thresholds =
  th_down :: gfloat
  th_up :: gfloat
  th_ping :: gfloat
  th_jitter :: gfloat
  th_loss :: gfloat
  th_bloat_down :: gfloat
  th_bloat_up :: gfloat

definition thresholds_any :: "thresholds \<Rightarrow> bool" where
  "thresholds_any t = list_ex (gf_less (Finite 0))
     [th_down t, th_up t, th_ping t, th_jitter t, th_loss t, th_bloat_down t, th_bloat_up t]"

definition thresholds_of :: "config_values \<Rightarrow> thresholds" where
  "thresholds_of v =
     \<lparr>th_down = va_thresh_down_mbps v, th_up = va_thresh_up_mbps v, th_ping = va_thresh_ping_ms v,
      th_jitter = va_thresh_jitter_ms v, th_loss = va_thresh_loss_pct v,
      th_bloat_down = va_thresh_bloat_down_ms v, th_bloat_up = va_thresh_bloat_up_ms v\<rparr>"

definition auth_active :: "config_values \<Rightarrow> bool" where
  "auth_active v \<longleftrightarrow> va_auth_enabled v \<and> va_auth_hash v \<noteq> []"

section \<open>Retention windows\<close>

definition retention_category :: "string \<Rightarrow> string" where
  "retention_category key =
     (if key = ''retention_s'' then ''latency'' else if key = ''speed_retention_s'' then ''speed''
      else if key = ''downtime_retention_s'' then ''downtime'' else [])"

definition keeps_at_least :: "duration \<Rightarrow> duration \<Rightarrow> bool" where
  "keeps_at_least a b = (if a \<le> 0 then True else if b \<le> 0 then False else a \<ge> b)"

definition prune_cutoff :: "gtime \<Rightarrow> duration \<Rightarrow> gtime" where
  "prune_cutoff now window = (if window \<le> 0 then time_unix 0 else t_add now (- window))"

end
