(* ===== verification/ConfigKeys.thy ===== *)
theory ConfigKeys
  imports Values
begin

text \<open>
  The settings as rows of the settings table (\<open>internal/settings/settings.go\<close>): what a load reads
  out of them (\<open>overlay\<close>), what a save writes (\<open>formKeys\<close>), the partial update of the settings
  form (\<open>Patch\<close>) and what a restore weighs.

  Go's JSON and its decimal form of a \<open>float64\<close> are the parameter \<open>codec\<close>; a decoder answers
  \<open>None\<close> where \<open>Unmarshal\<close> or \<open>ParseFloat\<close> errs.  \<open>Marshal\<close> can fail only on a coordinate that
  is no number.  A nil and an empty list are one list, except in a patch, where a nil field is
  \<open>None\<close>.
\<close>

record codec =
  cd_float_text :: "gfloat \<Rightarrow> string"
  cd_text_float :: "string \<Rightarrow> gfloat option"
  cd_windows_text :: "window list \<Rightarrow> string"
  cd_text_windows :: "string \<Rightarrow> window list option"
  cd_servers_text :: "saved_server list \<Rightarrow> string option"
  cd_text_servers :: "string \<Rightarrow> saved_server list option"
  cd_iperf_text :: "iperf_target list \<Rightarrow> string"
  cd_text_iperf :: "string \<Rightarrow> iperf_target list option"

section \<open>Reading a row\<close>

text \<open>\<open>m[key]\<close> of an absent key is the empty text.\<close>

definition row :: "(string \<rightharpoonup> string) \<Rightarrow> string \<Rightarrow> string" where
  "row m k = (case m k of None \<Rightarrow> [] | Some t \<Rightarrow> t)"

definition set_if :: "'a \<Rightarrow> 'a option \<Rightarrow> 'a" where
  "set_if old new = (case new of None \<Rightarrow> old | Some x \<Rightarrow> x)"

definition secs_of :: "string \<Rightarrow> duration option" where
  "secs_of s = (if s = [] then None
     else case parse_int s of None \<Rightarrow> None
       | Some n \<Rightarrow> if n < 0 then None
           else Some ((if n > max_duration sdiv second then max_duration sdiv second else n) * second))"

definition atoi :: "string \<Rightarrow> int option" where
  "atoi s = (if s = [] then None else parse_int s)"

definition pbool :: "string \<Rightarrow> bool option" where
  "pbool s = (if s = ''1'' \<or> s = ''true'' then Some True
     else if s = ''0'' \<or> s = ''false'' then Some False else None)"

definition pfloat :: "codec \<Rightarrow> string \<Rightarrow> gfloat option" where
  "pfloat cd s = (if s = [] then None else cd_text_float cd s)"

section \<open>Writing a row\<close>

definition sec_text :: "duration \<Rightarrow> string" where "sec_text d = int_text (dur_secs d)"

definition b2s :: "bool \<Rightarrow> string" where "b2s b = (if b then ''1'' else ''0'')"

definition windows_json :: "codec \<Rightarrow> window list \<Rightarrow> string" where
  "windows_json cd ws = (if ws = [] then ''[]'' else cd_windows_text cd ws)"

definition speed_servers_json :: "codec \<Rightarrow> saved_server list \<Rightarrow> string" where
  "speed_servers_json cd ss = (if ss = [] then ''[]''
     else case cd_servers_text cd ss of None \<Rightarrow> ''[]'' | Some t \<Rightarrow> t)"

definition iperf_servers_json :: "codec \<Rightarrow> iperf_target list \<Rightarrow> string" where
  "iperf_servers_json cd ts = (if ts = [] then ''[]'' else cd_iperf_text cd ts)"

definition form_keys :: "codec \<Rightarrow> config_values \<Rightarrow> (string \<times> string) list" where
  "form_keys cd v = [
      (''latency_interval_s'', sec_text (va_latency v)),
      (''latency_enabled'', b2s (va_latency_enabled v)),
      (''dns_probe_enabled'', b2s (va_dns_probe v)),
      (''netinfo_enabled'', b2s (va_netinfo_enabled v)),
      (''speed_interval_s'', sec_text (va_speed v)),
      (''retention_s'', sec_text (va_retention v)),
      (''speed_retention_s'', sec_text (va_speed_retention v)),
      (''downtime_retention_s'', sec_text (va_downtime_retention v)),
      (''timeout_s'', sec_text (va_timeout v)),
      (''save_every_s'', sec_text (va_save_every v)),
      (''down_after'', int_text (va_down_after v)),
      (''up_after'', int_text (va_up_after v)),
      (''speed_server_id'', va_speed_server_id v),
      (''speed_servers'', speed_servers_json cd (va_speed_servers v)),
      (''speedtest_enabled'', b2s (va_speedtest_enabled v)),
      (''speedtest_on_reconnect'', b2s (va_speedtest_on_reconnect v)),
      (''ipv6_mode'', va_ipv6_mode v),
      (''exit_target'', va_exit_target v),
      (''thresh_down_mbps'', cd_float_text cd (va_thresh_down_mbps v)),
      (''thresh_up_mbps'', cd_float_text cd (va_thresh_up_mbps v)),
      (''thresh_ping_ms'', cd_float_text cd (va_thresh_ping_ms v)),
      (''thresh_jitter_ms'', cd_float_text cd (va_thresh_jitter_ms v)),
      (''thresh_loss_pct'', cd_float_text cd (va_thresh_loss_pct v)),
      (''thresh_consecutive'', int_text (va_thresh_consec v)),
      (''thresh_bloat_down_ms'', cd_float_text cd (va_thresh_bloat_down_ms v)),
      (''thresh_bloat_up_ms'', cd_float_text cd (va_thresh_bloat_up_ms v)),
      (''speedtest_adaptive'', b2s (va_speedtest_adaptive v)),
      (''speedtest_on_degraded'', b2s (va_speedtest_on_degraded v)),
      (''degraded_ping_ms'', cd_float_text cd (va_degraded_ping_ms v)),
      (''speedtest_skip_busy'', b2s (va_speedtest_skip_busy v)),
      (''speedtest_busy_mbps'', cd_float_text cd (va_speed_busy_mbps v)),
      (''speedtest_record_failures'', b2s (va_speedtest_record_failures v)),
      (''speed_engine'', va_speed_engine v),
      (''iperf_server'', va_iperf_server v),
      (''iperf_servers'', iperf_servers_json cd (va_iperf_servers v)),
      (''iperf_duration'', int_text (va_iperf_dur v)),
      (''iperf_streams'', int_text (va_iperf_streams v)),
      (''ookla_connections'', int_text (va_ookla_connections v)),
      (''speed_challenge_every'', int_text (va_speed_challenge_every v)),
      (''ookla_loss'', b2s (va_ookla_loss v)),
      (''speed_discard_losers'', b2s (va_speed_discard_losers v)),
      (''speed_best_of_count'', int_text (va_speed_best_of_count v)),
      (''iperf_omit'', int_text (va_iperf_omit v)),
      (''speed_direction'', va_speed_direction v),
      (''iperf_direction'', va_iperf_direction v),
      (''iperf_udp'', b2s (va_iperf_udp v)),
      (''iperf_udp_rate'', int_text (va_iperf_udp_rate v)),
      (''iperf_window'', int_text (va_iperf_window v)),
      (''speed_retries'', int_text (va_speed_retries v)),
      (''iperf_retries'', int_text (va_iperf_retries v)),
      (''iperf_congestion'', va_iperf_congestion v),
      (''iperf_nodelay'', b2s (va_iperf_no_delay v)),
      (''iperf_dscp'', va_iperf_dscp v),
      (''iperf_mss'', int_text (va_iperf_mss v)),
      (''alert_on_outage'', b2s (va_alert_on_outage v)),
      (''webhook_url'', va_webhook_url v),
      (''webhook_format'', va_webhook_format v),
      (''heartbeat_url'', va_heartbeat_url v),
      (''digest_freq'', va_digest_freq v),
      (''sched_lat_enabled'', b2s (va_sched_lat_enabled v)),
      (''sched_lat_windows'', windows_json cd (va_sched_lat_windows v)),
      (''sched_speed_enabled'', b2s (va_sched_speed_enabled v)),
      (''sched_speed_windows'', windows_json cd (va_sched_speed_windows v)),
      (''quick_setup_done'', b2s (va_quick_setup_done v))]"

section \<open>What a load makes of the rows\<close>

definition load_schedule :: "codec \<Rightarrow> (string \<rightharpoonup> string) \<Rightarrow> string \<Rightarrow> string \<Rightarrow> string \<Rightarrow> string \<Rightarrow> string \<Rightarrow>
    bool \<times> window list" where
  "load_schedule cd m en_key win_key legacy_days legacy_start legacy_end =
     (let enabled = (case pbool (row m en_key) of Some b \<Rightarrow> b
            | None \<Rightarrow> (case pbool (row m ''schedule_enabled'') of Some b \<Rightarrow> b | None \<Rightarrow> False));
          legacy = (case m legacy_days of
              Some d \<Rightarrow> [\<lparr>wi_days = d, wi_start = set_if 0 (atoi (row m legacy_start)),
                          wi_end = set_if 0 (atoi (row m legacy_end))\<rparr>]
            | None \<Rightarrow> [])
      in case Option.bind (m win_key) (cd_text_windows cd) of
           Some ws \<Rightarrow> (enabled, ws)
         | None \<Rightarrow> (enabled, legacy))"

definition engine_split_key :: string where "engine_split_key = ''engine_split_done''"

definition split_applied :: "(string \<rightharpoonup> string) \<Rightarrow> bool" where
  "split_applied m \<longleftrightarrow> m engine_split_key \<noteq> None"

definition overlay_probing :: "codec \<Rightarrow> config_values \<Rightarrow> (string \<rightharpoonup> string) \<Rightarrow> config_values" where
  "overlay_probing cd v m = v\<lparr>va_latency := set_if (va_latency v) (secs_of (row m ''latency_interval_s'')),
      va_latency_enabled := set_if (va_latency_enabled v) (pbool (row m ''latency_enabled'')),
      va_dns_probe := set_if (va_dns_probe v) (pbool (row m ''dns_probe_enabled'')),
      va_netinfo_enabled := set_if (va_netinfo_enabled v) (pbool (row m ''netinfo_enabled'')),
      va_speed := set_if (va_speed v) (secs_of (row m ''speed_interval_s'')),
      va_retention := set_if (va_retention v) (secs_of (row m ''retention_s'')),
      va_speed_retention := set_if (va_speed_retention v) (secs_of (row m ''speed_retention_s'')),
      va_downtime_retention := set_if (va_downtime_retention v) (secs_of (row m ''downtime_retention_s'')),
      va_timeout := set_if (va_timeout v) (secs_of (row m ''timeout_s'')),
      va_save_every := set_if (va_save_every v) (secs_of (row m ''save_every_s'')),
      va_down_after := set_if (va_down_after v) (atoi (row m ''down_after'')),
      va_up_after := set_if (va_up_after v) (atoi (row m ''up_after'')),
      va_speed_server_id := set_if (va_speed_server_id v) (m ''speed_server_id''),
      va_speed_servers := set_if (va_speed_servers v) (Option.bind (m ''speed_servers'') (cd_text_servers cd)),
      va_speedtest_enabled := set_if (va_speedtest_enabled v) (pbool (row m ''speedtest_enabled'')),
      va_speedtest_on_reconnect := set_if (va_speedtest_on_reconnect v) (pbool (row m ''speedtest_on_reconnect'')),
      va_ipv6_mode := (if row m ''ipv6_mode'' \<noteq> [] then row m ''ipv6_mode'' else va_ipv6_mode v),
      va_exit_target := set_if (va_exit_target v) (m ''exit_target''),
      va_monitoring := set_if (va_monitoring v) (pbool (row m ''monitoring'')),
      va_update_check_enabled := set_if (va_update_check_enabled v) (pbool (row m ''update_check_enabled'')),
      va_quick_setup_done := set_if (va_quick_setup_done v) (pbool (row m ''quick_setup_done'')),
      va_log_level := set_if (va_log_level v) (m ''log_level''),
      va_log_redact_pii := set_if (va_log_redact_pii v) (pbool (row m ''log_redact_pii'')),
      va_speedtest_adaptive := set_if (va_speedtest_adaptive v) (pbool (row m ''speedtest_adaptive'')),
      va_speedtest_on_degraded := set_if (va_speedtest_on_degraded v) (pbool (row m ''speedtest_on_degraded'')),
      va_degraded_ping_ms := set_if (va_degraded_ping_ms v) (pfloat cd (row m ''degraded_ping_ms'')),
      va_speedtest_skip_busy := set_if (va_speedtest_skip_busy v) (pbool (row m ''speedtest_skip_busy''))\<rparr>"

definition overlay_speedtest :: "codec \<Rightarrow> config_values \<Rightarrow> (string \<rightharpoonup> string) \<Rightarrow> config_values" where
  "overlay_speedtest cd v m = v\<lparr>va_speed_busy_mbps := set_if (va_speed_busy_mbps v) (pfloat cd (row m ''speedtest_busy_mbps'')),
      va_speedtest_record_failures := set_if (va_speedtest_record_failures v) (pbool (row m ''speedtest_record_failures'')),
      va_speed_engine := (if row m ''speed_engine'' \<noteq> [] then row m ''speed_engine'' else va_speed_engine v),
      va_iperf_server := set_if (va_iperf_server v) (m ''iperf_server''),
      va_iperf_servers := set_if (va_iperf_servers v) (Option.bind (m ''iperf_servers'') (cd_text_iperf cd)),
      va_iperf_dur := set_if (va_iperf_dur v) (atoi (row m ''iperf_duration'')),
      va_iperf_streams := set_if (va_iperf_streams v) (atoi (row m ''iperf_streams'')),
      va_ookla_connections := set_if (va_ookla_connections v) (atoi (row m ''ookla_connections'')),
      va_speed_challenge_every := set_if (va_speed_challenge_every v) (atoi (row m ''speed_challenge_every'')),
      va_ookla_loss := set_if (va_ookla_loss v) (pbool (row m ''ookla_loss'')),
      va_speed_discard_losers := set_if (va_speed_discard_losers v) (pbool (row m ''speed_discard_losers'')),
      va_speed_best_of_count := (case atoi (row m ''speed_best_of_count'') of Some n \<Rightarrow> n
        | None \<Rightarrow> (case pbool (row m ''speed_best_of'') of Some b \<Rightarrow> if b then legacy_best_of_count else 1
            | None \<Rightarrow> va_speed_best_of_count v)),
      va_iperf_omit := set_if (va_iperf_omit v) (atoi (row m ''iperf_omit'')),
      va_speed_direction := (if row m ''speed_direction'' \<noteq> [] then row m ''speed_direction'' else va_speed_direction v),
      va_iperf_direction := (case m ''iperf_direction'' of Some t \<Rightarrow> t
        | None \<Rightarrow> if row m ''speed_direction'' \<noteq> [] \<and> \<not> split_applied m then row m ''speed_direction'' else va_iperf_direction v),
      va_iperf_udp := set_if (va_iperf_udp v) (pbool (row m ''iperf_udp'')),
      va_iperf_udp_rate := set_if (va_iperf_udp_rate v) (atoi (row m ''iperf_udp_rate'')),
      va_iperf_window := set_if (va_iperf_window v) (atoi (row m ''iperf_window'')),
      va_speed_retries := set_if (va_speed_retries v) (atoi (row m ''speed_retries'')),
      va_iperf_retries := (case atoi (row m ''iperf_retries'') of Some n \<Rightarrow> n
        | None \<Rightarrow> (case atoi (row m ''speed_retries'') of Some n \<Rightarrow> if \<not> split_applied m then n else va_iperf_retries v | None \<Rightarrow> va_iperf_retries v)),
      va_iperf_congestion := set_if (va_iperf_congestion v) (m ''iperf_congestion'')\<rparr>"

definition overlay_alerts :: "codec \<Rightarrow> config_values \<Rightarrow> (string \<rightharpoonup> string) \<Rightarrow> config_values" where
  "overlay_alerts cd v m = v\<lparr>va_iperf_no_delay := set_if (va_iperf_no_delay v) (pbool (row m ''iperf_nodelay'')),
      va_iperf_dscp := set_if (va_iperf_dscp v) (m ''iperf_dscp''),
      va_iperf_mss := set_if (va_iperf_mss v) (atoi (row m ''iperf_mss'')),
      va_thresh_down_mbps := set_if (va_thresh_down_mbps v) (pfloat cd (row m ''thresh_down_mbps'')),
      va_thresh_up_mbps := set_if (va_thresh_up_mbps v) (pfloat cd (row m ''thresh_up_mbps'')),
      va_thresh_ping_ms := set_if (va_thresh_ping_ms v) (pfloat cd (row m ''thresh_ping_ms'')),
      va_thresh_jitter_ms := set_if (va_thresh_jitter_ms v) (pfloat cd (row m ''thresh_jitter_ms'')),
      va_thresh_loss_pct := set_if (va_thresh_loss_pct v) (pfloat cd (row m ''thresh_loss_pct'')),
      va_thresh_consec := set_if (va_thresh_consec v) (atoi (row m ''thresh_consecutive'')),
      va_thresh_bloat_down_ms := set_if (va_thresh_bloat_down_ms v) (pfloat cd (row m ''thresh_bloat_down_ms'')),
      va_thresh_bloat_up_ms := set_if (va_thresh_bloat_up_ms v) (pfloat cd (row m ''thresh_bloat_up_ms'')),
      va_alert_on_outage := set_if (va_alert_on_outage v) (pbool (row m ''alert_on_outage'')),
      va_webhook_url := set_if (va_webhook_url v) (m ''webhook_url''),
      va_webhook_format := set_if (va_webhook_format v) (m ''webhook_format''),
      va_heartbeat_url := set_if (va_heartbeat_url v) (m ''heartbeat_url''),
      va_digest_freq := set_if (va_digest_freq v) (m ''digest_freq''),
      va_sched_lat_enabled := fst (load_schedule cd m ''sched_lat_enabled'' ''sched_lat_windows'' ''sched_lat_days'' ''sched_lat_start'' ''sched_lat_end''),
      va_sched_lat_windows := snd (load_schedule cd m ''sched_lat_enabled'' ''sched_lat_windows'' ''sched_lat_days'' ''sched_lat_start'' ''sched_lat_end''),
      va_sched_speed_enabled := fst (load_schedule cd m ''sched_speed_enabled'' ''sched_speed_windows'' ''sched_speed_days'' ''sched_speed_start'' ''sched_speed_end''),
      va_sched_speed_windows := snd (load_schedule cd m ''sched_speed_enabled'' ''sched_speed_windows'' ''sched_speed_days'' ''sched_speed_start'' ''sched_speed_end''),
      va_access_local_only := set_if (va_access_local_only v) (pbool (row m ''access_local_only'')),
      va_auth_enabled := set_if (va_auth_enabled v) (pbool (row m ''auth_enabled'')),
      va_auth_user := set_if (va_auth_user v) (m ''auth_user''),
      va_auth_hash := set_if (va_auth_hash v) (m ''auth_hash'')\<rparr>"

definition overlay :: "codec \<Rightarrow> config_values \<Rightarrow> (string \<rightharpoonup> string) \<Rightarrow> config_values" where
  "overlay cd v m = overlay_alerts cd (overlay_speedtest cd (overlay_probing cd v m) m) m"

section \<open>The form's patch\<close>

record patch =
  pa_latency :: "duration option"
  pa_latency_enabled :: "bool option"
  pa_dns_probe :: "bool option"
  pa_netinfo_enabled :: "bool option"
  pa_speed :: "duration option"
  pa_retention :: "duration option"
  pa_speed_retention :: "duration option"
  pa_downtime_retention :: "duration option"
  pa_timeout :: "duration option"
  pa_save_every :: "duration option"
  pa_down_after :: "int option"
  pa_up_after :: "int option"
  pa_speed_server_id :: "string option"
  pa_speed_servers :: "saved_server list option"
  pa_speedtest_enabled :: "bool option"
  pa_speedtest_on_reconnect :: "bool option"
  pa_ipv6_mode :: "string option"
  pa_exit_target :: "string option"
  pa_speedtest_adaptive :: "bool option"
  pa_speedtest_on_degraded :: "bool option"
  pa_degraded_ping_ms :: "gfloat option"
  pa_speedtest_skip_busy :: "bool option"
  pa_speed_busy_mbps :: "gfloat option"
  pa_speed_engine :: "string option"
  pa_iperf_server :: "string option"
  pa_iperf_servers :: "iperf_target list option"
  pa_iperf_dur :: "int option"
  pa_iperf_streams :: "int option"
  pa_ookla_connections :: "int option"
  pa_speed_challenge_every :: "int option"
  pa_ookla_loss :: "bool option"
  pa_speed_discard_losers :: "bool option"
  pa_speed_best_of_count :: "int option"
  pa_iperf_omit :: "int option"
  pa_speed_direction :: "string option"
  pa_iperf_direction :: "string option"
  pa_iperf_udp :: "bool option"
  pa_iperf_udp_rate :: "int option"
  pa_iperf_window :: "int option"
  pa_speed_retries :: "int option"
  pa_iperf_retries :: "int option"
  pa_iperf_congestion :: "string option"
  pa_iperf_no_delay :: "bool option"
  pa_iperf_dscp :: "string option"
  pa_iperf_mss :: "int option"
  pa_thresh_down_mbps :: "gfloat option"
  pa_thresh_up_mbps :: "gfloat option"
  pa_thresh_ping_ms :: "gfloat option"
  pa_thresh_jitter_ms :: "gfloat option"
  pa_thresh_loss_pct :: "gfloat option"
  pa_thresh_consec :: "int option"
  pa_thresh_bloat_down_ms :: "gfloat option"
  pa_thresh_bloat_up_ms :: "gfloat option"
  pa_alert_on_outage :: "bool option"
  pa_webhook_url :: "string option"
  pa_webhook_format :: "string option"
  pa_heartbeat_url :: "string option"
  pa_digest_freq :: "string option"
  pa_sched_lat_enabled :: "bool option"
  pa_sched_lat_windows :: "window list option"
  pa_sched_speed_enabled :: "bool option"
  pa_sched_speed_windows :: "window list option"
  pa_speedtest_record_failures :: "bool option"

definition patch_apply :: "patch \<Rightarrow> config_values \<Rightarrow> config_values" where
  "patch_apply p v = v\<lparr>va_latency := set_if (va_latency v) (pa_latency p),
      va_latency_enabled := set_if (va_latency_enabled v) (pa_latency_enabled p),
      va_dns_probe := set_if (va_dns_probe v) (pa_dns_probe p),
      va_netinfo_enabled := set_if (va_netinfo_enabled v) (pa_netinfo_enabled p),
      va_speed := set_if (va_speed v) (pa_speed p),
      va_retention := set_if (va_retention v) (pa_retention p),
      va_speed_retention := set_if (va_speed_retention v) (pa_speed_retention p),
      va_downtime_retention := set_if (va_downtime_retention v) (pa_downtime_retention p),
      va_timeout := set_if (va_timeout v) (pa_timeout p),
      va_save_every := set_if (va_save_every v) (pa_save_every p),
      va_down_after := set_if (va_down_after v) (pa_down_after p),
      va_up_after := set_if (va_up_after v) (pa_up_after p),
      va_speed_server_id := set_if (va_speed_server_id v) (pa_speed_server_id p),
      va_speed_servers := set_if (va_speed_servers v) (pa_speed_servers p),
      va_speedtest_enabled := set_if (va_speedtest_enabled v) (pa_speedtest_enabled p),
      va_speedtest_on_reconnect := set_if (va_speedtest_on_reconnect v) (pa_speedtest_on_reconnect p),
      va_ipv6_mode := set_if (va_ipv6_mode v) (pa_ipv6_mode p),
      va_exit_target := set_if (va_exit_target v) (pa_exit_target p),
      va_speedtest_adaptive := set_if (va_speedtest_adaptive v) (pa_speedtest_adaptive p),
      va_speedtest_on_degraded := set_if (va_speedtest_on_degraded v) (pa_speedtest_on_degraded p),
      va_degraded_ping_ms := set_if (va_degraded_ping_ms v) (pa_degraded_ping_ms p),
      va_speedtest_skip_busy := set_if (va_speedtest_skip_busy v) (pa_speedtest_skip_busy p),
      va_speed_busy_mbps := set_if (va_speed_busy_mbps v) (pa_speed_busy_mbps p),
      va_speedtest_record_failures := set_if (va_speedtest_record_failures v) (pa_speedtest_record_failures p),
      va_speed_engine := set_if (va_speed_engine v) (pa_speed_engine p),
      va_iperf_server := set_if (va_iperf_server v) (pa_iperf_server p),
      va_iperf_servers := set_if (va_iperf_servers v) (pa_iperf_servers p),
      va_iperf_dur := set_if (va_iperf_dur v) (pa_iperf_dur p),
      va_iperf_streams := set_if (va_iperf_streams v) (pa_iperf_streams p),
      va_ookla_connections := set_if (va_ookla_connections v) (pa_ookla_connections p),
      va_speed_challenge_every := set_if (va_speed_challenge_every v) (pa_speed_challenge_every p),
      va_ookla_loss := set_if (va_ookla_loss v) (pa_ookla_loss p),
      va_speed_discard_losers := set_if (va_speed_discard_losers v) (pa_speed_discard_losers p),
      va_speed_best_of_count := set_if (va_speed_best_of_count v) (pa_speed_best_of_count p),
      va_iperf_omit := set_if (va_iperf_omit v) (pa_iperf_omit p),
      va_speed_direction := set_if (va_speed_direction v) (pa_speed_direction p),
      va_iperf_direction := set_if (va_iperf_direction v) (pa_iperf_direction p),
      va_iperf_udp := set_if (va_iperf_udp v) (pa_iperf_udp p),
      va_iperf_udp_rate := set_if (va_iperf_udp_rate v) (pa_iperf_udp_rate p),
      va_iperf_window := set_if (va_iperf_window v) (pa_iperf_window p),
      va_speed_retries := set_if (va_speed_retries v) (pa_speed_retries p),
      va_iperf_retries := set_if (va_iperf_retries v) (pa_iperf_retries p),
      va_iperf_congestion := set_if (va_iperf_congestion v) (pa_iperf_congestion p),
      va_iperf_no_delay := set_if (va_iperf_no_delay v) (pa_iperf_no_delay p),
      va_iperf_dscp := set_if (va_iperf_dscp v) (pa_iperf_dscp p),
      va_iperf_mss := set_if (va_iperf_mss v) (pa_iperf_mss p),
      va_thresh_down_mbps := set_if (va_thresh_down_mbps v) (pa_thresh_down_mbps p),
      va_thresh_up_mbps := set_if (va_thresh_up_mbps v) (pa_thresh_up_mbps p),
      va_thresh_ping_ms := set_if (va_thresh_ping_ms v) (pa_thresh_ping_ms p),
      va_thresh_jitter_ms := set_if (va_thresh_jitter_ms v) (pa_thresh_jitter_ms p),
      va_thresh_loss_pct := set_if (va_thresh_loss_pct v) (pa_thresh_loss_pct p),
      va_thresh_consec := set_if (va_thresh_consec v) (pa_thresh_consec p),
      va_thresh_bloat_down_ms := set_if (va_thresh_bloat_down_ms v) (pa_thresh_bloat_down_ms p),
      va_thresh_bloat_up_ms := set_if (va_thresh_bloat_up_ms v) (pa_thresh_bloat_up_ms p),
      va_alert_on_outage := set_if (va_alert_on_outage v) (pa_alert_on_outage p),
      va_webhook_url := set_if (va_webhook_url v) (pa_webhook_url p),
      va_webhook_format := set_if (va_webhook_format v) (pa_webhook_format p),
      va_heartbeat_url := set_if (va_heartbeat_url v) (pa_heartbeat_url p),
      va_digest_freq := set_if (va_digest_freq v) (pa_digest_freq p),
      va_sched_lat_enabled := set_if (va_sched_lat_enabled v) (pa_sched_lat_enabled p),
      va_sched_lat_windows := set_if (va_sched_lat_windows v) (pa_sched_lat_windows p),
      va_sched_speed_enabled := set_if (va_sched_speed_enabled v) (pa_sched_speed_enabled p),
      va_sched_speed_windows := set_if (va_sched_speed_windows v) (pa_sched_speed_windows p)\<rparr>"

definition mark :: "bool \<Rightarrow> string \<Rightarrow> string list" where
  "mark is_set key = (if is_set then [key] else [])"

definition patch_keys :: "patch \<Rightarrow> string list" where
  "patch_keys p = concat [
      mark (pa_latency p \<noteq> None) ''latency_interval_s'',
      mark (pa_latency_enabled p \<noteq> None) ''latency_enabled'',
      mark (pa_dns_probe p \<noteq> None) ''dns_probe_enabled'',
      mark (pa_netinfo_enabled p \<noteq> None) ''netinfo_enabled'',
      mark (pa_speed p \<noteq> None) ''speed_interval_s'',
      mark (pa_retention p \<noteq> None) ''retention_s'',
      mark (pa_speed_retention p \<noteq> None) ''speed_retention_s'',
      mark (pa_downtime_retention p \<noteq> None) ''downtime_retention_s'',
      mark (pa_timeout p \<noteq> None) ''timeout_s'',
      mark (pa_save_every p \<noteq> None) ''save_every_s'',
      mark (pa_down_after p \<noteq> None) ''down_after'',
      mark (pa_up_after p \<noteq> None) ''up_after'',
      mark (pa_speed_server_id p \<noteq> None) ''speed_server_id'',
      mark (pa_speed_servers p \<noteq> None) ''speed_servers'',
      mark (pa_speedtest_enabled p \<noteq> None) ''speedtest_enabled'',
      mark (pa_speedtest_on_reconnect p \<noteq> None) ''speedtest_on_reconnect'',
      mark (pa_ipv6_mode p \<noteq> None) ''ipv6_mode'',
      mark (pa_exit_target p \<noteq> None) ''exit_target'',
      mark (pa_speedtest_adaptive p \<noteq> None) ''speedtest_adaptive'',
      mark (pa_speedtest_on_degraded p \<noteq> None) ''speedtest_on_degraded'',
      mark (pa_degraded_ping_ms p \<noteq> None) ''degraded_ping_ms'',
      mark (pa_speedtest_skip_busy p \<noteq> None) ''speedtest_skip_busy'',
      mark (pa_speed_busy_mbps p \<noteq> None) ''speedtest_busy_mbps'',
      mark (pa_speedtest_record_failures p \<noteq> None) ''speedtest_record_failures'',
      mark (pa_speed_engine p \<noteq> None) ''speed_engine'',
      mark (pa_iperf_server p \<noteq> None) ''iperf_server'',
      mark (pa_iperf_servers p \<noteq> None) ''iperf_servers'',
      mark (pa_iperf_dur p \<noteq> None) ''iperf_duration'',
      mark (pa_iperf_streams p \<noteq> None) ''iperf_streams'',
      mark (pa_ookla_connections p \<noteq> None) ''ookla_connections'',
      mark (pa_speed_challenge_every p \<noteq> None) ''speed_challenge_every'',
      mark (pa_ookla_loss p \<noteq> None) ''ookla_loss'',
      mark (pa_speed_discard_losers p \<noteq> None) ''speed_discard_losers'',
      mark (pa_speed_best_of_count p \<noteq> None) ''speed_best_of_count'',
      mark (pa_iperf_omit p \<noteq> None) ''iperf_omit'',
      mark (pa_speed_direction p \<noteq> None) ''speed_direction'',
      mark (pa_iperf_direction p \<noteq> None) ''iperf_direction'',
      mark (pa_iperf_udp p \<noteq> None) ''iperf_udp'',
      mark (pa_iperf_udp_rate p \<noteq> None) ''iperf_udp_rate'',
      mark (pa_iperf_window p \<noteq> None) ''iperf_window'',
      mark (pa_speed_retries p \<noteq> None) ''speed_retries'',
      mark (pa_iperf_retries p \<noteq> None) ''iperf_retries'',
      mark (pa_iperf_congestion p \<noteq> None) ''iperf_congestion'',
      mark (pa_iperf_no_delay p \<noteq> None) ''iperf_nodelay'',
      mark (pa_iperf_dscp p \<noteq> None) ''iperf_dscp'',
      mark (pa_iperf_mss p \<noteq> None) ''iperf_mss'',
      mark (pa_thresh_down_mbps p \<noteq> None) ''thresh_down_mbps'',
      mark (pa_thresh_up_mbps p \<noteq> None) ''thresh_up_mbps'',
      mark (pa_thresh_ping_ms p \<noteq> None) ''thresh_ping_ms'',
      mark (pa_thresh_jitter_ms p \<noteq> None) ''thresh_jitter_ms'',
      mark (pa_thresh_loss_pct p \<noteq> None) ''thresh_loss_pct'',
      mark (pa_thresh_consec p \<noteq> None) ''thresh_consecutive'',
      mark (pa_thresh_bloat_down_ms p \<noteq> None) ''thresh_bloat_down_ms'',
      mark (pa_thresh_bloat_up_ms p \<noteq> None) ''thresh_bloat_up_ms'',
      mark (pa_alert_on_outage p \<noteq> None) ''alert_on_outage'',
      mark (pa_webhook_url p \<noteq> None) ''webhook_url'',
      mark (pa_webhook_format p \<noteq> None) ''webhook_format'',
      mark (pa_heartbeat_url p \<noteq> None) ''heartbeat_url'',
      mark (pa_digest_freq p \<noteq> None) ''digest_freq'',
      mark (pa_sched_lat_enabled p \<noteq> None) ''sched_lat_enabled'',
      mark (pa_sched_lat_windows p \<noteq> None) ''sched_lat_windows'',
      mark (pa_sched_speed_enabled p \<noteq> None) ''sched_speed_enabled'',
      mark (pa_sched_speed_windows p \<noteq> None) ''sched_speed_windows'']"

definition shipped_defaults :: "config_values \<Rightarrow> config_values" where
  "shipped_defaults v = v\<lparr>va_latency := 5 * second, va_latency_enabled := True, va_timeout := 3 * second,
     va_down_after := 2, va_up_after := 1, va_speedtest_enabled := False, va_speed := hour,
     va_speedtest_on_reconnect := True, va_ipv6_mode := ''auto'', va_retention := 30 * 24 * hour,
     va_speed_retention := 365 * 24 * hour, va_downtime_retention := 365 * 24 * hour\<rparr>"

text \<open>A blank incoming password means the stored one of the same address; of two stored entries with
  one address the later counts.\<close>

definition merge_iperf_passwords :: "iperf_target list \<Rightarrow> iperf_target list \<Rightarrow> iperf_target list" where
  "merge_iperf_passwords incoming stored =
     (let saved = map_of (rev (map (\<lambda>t. (trim_space (it_addr t), it_password t))
                    (filter (\<lambda>t. it_password t \<noteq> []) stored))) in
      map (\<lambda>t. if it_password t = []
               then (case saved (trim_space (it_addr t)) of Some pw \<Rightarrow> t\<lparr>it_password := pw\<rparr> | None \<Rightarrow> t)
               else t) incoming)"

section \<open>What a restore weighs\<close>

definition engine_split_minor :: int where "engine_split_minor = 100"

definition dot_cut :: "string \<Rightarrow> (string \<times> string) option" where
  "dot_cut s = (case dropWhile (\<lambda>c. c \<noteq> CHR ''.'') s of [] \<Rightarrow> None
     | _ # rest \<Rightarrow> Some (takeWhile (\<lambda>c. c \<noteq> CHR ''.'') s, rest))"

definition shared_iperf_pair :: "string \<Rightarrow> bool" where
  "shared_iperf_pair version =
     (case dot_cut (if starts_with ''v'' version then drop 1 version else version) of
        None \<Rightarrow> False
      | Some (maj, rest) \<Rightarrow>
          let mn = (case dot_cut rest of Some (x, _) \<Rightarrow> x | None \<Rightarrow> rest);
              digits = list_all (\<lambda>c. digit_val c \<noteq> None) in
          if \<not> digits maj \<or> \<not> digits mn then False
          else case (parse_int maj, parse_int mn) of
              (Some a, Some b) \<Rightarrow> a = 0 \<and> b < engine_split_minor
            | _ \<Rightarrow> False)"

definition iperf_pair_key :: "string \<Rightarrow> bool" where
  "iperf_pair_key key \<longleftrightarrow> key \<in> set [''speed_direction'', ''speed_retries'', ''iperf_direction'', ''iperf_retries'']"

definition iperf_pair_absent :: "codec \<Rightarrow> config_values \<Rightarrow> config_values \<Rightarrow> (string \<rightharpoonup> string) \<Rightarrow>
    string \<times> int \<times> bool \<times> bool" where
  "iperf_pair_absent cd defaults here rows =
     (let there = normalize (overlay cd defaults rows);
          no_direction = (rows ''iperf_direction'' = None \<and> row rows ''speed_direction'' \<noteq> [] \<and>
            va_iperf_direction there \<noteq> va_iperf_direction here);
          no_retries = (atoi (row rows ''iperf_retries'') = None \<and> atoi (row rows ''speed_retries'') \<noteq> None \<and>
            va_iperf_retries there \<noteq> va_iperf_retries here)
      in (va_iperf_direction there, va_iperf_retries there, no_direction, no_retries))"

definition restored_retention :: "codec \<Rightarrow> config_values \<Rightarrow> config_values \<Rightarrow> string \<Rightarrow> string \<Rightarrow>
    duration \<times> duration \<times> bool" where
  "restored_retention cd defaults live key txt =
     (let there = normalize (overlay cd defaults [key \<mapsto> txt]);
          weigh = (\<lambda>pick. (pick there, pick live, keeps_at_least (pick there) (pick live)))
      in if key = ''retention_s'' then weigh va_retention
         else if key = ''speed_retention_s'' then weigh va_speed_retention
         else if key = ''downtime_retention_s'' then weigh va_downtime_retention
         else (0, 0, True))"

definition migration_rows :: "codec \<Rightarrow> (string \<rightharpoonup> string) \<Rightarrow> config_values \<Rightarrow> (string \<times> string) list" where
  "migration_rows cd m v =
     (let fk = (\<lambda>k. case map_of (form_keys cd v) k of Some t \<Rightarrow> t | None \<Rightarrow> []);
          split = (if split_applied m then [] else
            [(engine_split_key, ''1'')] @
            (if m ''iperf_direction'' = None \<and> row m ''speed_direction'' \<noteq> []
             then [(''iperf_direction'', fk ''iperf_direction'')] else []) @
            (if atoi (row m ''iperf_retries'') = None \<and> atoi (row m ''speed_retries'') \<noteq> None
             then [(''iperf_retries'', fk ''iperf_retries'')] else []));
          legacy_toggle = pbool (row m ''schedule_enabled'') \<noteq> None;
          sched = (\<lambda>en_key win_key legacy_days.
            (if m en_key = None \<and> legacy_toggle then [(en_key, fk en_key)] else []) @
            (if m win_key = None \<and> m legacy_days \<noteq> None then [(win_key, fk win_key)] else []))
      in split @ sched ''sched_lat_enabled'' ''sched_lat_windows'' ''sched_lat_days'' @
         sched ''sched_speed_enabled'' ''sched_speed_windows'' ''sched_speed_days'')"

end
