(* ===== verification/Settings.thy ===== *)
theory Settings
  imports ConfigKeys SettingsTable SpeedTable
begin

text \<open>
  The settings controller (\<open>internal/settings/settings.go\<close>): loading the rows, sealing the saved
  passwords on their way to disk (with \<open>internal/secret/secret.go\<close>), the one atomic write every
  setter is, the form's save, the first-run answer, the birth marker and the session epoch.

  The controller's locks make each operation one step; its state is the record \<open>controller\<close>, with
  the database in it.  The cipher is a parameter of the box, with the random nonces numbered; a
  wake-up of the waiters is one count of \<open>ct_changed\<close>.
\<close>

section \<open>Sealing\<close>

record box =
  bx_lock :: "nat \<Rightarrow> string \<Rightarrow> string option"
  bx_open :: "string \<Rightarrow> string option"

definition box_seal :: "box \<Rightarrow> nat \<Rightarrow> string \<Rightarrow> string option" where
  "box_seal b n plain = (if plain = [] \<or> is_sealed plain then Some plain
     else map_option (\<lambda>c. seal_prefix @ c) (bx_lock b n plain))"

definition box_unseal :: "box \<Rightarrow> string \<Rightarrow> string option" where
  "box_unseal b s = (if s = [] \<or> \<not> is_sealed s then Some s else bx_open b (drop (length seal_prefix) s))"

section \<open>The controller\<close>

datatype cfg_error = Unavailable | InvalidPatch | StoreErr db_error | SealErr string | LegacyReseal

record controller =
  ct_db :: speed_db
  ct_vals :: config_values
  ct_defaults :: config_values
  ct_changed :: nat
  ct_crypter :: "box option"
  ct_nonce :: nat
  ct_sealed :: "string \<rightharpoonup> string"
  ct_init_err :: bool
  ct_born_version :: string
  ct_creation_known :: bool
  ct_created_here :: bool
  ct_born_err :: "db_error option"
  ct_born_pending :: bool
  ct_scope :: string
  ct_epoch :: int

type_synonym 'a ctl = "(controller, cfg_error, 'a) call"

definition iperf_servers_key :: string where "iperf_servers_key = ''iperf_servers''"
definition session_epoch_key :: string where "session_epoch_key = ''auth_session_epoch''"
definition born_version_key :: string where "born_version_key = ''install_born_version''"
definition offer_key :: string where "offer_key = ''quick_setup_offer_since''"

text \<open>A call of the store from the controller.\<close>

definition on_store :: "(store \<Rightarrow> 'r \<times> store) \<Rightarrow> controller \<Rightarrow> 'r \<times> controller" where
  "on_store f c = (case f (sd_store (ct_db c)) of
     (r, s) \<Rightarrow> (r, c\<lparr>ct_db := (ct_db c)\<lparr>sd_store := s\<rparr>\<rparr>))"

definition stored_rows :: "controller \<Rightarrow> (string \<rightharpoonup> string)" where
  "stored_rows c = t_settings (sd_store (ct_db c))"

section \<open>Passwords at the store boundary\<close>

definition remember_sealed_one :: "string \<Rightarrow> string \<Rightarrow> controller \<Rightarrow> controller" where
  "remember_sealed_one addr ciphertext c = c\<lparr>ct_sealed := (ct_sealed c)(trim_space addr \<mapsto> ciphertext)\<rparr>"

definition remember_sealed :: "codec \<Rightarrow> string \<Rightarrow> controller \<Rightarrow> controller" where
  "remember_sealed cd raw c = (case cd_text_iperf cd raw of None \<Rightarrow> c
     | Some ts \<Rightarrow> foldl (\<lambda>c t. if is_sealed (it_password t)
                             then remember_sealed_one (it_addr t) (it_password t) c else c) c ts)"

fun unseal_targets :: "box \<Rightarrow> iperf_target list \<Rightarrow> controller \<Rightarrow> iperf_target list \<times> bool \<times> controller" where
  "unseal_targets b [] c = ([], False, c)"
| "unseal_targets b (t # ts) c =
     (if it_password t = [] then (case unseal_targets b ts c of (ts, legacy, c) \<Rightarrow> (t # ts, legacy, c))
      else if \<not> is_sealed (it_password t)
      then (case unseal_targets b ts c of (ts, legacy, c) \<Rightarrow> (t # ts, True, c))
      else case box_unseal b (it_password t) of
          None \<Rightarrow> (case unseal_targets b ts (remember_sealed_one (it_addr t) (it_password t) c) of
             (ts, legacy, c) \<Rightarrow> (t\<lparr>it_password := []\<rparr> # ts, legacy, c))
        | Some pw \<Rightarrow> (case unseal_targets b ts c of (ts, legacy, c) \<Rightarrow> (t\<lparr>it_password := pw\<rparr> # ts, legacy, c)))"

definition unseal_servers :: "codec \<Rightarrow> string \<Rightarrow> controller \<Rightarrow> (string \<times> bool) \<times> controller" where
  "unseal_servers cd raw c0 =
     (let c = c0\<lparr>ct_sealed := Map.empty\<rparr> in
      if raw = [] then ((raw, False), c)
      else case ct_crypter c of
          None \<Rightarrow> ((raw, False), remember_sealed cd raw c)
        | Some b \<Rightarrow> (case cd_text_iperf cd raw of
            None \<Rightarrow> ((raw, False), c)
          | Some ts \<Rightarrow> (case unseal_targets b ts c of
              (ts, legacy, c) \<Rightarrow> ((cd_iperf_text cd ts, legacy), c))))"

definition restore_target :: "(string \<rightharpoonup> string) \<Rightarrow> iperf_target \<Rightarrow> iperf_target" where
  "restore_target sealed t = (if it_password t \<noteq> [] then t
     else case sealed (trim_space (it_addr t)) of None \<Rightarrow> t | Some ct \<Rightarrow> t\<lparr>it_password := ct\<rparr>)"

text \<open>Without a remembered ciphertext no entry waits for one, and the text stays as it is.\<close>

definition restore_sealed :: "codec \<Rightarrow> controller \<Rightarrow> string \<Rightarrow> string" where
  "restore_sealed cd c raw =
     (if raw = [] then raw
      else case cd_text_iperf cd raw of None \<Rightarrow> raw
        | Some ts \<Rightarrow>
            if list_ex (\<lambda>t. it_password t = [] \<and> ct_sealed c (trim_space (it_addr t)) \<noteq> None) ts
            then cd_iperf_text cd (map (restore_target (ct_sealed c)) ts) else raw)"

fun seal_targets :: "box \<Rightarrow> nat \<Rightarrow> iperf_target list \<Rightarrow> string + iperf_target list" where
  "seal_targets b n [] = Inr []"
| "seal_targets b n (t # ts) =
     (if it_password t = [] then bind_result (seal_targets b n ts) (\<lambda>ts. Inr (t # ts))
      else case box_seal b n (it_password t) of
          None \<Rightarrow> Inl (it_addr t)
        | Some pw \<Rightarrow> bind_result (seal_targets b (Suc n) ts) (\<lambda>ts. Inr (t\<lparr>it_password := pw\<rparr> # ts)))"

definition seal_servers :: "codec \<Rightarrow> controller \<Rightarrow> string \<Rightarrow> cfg_error + string" where
  "seal_servers cd c raw = (case ct_crypter c of
     None \<Rightarrow> Inr raw
   | Some b \<Rightarrow>
       if raw = [] then Inr raw
       else case cd_text_iperf cd raw of None \<Rightarrow> Inr raw
         | Some ts \<Rightarrow> (case seal_targets b (ct_nonce c) ts of
             Inl addr \<Rightarrow> Inl (SealErr addr) | Inr ts \<Rightarrow> Inr (cd_iperf_text cd ts)))"

text \<open>How many nonces a sealing may have used.\<close>

definition after_sealing :: "controller \<Rightarrow> controller" where
  "after_sealing c = c\<lparr>ct_nonce := ct_nonce c + max_iperf_servers\<rparr>"

section \<open>Is this install established?\<close>

definition has_history :: "world \<Rightarrow> (speed_db, db_error, bool) call" where
  "has_history w d = sd_query (\<lambda>d. Inr
     (t_samples (sd_store d) \<noteq> [] \<or> filter readable (t_events (sd_store d)) \<noteq> [] \<or>
      filter speed_not_failed (sd_rows d) \<noteq> []))
     (d\<lparr>sd_store := snd (save_buffered SaveRead (w_save w) (sd_store d))\<rparr>)"

definition install_state_keys :: "string list" where
  "install_state_keys =
     [''quick_setup_done'', offer_key, born_version_key, session_epoch_key, first_seen_key, engine_split_key,
      ''access_hold_after_rebuild'', ''telemetry_id'', ''telemetry_install_id'', ''telemetry_salt'',
      ''telemetry_id_born_at'', ''telemetry_consent_version'', ''telemetry_last_speed_ts'',
      ''telemetry_last_event_ts'', ''telemetry_last_send_ts'', ''telemetry_clean_shutdown'', ''digest_last_sent'']"

definition has_prior_configuration :: "(string \<rightharpoonup> string) \<Rightarrow> bool" where
  "has_prior_configuration m \<longleftrightarrow> \<not> dom m \<subseteq> set install_state_keys"

definition established_in_store :: "world \<Rightarrow> controller \<Rightarrow> (db_error + bool) \<times> controller" where
  "established_in_store w c = (case has_history w (ct_db c) of
     (Inl e, d) \<Rightarrow> (Inl e, c\<lparr>ct_db := d\<rparr>)
   | (Inr history, d) \<Rightarrow>
       let c = c\<lparr>ct_db := d\<rparr> in
       if history then (Inr True, c)
       else case on_store install_born_at c of
         (born, c) \<Rightarrow>
           if born \<noteq> 0 then (Inr True, c)
           else case on_store all_settings c of
               (Inl e, c) \<Rightarrow> (Inl e, c)
             | (Inr m, c) \<Rightarrow> (Inr (has_prior_configuration m), c))"

section \<open>The birth marker\<close>

definition stamp_born_marker :: "controller \<Rightarrow> controller" where
  "stamp_born_marker c =
     (let v = (if ct_born_version c = [] then ''unknown'' else ct_born_version c);
          stamp = (\<lambda>c. on_store (set_setting born_version_key v) c);
          (err, c) = stamp c;
          (err, c) = (case err of None \<Rightarrow> (None, c) | Some _ \<Rightarrow> stamp c)
      in case err of
           None \<Rightarrow> c\<lparr>ct_born_pending := False, ct_born_err := None\<rparr>
         | Some e \<Rightarrow> c\<lparr>ct_born_err := Some e\<rparr>)"

definition complete_pending_born_marker :: "controller \<Rightarrow> controller" where
  "complete_pending_born_marker c = (if \<not> ct_born_pending c then c else stamp_born_marker c)"

definition ensure_born_marker :: "world \<Rightarrow> (string \<rightharpoonup> string) \<Rightarrow> controller \<Rightarrow> controller" where
  "ensure_born_marker w m c =
     (if m born_version_key \<noteq> None then c\<lparr>ct_born_pending := False, ct_born_err := None\<rparr>
      else if ct_creation_known c \<and> \<not> ct_created_here c then c
      else if ct_born_pending c then stamp_born_marker c
      else case established_in_store w c of
          (Inl e, c) \<Rightarrow> c\<lparr>ct_born_err := Some e\<rparr>
        | (Inr True, c) \<Rightarrow> c
        | (Inr False, c) \<Rightarrow> stamp_born_marker (c\<lparr>ct_born_pending := True\<rparr>))"

definition forget_birth_witness :: "controller \<Rightarrow> controller" where
  "forget_birth_witness c = c\<lparr>ct_born_pending := False\<rparr>"

section \<open>Loading\<close>

definition seed_session_epoch :: "(string \<rightharpoonup> string) \<Rightarrow> controller \<Rightarrow> controller" where
  "seed_session_epoch m c =
     (let n = (case m session_epoch_key of Some v \<Rightarrow> parse_int_lax v | None \<Rightarrow> 0)
      in c\<lparr>ct_epoch := (if ct_epoch c > n then ct_epoch c else n)\<rparr>)"

definition read_retired_city_scope :: "(string \<rightharpoonup> string) \<Rightarrow> controller \<Rightarrow> controller" where
  "read_retired_city_scope m c =
     (let loc = trim_space (row m ''speed_auto_loc''); label = trim_space (row m ''speed_auto_label'')
      in c\<lparr>ct_scope := (if loc \<noteq> [] then (if label \<noteq> [] then label else loc) else [])\<rparr>)"

definition broadcast :: "config_values \<Rightarrow> controller \<Rightarrow> controller" where
  "broadcast v c = c\<lparr>ct_vals := v, ct_changed := Suc (ct_changed c)\<rparr>"

definition record_migrations :: "codec \<Rightarrow> (string \<rightharpoonup> string) \<Rightarrow> config_values \<Rightarrow> controller \<Rightarrow> controller" where
  "record_migrations cd m v c = snd (on_store (set_settings_diff (migration_rows cd m v)) c)"

text \<open>Sealing what a load found in the clear.\<close>

definition reseal_legacy :: "codec \<Rightarrow> controller \<Rightarrow> cfg_error option \<times> controller" where
  "reseal_legacy cd c =
     (case seal_servers cd c (restore_sealed cd c (iperf_servers_json cd (va_iperf_servers (ct_vals c)))) of
        Inl e \<Rightarrow> (Some LegacyReseal, c)
      | Inr sealed \<Rightarrow> (case on_store (set_settings_diff [(iperf_servers_key, sealed)]) (after_sealing c) of
          (Inl e, c) \<Rightarrow> (Some LegacyReseal, c) | (Inr _, c) \<Rightarrow> (None, c)))"

definition idle_controller :: "speed_db \<Rightarrow> config_values \<Rightarrow> controller" where
  "idle_controller d def = \<lparr>ct_db = d, ct_vals = normalize def, ct_defaults = normalize def, ct_changed = 0,
     ct_crypter = None, ct_nonce = 0, ct_sealed = Map.empty, ct_init_err = False, ct_born_version = [],
     ct_creation_known = False, ct_created_here = False, ct_born_err = None, ct_born_pending = False,
     ct_scope = [], ct_epoch = 0\<rparr>"

text \<open>What both loads do with the rows they read, up to the values: the marker, the passwords, the
  epoch and the retired scope.  The answer is the rows the values are read from and whether a
  password was found in the clear.\<close>

definition absorb_rows ::
  "codec \<Rightarrow> world \<Rightarrow> (string \<rightharpoonup> string) \<Rightarrow> controller \<Rightarrow> ((string \<rightharpoonup> string) \<times> bool) \<times> controller" where
  "absorb_rows cd w m c =
     (let c = ensure_born_marker w m c;
          ((raw, legacy), c) = unseal_servers cd (row m iperf_servers_key) c;
          m = m(iperf_servers_key \<mapsto> raw)
      in ((m, legacy), read_retired_city_scope m (seed_session_epoch m c)))"

datatype cfg_option = WithCrypter box | WithBornVersion string | WithDatabaseCreated bool

fun apply_option :: "cfg_option \<Rightarrow> controller \<Rightarrow> controller" where
  "apply_option (WithCrypter b) c = c\<lparr>ct_crypter := Some b\<rparr>"
| "apply_option (WithBornVersion v) c = c\<lparr>ct_born_version := v\<rparr>"
| "apply_option (WithDatabaseCreated created) c = c\<lparr>ct_creation_known := True, ct_created_here := created\<rparr>"

definition new_controller ::
  "codec \<Rightarrow> world \<Rightarrow> speed_db \<Rightarrow> config_values \<Rightarrow> cfg_option list \<Rightarrow> cfg_error option \<times> controller" where
  "new_controller cd w d def options =
     (case on_store all_settings (fold apply_option options (idle_controller d def)) of
        (Inl e, c) \<Rightarrow> (Some (StoreErr e), c\<lparr>ct_init_err := True\<rparr>)
      | (Inr m, c) \<Rightarrow>
          let ((m, legacy), c) = absorb_rows cd w m c;
              c = c\<lparr>ct_vals := normalize (overlay cd def m)\<rparr>;
              c = record_migrations cd m (ct_vals c) c
          in if legacy then reseal_legacy cd c else (None, c))"

definition reload :: "codec \<Rightarrow> world \<Rightarrow> controller \<Rightarrow> (bool \<times> cfg_error option) \<times> controller" where
  "reload cd w c0 =
     (let was_loaded = \<not> ct_init_err c0 in
      case on_store all_settings c0 of
        (Inl e, c) \<Rightarrow> ((was_loaded, Some (StoreErr e)), c)
      | (Inr m, c) \<Rightarrow>
          let ((m, legacy), c) = absorb_rows cd w m c;
              v = normalize (overlay cd (ct_defaults c) m);
              c = (broadcast v c)\<lparr>ct_init_err := False\<rparr>;
              c = record_migrations cd m v c;
              (err, c) = (if legacy then reseal_legacy cd c else (None, c))
          in ((was_loaded, err), c))"

definition loaded_ok :: "cfg_error option \<Rightarrow> bool" where
  "loaded_ok e \<longleftrightarrow> e = None \<or> e = Some LegacyReseal"

text \<open>The hook runs after every usable load and hears whether it was the first.\<close>

definition reload_and_tell :: "codec \<Rightarrow> world \<Rightarrow> controller \<Rightarrow> (cfg_error option \<times> bool option) \<times> controller" where
  "reload_and_tell cd w c = (case reload cd w c of
     ((was_loaded, err), c) \<Rightarrow> ((err, if loaded_ok err then Some (\<not> was_loaded) else None), c))"

definition loaded :: "controller \<Rightarrow> bool" where "loaded c \<longleftrightarrow> \<not> ct_init_err c"

section \<open>Writing\<close>

definition replace_row :: "string \<Rightarrow> string \<Rightarrow> (string \<times> string) list \<Rightarrow> (string \<times> string) list" where
  "replace_row k v kv = map (\<lambda>(k', v'). (k', if k' = k then v else v')) kv"

definition mutate_err :: "codec \<Rightarrow> (config_values \<Rightarrow> (config_values \<times> (string \<times> string) list) ctl) \<Rightarrow> config_values ctl" where
  "mutate_err cd fn c =
     (if ct_init_err c then (Inl Unavailable, c)
      else case fn (ct_vals c) c of
        (Inl e, c) \<Rightarrow> (Inl e, c)
      | (Inr (v, kv), c) \<Rightarrow>
          (case (case map_of kv iperf_servers_key of
                   None \<Rightarrow> Inr (kv, c)
                 | Some raw \<Rightarrow> (case seal_servers cd c (restore_sealed cd c raw) of
                     Inl e \<Rightarrow> Inl e
                   | Inr sealed \<Rightarrow> Inr (replace_row iperf_servers_key sealed kv, after_sealing c))) of
             Inl e \<Rightarrow> (Inl e, c)
           | Inr (kv, c) \<Rightarrow> (case on_store (set_settings_diff kv) c of
               (Inl e, c) \<Rightarrow> (Inl (StoreErr e), c)
             | (Inr _, c) \<Rightarrow> (Inr v, complete_pending_born_marker (broadcast v c)))))"

definition mutate :: "codec \<Rightarrow> (config_values \<Rightarrow> config_values \<times> (string \<times> string) list) \<Rightarrow> config_values ctl" where
  "mutate cd fn = mutate_err cd (\<lambda>v. ret (fn v))"

text \<open>Which rows a save of the form writes.\<close>

definition form_diff :: "(string \<rightharpoonup> string) \<Rightarrow> (string \<rightharpoonup> string) \<Rightarrow> (string \<rightharpoonup> string) \<Rightarrow> string list \<Rightarrow>
    (string \<times> string) list \<Rightarrow> (string \<times> string) list" where
  "form_diff stored old shipped submitted new_keys =
     filter (\<lambda>(k, val).
       if k \<notin> set submitted then Some val \<noteq> old k
       else let base = (case stored k of None \<Rightarrow> shipped k
                | Some t \<Rightarrow> if k = iperf_servers_key then old k else Some t)
            in Some val \<noteq> base \<or> Some val \<noteq> old k) new_keys"

definition update_values :: "patch \<Rightarrow> config_values \<Rightarrow> config_values" where
  "update_values p cur =
     (let nv = normalize (patch_apply p cur)
      in nv\<lparr>va_iperf_servers := merge_iperf_passwords (va_iperf_servers nv) (va_iperf_servers cur)\<rparr>)"

definition reserved_password :: "patch \<Rightarrow> bool" where
  "reserved_password p = (case pa_iperf_servers p of None \<Rightarrow> False
     | Some ts \<Rightarrow> list_ex (\<lambda>t. is_sealed (trim_space (it_password t))) ts)"

definition update :: "codec \<Rightarrow> patch \<Rightarrow> config_values ctl" where
  "update cd p c =
     (if reserved_password p then (Inl InvalidPatch, c)
      else mutate_err cd (\<lambda>cur c. case on_store all_settings c of
          (Inl e, c) \<Rightarrow> (Inl (StoreErr e), c)
        | (Inr stored, c) \<Rightarrow>
            let out = update_values p cur
            in (Inr (out, form_diff stored (map_of (form_keys cd (normalize cur)))
                   (map_of (form_keys cd (normalize (shipped_defaults (ct_defaults c)))))
                   (patch_keys p) (form_keys cd out)), c)) c)"

section \<open>The single-purpose setters\<close>

definition set_monitoring :: "codec \<Rightarrow> bool \<Rightarrow> config_values ctl" where
  "set_monitoring cd on = mutate cd (\<lambda>v. (v\<lparr>va_monitoring := on\<rparr>, [(''monitoring'', b2s on)]))"

definition set_monitoring_answering_setup :: "codec \<Rightarrow> bool \<Rightarrow> controller \<Rightarrow> (bool \<times> cfg_error option) \<times> controller" where
  "set_monitoring_answering_setup cd on c =
     (let answers = on \<and> \<not> va_quick_setup_done (ct_vals c) in
      case mutate cd (\<lambda>v. let v1 = v\<lparr>va_monitoring := on\<rparr> in
          if on \<and> \<not> va_quick_setup_done v1
          then (v1\<lparr>va_quick_setup_done := True\<rparr>, [(''monitoring'', b2s on), (''quick_setup_done'', b2s True)])
          else (v1, [(''monitoring'', b2s on)])) c of
        (Inl e, c) \<Rightarrow> ((False, Some e), c)
      | (Inr _, c) \<Rightarrow> ((answers, None), c))"

definition set_update_check_enabled :: "codec \<Rightarrow> bool \<Rightarrow> config_values ctl" where
  "set_update_check_enabled cd on =
     mutate cd (\<lambda>v. (v\<lparr>va_update_check_enabled := on\<rparr>, [(''update_check_enabled'', b2s on)]))"

definition set_quick_setup_done :: "codec \<Rightarrow> bool \<Rightarrow> config_values ctl" where
  "set_quick_setup_done cd fin =
     mutate cd (\<lambda>v. (v\<lparr>va_quick_setup_done := fin\<rparr>, [(''quick_setup_done'', b2s fin)]))"

definition set_log_level :: "codec \<Rightarrow> string \<Rightarrow> config_values ctl" where
  "set_log_level cd level0 =
     (let level = one_of [''debug'', ''info'', ''warn'', ''error'', ''off''] ''info'' level0 in
      mutate cd (\<lambda>v. (v\<lparr>va_log_level := level\<rparr>, [(''log_level'', level)])))"

definition set_log_redact_pii :: "codec \<Rightarrow> bool \<Rightarrow> config_values ctl" where
  "set_log_redact_pii cd on = mutate cd (\<lambda>v. (v\<lparr>va_log_redact_pii := on\<rparr>, [(''log_redact_pii'', b2s on)]))"

definition set_access_local_only :: "codec \<Rightarrow> bool \<Rightarrow> config_values ctl" where
  "set_access_local_only cd on =
     mutate cd (\<lambda>v. (v\<lparr>va_access_local_only := on\<rparr>, [(''access_local_only'', b2s on)]))"

definition set_auth_enabled :: "codec \<Rightarrow> bool \<Rightarrow> config_values ctl" where
  "set_auth_enabled cd on = mutate cd (\<lambda>v. (v\<lparr>va_auth_enabled := on\<rparr>, [(''auth_enabled'', b2s on)]))"

definition set_auth_password :: "codec \<Rightarrow> string \<Rightarrow> string \<Rightarrow> config_values ctl" where
  "set_auth_password cd user0 hash =
     (let user = norm_user user0 in
      mutate cd (\<lambda>v. (v\<lparr>va_auth_user := user, va_auth_hash := hash, va_auth_enabled := True\<rparr>,
        [(''auth_user'', user), (''auth_hash'', hash), (''auth_enabled'', b2s True)])))"

definition set_auth_user :: "codec \<Rightarrow> string \<Rightarrow> config_values ctl" where
  "set_auth_user cd user0 =
     (let user = norm_user user0 in mutate cd (\<lambda>v. (v\<lparr>va_auth_user := user\<rparr>, [(''auth_user'', user)])))"

definition clear_auth :: "codec \<Rightarrow> config_values ctl" where
  "clear_auth cd = mutate cd (\<lambda>v. (v\<lparr>va_auth_enabled := False, va_auth_hash := []\<rparr>,
     [(''auth_enabled'', b2s False), (''auth_hash'', [])]))"

definition bump_session_epoch :: "controller \<Rightarrow> db_error option \<times> controller" where
  "bump_session_epoch c =
     (let n = wrap64 (ct_epoch c + 1)
      in on_store (set_setting session_epoch_key (int_text n)) (c\<lparr>ct_epoch := n\<rparr>))"

section \<open>The first run\<close>

record quick_setup_answer =
  qa_dismiss :: bool
  qa_speedtest :: bool
  qa_speed_seconds :: int
  qa_update_check :: bool
  qa_local_only :: bool
  qa_auth_enabled :: bool
  qa_auth_user :: string
  qa_auth_hash :: string

definition quick_setup_values :: "quick_setup_answer \<Rightarrow> config_values \<Rightarrow> config_values \<times> (string \<times> string) list" where
  "quick_setup_values a v =
     (let kv = [(''speedtest_enabled'', b2s (qa_speedtest a)), (''update_check_enabled'', b2s (qa_update_check a)),
                (''access_local_only'', b2s (qa_local_only a)), (''monitoring'', b2s True),
                (''quick_setup_done'', b2s True)];
          v = v\<lparr>va_speedtest_enabled := qa_speedtest a, va_update_check_enabled := qa_update_check a,
                va_access_local_only := qa_local_only a, va_monitoring := True, va_quick_setup_done := True\<rparr>;
          d = clamp_d (wrap64 (qa_speed_seconds a * second)) min_speed max_speed;
          (v, kv) = (if qa_speedtest a then (v\<lparr>va_speed := d\<rparr>, kv @ [(''speed_interval_s'', sec_text d)]) else (v, kv));
          user = norm_user (qa_auth_user a)
      in if qa_auth_hash a \<noteq> []
         then (v\<lparr>va_auth_user := user, va_auth_hash := qa_auth_hash a, va_auth_enabled := qa_auth_enabled a\<rparr>,
               kv @ [(''auth_user'', user), (''auth_hash'', qa_auth_hash a), (''auth_enabled'', b2s (qa_auth_enabled a))])
         else (v\<lparr>va_auth_enabled := qa_auth_enabled a\<rparr>, kv @ [(''auth_enabled'', b2s (qa_auth_enabled a))]))"

definition apply_quick_setup :: "codec \<Rightarrow> quick_setup_answer \<Rightarrow> config_values ctl" where
  "apply_quick_setup cd a =
     (if qa_dismiss a then set_quick_setup_done cd True else mutate cd (quick_setup_values a))"

definition quick_setup_grace :: int where "quick_setup_grace = 48 * 60 * 60"

definition quick_setup_hold :: "bool \<Rightarrow> int \<Rightarrow> int \<Rightarrow> bool" where
  "quick_setup_hold fin offer_since now =
     (if fin \<or> offer_since = 0 then False else wrap64 (now - offer_since) < quick_setup_grace)"

definition quick_setup_offer_since_err :: "controller \<Rightarrow> (db_error + int) \<times> controller" where
  "quick_setup_offer_since_err c = (case on_store all_settings c of
     (Inl e, c) \<Rightarrow> (Inl e, c) | (Inr m, c) \<Rightarrow> (Inr (parse_int_lax (row m offer_key)), c))"

definition quick_setup_offer_since :: "controller \<Rightarrow> int \<times> controller" where
  "quick_setup_offer_since c = (case quick_setup_offer_since_err c of
     (Inl e, c) \<Rightarrow> (0, c) | (Inr n, c) \<Rightarrow> (n, c))"

definition seed_offer_clock :: "db_error + int \<Rightarrow> int \<Rightarrow> controller \<Rightarrow> cfg_error option \<times> controller" where
  "seed_offer_clock since now c = (case since of
     Inl e \<Rightarrow> (Some (StoreErr e), c)
   | Inr n \<Rightarrow> if n \<noteq> 0 \<and> n \<le> now then (None, c)
              else (case on_store (set_setting offer_key (int_text now)) c of
                 (None, c) \<Rightarrow> (None, c) | (Some e, c) \<Rightarrow> (Some (StoreErr e), c)))"

definition ensure_quick_setup_offer :: "codec \<Rightarrow> world \<Rightarrow> int \<Rightarrow> controller \<Rightarrow> cfg_error option \<times> controller" where
  "ensure_quick_setup_offer cd w now c =
     (if va_quick_setup_done (ct_vals c) then (None, c)
      else case established_in_store w c of
        (Inl e, c) \<Rightarrow> (Some (StoreErr e), c)
      | (Inr True, c) \<Rightarrow> (case set_quick_setup_done cd True c of
          (Inl e, c) \<Rightarrow> (Some e, c) | (Inr _, c) \<Rightarrow> (None, c))
      | (Inr False, c) \<Rightarrow> (case quick_setup_offer_since_err c of
          (since, c) \<Rightarrow> seed_offer_clock since now c))"

end
