(* ===== verification/ValuesFacts.thy ===== *)
theory ValuesFacts
  imports Values
begin

text \<open>
  What \<open>normalize\<close> guarantees: every bound of the settings holds afterwards, and doing it again
  changes at most the ends of texts the first time had to cut.
\<close>

section \<open>Well-formed settings\<close>

definition in_ranges :: "(int \<times> int \<times> int) list \<Rightarrow> bool" where
  "in_ranges = list_all (\<lambda>(x, lo, hi). lo \<le> x \<and> x \<le> hi)"

definition among :: "(string \<times> string list) list \<Rightarrow> bool" where
  "among = list_all (\<lambda>(x, allowed). x \<in> set allowed)"

definition within_caps :: "(string \<times> nat) list \<Rightarrow> bool" where
  "within_caps = list_all (\<lambda>(x, cap). length x \<le> cap)"

definition finite_upto :: "(gfloat \<times> rat option) list \<Rightarrow> bool" where
  "finite_upto = list_all (\<lambda>(x, hi). case x of
     Finite q \<Rightarrow> 0 \<le> q \<and> (case hi of None \<Rightarrow> True | Some h \<Rightarrow> q \<le> h) | _ \<Rightarrow> False)"

definition ok_window :: "window \<Rightarrow> bool" where
  "ok_window w \<longleftrightarrow> length (wi_days w) = 7 \<and> set (wi_days w) \<subseteq> {CHR ''0'', CHR ''1''} \<and>
     0 \<le> wi_start w \<and> wi_start w \<le> 1439 \<and> 0 \<le> wi_end w \<and> wi_end w \<le> 1439"

definition ok_windows :: "window list \<Rightarrow> bool" where
  "ok_windows ws \<longleftrightarrow> length ws \<le> max_windows \<and> list_all ok_window ws"

definition ok_server :: "saved_server \<Rightarrow> bool" where
  "ok_server s \<longleftrightarrow> ss_id s \<noteq> [] \<and> valid_coord (ss_lat s) (ss_lon s) \<and>
     within_caps [(ss_id s, max_server_id), (ss_sponsor s, max_label_len), (ss_name s, max_label_len),
       (ss_country s, max_label_len)]"

definition ok_servers :: "saved_server list \<Rightarrow> bool" where
  "ok_servers ss \<longleftrightarrow> length ss \<le> max_speed_servers \<and> list_all ok_server ss \<and> distinct (map ss_id ss)"

definition ok_target :: "iperf_target \<Rightarrow> bool" where
  "ok_target t \<longleftrightarrow> it_addr t \<noteq> [] \<and> \<not> starts_with ''-'' (it_addr t) \<and> \<not> starts_with ''-'' (it_bind t) \<and>
     \<not> contains_any (it_bind t) blank_chars \<and> \<not> is_sealed (it_password t) \<and>
     among [(it_ipver t, [''4'', ''6'', ''auto''])] \<and>
     within_caps [(it_label t, 60), (it_addr t, 255), (it_bind t, 255), (it_username t, 120),
       (it_password t, 255), (it_rsa_key t, 8192)]"

definition ok_targets :: "iperf_target list \<Rightarrow> bool" where
  "ok_targets ts \<longleftrightarrow> length ts \<le> max_iperf_servers \<and> list_all ok_target ts \<and> distinct (map it_addr ts)"

definition ok_word :: "nat \<Rightarrow> string \<Rightarrow> bool" where
  "ok_word n s \<longleftrightarrow> \<not> starts_with ''-'' s \<and> \<not> contains_any s blank_chars \<and> length s \<le> n"

definition value_ranges :: "config_values \<Rightarrow> (int \<times> int \<times> int) list" where
  "value_ranges v = [(va_latency v, min_latency_every, max_latency), (va_speed v, min_speed, max_speed),
       (va_timeout v, min_timeout, max_timeout), (va_save_every v, 0, max_save_every),
       (va_retention v, 0, max_duration), (va_speed_retention v, 0, max_duration),
       (va_downtime_retention v, 0, max_duration), (va_down_after v, min_streak, max_streak),
       (va_up_after v, min_streak, max_streak), (va_thresh_consec v, min_streak, max_streak),
       (va_iperf_dur v, min_iperf_dur, max_iperf_dur), (va_iperf_streams v, min_iperf_streams, max_iperf_streams),
       (va_ookla_connections v, 0, max_ookla_connections), (va_speed_challenge_every v, 0, max_speed_challenge_every),
       (va_speed_best_of_count v, 1, max_speed_best_of), (va_iperf_omit v, 0, max_iperf_omit),
       (va_iperf_udp_rate v, 0, 10000), (va_iperf_window v, 0, max_iperf_window),
       (va_speed_retries v, 0, max_speed_retries), (va_iperf_retries v, 0, max_speed_retries),
       (va_iperf_mss v, 0, max_iperf_mss)]"

definition value_choices :: "config_values \<Rightarrow> (string \<times> string list) list" where
  "value_choices v = [(va_ipv6_mode v, [''on'', ''off'', ''auto'']), (va_webhook_format v, [''auto'', ''ntfy'', ''generic'']),
       (va_log_level v, [''debug'', ''info'', ''warn'', ''error'', ''off'']),
       (va_digest_freq v, [''daily'', ''weekly'', ''off'']), (va_speed_engine v, [''ookla'', ''iperf3'']),
       (va_speed_direction v, [''both'', ''down'', ''up'']),
       (va_iperf_direction v, [''both'', ''down'', ''up'', ''bidir''])]"

definition value_floats :: "config_values \<Rightarrow> (gfloat \<times> rat option) list" where
  "value_floats v = [(va_thresh_down_mbps v, None), (va_thresh_up_mbps v, None), (va_thresh_ping_ms v, None),
       (va_thresh_jitter_ms v, None), (va_thresh_loss_pct v, Some 100), (va_thresh_bloat_down_ms v, None),
       (va_thresh_bloat_up_ms v, None), (va_degraded_ping_ms v, Some 5000), (va_speed_busy_mbps v, Some 10000)]"

definition value_texts :: "config_values \<Rightarrow> (string \<times> nat) list" where
  "value_texts v = [(va_speed_server_id v, max_server_id), (va_webhook_url v, max_url), (va_heartbeat_url v, max_url),
       (va_iperf_server v, max_server_addr), (va_auth_user v, max_user)]"

definition well_formed :: "config_values \<Rightarrow> bool" where
  "well_formed v \<longleftrightarrow>
     in_ranges (value_ranges v) \<and>
     among (value_choices v) \<and>
     finite_upto (value_floats v) \<and>
     within_caps (value_texts v) \<and>
     ok_word 255 (va_exit_target v) \<and> ok_word 32 (va_iperf_congestion v) \<and> ok_word 32 (va_iperf_dscp v) \<and>
     ok_servers (va_speed_servers v) \<and> ok_targets (va_iperf_servers v) \<and>
     ok_windows (va_sched_lat_windows v) \<and> ok_windows (va_sched_speed_windows v) \<and>
     (va_sched_lat_enabled v \<longrightarrow> va_sched_lat_windows v \<noteq> []) \<and>
     (va_sched_speed_enabled v \<longrightarrow> va_sched_speed_windows v \<noteq> []) \<and> va_auth_user v \<noteq> []"

section \<open>Normalized settings are well-formed\<close>

lemma clamp_bounds: "lo \<le> hi \<Longrightarrow> lo \<le> clamp_d x lo hi \<and> clamp_d x lo hi \<le> hi"
  by (auto simp: clamp_d_def)

lemma clamp_i_bounds: "lo \<le> hi \<Longrightarrow> lo \<le> clamp_i x lo hi \<and> clamp_i x lo hi \<le> hi"
  by (auto simp: clamp_i_def)

lemma one_of_in: "one_of allowed fallback s \<in> insert fallback (set allowed)"
  by (simp add: one_of_def)

lemma sanitize_thresh_finite: "\<exists>q. sanitize_thresh f = Finite q \<and> 0 \<le> q"
  by (auto simp: sanitize_thresh_def split: gfloat.split)

lemma clamp_f_finite: "0 \<le> q \<Longrightarrow> 0 \<le> h \<Longrightarrow> \<exists>r. clamp_f (Finite q) (Finite 0) (Finite h) = Finite r \<and> 0 \<le> r \<and> r \<le> h"
  by (auto simp: clamp_f_def)

lemma norm_days_ok: "length (norm_days s) = 7 \<and> set (norm_days s) \<subseteq> {CHR ''0'', CHR ''1''}"
  by (auto simp: norm_days_def all_days_def list_ex_iff)

lemma clamp_min_ok: "0 \<le> clamp_min m \<and> clamp_min m \<le> 1439"
  by (auto simp: clamp_min_def)

lemma sanitize_windows_ok: "ok_windows (sanitize_windows ws)"
  using norm_days_ok clamp_min_ok
  by (auto simp: ok_windows_def sanitize_windows_def ok_window_def list_all_iff)

lemma sanitize_word_ok: "ok_word 255 (sanitize_exit_target s)" "ok_word 32 (sanitize_iperf_token s)"
  by (auto simp: ok_word_def sanitize_exit_target_def sanitize_iperf_token_def contains_any_def Let_def)

lemma norm_user_ok: "norm_user s \<noteq> []" "length (norm_user s) \<le> max_user"
  by (auto simp: norm_user_def Let_def cap_len_le max_user_def)

lemma keep_first_subset: "set (keep_first clean key usable room seen xs) \<subseteq> clean ` set xs"
  by (induction clean key usable room seen xs rule: keep_first.induct) (auto simp: Let_def)

lemma keep_first_length: "room > 0 \<Longrightarrow> length (keep_first clean key usable room seen xs) \<le> room"
  by (induction clean key usable room seen xs rule: keep_first.induct) (auto simp: Let_def)

lemma keep_first_keys:
  "x \<in> set (keep_first clean key usable room seen xs) \<Longrightarrow> usable (key x) \<and> key x \<notin> set seen"
  by (induction clean key usable room seen xs rule: keep_first.induct) (auto simp: Let_def split: if_splits)

lemma keep_first_distinct: "distinct (map key (keep_first clean key usable room seen xs))"
proof (induction clean key usable room seen xs rule: keep_first.induct)
  case (2 clean key usable room seen y xs)
  have "key (clean y) \<notin> key ` set (keep_first clean key usable (room - 1) (key (clean y) # seen) xs)"
    using keep_first_keys [of _ clean key usable "room - 1" "key (clean y) # seen" xs] by fastforce
  then show ?case using 2 by (auto simp: Let_def)
qed auto

lemma starts_with_cap: "starts_with p (cap_len s n) \<Longrightarrow> starts_with p s"
  using cap_len_prefix [of s n] by (metis append.assoc starts_with_iff)

lemma contains_any_cap: "contains_any (cap_len s n) cs \<Longrightarrow> contains_any s cs"
  using cap_len_prefix [of s n] by (metis contains_any_def list_ex_append)

lemma sanitize_speed_servers_ok: "ok_servers (sanitize_speed_servers ss)"
proof -
  let ?out = "sanitize_speed_servers ss"
  have "ok_server s" if "s \<in> set ?out" for s
  proof -
    have "s \<in> clean_server ` set ss" using that keep_first_subset unfolding sanitize_speed_servers_def by fast
    then obtain r where "s = clean_server r" by blast
    moreover have "ss_id s \<noteq> []" using that keep_first_keys unfolding sanitize_speed_servers_def by fast
    ultimately show ?thesis by (auto simp: ok_server_def clean_server_def Let_def within_caps_def cap_len_le valid_coord_def gf_le_def)
  qed
  moreover have "length ?out \<le> max_speed_servers"
    unfolding sanitize_speed_servers_def by (rule keep_first_length) (simp add: max_speed_servers_def)
  ultimately show ?thesis
    using keep_first_distinct by (auto simp: ok_servers_def list_all_iff sanitize_speed_servers_def)
qed

lemma clean_target_ok:
  assumes "it_addr (clean_target t) \<noteq> []" and "\<not> starts_with ''-'' (it_addr (clean_target t))"
  shows "ok_target (clean_target t)"
proof -
  let ?b = "if starts_with ''-'' (trim_space (it_bind t)) \<or> contains_any (trim_space (it_bind t)) blank_chars
      then [] else trim_space (it_bind t)"
  have "\<not> starts_with ''-'' ?b" "\<not> contains_any ?b blank_chars" by (auto simp: contains_any_def)
  then have "\<not> starts_with ''-'' (cap_len ?b 255)" "\<not> contains_any (cap_len ?b 255) blank_chars"
    using starts_with_cap contains_any_cap by blast+
  moreover have "\<not> is_sealed (cap_len (if is_sealed (it_password t) then [] else it_password t) 255)"
    by (auto simp: is_sealed_def seal_prefix_def dest: starts_with_cap)
  ultimately show ?thesis using assms
    by (auto simp: ok_target_def clean_target_def Let_def among_def within_caps_def cap_len_le)
qed

lemma sanitize_iperf_servers_ok: "ok_targets (sanitize_iperf_servers ts)"
proof -
  let ?out = "sanitize_iperf_servers ts"
  have "ok_target t" if "t \<in> set ?out" for t
  proof -
    have "t \<in> clean_target ` set ts" using that keep_first_subset unfolding sanitize_iperf_servers_def by fast
    then obtain r where "t = clean_target r" by blast
    moreover have "it_addr t \<noteq> [] \<and> \<not> starts_with ''-'' (it_addr t)"
      using that keep_first_keys unfolding sanitize_iperf_servers_def by fast
    ultimately show ?thesis using clean_target_ok by blast
  qed
  moreover have "length ?out \<le> max_iperf_servers"
    unfolding sanitize_iperf_servers_def by (rule keep_first_length) (simp add: max_iperf_servers_def)
  ultimately show ?thesis
    using keep_first_distinct by (auto simp: ok_targets_def list_all_iff sanitize_iperf_servers_def)
qed

lemma normalize_ranges:
  "lo \<le> hi \<Longrightarrow> in_ranges ((clamp_d x lo hi, lo, hi) # rs) \<longleftrightarrow> in_ranges rs"
  "lo \<le> hi \<Longrightarrow> in_ranges ((clamp_i x lo hi, lo, hi) # rs) \<longleftrightarrow> in_ranges rs"
  by (simp_all add: in_ranges_def clamp_bounds clamp_i_bounds)

lemma normalize_among:
  "fallback \<in> set allowed' \<Longrightarrow> set allowed \<subseteq> set allowed' \<Longrightarrow>
     among ((one_of allowed fallback x, allowed') # rs) \<longleftrightarrow> among rs"
  by (auto simp: among_def one_of_def)

lemma normalize_finite:
  "finite_upto ((sanitize_thresh f, None) # rs) \<longleftrightarrow> finite_upto rs"
  "0 \<le> h \<Longrightarrow> finite_upto ((clamp_f (sanitize_thresh f) (Finite 0) (Finite h), Some h) # rs) \<longleftrightarrow> finite_upto rs"
  by (cases f; simp add: finite_upto_def sanitize_thresh_def clamp_f_def)+

lemma max_save_every_pos: "0 \<le> max_save_every"
  by (simp add: max_save_every_def)

lemma finite_upto_Nil: "finite_upto []" and among_Nil: "among []" and in_ranges_Nil: "in_ranges []"
  by (simp_all add: finite_upto_def among_def in_ranges_def)

lemmas normalized = normalize_ranges normalize_among normalize_finite finite_upto_Nil among_Nil in_ranges_Nil

lemma normalize_loss:
  "finite_upto ((let loss = sanitize_thresh f in if gf_less (Finite 100) loss then Finite 100 else loss, Some 100) # rs)
     \<longleftrightarrow> finite_upto rs"
  by (cases f; simp add: finite_upto_def sanitize_thresh_def Let_def)

lemma normalize_well_formed: "well_formed (normalize v)"
  unfolding well_formed_def
proof (intro conjI impI, goal_cases)
  case 1 show ?case by (simp add: value_ranges_def normalize_def Let_def normalized bound_defs max_save_every_pos)
next
  case 2 show ?case by (simp add: value_choices_def normalize_def Let_def normalized)
next
  case 3 show ?case by (simp add: value_floats_def normalize_def Let_def normalized normalize_loss [unfolded Let_def])
next
  case 4 show ?case by (simp add: value_texts_def normalize_def Let_def within_caps_def cap_len_le norm_user_ok)
qed (simp_all add: normalize_def Let_def sanitize_word_ok sanitize_speed_servers_ok sanitize_iperf_servers_ok
    sanitize_windows_ok norm_user_ok)

section \<open>Normalizing again\<close>

text \<open>A text that fits its cap is only trimmed.  A pass over a cut text trims what the cut exposed, and
  then nothing moves any more.\<close>

definition trim_cap :: "nat \<Rightarrow> string \<Rightarrow> string" where "trim_cap n s = cap_len (trim_space s) n"

lemma trim_cap_settles: "trim_cap n (trim_cap n (trim_cap n s)) = trim_cap n (trim_cap n s)"
  by (simp add: trim_cap_def trim_cap_again)

definition settled :: "nat \<Rightarrow> string \<Rightarrow> bool" where
  "settled n s \<longleftrightarrow> length s \<le> n \<and> no_space_ends s"

lemma settled_fixed: "settled n s \<Longrightarrow> trim_cap n s = s"
  by (simp add: settled_def trim_cap_def trim_space_fixed)

lemma settled_twice: "settled n (trim_cap n (trim_cap n s))"
  unfolding settled_def
  by (metis cap_len_le trim_cap_again trim_cap_def trim_space_ends)

lemma clamp_again [simp]:
  "lo \<le> hi \<Longrightarrow> clamp_d (clamp_d x lo hi) lo hi = clamp_d x lo hi"
  "lo \<le> hi \<Longrightarrow> clamp_i (clamp_i x lo hi) lo hi = clamp_i x lo hi"
  "fallback \<in> set allowed \<Longrightarrow> one_of allowed fallback (one_of allowed fallback s) = one_of allowed fallback s"
  "sanitize_thresh (sanitize_thresh f) = sanitize_thresh f"
  by (auto simp: clamp_d_def clamp_i_def one_of_def sanitize_thresh_def split: gfloat.splits)

lemma digest_again [simp]:
  "one_of [''daily'', ''weekly''] ''off'' (one_of [''daily'', ''weekly''] ''off'' s) = one_of [''daily'', ''weekly''] ''off'' s"
  by (simp add: one_of_def)

lemma float_again [simp]:
  "0 \<le> h \<Longrightarrow> clamp_f (sanitize_thresh (clamp_f (sanitize_thresh f) (Finite 0) (Finite h))) (Finite 0) (Finite h) =
     clamp_f (sanitize_thresh f) (Finite 0) (Finite h)"
  by (cases f) (auto simp: sanitize_thresh_def clamp_f_def)

lemma windows_again [simp]: "sanitize_windows (sanitize_windows ws) = sanitize_windows ws"
proof -
  have d: "norm_days (norm_days s) = norm_days s" for s by (auto simp: norm_days_def all_days_def)
  have m: "clamp_min (clamp_min x) = clamp_min x" for x by (simp add: clamp_min_def)
  show ?thesis by (auto simp: sanitize_windows_def d m min_def)
qed

lemma word_again [simp]:
  "sanitize_exit_target (sanitize_exit_target s) = sanitize_exit_target s"
  "sanitize_iperf_token (sanitize_iperf_token s) = sanitize_iperf_token s"
  by (auto simp: sanitize_exit_target_def sanitize_iperf_token_def Let_def contains_any_def trim_space_fixed no_space_ends_def)

lemma keep_first_fixed:
  assumes "\<And>x. x \<in> set xs \<Longrightarrow> clean x = x \<and> usable (key x) \<and> key x \<notin> set seen"
    and "distinct (map key xs)" and "length xs \<le> room"
  shows "keep_first clean key usable room seen xs = xs"
  using assms
proof (induction xs arbitrary: room seen)
  case (Cons x xs)
  have "room \<le> 1 \<Longrightarrow> xs = []" using Cons.prems(3) by (cases xs) auto
  moreover have "keep_first clean key usable (room - 1) (key x # seen) xs = xs"
    using Cons.prems by (intro Cons.IH) (auto simp: image_iff)
  ultimately show ?case using Cons.prems(1) [of x] by (auto simp: Let_def)
qed simp

lemma keep_first_settles:
  fixes key :: "'a \<Rightarrow> string"
  assumes "\<And>x. clean (clean (clean x)) = clean (clean x)" and "0 < room"
  shows "keep_first clean key usable room [] (keep_first clean key usable room [] (keep_first clean key usable room [] xs)) =
    keep_first clean key usable room [] (keep_first clean key usable room [] xs)"
proof (rule keep_first_fixed, goal_cases)
  case (1 x)
  then have "x \<in> clean ` clean ` set xs" using keep_first_subset by (metis (no_types) image_mono subsetD)
  then show ?case using assms(1) keep_first_keys [OF 1] by auto
next
  case 2 show ?case by (rule keep_first_distinct)
next
  case 3 show ?case by (rule keep_first_length [OF assms(2)])
qed

lemma clean_server_settles: "clean_server (clean_server (clean_server s)) = clean_server (clean_server s)"
proof -
  have "valid_coord (Finite 0) (Finite 0)" by (simp add: valid_coord_def gf_le_def)
  then show ?thesis by (simp add: clean_server_def Let_def trim_cap_again)
qed

definition trim_bind :: "string \<Rightarrow> string" where
  "trim_bind s = cap_len (let b = trim_space s in
     if starts_with ''-'' b \<or> contains_any b blank_chars then [] else b) 255"

lemma trim_bind_settles: "trim_bind (trim_bind (trim_bind s)) = trim_bind (trim_bind s)"
proof -
  define b where "b = trim_space (trim_bind s)"
  have "length b \<le> 255"
    unfolding b_def using length_trim_space [of "trim_bind s"] by (simp add: trim_bind_def cap_len_le order_trans)
  then show ?thesis
    by (cases "starts_with ''-'' b \<or> contains_any b blank_chars")
      (auto simp: trim_bind_def [of "trim_bind s"] trim_bind_def [of b] trim_bind_def [of "[]"] Let_def
        b_def [symmetric] contains_any_def, simp_all add: b_def)
qed

lemma sealed_again:
  "is_sealed (cap_len (if is_sealed s then [] else s) n) = False"
  by (auto simp: is_sealed_def seal_prefix_def dest: starts_with_cap)

lemma clean_target_settles: "clean_target (clean_target (clean_target t)) = clean_target (clean_target t)"
  using trim_bind_settles [of "it_bind t"]
  by (simp add: clean_target_def Let_def trim_cap_again sealed_again trim_bind_def)

lemma servers_settle:
  "sanitize_speed_servers (sanitize_speed_servers (sanitize_speed_servers ss)) =
     sanitize_speed_servers (sanitize_speed_servers ss)"
  "sanitize_iperf_servers (sanitize_iperf_servers (sanitize_iperf_servers ts)) =
     sanitize_iperf_servers (sanitize_iperf_servers ts)"
  unfolding sanitize_speed_servers_def sanitize_iperf_servers_def
  by (rule keep_first_settles; simp add: clean_server_settles clean_target_settles max_speed_servers_def
      max_iperf_servers_def)+

lemma norm_user_settles: "norm_user (norm_user (norm_user s)) = norm_user (norm_user s)"
proof -
  have admin: "norm_user ''admin'' = ''admin''" by code_simp
  have "norm_user x = x" if "settled max_user x" "x \<noteq> []" for x
    using settled_fixed [OF that(1)] that(2) by (simp add: norm_user_def trim_cap_def)
  then show ?thesis
    using settled_twice [of max_user s] admin
    by (auto simp: norm_user_def [of s] norm_user_def [of "cap_len (trim_space s) max_user"] trim_cap_def Let_def)
qed

text \<open>One pass is not enough: a name cut just behind a blank keeps that blank, and the next load of the
  settings trims it.\<close>

lemma name_cut_at_a_blank:
  "norm_user (replicate 127 CHR ''a'' @ '' b'') = replicate 127 CHR ''a'' @ '' ''"
  "norm_user (replicate 127 CHR ''a'' @ '' '') = replicate 127 CHR ''a''"
  by code_simp+

theorem normalize_settles: "normalize (normalize (normalize v)) = normalize (normalize v)"
  by (simp add: normalize_def Let_def servers_settle norm_user_settles trim_cap_again bound_defs max_save_every_pos)

section \<open>Schedules\<close>

definition real_time :: "local_time \<Rightarrow> bool" where
  "real_time t \<longleftrightarrow> 0 \<le> lt_weekday t \<and> lt_weekday t < 7 \<and> 0 \<le> lt_hour t \<and> lt_hour t < 24 \<and>
     0 \<le> lt_minute t \<and> lt_minute t < 60"

definition minute_of_day :: "local_time \<Rightarrow> int" where
  "minute_of_day t = lt_hour t * 60 + lt_minute t"

text \<open>A window is a set of stretches, one per selected day: the whole day, or the minutes from its start
  on, which may run into the next day.\<close>

lemma window_active_stretch:
  assumes "ok_window w" and "real_time t"
  shows "window_active (wi_days w) (wi_start w) (wi_end w) t \<longleftrightarrow>
    (if wi_start w = wi_end w then day_on (wi_days w) (lt_weekday t)
     else \<exists>back \<in> {0, 1}. day_on (wi_days w) (lt_weekday t - back) \<and>
       0 \<le> back * 1440 + minute_of_day t - wi_start w \<and>
       back * 1440 + minute_of_day t - wi_start w < (wi_end w - wi_start w) mod 1440)"
proof -
  have m: "0 \<le> minute_of_day t" "minute_of_day t < 1440"
    using assms(2) by (auto simp: real_time_def minute_of_day_def)
  have b: "0 \<le> wi_start w" "wi_start w < 1440" "0 \<le> wi_end w" "wi_end w < 1440" "length (wi_days w) = 7"
    using assms(1) by (auto simp: ok_window_def)
  consider "wi_start w = wi_end w" | "wi_start w < wi_end w" | "wi_end w < wi_start w" by linarith
  then show ?thesis
  proof cases
    case 1
    then show ?thesis using b by (simp add: window_active_def)
  next
    case 2
    then have "(wi_end w - wi_start w) mod 1440 = wi_end w - wi_start w" using b by simp
    then show ?thesis using 2 b m by (auto simp: window_active_def minute_of_day_def Let_def)
  next
    case 3
    then have "(wi_end w - wi_start w) mod 1440 = wi_end w - wi_start w + 1440"
      using b by (intro mod_pos_pos_trivial [THEN trans [OF mod_add_self2 [symmetric]]]) auto
    then show ?thesis using 3 b m by (auto simp: window_active_def minute_of_day_def Let_def)
  qed
qed

lemma ok_day_on: "ok_window w \<Longrightarrow> CHR ''1'' \<in> set (wi_days w) \<longleftrightarrow> (\<exists>wd. 0 \<le> wd \<and> wd < 7 \<and> day_on (wi_days w) wd)"
proof
  assume w: "ok_window w" and "CHR ''1'' \<in> set (wi_days w)"
  then obtain i where "i < length (wi_days w)" "wi_days w ! i = CHR ''1''" by (auto simp: in_set_conv_nth)
  then show "\<exists>wd. 0 \<le> wd \<and> wd < 7 \<and> day_on (wi_days w) wd"
    using w by (intro exI [of _ "int i"]) (auto simp: day_on_def ok_window_def)
next
  assume w: "ok_window w" and "\<exists>wd. 0 \<le> wd \<and> wd < 7 \<and> day_on (wi_days w) wd"
  then obtain wd where "0 \<le> wd" "wd < 7" "wi_days w ! nat wd = CHR ''1''" by (auto simp: day_on_def)
  then show "CHR ''1'' \<in> set (wi_days w)" using w by (metis nat_less_iff nth_mem of_nat_numeral ok_window_def)
qed

lemma window_ever:
  assumes "ok_window w"
  shows "CHR ''1'' \<in> set (wi_days w) \<longleftrightarrow>
    (\<exists>t. real_time t \<and> window_active (wi_days w) (wi_start w) (wi_end w) t)"
proof
  assume "CHR ''1'' \<in> set (wi_days w)"
  then obtain wd where wd: "0 \<le> wd" "wd < 7" "day_on (wi_days w) wd" using assms by (auto simp: ok_day_on)
  let ?t = "\<lparr>lt_weekday = wd, lt_hour = wi_start w div 60, lt_minute = wi_start w mod 60\<rparr>"
  have "real_time ?t" using wd assms by (auto simp: real_time_def ok_window_def)
  moreover have "window_active (wi_days w) (wi_start w) (wi_end w) ?t"
    using wd by (auto simp: window_active_def Let_def)
  ultimately show "\<exists>t. real_time t \<and> window_active (wi_days w) (wi_start w) (wi_end w) t" by blast
next
  assume "\<exists>t. real_time t \<and> window_active (wi_days w) (wi_start w) (wi_end w) t"
  then obtain t wd where "day_on (wi_days w) wd"
    using assms by (auto simp: window_active_def ok_window_def Let_def split: if_splits)
  moreover have "day_on (wi_days w) wd = day_on (wi_days w) (wd mod 7)" by (simp add: day_on_def)
  ultimately have "\<exists>wd. 0 \<le> wd \<and> wd < 7 \<and> day_on (wi_days w) wd" by (intro exI [of _ "wd mod 7"]) auto
  then show "CHR ''1'' \<in> set (wi_days w)" using assms by (simp add: ok_day_on)
qed

lemma windows_ever_active_iff:
  assumes "ok_windows ws"
  shows "windows_ever_active ws \<longleftrightarrow> (\<exists>t. real_time t \<and> windows_active ws t)"
proof -
  have ok: "ok_window w \<and> length (wi_days w) = 7" if "w \<in> set ws" for w
    using assms that by (auto simp: ok_windows_def list_all_iff ok_window_def)
  have "windows_ever_active ws \<longleftrightarrow> (\<exists>w \<in> set ws. CHR ''1'' \<in> set (wi_days w))"
    using ok by (auto simp: windows_ever_active_def list_ex_iff)
  also have "\<dots> \<longleftrightarrow> (\<exists>w \<in> set ws. \<exists>t. real_time t \<and> window_active (wi_days w) (wi_start w) (wi_end w) t)"
    using ok window_ever by blast
  finally show ?thesis by (auto simp: windows_active_def list_ex_iff)
qed

section \<open>Retention\<close>

lemma keeps_at_least_refl: "keeps_at_least a a"
  by (simp add: keeps_at_least_def)

lemma keeps_at_least_trans: "keeps_at_least a b \<Longrightarrow> keeps_at_least b c \<Longrightarrow> keeps_at_least a c"
  by (auto simp: keeps_at_least_def split: if_splits)

text \<open>A window that keeps at least as long prunes no later, as long as the clock is past the longest
  window after the epoch.\<close>

lemma prune_cutoff_antimono:
  assumes "keeps_at_least a b" and "b \<le> max_duration" and "max_duration \<le> wall_ns now"
  shows "wall_ns (prune_cutoff now a) \<le> wall_ns (prune_cutoff now b)"
  using assms by (auto simp: keeps_at_least_def prune_cutoff_def time_unix_def t_add_def split: if_splits)

end
