(* ===== verification/ConfigFacts.thy ===== *)
theory ConfigFacts
  imports ConfigKeys ValuesFacts
begin

text \<open>
  Saving and loading are inverse: what \<open>formKeys\<close> writes of normalized settings, \<open>overlay\<close> reads
  back; and the rows a load migrates change nothing of what runs.
\<close>

section \<open>The codec\<close>

text \<open>A UTF-8 text, by the byte ranges of the encoding.\<close>

definition byte_in :: "nat \<Rightarrow> nat \<Rightarrow> char \<Rightarrow> bool" where
  "byte_in lo hi c \<longleftrightarrow> lo \<le> (of_char c :: nat) \<and> (of_char c :: nat) \<le> hi"

definition rune_shapes :: "(nat \<times> nat) list list" where
  "rune_shapes =
     [[(0x00, 0x7F)], [(0xC2, 0xDF), (0x80, 0xBF)],
      [(0xE0, 0xE0), (0xA0, 0xBF), (0x80, 0xBF)], [(0xE1, 0xEC), (0x80, 0xBF), (0x80, 0xBF)],
      [(0xED, 0xED), (0x80, 0x9F), (0x80, 0xBF)], [(0xEE, 0xEF), (0x80, 0xBF), (0x80, 0xBF)],
      [(0xF0, 0xF0), (0x90, 0xBF), (0x80, 0xBF), (0x80, 0xBF)],
      [(0xF1, 0xF3), (0x80, 0xBF), (0x80, 0xBF), (0x80, 0xBF)],
      [(0xF4, 0xF4), (0x80, 0x8F), (0x80, 0xBF), (0x80, 0xBF)]]"

definition is_rune :: "string \<Rightarrow> bool" where
  "is_rune s \<longleftrightarrow> list_ex (\<lambda>shape. list_all2 (\<lambda>c (lo, hi). byte_in lo hi c) s shape) rune_shapes"

inductive utf8 :: "string \<Rightarrow> bool" where
  utf8_Nil: "utf8 []"
| utf8_rune: "is_rune r \<Longrightarrow> utf8 s \<Longrightarrow> utf8 (r @ s)"

definition utf8_targets :: "iperf_target list \<Rightarrow> bool" where
  "utf8_targets ts \<longleftrightarrow> (\<forall>t \<in> set ts. \<forall>s \<in> {it_label t, it_addr t, it_bind t, it_ipver t, it_username t,
     it_password t, it_rsa_key t}. utf8 s)"

definition utf8_servers :: "saved_server list \<Rightarrow> bool" where
  "utf8_servers ss \<longleftrightarrow> (\<forall>x \<in> set ss. \<forall>s \<in> {ss_id x, ss_sponsor x, ss_name x, ss_country x}. utf8 s)"

text \<open>What JSON promises: a list of UTF-8 texts and finite numbers decodes to itself.\<close>

definition codec_ok :: "codec \<Rightarrow> bool" where
  "codec_ok cd \<longleftrightarrow>
     (\<forall>ws. (\<forall>w \<in> set ws. utf8 (wi_days w)) \<longrightarrow> cd_text_windows cd (cd_windows_text cd ws) = Some ws) \<and>
     (\<forall>ss. utf8_servers ss \<and> (\<forall>s \<in> set ss. valid_coord (ss_lat s) (ss_lon s)) \<longrightarrow>
        (\<exists>t. cd_servers_text cd ss = Some t \<and> cd_text_servers cd t = Some ss)) \<and>
     (\<forall>ts. utf8_targets ts \<longrightarrow> cd_text_iperf cd (cd_iperf_text cd ts) = Some ts) \<and>
     cd_text_windows cd ''[]'' = Some [] \<and> cd_text_servers cd ''[]'' = Some [] \<and> cd_text_iperf cd ''[]'' = Some [] \<and>
     (\<forall>ts. cd_iperf_text cd ts \<noteq> [])"

definition float_reads_back :: "codec \<Rightarrow> gfloat \<Rightarrow> bool" where
  "float_reads_back cd x \<longleftrightarrow> pfloat cd (cd_float_text cd x) = Some x"

definition config_floats :: "config_values \<Rightarrow> gfloat list" where
  "config_floats v = [va_thresh_down_mbps v, va_thresh_up_mbps v, va_thresh_ping_ms v, va_thresh_jitter_ms v,
     va_thresh_loss_pct v, va_thresh_bloat_down_ms v, va_thresh_bloat_up_ms v, va_degraded_ping_ms v,
     va_speed_busy_mbps v]"

section \<open>Texts and their readers\<close>

lemma int_text_nonempty [simp]: "int_text n \<noteq> []"
proof (cases "n < 0")
  case False
  then show ?thesis using nat_text_head [of "nat n"] by (auto simp: int_text_def)
qed (simp add: int_text_def)

lemma set_if_simps [simp]: "set_if x None = x" "set_if x (Some y) = y"
  by (simp_all add: set_if_def)

lemma row_simps [simp]: "m k = Some t \<Longrightarrow> row m k = t" "m k = None \<Longrightarrow> row m k = []"
  by (simp_all add: row_def)

lemma pbool_b2s [simp]: "pbool (b2s b) = Some b"
  by (simp add: pbool_def b2s_def)

lemma empty_rows [simp]: "pbool [] = None" "atoi [] = None" "secs_of [] = None" "pfloat cd [] = None"
  by (simp_all add: pbool_def atoi_def secs_of_def pfloat_def)

lemma atoi_int_text [simp]: "in_int64 n \<Longrightarrow> atoi (int_text n) = Some n"
  by (simp add: atoi_def parse_int_text)

lemma atoi_clamped: "in_ranges [(n, lo, hi)] \<Longrightarrow> -1000000 \<le> lo \<Longrightarrow> hi \<le> 1000000 \<Longrightarrow> atoi (int_text n) = Some n"
  by (rule atoi_int_text) (simp add: in_ranges_def in_int64_def)

lemma secs_of_text:
  assumes "0 \<le> d" and "d \<le> max_duration" and "second dvd d"
  shows "secs_of (sec_text d) = Some d"
proof -
  obtain k where k: "d = second * k" using assms(3) by blast
  have "dur_secs d = k" using assms(1) k by (simp add: gosimps)
  moreover have "in_int64 k" "k \<le> 315360000" "0 \<le> k"
    using assms k by (auto simp: in_int64_def bound_defs)
  moreover have "max_duration sdiv second = 315360000" by (simp add: bound_defs gosimps)
  ultimately show ?thesis by (simp add: secs_of_def sec_text_def parse_int_text k)
qed

lemma windows_read_back:
  assumes "codec_ok cd" and "ok_windows ws"
  shows "cd_text_windows cd (windows_json cd ws) = Some ws"
proof (cases "ws = []")
  case False
  have "utf8 (wi_days w)" if "w \<in> set ws" for w
  proof -
    have "set (wi_days w) \<subseteq> {CHR ''0'', CHR ''1''}" using assms(2) that by (auto simp: ok_windows_def list_all_iff ok_window_def)
    then show ?thesis
    proof (induction "wi_days w" arbitrary: w)
      case Nil
      then show ?case using utf8_Nil by simp
    next
      case (Cons c cs)
      have "c \<in> set (wi_days w)" using Cons.hyps(2) by (metis list.set_intros(1))
      then have "c = CHR ''0'' \<or> c = CHR ''1''" using Cons.prems by blast
      then have "is_rune [c]" by (auto simp: is_rune_def rune_shapes_def byte_in_def)
      moreover have "utf8 cs" using Cons.hyps(1) [of "w\<lparr>wi_days := cs\<rparr>"] Cons.hyps(2) Cons.prems by (auto dest: sym)
      ultimately show ?case using utf8_rune [of "[c]" cs] Cons.hyps(2) by simp
    qed
  qed
  then show ?thesis using assms(1) False by (simp add: codec_ok_def windows_json_def)
qed (use assms(1) in \<open>simp add: codec_ok_def windows_json_def\<close>)

lemma servers_read_back:
  assumes "codec_ok cd" and "ok_servers ss" and "utf8_servers ss"
  shows "cd_text_servers cd (speed_servers_json cd ss) = Some ss"
proof (cases "ss = []")
  case False
  have "\<forall>s \<in> set ss. valid_coord (ss_lat s) (ss_lon s)" using assms(2) by (auto simp: ok_servers_def list_all_iff ok_server_def)
  then obtain t where "cd_servers_text cd ss = Some t" "cd_text_servers cd t = Some ss"
    using assms by (auto simp: codec_ok_def)
  then show ?thesis using False by (simp add: speed_servers_json_def)
qed (use assms(1) in \<open>simp add: codec_ok_def speed_servers_json_def\<close>)

lemma targets_read_back:
  "codec_ok cd \<Longrightarrow> utf8_targets ts \<Longrightarrow> cd_text_iperf cd (iperf_servers_json cd ts) = Some ts"
  by (simp add: codec_ok_def iperf_servers_json_def)

section \<open>The round trip\<close>

definition whole_seconds :: "config_values \<Rightarrow> bool" where
  "whole_seconds v \<longleftrightarrow> list_all (\<lambda>d. second dvd d) [va_latency v, va_speed v, va_retention v, va_speed_retention v,
     va_downtime_retention v, va_timeout v, va_save_every v]"

text \<open>The fields the form does not own, from elsewhere.\<close>

definition with_unowned :: "config_values \<Rightarrow> config_values \<Rightarrow> config_values" where
  "with_unowned d v = v\<lparr>va_monitoring := va_monitoring d, va_access_local_only := va_access_local_only d,
     va_auth_enabled := va_auth_enabled d, va_auth_user := va_auth_user d, va_auth_hash := va_auth_hash d,
     va_update_check_enabled := va_update_check_enabled d, va_log_level := va_log_level d,
     va_log_redact_pii := va_log_redact_pii d\<rparr>"

definition storable :: "codec \<Rightarrow> config_values \<Rightarrow> bool" where
  "storable cd v \<longleftrightarrow> well_formed v \<and> whole_seconds v \<and> utf8_servers (va_speed_servers v) \<and>
     utf8_targets (va_iperf_servers v) \<and> list_all (float_reads_back cd) (config_floats v)"

definition form_names :: "string list" where
  "form_names = [
    ''latency_interval_s'', ''latency_enabled'', ''dns_probe_enabled'', ''netinfo_enabled'', ''speed_interval_s'',
    ''retention_s'', ''speed_retention_s'', ''downtime_retention_s'', ''timeout_s'', ''save_every_s'',
    ''down_after'', ''up_after'', ''speed_server_id'', ''speed_servers'', ''speedtest_enabled'',
    ''speedtest_on_reconnect'', ''ipv6_mode'', ''exit_target'', ''thresh_down_mbps'', ''thresh_up_mbps'',
    ''thresh_ping_ms'', ''thresh_jitter_ms'', ''thresh_loss_pct'', ''thresh_consecutive'', ''thresh_bloat_down_ms'',
    ''thresh_bloat_up_ms'', ''speedtest_adaptive'', ''speedtest_on_degraded'', ''degraded_ping_ms'', ''speedtest_skip_busy'',
    ''speedtest_busy_mbps'', ''speedtest_record_failures'', ''speed_engine'', ''iperf_server'', ''iperf_servers'',
    ''iperf_duration'', ''iperf_streams'', ''ookla_connections'', ''speed_challenge_every'', ''ookla_loss'',
    ''speed_discard_losers'', ''speed_best_of_count'', ''iperf_omit'', ''speed_direction'', ''iperf_direction'',
    ''iperf_udp'', ''iperf_udp_rate'', ''iperf_window'', ''speed_retries'', ''iperf_retries'',
    ''iperf_congestion'', ''iperf_nodelay'', ''iperf_dscp'', ''iperf_mss'', ''alert_on_outage'',
    ''webhook_url'', ''webhook_format'', ''heartbeat_url'', ''digest_freq'', ''sched_lat_enabled'',
    ''sched_lat_windows'', ''sched_speed_enabled'', ''sched_speed_windows'', ''quick_setup_done'']"

lemma form_keys_names: "map fst (form_keys cd v) = form_names"
  by (simp add: form_keys_def form_names_def)

lemma form_names_distinct: "distinct form_names"
  by code_simp

lemma form_row_list: "list_all (\<lambda>p. map_of (form_keys cd v) (fst p) = Some (snd p)) (form_keys cd v)"
  by (simp add: list_all_iff form_keys_names form_names_distinct)

lemma form_rows_of:
  assumes "list_all (\<lambda>p. m (fst p) = Some (snd p)) (form_keys cd v)"
  shows
  "m ''latency_interval_s'' = Some (sec_text (va_latency v))"
  "m ''latency_enabled'' = Some (b2s (va_latency_enabled v))"
  "m ''dns_probe_enabled'' = Some (b2s (va_dns_probe v))"
  "m ''netinfo_enabled'' = Some (b2s (va_netinfo_enabled v))"
  "m ''speed_interval_s'' = Some (sec_text (va_speed v))"
  "m ''retention_s'' = Some (sec_text (va_retention v))"
  "m ''speed_retention_s'' = Some (sec_text (va_speed_retention v))"
  "m ''downtime_retention_s'' = Some (sec_text (va_downtime_retention v))"
  "m ''timeout_s'' = Some (sec_text (va_timeout v))"
  "m ''save_every_s'' = Some (sec_text (va_save_every v))"
  "m ''down_after'' = Some (int_text (va_down_after v))"
  "m ''up_after'' = Some (int_text (va_up_after v))"
  "m ''speed_server_id'' = Some (va_speed_server_id v)"
  "m ''speed_servers'' = Some (speed_servers_json cd (va_speed_servers v))"
  "m ''speedtest_enabled'' = Some (b2s (va_speedtest_enabled v))"
  "m ''speedtest_on_reconnect'' = Some (b2s (va_speedtest_on_reconnect v))"
  "m ''ipv6_mode'' = Some (va_ipv6_mode v)"
  "m ''exit_target'' = Some (va_exit_target v)"
  "m ''thresh_down_mbps'' = Some (cd_float_text cd (va_thresh_down_mbps v))"
  "m ''thresh_up_mbps'' = Some (cd_float_text cd (va_thresh_up_mbps v))"
  "m ''thresh_ping_ms'' = Some (cd_float_text cd (va_thresh_ping_ms v))"
  "m ''thresh_jitter_ms'' = Some (cd_float_text cd (va_thresh_jitter_ms v))"
  "m ''thresh_loss_pct'' = Some (cd_float_text cd (va_thresh_loss_pct v))"
  "m ''thresh_consecutive'' = Some (int_text (va_thresh_consec v))"
  "m ''thresh_bloat_down_ms'' = Some (cd_float_text cd (va_thresh_bloat_down_ms v))"
  "m ''thresh_bloat_up_ms'' = Some (cd_float_text cd (va_thresh_bloat_up_ms v))"
  "m ''speedtest_adaptive'' = Some (b2s (va_speedtest_adaptive v))"
  "m ''speedtest_on_degraded'' = Some (b2s (va_speedtest_on_degraded v))"
  "m ''degraded_ping_ms'' = Some (cd_float_text cd (va_degraded_ping_ms v))"
  "m ''speedtest_skip_busy'' = Some (b2s (va_speedtest_skip_busy v))"
  "m ''speedtest_busy_mbps'' = Some (cd_float_text cd (va_speed_busy_mbps v))"
  "m ''speedtest_record_failures'' = Some (b2s (va_speedtest_record_failures v))"
  "m ''speed_engine'' = Some (va_speed_engine v)"
  "m ''iperf_server'' = Some (va_iperf_server v)"
  "m ''iperf_servers'' = Some (iperf_servers_json cd (va_iperf_servers v))"
  "m ''iperf_duration'' = Some (int_text (va_iperf_dur v))"
  "m ''iperf_streams'' = Some (int_text (va_iperf_streams v))"
  "m ''ookla_connections'' = Some (int_text (va_ookla_connections v))"
  "m ''speed_challenge_every'' = Some (int_text (va_speed_challenge_every v))"
  "m ''ookla_loss'' = Some (b2s (va_ookla_loss v))"
  "m ''speed_discard_losers'' = Some (b2s (va_speed_discard_losers v))"
  "m ''speed_best_of_count'' = Some (int_text (va_speed_best_of_count v))"
  "m ''iperf_omit'' = Some (int_text (va_iperf_omit v))"
  "m ''speed_direction'' = Some (va_speed_direction v)"
  "m ''iperf_direction'' = Some (va_iperf_direction v)"
  "m ''iperf_udp'' = Some (b2s (va_iperf_udp v))"
  "m ''iperf_udp_rate'' = Some (int_text (va_iperf_udp_rate v))"
  "m ''iperf_window'' = Some (int_text (va_iperf_window v))"
  "m ''speed_retries'' = Some (int_text (va_speed_retries v))"
  "m ''iperf_retries'' = Some (int_text (va_iperf_retries v))"
  "m ''iperf_congestion'' = Some (va_iperf_congestion v)"
  "m ''iperf_nodelay'' = Some (b2s (va_iperf_no_delay v))"
  "m ''iperf_dscp'' = Some (va_iperf_dscp v)"
  "m ''iperf_mss'' = Some (int_text (va_iperf_mss v))"
  "m ''alert_on_outage'' = Some (b2s (va_alert_on_outage v))"
  "m ''webhook_url'' = Some (va_webhook_url v)"
  "m ''webhook_format'' = Some (va_webhook_format v)"
  "m ''heartbeat_url'' = Some (va_heartbeat_url v)"
  "m ''digest_freq'' = Some (va_digest_freq v)"
  "m ''sched_lat_enabled'' = Some (b2s (va_sched_lat_enabled v))"
  "m ''sched_lat_windows'' = Some (windows_json cd (va_sched_lat_windows v))"
  "m ''sched_speed_enabled'' = Some (b2s (va_sched_speed_enabled v))"
  "m ''sched_speed_windows'' = Some (windows_json cd (va_sched_speed_windows v))"
  "m ''quick_setup_done'' = Some (b2s (va_quick_setup_done v))"
  using assms unfolding form_keys_def by (simp_all only: list.pred_inject fst_conv snd_conv)

lemmas form_rows = form_rows_of [OF form_row_list]

lemma form_rows_absent: "k \<notin> set form_names \<Longrightarrow> map_of (form_keys cd v) k = None"
  by (metis form_keys_names list.set_map map_of_eq_None_iff)

lemma form_rows_none:
  "map_of (form_keys cd v) ''monitoring'' = None"
  "map_of (form_keys cd v) ''update_check_enabled'' = None"
  "map_of (form_keys cd v) ''log_level'' = None"
  "map_of (form_keys cd v) ''log_redact_pii'' = None"
  "map_of (form_keys cd v) ''access_local_only'' = None"
  "map_of (form_keys cd v) ''auth_enabled'' = None"
  "map_of (form_keys cd v) ''auth_user'' = None"
  "map_of (form_keys cd v) ''auth_hash'' = None"
  "map_of (form_keys cd v) ''speed_best_of'' = None"
  "map_of (form_keys cd v) ''schedule_enabled'' = None"
  "map_of (form_keys cd v) ''sched_lat_days'' = None"
  "map_of (form_keys cd v) ''sched_speed_days'' = None"
  "map_of (form_keys cd v) ''engine_split_done'' = None"
  "map_of (form_keys cd v) ''install_born_version'' = None"
  by (rule form_rows_absent, code_simp)+


lemma load_schedule_saved:
  assumes "map_of kv en_key = Some (b2s b)" and "map_of kv win_key = Some (windows_json cd ws)"
    and "cd_text_windows cd (windows_json cd ws) = Some ws"
  shows "load_schedule cd (map_of kv) en_key win_key ld ls le = (b, ws)"
  using assms by (simp add: load_schedule_def Let_def)

lemma load_saved:
  assumes "codec_ok cd" and "storable cd w"
  shows "overlay cd d (map_of (form_keys cd w)) = with_unowned d w"
proof -
  have wf: "well_formed w" using assms(2) by (simp add: storable_def)
  have wfr: "in_ranges (value_ranges w)" and wfc: "among (value_choices w)" using wf by (simp_all add: well_formed_def)
  have ranges: "0 \<le> va_latency w" "va_latency w \<le> max_duration" "0 \<le> va_speed w" "va_speed w \<le> max_duration"
    "0 \<le> va_timeout w" "va_timeout w \<le> max_duration" "0 \<le> va_save_every w" "va_save_every w \<le> max_duration"
    "0 \<le> va_retention w" "va_retention w \<le> max_duration" "0 \<le> va_speed_retention w"
    "va_speed_retention w \<le> max_duration" "0 \<le> va_downtime_retention w" "va_downtime_retention w \<le> max_duration"
    using wfr by (simp_all add: in_ranges_def value_ranges_def bound_defs max_save_every_def)
  have durs: "secs_of (sec_text (va_latency w)) = Some (va_latency w)" "secs_of (sec_text (va_speed w)) = Some (va_speed w)"
    "secs_of (sec_text (va_timeout w)) = Some (va_timeout w)" "secs_of (sec_text (va_save_every w)) = Some (va_save_every w)"
    "secs_of (sec_text (va_retention w)) = Some (va_retention w)"
    "secs_of (sec_text (va_speed_retention w)) = Some (va_speed_retention w)"
    "secs_of (sec_text (va_downtime_retention w)) = Some (va_downtime_retention w)"
    using assms(2) ranges by (auto simp: storable_def whole_seconds_def intro!: secs_of_text)
  have ints: "in_int64 (va_down_after w)" "in_int64 (va_up_after w)" "in_int64 (va_thresh_consec w)"
    "in_int64 (va_iperf_dur w)" "in_int64 (va_iperf_streams w)" "in_int64 (va_ookla_connections w)"
    "in_int64 (va_speed_challenge_every w)" "in_int64 (va_speed_best_of_count w)" "in_int64 (va_iperf_omit w)"
    "in_int64 (va_iperf_udp_rate w)" "in_int64 (va_iperf_window w)" "in_int64 (va_speed_retries w)"
    "in_int64 (va_iperf_retries w)" "in_int64 (va_iperf_mss w)"
    using wfr by (simp_all add: in_ranges_def value_ranges_def bound_defs in_int64_def)
  have "va_ipv6_mode w \<in> {''on'', ''off'', ''auto''}" "va_speed_engine w \<in> {''ookla'', ''iperf3''}"
    "va_speed_direction w \<in> {''both'', ''down'', ''up''}"
    using wfc by (simp_all add: value_choices_def among_def)
  then have texts: "va_ipv6_mode w \<noteq> []" "va_speed_engine w \<noteq> []" "va_speed_direction w \<noteq> []" by auto
  have floats: "pfloat cd (cd_float_text cd x) = Some x" if "x \<in> set (config_floats w)" for x
    using assms(2) that by (auto simp: storable_def list_all_iff float_reads_back_def)
  have lists: "cd_text_servers cd (speed_servers_json cd (va_speed_servers w)) = Some (va_speed_servers w)"
    "cd_text_iperf cd (iperf_servers_json cd (va_iperf_servers w)) = Some (va_iperf_servers w)"
    "cd_text_windows cd (windows_json cd (va_sched_lat_windows w)) = Some (va_sched_lat_windows w)"
    "cd_text_windows cd (windows_json cd (va_sched_speed_windows w)) = Some (va_sched_speed_windows w)"
    using assms wf by (auto simp: storable_def well_formed_def intro: servers_read_back targets_read_back windows_read_back)
  note sched = load_schedule_saved [OF form_rows(60,61) lists(3)] load_schedule_saved [OF form_rows(62,63) lists(4)]
  let ?m = "map_of (form_keys cd w)"
  have p1: "overlay_probing cd v ?m = v\<lparr>va_latency := va_latency w,
      va_latency_enabled := va_latency_enabled w,
      va_dns_probe := va_dns_probe w,
      va_netinfo_enabled := va_netinfo_enabled w,
      va_speed := va_speed w,
      va_retention := va_retention w,
      va_speed_retention := va_speed_retention w,
      va_downtime_retention := va_downtime_retention w,
      va_timeout := va_timeout w,
      va_save_every := va_save_every w,
      va_down_after := va_down_after w,
      va_up_after := va_up_after w,
      va_speed_server_id := va_speed_server_id w,
      va_speed_servers := va_speed_servers w,
      va_speedtest_enabled := va_speedtest_enabled w,
      va_speedtest_on_reconnect := va_speedtest_on_reconnect w,
      va_ipv6_mode := va_ipv6_mode w,
      va_exit_target := va_exit_target w,
      va_quick_setup_done := va_quick_setup_done w,
      va_speedtest_adaptive := va_speedtest_adaptive w,
      va_speedtest_on_degraded := va_speedtest_on_degraded w,
      va_degraded_ping_ms := va_degraded_ping_ms w,
      va_speedtest_skip_busy := va_speedtest_skip_busy w\<rparr>" for v
    by (simp add: overlay_probing_def form_rows form_rows_none durs ints texts floats lists sched config_floats_def)
  have p2: "overlay_speedtest cd v ?m = v\<lparr>va_speed_busy_mbps := va_speed_busy_mbps w,
      va_speedtest_record_failures := va_speedtest_record_failures w,
      va_speed_engine := va_speed_engine w,
      va_iperf_server := va_iperf_server w,
      va_iperf_servers := va_iperf_servers w,
      va_iperf_dur := va_iperf_dur w,
      va_iperf_streams := va_iperf_streams w,
      va_ookla_connections := va_ookla_connections w,
      va_speed_challenge_every := va_speed_challenge_every w,
      va_ookla_loss := va_ookla_loss w,
      va_speed_discard_losers := va_speed_discard_losers w,
      va_speed_best_of_count := va_speed_best_of_count w,
      va_iperf_omit := va_iperf_omit w,
      va_speed_direction := va_speed_direction w,
      va_iperf_direction := va_iperf_direction w,
      va_iperf_udp := va_iperf_udp w,
      va_iperf_udp_rate := va_iperf_udp_rate w,
      va_iperf_window := va_iperf_window w,
      va_speed_retries := va_speed_retries w,
      va_iperf_retries := va_iperf_retries w,
      va_iperf_congestion := va_iperf_congestion w\<rparr>" for v
    by (simp add: overlay_speedtest_def form_rows form_rows_none durs ints texts floats lists sched config_floats_def)
  have p3: "overlay_alerts cd v ?m = v\<lparr>va_iperf_no_delay := va_iperf_no_delay w,
      va_iperf_dscp := va_iperf_dscp w,
      va_iperf_mss := va_iperf_mss w,
      va_thresh_down_mbps := va_thresh_down_mbps w,
      va_thresh_up_mbps := va_thresh_up_mbps w,
      va_thresh_ping_ms := va_thresh_ping_ms w,
      va_thresh_jitter_ms := va_thresh_jitter_ms w,
      va_thresh_loss_pct := va_thresh_loss_pct w,
      va_thresh_consec := va_thresh_consec w,
      va_thresh_bloat_down_ms := va_thresh_bloat_down_ms w,
      va_thresh_bloat_up_ms := va_thresh_bloat_up_ms w,
      va_alert_on_outage := va_alert_on_outage w,
      va_webhook_url := va_webhook_url w,
      va_webhook_format := va_webhook_format w,
      va_heartbeat_url := va_heartbeat_url w,
      va_digest_freq := va_digest_freq w,
      va_sched_lat_enabled := va_sched_lat_enabled w,
      va_sched_lat_windows := va_sched_lat_windows w,
      va_sched_speed_enabled := va_sched_speed_enabled w,
      va_sched_speed_windows := va_sched_speed_windows w\<rparr>" for v
    by (simp add: overlay_alerts_def form_rows form_rows_none durs ints texts floats lists sched config_floats_def)
  show ?thesis
    unfolding overlay_def p1 p2 p3 with_unowned_def by (cases d; cases w) simp
qed

section \<open>The one-time migrations\<close>

definition migration_keys :: "string list" where
  "migration_keys = [''engine_split_done'', ''iperf_direction'', ''iperf_retries'', ''sched_lat_enabled'',
     ''sched_lat_windows'', ''sched_speed_enabled'', ''sched_speed_windows'']"

definition migrated :: "codec \<Rightarrow> (string \<rightharpoonup> string) \<Rightarrow> config_values \<Rightarrow> (string \<rightharpoonup> string)" where
  "migrated cd m v = m ++ map_of (migration_rows cd m v)"

text \<open>The row a schedule key has after the migration, and the rest.\<close>

definition opt_row :: "bool \<Rightarrow> string \<Rightarrow> string \<Rightarrow> (string \<times> string) list" where
  "opt_row b k t = (if b then [(k, t)] else [])"

lemma add_opt_row: "(m ++ map_of (opt_row b k t @ rows)) x = (if x = k \<and> b then Some t else (m ++ map_of rows) x)"
  by (auto simp: opt_row_def map_add_def)

lemma opt_row_Nil: "opt_row b k t @ rows = [] \<longleftrightarrow> \<not> b \<and> rows = []"
  by (simp add: opt_row_def)

definition carries_direction :: "(string \<rightharpoonup> string) \<Rightarrow> bool" where
  "carries_direction m \<longleftrightarrow> \<not> split_applied m \<and> m ''iperf_direction'' = None \<and> row m ''speed_direction'' \<noteq> []"

definition carries_retries :: "(string \<rightharpoonup> string) \<Rightarrow> bool" where
  "carries_retries m \<longleftrightarrow>
     \<not> split_applied m \<and> atoi (row m ''iperf_retries'') = None \<and> atoi (row m ''speed_retries'') \<noteq> None"

definition carries_toggle :: "(string \<rightharpoonup> string) \<Rightarrow> string \<Rightarrow> bool" where
  "carries_toggle m en_key \<longleftrightarrow> m en_key = None \<and> pbool (row m ''schedule_enabled'') \<noteq> None"

definition carries_window :: "(string \<rightharpoonup> string) \<Rightarrow> string \<Rightarrow> string \<Rightarrow> bool" where
  "carries_window m win_key legacy_days \<longleftrightarrow> m win_key = None \<and> m legacy_days \<noteq> None"

lemma migration_rows_eq:
  "migration_rows cd m v =
     opt_row (\<not> split_applied m) ''engine_split_done'' ''1'' @
     opt_row (carries_direction m) ''iperf_direction'' (va_iperf_direction v) @
     opt_row (carries_retries m) ''iperf_retries'' (int_text (va_iperf_retries v)) @
     opt_row (carries_toggle m ''sched_lat_enabled'') ''sched_lat_enabled'' (b2s (va_sched_lat_enabled v)) @
     opt_row (carries_window m ''sched_lat_windows'' ''sched_lat_days'') ''sched_lat_windows''
       (windows_json cd (va_sched_lat_windows v)) @
     opt_row (carries_toggle m ''sched_speed_enabled'') ''sched_speed_enabled'' (b2s (va_sched_speed_enabled v)) @
     opt_row (carries_window m ''sched_speed_windows'' ''sched_speed_days'') ''sched_speed_windows''
       (windows_json cd (va_sched_speed_windows v)) @ []"
  unfolding migration_rows_def Let_def form_rows engine_split_key_def
  by (simp add: opt_row_def carries_direction_def carries_retries_def carries_toggle_def carries_window_def
      cong: if_cong)

lemma migrated_other: "k \<notin> set migration_keys \<Longrightarrow> migrated cd m v k = m k"
  unfolding migrated_def migration_rows_eq add_opt_row by (simp add: migration_keys_def)

lemma migrated_rows:
  "migrated cd m v ''engine_split_done'' = (if \<not> split_applied m then Some ''1'' else m ''engine_split_done'')"
  "migrated cd m v ''iperf_direction'' =
     (if carries_direction m then Some (va_iperf_direction v) else m ''iperf_direction'')"
  "migrated cd m v ''iperf_retries'' =
     (if carries_retries m then Some (int_text (va_iperf_retries v)) else m ''iperf_retries'')"
  "migrated cd m v ''sched_lat_enabled'' =
     (if carries_toggle m ''sched_lat_enabled'' then Some (b2s (va_sched_lat_enabled v)) else m ''sched_lat_enabled'')"
  "migrated cd m v ''sched_lat_windows'' = (if carries_window m ''sched_lat_windows'' ''sched_lat_days''
     then Some (windows_json cd (va_sched_lat_windows v)) else m ''sched_lat_windows'')"
  "migrated cd m v ''sched_speed_enabled'' = (if carries_toggle m ''sched_speed_enabled''
     then Some (b2s (va_sched_speed_enabled v)) else m ''sched_speed_enabled'')"
  "migrated cd m v ''sched_speed_windows'' = (if carries_window m ''sched_speed_windows'' ''sched_speed_days''
     then Some (windows_json cd (va_sched_speed_windows v)) else m ''sched_speed_windows'')"
  unfolding migrated_def migration_rows_eq add_opt_row by simp_all

lemma migrated_row_other: "k \<notin> set migration_keys \<Longrightarrow> row (migrated cd m v) k = row m k"
  by (simp add: row_def migrated_other)

lemma overlay_probing_migrated: "overlay_probing cd u (migrated cd m v) = overlay_probing cd u m"
  unfolding overlay_probing_def by (simp add: migrated_other migrated_row_other migration_keys_def)

lemma overlay_speedtest_migrated:
  assumes "well_formed v"
  shows "\<exists>dir retries. overlay_speedtest cd u (migrated cd m v) =
      (overlay_speedtest cd u m)\<lparr>va_iperf_direction := dir, va_iperf_retries := retries\<rparr> \<and>
    (dir = va_iperf_direction (overlay_speedtest cd u m) \<or> carries_direction m \<and> dir = va_iperf_direction v) \<and>
    (retries = va_iperf_retries (overlay_speedtest cd u m) \<or> carries_retries m \<and> retries = va_iperf_retries v)"
proof -
  have int: "in_int64 (va_iperf_retries v)"
  proof -
    have "in_ranges (value_ranges v)" using assms by (simp add: well_formed_def)
    then show ?thesis by (simp add: in_ranges_def value_ranges_def bound_defs in_int64_def)
  qed
  have split: "split_applied (migrated cd m v)"
    by (simp add: split_applied_def engine_split_key_def migrated_rows)
  let ?m' = "migrated cd m v"
  have field_d: "va_iperf_direction (overlay_speedtest cd u x) = (case x ''iperf_direction'' of Some t \<Rightarrow> t
      | None \<Rightarrow> if row x ''speed_direction'' \<noteq> [] \<and> \<not> split_applied x then row x ''speed_direction''
          else va_iperf_direction u)" for x by (simp add: overlay_speedtest_def)
  have field_r: "va_iperf_retries (overlay_speedtest cd u x) = (case atoi (row x ''iperf_retries'') of Some n \<Rightarrow> n
      | None \<Rightarrow> (case atoi (row x ''speed_retries'') of Some n \<Rightarrow> if \<not> split_applied x then n else va_iperf_retries u
          | None \<Rightarrow> va_iperf_retries u))" for x by (simp add: overlay_speedtest_def)
  have same: "row ?m' ''speed_direction'' = row m ''speed_direction''" "row ?m' ''speed_retries'' = row m ''speed_retries''"
    by (simp_all add: migrated_row_other migration_keys_def)
  have dir: "va_iperf_direction (overlay_speedtest cd u ?m') =
      (if carries_direction m then va_iperf_direction v else va_iperf_direction (overlay_speedtest cd u m))"
    unfolding field_d same migrated_rows using split by (auto simp: carries_direction_def split: option.split)
  have "row ?m' ''iperf_retries'' =
      (if carries_retries m then int_text (va_iperf_retries v) else row m ''iperf_retries'')"
    by (simp add: row_def migrated_rows)
  then have retries: "va_iperf_retries (overlay_speedtest cd u ?m') =
      (if carries_retries m then va_iperf_retries v else va_iperf_retries (overlay_speedtest cd u m))"
    unfolding field_r same using split int by (auto simp: carries_retries_def split: option.split)
  have upd: "(overlay_speedtest cd u ?m')\<lparr>va_iperf_direction := a, va_iperf_retries := b\<rparr> =
      (overlay_speedtest cd u m)\<lparr>va_iperf_direction := a, va_iperf_retries := b\<rparr>" for a b
    unfolding overlay_speedtest_def
    by (simp add: migrated_other migrated_row_other migration_keys_def split del: if_split cong: if_cong option.case_cong)
  from upd [where a = "va_iperf_direction (overlay_speedtest cd u ?m')" and b = "va_iperf_retries (overlay_speedtest cd u ?m')"]
  have "overlay_speedtest cd u ?m' = (overlay_speedtest cd u m)
      \<lparr>va_iperf_direction := va_iperf_direction (overlay_speedtest cd u ?m'),
       va_iperf_retries := va_iperf_retries (overlay_speedtest cd u ?m')\<rparr>" by simp
  then show ?thesis unfolding dir retries by auto
qed

text \<open>A schedule the migration wrote down reads as the normalized one it came from.\<close>

lemma load_schedule_migrated:
  assumes "codec_ok cd" and rest: "row m' ''schedule_enabled'' = row m ''schedule_enabled''" "m' ld = m ld"
      "row m' ls = row m ls" "row m' le = row m le"
    and en: "m' en_key = (if carries_toggle m en_key then Some (b2s b) else m en_key)"
    and win: "m' win_key = (if carries_window m win_key ld then Some (windows_json cd ws) else m win_key)"
    and old: "load_schedule cd m en_key win_key ld ls le = (b0, ws0)"
    and v: "ws = sanitize_windows ws0" "b = (b0 \<and> ws \<noteq> [])"
  obtains b1 ws1 where "load_schedule cd m' en_key win_key ld ls le = (b1, ws1)"
    and "sanitize_windows ws1 = ws" and "(b1 \<and> ws \<noteq> []) = b"
proof -
  have rd: "cd_text_windows cd (windows_json cd ws) = Some ws"
    using assms(1) v(1) sanitize_windows_ok by (intro windows_read_back) auto
  define enabled where "enabled x = (case pbool (row x en_key) of Some b \<Rightarrow> b
      | None \<Rightarrow> (case pbool (row x ''schedule_enabled'') of Some b \<Rightarrow> b | None \<Rightarrow> False))" for x
  define windows where "windows x = (case Option.bind (x win_key) (cd_text_windows cd) of Some ws \<Rightarrow> ws
      | None \<Rightarrow> (case x ld of Some d \<Rightarrow> [\<lparr>wi_days = d, wi_start = set_if 0 (atoi (row x ls)),
          wi_end = set_if 0 (atoi (row x le))\<rparr>] | None \<Rightarrow> []))" for x
  have parts: "load_schedule cd x en_key win_key ld ls le = (enabled x, windows x)" for x
    by (simp add: load_schedule_def enabled_def windows_def Let_def split: option.split)
  have "row m' en_key = (if carries_toggle m en_key then b2s b else row m en_key)" using en by (simp add: row_def)
  then have e: "enabled m' = (if carries_toggle m en_key then b else enabled m)" unfolding enabled_def rest(1) by simp
  have w: "windows m' = (if carries_window m win_key ld then ws else windows m)" unfolding windows_def rest win by (simp add: rd)
  have "enabled m = b0" "windows m = ws0" using old parts by auto
  then have "sanitize_windows (windows m') = ws" "(enabled m' \<and> ws \<noteq> []) = b" using e w v by auto
  then show thesis using that parts by blast
qed

lemma normalize_migrated:
  assumes "one_of [''both'', ''down'', ''up'', ''bidir''] ''both'' dir =
      one_of [''both'', ''down'', ''up'', ''bidir''] ''both'' (va_iperf_direction u)"
    and "clamp_i retries 0 max_speed_retries = clamp_i (va_iperf_retries u) 0 max_speed_retries"
    and "sanitize_windows lw = sanitize_windows (va_sched_lat_windows u)"
    and "(le \<and> sanitize_windows lw \<noteq> []) = (va_sched_lat_enabled u \<and> sanitize_windows lw \<noteq> [])"
    and "sanitize_windows sw = sanitize_windows (va_sched_speed_windows u)"
    and "(se \<and> sanitize_windows sw \<noteq> []) = (va_sched_speed_enabled u \<and> sanitize_windows sw \<noteq> [])"
  shows "normalize (u\<lparr>va_iperf_direction := dir, va_iperf_retries := retries, va_sched_lat_enabled := le,
      va_sched_lat_windows := lw, va_sched_speed_enabled := se, va_sched_speed_windows := sw\<rparr>) = normalize u"
  using assms(4,6) by (simp add: normalize_def Let_def assms(1-3,5))

lemma one_of_direction_again:
  "one_of [''both'', ''down'', ''up'', ''bidir''] ''both'' (one_of [''both'', ''down'', ''up'', ''bidir''] ''both'' x) =
   one_of [''both'', ''down'', ''up'', ''bidir''] ''both'' x"
  by (simp add: one_of_def)

lemma clamp_retries_again:
  "clamp_i (clamp_i x 0 max_speed_retries) 0 max_speed_retries = clamp_i x 0 max_speed_retries"
  by (simp add: clamp_i_def max_speed_retries_def)

lemma overlay_alerts_schedules:
  "va_sched_lat_enabled (overlay_alerts cd u x) = fst (load_schedule cd x ''sched_lat_enabled'' ''sched_lat_windows''
     ''sched_lat_days'' ''sched_lat_start'' ''sched_lat_end'')"
  "va_sched_lat_windows (overlay_alerts cd u x) = snd (load_schedule cd x ''sched_lat_enabled'' ''sched_lat_windows''
     ''sched_lat_days'' ''sched_lat_start'' ''sched_lat_end'')"
  "va_sched_speed_enabled (overlay_alerts cd u x) = fst (load_schedule cd x ''sched_speed_enabled''
     ''sched_speed_windows'' ''sched_speed_days'' ''sched_speed_start'' ''sched_speed_end'')"
  "va_sched_speed_windows (overlay_alerts cd u x) = snd (load_schedule cd x ''sched_speed_enabled''
     ''sched_speed_windows'' ''sched_speed_days'' ''sched_speed_start'' ''sched_speed_end'')"
  by (simp_all add: overlay_alerts_def)

lemma overlay_alerts_migrated:
  "(overlay_alerts cd u (migrated cd m v))\<lparr>va_sched_lat_enabled := a, va_sched_lat_windows := b,
     va_sched_speed_enabled := c, va_sched_speed_windows := e\<rparr> =
   (overlay_alerts cd u m)\<lparr>va_sched_lat_enabled := a, va_sched_lat_windows := b,
     va_sched_speed_enabled := c, va_sched_speed_windows := e\<rparr>"
  unfolding overlay_alerts_def
  by (simp add: migrated_other migrated_row_other migration_keys_def split del: if_split cong: if_cong option.case_cong)

lemma overlay_alerts_migrated_self:
  assumes "load_schedule cd (migrated cd m v) ''sched_lat_enabled'' ''sched_lat_windows'' ''sched_lat_days''
      ''sched_lat_start'' ''sched_lat_end'' = (a, b)"
    and "load_schedule cd (migrated cd m v) ''sched_speed_enabled'' ''sched_speed_windows'' ''sched_speed_days''
      ''sched_speed_start'' ''sched_speed_end'' = (c, e)"
  shows "overlay_alerts cd u (migrated cd m v) = (overlay_alerts cd u m)\<lparr>va_sched_lat_enabled := a,
    va_sched_lat_windows := b, va_sched_speed_enabled := c, va_sched_speed_windows := e\<rparr>"
proof -
  let ?X = "overlay_alerts cd u (migrated cd m v)"
  have "?X = ?X\<lparr>va_sched_lat_enabled := a, va_sched_lat_windows := b, va_sched_speed_enabled := c,
      va_sched_speed_windows := e\<rparr>"
    using overlay_alerts_schedules [of cd u "migrated cd m v"] assms by simp
  then show ?thesis unfolding overlay_alerts_migrated .
qed

lemma overlay_alerts_commute:
  "overlay_alerts cd (u\<lparr>va_iperf_direction := a, va_iperf_retries := b\<rparr>) m =
     (overlay_alerts cd u m)\<lparr>va_iperf_direction := a, va_iperf_retries := b\<rparr>"
  by (simp add: overlay_alerts_def)

lemma overlay_migrated:
  assumes "codec_ok cd" and v_def: "v = normalize (overlay cd d m)"
  shows "normalize (overlay cd d (migrated cd m v)) = v"
proof -
  let ?m' = "migrated cd m v" and ?u = "overlay cd d m"
  let ?p = "overlay_probing cd d m"
  have wf: "well_formed v" by (simp add: v_def normalize_well_formed)
  from overlay_speedtest_migrated [OF this, of cd ?p m] obtain dir retries where
    sp: "overlay_speedtest cd ?p ?m' =
      (overlay_speedtest cd ?p m)\<lparr>va_iperf_direction := dir, va_iperf_retries := retries\<rparr>"
    and dr: "dir = va_iperf_direction (overlay_speedtest cd ?p m) \<or> carries_direction m \<and> dir = va_iperf_direction v"
      "retries = va_iperf_retries (overlay_speedtest cd ?p m) \<or> carries_retries m \<and> retries = va_iperf_retries v"
    by blast
  have keep: "va_iperf_direction ?u = va_iperf_direction (overlay_speedtest cd ?p m)"
    "va_iperf_retries ?u = va_iperf_retries (overlay_speedtest cd ?p m)"
    by (simp_all add: overlay_def overlay_alerts_def)
  have vf: "va_sched_lat_windows v = sanitize_windows (va_sched_lat_windows ?u)"
    "va_sched_lat_enabled v = (va_sched_lat_enabled ?u \<and> va_sched_lat_windows v \<noteq> [])"
    "va_sched_speed_windows v = sanitize_windows (va_sched_speed_windows ?u)"
    "va_sched_speed_enabled v = (va_sched_speed_enabled ?u \<and> va_sched_speed_windows v \<noteq> [])"
    "va_iperf_direction v = one_of [''both'', ''down'', ''up'', ''bidir''] ''both'' (va_iperf_direction ?u)"
    "va_iperf_retries v = clamp_i (va_iperf_retries ?u) 0 max_speed_retries"
    by (simp_all add: v_def normalize_def Let_def)
  have rows: "row ?m' ''schedule_enabled'' = row m ''schedule_enabled''"
    "?m' ''sched_lat_days'' = m ''sched_lat_days''" "row ?m' ''sched_lat_start'' = row m ''sched_lat_start''"
    "row ?m' ''sched_lat_end'' = row m ''sched_lat_end''" "?m' ''sched_speed_days'' = m ''sched_speed_days''"
    "row ?m' ''sched_speed_start'' = row m ''sched_speed_start''" "row ?m' ''sched_speed_end'' = row m ''sched_speed_end''"
    by (simp_all add: migrated_other migrated_row_other migration_keys_def)
  have old: "load_schedule cd m ''sched_lat_enabled'' ''sched_lat_windows'' ''sched_lat_days'' ''sched_lat_start''
      ''sched_lat_end'' = (va_sched_lat_enabled ?u, va_sched_lat_windows ?u)"
    "load_schedule cd m ''sched_speed_enabled'' ''sched_speed_windows'' ''sched_speed_days'' ''sched_speed_start''
      ''sched_speed_end'' = (va_sched_speed_enabled ?u, va_sched_speed_windows ?u)"
    by (simp_all add: overlay_def overlay_alerts_schedules)
  obtain le lw where lat: "load_schedule cd ?m' ''sched_lat_enabled'' ''sched_lat_windows'' ''sched_lat_days''
      ''sched_lat_start'' ''sched_lat_end'' = (le, lw)" "sanitize_windows lw = va_sched_lat_windows v"
      "(le \<and> va_sched_lat_windows v \<noteq> []) = va_sched_lat_enabled v"
    using load_schedule_migrated [OF assms(1) rows(1-4) migrated_rows(4,5) old(1) vf(1,2)] by blast
  obtain se sw where speed: "load_schedule cd ?m' ''sched_speed_enabled'' ''sched_speed_windows'' ''sched_speed_days''
      ''sched_speed_start'' ''sched_speed_end'' = (se, sw)" "sanitize_windows sw = va_sched_speed_windows v"
      "(se \<and> va_sched_speed_windows v \<noteq> []) = va_sched_speed_enabled v"
    using load_schedule_migrated [OF assms(1) rows(1,5-7) migrated_rows(6,7) old(2) vf(3,4)] by blast
  let ?q = "overlay_speedtest cd ?p ?m'"
  have "overlay cd d ?m' = overlay_alerts cd ?q ?m'" by (simp add: overlay_def overlay_probing_migrated)
  also have "\<dots> = (overlay_alerts cd ?q m)\<lparr>va_sched_lat_enabled := le, va_sched_lat_windows := lw,
      va_sched_speed_enabled := se, va_sched_speed_windows := sw\<rparr>"
    by (rule overlay_alerts_migrated_self) (simp_all add: lat(1) speed(1))
  also have "\<dots> = ?u\<lparr>va_iperf_direction := dir, va_iperf_retries := retries, va_sched_lat_enabled := le,
      va_sched_lat_windows := lw, va_sched_speed_enabled := se, va_sched_speed_windows := sw\<rparr>"
    unfolding sp overlay_alerts_commute by (simp add: overlay_def)
  also have "normalize \<dots> = normalize ?u"
  proof (rule normalize_migrated)
    show "one_of [''both'', ''down'', ''up'', ''bidir''] ''both'' dir =
        one_of [''both'', ''down'', ''up'', ''bidir''] ''both'' (va_iperf_direction ?u)"
      using dr(1) unfolding keep vf(5) by (elim disjE conjE) (simp_all only: one_of_direction_again)
    show "clamp_i retries 0 max_speed_retries = clamp_i (va_iperf_retries ?u) 0 max_speed_retries"
      using dr(2) unfolding keep vf(6) by (elim disjE conjE) (simp_all only: clamp_retries_again)
    show "sanitize_windows lw = sanitize_windows (va_sched_lat_windows ?u)"
      "(le \<and> sanitize_windows lw \<noteq> []) = (va_sched_lat_enabled ?u \<and> sanitize_windows lw \<noteq> [])"
      using lat(2,3) vf(1,2) by simp_all
    show "sanitize_windows sw = sanitize_windows (va_sched_speed_windows ?u)"
      "(se \<and> sanitize_windows sw \<noteq> []) = (va_sched_speed_enabled ?u \<and> sanitize_windows sw \<noteq> [])"
      using speed(2,3) vf(3,4) by simp_all
  qed
  finally show ?thesis by (simp add: v_def)
qed

lemma migration_once: "migration_rows cd (migrated cd m v) w = []"
  by (auto simp: migration_rows_eq opt_row_def split_applied_def engine_split_key_def migrated_rows carries_direction_def
      carries_retries_def carries_toggle_def carries_window_def migrated_row_other migrated_other migration_keys_def)

end
