(* ===== verification/SettingsFacts.thy ===== *)
theory SettingsFacts
  imports Settings ConfigFacts CallFrames
begin

text \<open>
  What the operations of the settings controller do to the rows and to the values: which calls
  leave both alone, what a save commits, and the runs of operations over which the invariants
  of the controller are proved.
\<close>

section \<open>Calls of the store\<close>

lemma exec_rows: "db_exec s = (e, s') \<Longrightarrow> t_settings s' = t_settings s"
  by (metis db_exec_frame(5) snd_conv)

lemma query_rows: "query f s = (r, s') \<Longrightarrow> t_settings s' = t_settings s"
  by (auto simp: query_def dest: exec_rows split: prod.splits option.splits)

lemma all_settings_rows: "all_settings s = (r, s') \<Longrightarrow> t_settings s' = t_settings s"
  unfolding all_settings_def by (rule query_rows)

lemma diff_rows:
  assumes "set_settings_diff kv s = (r, s')"
  shows "t_settings s' = (case r of Inl e \<Rightarrow> t_settings s | Inr _ \<Rightarrow> t_settings s ++ map_of kv)"
  using assms
  by (auto simp: set_settings_diff_def record_db_err_frame dest!: exec_rows all_settings_rows
      split: if_splits prod.splits option.splits sum.splits)

lemma on_store_at:
  assumes "on_store f c = (r, c')"
  obtains s where "f (sd_store (ct_db c)) = (r, s)" "c' = c\<lparr>ct_db := (ct_db c)\<lparr>sd_store := s\<rparr>\<rparr>"
  using assms by (auto simp: on_store_def split: prod.splits)

text \<open>A call that only reads leaves the controller with a database of the same rows.\<close>

definition reread :: "controller \<Rightarrow> controller \<Rightarrow> bool" where
  "reread c c' \<longleftrightarrow> (\<exists>d. c' = c\<lparr>ct_db := d\<rparr> \<and> t_settings (sd_store d) = stored_rows c)"

lemma reread_refl: "reread c c"
  unfolding reread_def stored_rows_def by (rule exI [of _ "ct_db c"]) simp

lemma reread_trans: "reread a b \<Longrightarrow> reread b c \<Longrightarrow> reread a c"
  by (auto simp: reread_def stored_rows_def)

lemma reread_rows: "reread c c' \<Longrightarrow> stored_rows c' = stored_rows c"
  by (auto simp: reread_def stored_rows_def)

lemma all_settings_read:
  assumes "on_store all_settings c = (r, c')"
  shows "reread c c'" and "r = Inr m \<Longrightarrow> m = stored_rows c"
proof -
  obtain s where f: "all_settings (sd_store (ct_db c)) = (r, s)" and c: "c' = c\<lparr>ct_db := (ct_db c)\<lparr>sd_store := s\<rparr>\<rparr>"
    using assms by (rule on_store_at)
  have "t_settings s = stored_rows c"
    using f by (auto simp: stored_rows_def dest: all_settings_rows)
  then show "reread c c'" using c by (auto simp: reread_def)
  show "m = stored_rows c" if "r = Inr m"
    using f that by (auto simp: all_settings_def query_def stored_rows_def dest: exec_rows split: prod.splits option.splits)
qed

lemma diff_at:
  assumes "on_store (set_settings_diff kv) c = (r, c')"
  obtains d where "c' = c\<lparr>ct_db := d\<rparr>"
    "t_settings (sd_store d) = (case r of Inl e \<Rightarrow> stored_rows c | Inr _ \<Rightarrow> stored_rows c ++ map_of kv)"
proof -
  obtain s where "set_settings_diff kv (sd_store (ct_db c)) = (r, s)" "c' = c\<lparr>ct_db := (ct_db c)\<lparr>sd_store := s\<rparr>\<rparr>"
    using assms by (rule on_store_at)
  then show thesis using that [of "(ct_db c)\<lparr>sd_store := s\<rparr>"] by (auto simp: stored_rows_def dest!: diff_rows cong: sum.case_cong)
qed

lemma set_setting_at:
  assumes "on_store (set_setting k v) c = (r, c')"
  obtains d where "c' = c\<lparr>ct_db := d\<rparr>"
    "t_settings (sd_store d) = (case r of Some e \<Rightarrow> stored_rows c | None \<Rightarrow> (stored_rows c)(k \<mapsto> v))"
proof -
  obtain s where s: "set_setting k v (sd_store (ct_db c)) = (r, s)" and c: "c' = c\<lparr>ct_db := (ct_db c)\<lparr>sd_store := s\<rparr>\<rparr>"
    using assms by (rule on_store_at)
  obtain r0 where d: "set_settings_diff [(k, v)] (sd_store (ct_db c)) = (r0, s)"
    using s by (auto simp: set_setting_def split: prod.splits sum.splits)
  have "t_settings s = (case r of Some e \<Rightarrow> stored_rows c | None \<Rightarrow> (stored_rows c)(k \<mapsto> v))"
    using diff_rows [OF d] s d by (auto simp: set_setting_def stored_rows_def split: sum.splits)
  with c show thesis using that by auto
qed

lemma has_history_rows: "has_history w d = (r, d') \<Longrightarrow> t_settings (sd_store d') = t_settings (sd_store d)"
  by (auto simp: has_history_def sd_query_def sd_exec_def save_keeps_settings dest!: exec_rows
      split: prod.splits option.splits)

lemma established_reads: "established_in_store w c = (r, c') \<Longrightarrow> reread c c'"
proof -
  assume e: "established_in_store w c = (r, c')"
  obtain h d where h: "has_history w (ct_db c) = (h, d)" by (metis surj_pair)
  have r1: "reread c (c\<lparr>ct_db := d\<rparr>)" using has_history_rows [OF h] by (auto simp: reread_def stored_rows_def)
  obtain b c2 where b: "on_store install_born_at (c\<lparr>ct_db := d\<rparr>) = (b, c2)" by (metis surj_pair)
  have r2: "reread (c\<lparr>ct_db := d\<rparr>) c2"
  proof -
    obtain s where "install_born_at (sd_store d) = (b, s)" "c2 = c\<lparr>ct_db := d\<rparr>\<lparr>ct_db := d\<lparr>sd_store := s\<rparr>\<rparr>"
      using b by (rule on_store_at) simp
    moreover from this have "t_settings s = t_settings (sd_store d)"
      by (auto simp: install_born_at_def dest!: query_rows split: prod.splits option.splits sum.splits)
    ultimately show ?thesis by (auto simp: reread_def stored_rows_def)
  qed
  obtain a c3 where a: "on_store all_settings c2 = (a, c3)" by (metis surj_pair)
  show ?thesis
    using e h b a r1 reread_trans [OF r1 r2] reread_trans [OF reread_trans [OF r1 r2] all_settings_read(1) [OF a]]
    by (auto simp: established_in_store_def Let_def split: sum.splits if_splits)
qed

section \<open>The birth marker\<close>

text \<open>What the birth marker's code may touch: its own row, its two fields, and the database.\<close>

definition marked :: "controller \<Rightarrow> controller \<Rightarrow> bool" where
  "marked c c' \<longleftrightarrow> (\<exists>d e p v. c' = c\<lparr>ct_db := d, ct_born_err := e, ct_born_pending := p\<rparr> \<and>
     (t_settings (sd_store d) = stored_rows c \<or> t_settings (sd_store d) = (stored_rows c)(born_version_key \<mapsto> v)))"

lemma marked_intro:
  "c' = c\<lparr>ct_db := d, ct_born_err := e, ct_born_pending := p\<rparr> \<Longrightarrow>
   t_settings (sd_store d) = stored_rows c \<or> t_settings (sd_store d) = (stored_rows c)(born_version_key \<mapsto> v) \<Longrightarrow>
   marked c c'"
  unfolding marked_def by blast

lemma stamp_marks: "marked c (stamp_born_marker c)"
proof -
  let ?v = "if ct_born_version c = [] then ''unknown'' else ct_born_version c"
  obtain e1 c1 where one: "on_store (set_setting born_version_key ?v) c = (e1, c1)" by (metis surj_pair)
  obtain e2 c2 where two: "on_store (set_setting born_version_key ?v) c1 = (e2, c2)" by (metis surj_pair)
  obtain d1 where d1: "c1 = c\<lparr>ct_db := d1\<rparr>"
    "t_settings (sd_store d1) = (case e1 of Some e \<Rightarrow> stored_rows c | None \<Rightarrow> (stored_rows c)(born_version_key \<mapsto> ?v))"
    using one by (rule set_setting_at)
  obtain d2 where d2: "c2 = c1\<lparr>ct_db := d2\<rparr>"
    "t_settings (sd_store d2) = (case e2 of Some e \<Rightarrow> stored_rows c1 | None \<Rightarrow> (stored_rows c1)(born_version_key \<mapsto> ?v))"
    using two by (rule set_setting_at)
  show ?thesis
  proof (cases e1)
    case None
    then have "stamp_born_marker c = c\<lparr>ct_db := d1, ct_born_err := None, ct_born_pending := False\<rparr>"
      using one d1 by (simp add: stamp_born_marker_def Let_def)
    then show ?thesis using d1 None unfolding marked_def by auto
  next
    case (Some e)
    then have r1: "stored_rows c1 = stored_rows c" using d1 by (simp add: stored_rows_def)
    have "stamp_born_marker c = (case e2 of None \<Rightarrow> c\<lparr>ct_db := d2, ct_born_err := None, ct_born_pending := False\<rparr>
        | Some e \<Rightarrow> c\<lparr>ct_db := d2, ct_born_err := Some e, ct_born_pending := ct_born_pending c\<rparr>)"
      using one two d1(1) d2(1) Some by (simp add: stamp_born_marker_def Let_def split: option.split)
    then have "stamp_born_marker c = c\<lparr>ct_db := d2, ct_born_err := e2,
        ct_born_pending := (case e2 of None \<Rightarrow> False | Some _ \<Rightarrow> ct_born_pending c)\<rparr>"
      by (simp split: option.split)
    then show ?thesis
      by (rule marked_intro [where v = ?v]) (use d2 r1 in \<open>auto split: option.splits\<close>)
  qed
qed

lemma marked_refl: "marked c c"
  unfolding marked_def stored_rows_def
  by (rule exI [of _ "ct_db c"], rule exI [of _ "ct_born_err c"], rule exI [of _ "ct_born_pending c"]) simp

lemma marked_vals: "marked c c' \<Longrightarrow> ct_vals c' = ct_vals c"
  by (auto simp: marked_def)

lemma marked_row: "marked c c' \<Longrightarrow> k \<noteq> born_version_key \<Longrightarrow> stored_rows c' k = stored_rows c k"
  by (auto simp: marked_def stored_rows_def)

lemma marked_crypter: "marked c c' \<Longrightarrow> ct_crypter c' = ct_crypter c"
  by (auto simp: marked_def)

lemma reread_marked: "reread c c' \<Longrightarrow> marked c' c'' \<Longrightarrow> marked c c''"
  by (fastforce simp: reread_def marked_def stored_rows_def)

lemma complete_marks: "marked c (complete_pending_born_marker c)"
  by (simp add: complete_pending_born_marker_def stamp_marks marked_refl)

lemma marked_fields: "marked c (c\<lparr>ct_born_pending := p, ct_born_err := e\<rparr>)"
  unfolding marked_def stored_rows_def
  by (rule exI [of _ "ct_db c"], rule exI [of _ e], rule exI [of _ p]) simp

lemma marked_pending: "marked (c\<lparr>ct_born_pending := p\<rparr>) c' \<Longrightarrow> marked c c'"
  by (auto simp: marked_def stored_rows_def)

lemma marked_err: "reread c c' \<Longrightarrow> marked c (c'\<lparr>ct_born_err := e\<rparr>)"
  using marked_fields [where c = c' and p = "ct_born_pending c'" and e = e] reread_marked by simp

lemma ensure_marks: "marked c (ensure_born_marker w m c)"
proof -
  obtain r c1 where e: "established_in_store w c = (r, c1)" by (metis surj_pair)
  note reads = established_reads [OF e]
  consider (row) "m born_version_key \<noteq> None" | (told) "m born_version_key = None" "ct_creation_known c" "\<not> ct_created_here c"
    | (pending) "m born_version_key = None" "\<not> (ct_creation_known c \<and> \<not> ct_created_here c)" "ct_born_pending c"
    | (ask) "m born_version_key = None" "\<not> (ct_creation_known c \<and> \<not> ct_created_here c)" "\<not> ct_born_pending c" by blast
  then show ?thesis
  proof cases
    case row
    then show ?thesis using marked_fields by (simp add: ensure_born_marker_def)
  next
    case told
    then show ?thesis by (simp add: ensure_born_marker_def marked_refl)
  next
    case pending
    then show ?thesis by (auto simp: ensure_born_marker_def stamp_marks)
  next
    case ask
    show ?thesis
    proof (cases r)
      case (Inl x)
      then show ?thesis using ask e marked_err [OF reads] by (auto simp: ensure_born_marker_def)
    next
      case (Inr b)
      have "marked c (stamp_born_marker (c1\<lparr>ct_born_pending := True\<rparr>))"
        using reread_marked [OF reads marked_pending [OF stamp_marks]] .
      moreover have "marked c c1" using reread_marked [OF reads marked_refl] .
      ultimately show ?thesis using ask e Inr by (cases b) (auto simp: ensure_born_marker_def)
    qed
  qed
qed

section \<open>A save\<close>

text \<open>The rows a save commits: those of the function, the passwords among them restored and sealed.\<close>

definition committed :: "codec \<Rightarrow> controller \<Rightarrow> (string \<times> string) list \<Rightarrow> (string \<times> string) list \<Rightarrow> bool" where
  "committed cd c kv kv' \<longleftrightarrow> (case map_of kv iperf_servers_key of
     None \<Rightarrow> kv' = kv
   | Some raw \<Rightarrow> (\<exists>sealed. seal_servers cd c (restore_sealed cd c raw) = Inr sealed \<and>
       kv' = replace_row iperf_servers_key sealed kv))"

lemma replace_row_map: "map_of (replace_row k v kv) k' = (if k' = k then map_option (\<lambda>_. v) (map_of kv k) else map_of kv k')"
  by (induction kv) (auto simp: replace_row_def)

lemma committed_other: "committed cd c kv kv' \<Longrightarrow> k \<noteq> iperf_servers_key \<Longrightarrow> map_of kv' k = map_of kv k"
  by (auto simp: committed_def replace_row_map split: option.splits)

lemma sealing_same: "reread c c1 \<Longrightarrow> seal_servers cd c1 (restore_sealed cd c1 raw) = seal_servers cd c (restore_sealed cd c raw)"
  by (auto simp: reread_def seal_servers_def restore_sealed_def cong: option.case_cong if_cong)

lemma committed_same: "reread c c1 \<Longrightarrow> committed cd c1 = committed cd c"
  by (auto simp: committed_def fun_eq_iff sealing_same split: option.splits)

lemma mutate_errE:
  assumes m: "mutate_err cd fn c = (r, c')" and f: "\<And>r1 c1. fn (ct_vals c) c = (r1, c1) \<Longrightarrow> reread c c1"
  obtains (refused) e d n where "r = Inl e" "c' = c\<lparr>ct_db := d, ct_nonce := n\<rparr>" "t_settings (sd_store d) = stored_rows c"
  | (saved) v kv kv' d n where "r = Inr v" "loaded c" "fst (fn (ct_vals c) c) = Inr (v, kv)" "committed cd c kv kv'"
      "t_settings (sd_store d) = stored_rows c ++ map_of kv'"
      "c' = complete_pending_born_marker (broadcast v (c\<lparr>ct_db := d, ct_nonce := n\<rparr>))"
proof (cases "ct_init_err c")
  case True
  then show thesis using m refused [where e = Unavailable and d = "ct_db c" and n = "ct_nonce c"] by (simp add: mutate_err_def stored_rows_def)
next
  case False
  obtain r1 c1 where fn: "fn (ct_vals c) c = (r1, c1)" by (metis surj_pair)
  obtain d1 where d1: "c1 = c\<lparr>ct_db := d1\<rparr>" "t_settings (sd_store d1) = stored_rows c"
    using f [OF fn] by (auto simp: reread_def)
  have eq: "c1 = c\<lparr>ct_db := d1, ct_nonce := ct_nonce c\<rparr>" using d1(1) by simp
  show thesis
  proof (cases r1)
    case (Inl e)
    then have "r = Inl e" "c' = c1" using m False fn by (simp_all add: mutate_err_def)
    from \<open>r = Inl e\<close> trans [OF \<open>c' = c1\<close> eq] d1(2) show thesis by (rule refused)
  next
    case (Inr p)
    obtain v kv where p: "p = (v, kv)" by (cases p)
    let ?seal = "case map_of kv iperf_servers_key of None \<Rightarrow> Inr (kv, c1)
       | Some raw \<Rightarrow> (case seal_servers cd c1 (restore_sealed cd c1 raw) of Inl e \<Rightarrow> Inl e
           | Inr sealed \<Rightarrow> Inr (replace_row iperf_servers_key sealed kv, after_sealing c1))"
    show thesis
    proof (cases ?seal)
      case (Inl e)
      then have "r = Inl e" "c' = c1" using m False fn Inr p by (simp_all add: mutate_err_def)
      from \<open>r = Inl e\<close> trans [OF \<open>c' = c1\<close> eq] d1(2) show thesis by (rule refused)
    next
      case seal: (Inr q)
      obtain kv' c2 where q: "q = (kv', c2)" by (cases q)
      have com: "committed cd c1 kv kv'" and c2: "\<exists>n. c2 = c1\<lparr>ct_nonce := n\<rparr>"
        using seal q by (auto simp: committed_def after_sealing_def split: option.splits sum.splits intro: exI [of _ "ct_nonce c1"])
      have com': "committed cd c kv kv'" using com committed_same [OF f [OF fn]] by simp
      obtain n where n: "c2 = c\<lparr>ct_db := d1, ct_nonce := n\<rparr>" using c2 d1 by auto
      obtain r3 c3 where w: "on_store (set_settings_diff kv') c2 = (r3, c3)" by (metis surj_pair)
      obtain d3 where d3: "c3 = c2\<lparr>ct_db := d3\<rparr>"
        "t_settings (sd_store d3) = (case r3 of Inl e \<Rightarrow> stored_rows c2 | Inr _ \<Rightarrow> stored_rows c2 ++ map_of kv')"
        using w by (rule diff_at)
      have rows: "stored_rows c2 = stored_rows c" using n d1 by (simp add: stored_rows_def)
      have run: "mutate_err cd fn c = (case r3 of Inl e \<Rightarrow> (Inl (StoreErr e), c3)
          | Inr _ \<Rightarrow> (Inr v, complete_pending_born_marker (broadcast v c3)))"
        using False fn Inr p seal q w by (simp add: mutate_err_def)
      have c3: "c3 = c\<lparr>ct_db := d3, ct_nonce := n\<rparr>" using d3(1) n by (cases c) simp
      show thesis
      proof (cases r3)
        case (Inl e)
        then have "r = Inl (StoreErr e)" "c' = c\<lparr>ct_db := d3, ct_nonce := n\<rparr>" "t_settings (sd_store d3) = stored_rows c"
          using m run d3(2) rows c3 by simp_all
        then show thesis by (rule refused)
      next
        case (Inr x)
        then show thesis using m run c3 d3(2) rows fn \<open>r1 = Inr p\<close> p com' False saved [where v = v and kv = kv and kv' = kv' and d = d3 and n = n] by (simp add: loaded_def)
      qed
    qed
  qed
qed

lemma mutateE:
  assumes m: "mutate cd fn c = (r, c')"
  obtains (refused) e d n where "r = Inl e" "c' = c\<lparr>ct_db := d, ct_nonce := n\<rparr>" "t_settings (sd_store d) = stored_rows c"
  | (saved) v kv kv' d n where "r = Inr v" "loaded c" "fn (ct_vals c) = (v, kv)" "committed cd c kv kv'"
      "t_settings (sd_store d) = stored_rows c ++ map_of kv'"
      "c' = complete_pending_born_marker (broadcast v (c\<lparr>ct_db := d, ct_nonce := n\<rparr>))"
proof -
  have f: "reread c c1" if "ret (fn (ct_vals c)) c = (r1, c1)" for r1 c1
    using that by (simp add: reread_refl)
  show thesis
    using m unfolding mutate_def
  proof (rule mutate_errE)
    show "reread c c1" if "ret (fn (ct_vals c)) c = (r1, c1)" for r1 :: "cfg_error + config_values \<times> (string \<times> string) list" and c1
      using that by (simp add: reread_refl)
  qed (use refused saved in auto)
qed

section \<open>A load\<close>

lemma unseal_targets_at:
  obtains m where "snd (snd (unseal_targets b ts c)) = c\<lparr>ct_sealed := m\<rparr>"
proof -
  have "\<exists>m. snd (snd (unseal_targets b ts c)) = c\<lparr>ct_sealed := m\<rparr>"
  proof (induction ts arbitrary: c)
    case Nil
    show ?case by (rule exI [of _ "ct_sealed c"]) simp
  next
    case (Cons t ts)
    obtain m0 m1 where m: "snd (snd (unseal_targets b ts c)) = c\<lparr>ct_sealed := m0\<rparr>"
      "snd (snd (unseal_targets b ts (remember_sealed_one (it_addr t) (it_password t) c))) = c\<lparr>ct_sealed := m1\<rparr>"
      using Cons.IH [of c] Cons.IH [of "remember_sealed_one (it_addr t) (it_password t) c"]
      by (auto simp: remember_sealed_one_def)
    then show ?case by (auto split: prod.splits option.splits)
  qed
  then show thesis using that by blast
qed

lemma remember_at: obtains m where "remember_sealed cd raw c = c\<lparr>ct_sealed := m\<rparr>"
proof -
  have fold: "\<exists>m. foldl (\<lambda>c t. if is_sealed (it_password t) then remember_sealed_one (it_addr t) (it_password t) c else c) c ts
      = c\<lparr>ct_sealed := m\<rparr>" for ts
  proof (induction ts arbitrary: c)
    case Nil
    show ?case by (rule exI [of _ "ct_sealed c"]) simp
  next
    case (Cons t ts)
    obtain m where "(if is_sealed (it_password t) then remember_sealed_one (it_addr t) (it_password t) c else c) = c\<lparr>ct_sealed := m\<rparr>"
      by (metis remember_sealed_one_def controller.surjective controller.update_convs(7))
    with Cons [of "c\<lparr>ct_sealed := m\<rparr>"] show ?case by simp
  qed
  have "\<exists>m. remember_sealed cd raw c = c\<lparr>ct_sealed := m\<rparr>"
  proof (cases "cd_text_iperf cd raw")
    case None
    then show ?thesis unfolding remember_sealed_def by (intro exI [of _ "ct_sealed c"]) simp
  next
    case (Some ts)
    then show ?thesis unfolding remember_sealed_def using fold by simp
  qed
  then show thesis using that by blast
qed

lemma unseal_at: obtains m where "snd (unseal_servers cd raw c) = c\<lparr>ct_sealed := m\<rparr>"
proof -
  obtain m1 where m1: "remember_sealed cd raw (c\<lparr>ct_sealed := Map.empty\<rparr>) = c\<lparr>ct_sealed := m1\<rparr>"
    by (metis remember_at controller.update_convs(7) controller.surjective)
  have "\<exists>m. snd (unseal_servers cd raw c) = c\<lparr>ct_sealed := m\<rparr>"
  proof (cases "raw = [] \<or> ct_crypter c = None \<or> cd_text_iperf cd raw = None")
    case True
    then show ?thesis using m1 by (auto simp: unseal_servers_def Let_def split: option.split)
  next
    case False
    then obtain b ts where bt: "ct_crypter c = Some b" "cd_text_iperf cd raw = Some ts" "raw \<noteq> []" by auto
    obtain m where "snd (snd (unseal_targets b ts (c\<lparr>ct_sealed := Map.empty\<rparr>))) = c\<lparr>ct_sealed := Map.empty\<rparr>\<lparr>ct_sealed := m\<rparr>"
      by (rule unseal_targets_at)
    then show ?thesis using bt by (auto simp: unseal_servers_def Let_def split: prod.split)
  qed
  then show thesis using that by blast
qed

text \<open>What \<open>absorb_rows\<close> leaves: the marker's work, then new values for the remembered ciphertexts,
  the epoch and the scope.\<close>

definition seeded :: "(string \<rightharpoonup> string) \<Rightarrow> int \<Rightarrow> int" where
  "seeded m epoch = max epoch (case m session_epoch_key of Some v \<Rightarrow> parse_int_lax v | None \<Rightarrow> 0)"

lemma absorb_at:
  assumes "absorb_rows cd w m c = ((m', legacy), c')"
  obtains c1 sealed scope raw where "c1 = ensure_born_marker w m c" "marked c c1"
    "c' = c1\<lparr>ct_sealed := sealed, ct_epoch := seeded m (ct_epoch c), ct_scope := scope\<rparr>" "m' = m(iperf_servers_key \<mapsto> raw)"
proof -
  let ?c1 = "ensure_born_marker w m c"
  obtain r l c2 where u: "unseal_servers cd (row m iperf_servers_key) ?c1 = ((r, l), c2)" by (metis surj_pair)
  obtain sealed where s: "c2 = ?c1\<lparr>ct_sealed := sealed\<rparr>" using unseal_at [of cd "row m iperf_servers_key" ?c1] u by auto
  have e: "ct_epoch ?c1 = ct_epoch c" using ensure_marks [of c w m] by (auto simp: marked_def)
  have "session_epoch_key \<noteq> iperf_servers_key" by (simp add: session_epoch_key_def iperf_servers_key_def)
  then have seed: "seed_session_epoch (m(iperf_servers_key \<mapsto> r)) c2 = ?c1\<lparr>ct_sealed := sealed, ct_epoch := seeded m (ct_epoch c)\<rparr>"
    using s e by (simp add: seed_session_epoch_def Let_def seeded_def max_def)
  have scope: "\<exists>scope. read_retired_city_scope x c3 = c3\<lparr>ct_scope := scope\<rparr>" for x c3
    by (auto simp: read_retired_city_scope_def Let_def)
  have "c' = read_retired_city_scope (m(iperf_servers_key \<mapsto> r)) (seed_session_epoch (m(iperf_servers_key \<mapsto> r)) c2)"
    using assms u by (auto simp: absorb_rows_def Let_def)
  then have "\<exists>scope. c' = ?c1\<lparr>ct_sealed := sealed, ct_epoch := seeded m (ct_epoch c), ct_scope := scope\<rparr>"
    using scope unfolding seed by simp
  then obtain scope where "c' = ?c1\<lparr>ct_sealed := sealed, ct_epoch := seeded m (ct_epoch c), ct_scope := scope\<rparr>" ..
  moreover have "m' = m(iperf_servers_key \<mapsto> r)" using assms u by (simp add: absorb_rows_def Let_def)
  ultimately show thesis by (rule that [OF refl ensure_marks])
qed

lemma opt_row_map: "map_of (opt_row b k x) k' = (if b \<and> k' = k then Some x else None)"
  by (simp add: opt_row_def)

lemma migration_keys_only: "k \<notin> set migration_keys \<Longrightarrow> map_of (migration_rows cd m v) k = None"
  unfolding migration_rows_eq by (simp add: opt_row_map migration_keys_def)

lemma record_migrations_at:
  obtains d where "record_migrations cd m v c = c\<lparr>ct_db := d\<rparr>"
    "t_settings (sd_store d) = stored_rows c \<or> t_settings (sd_store d) = stored_rows c ++ map_of (migration_rows cd m v)"
proof -
  obtain r c1 where w: "on_store (set_settings_diff (migration_rows cd m v)) c = (r, c1)" by (metis surj_pair)
  then obtain d where "c1 = c\<lparr>ct_db := d\<rparr>"
    "t_settings (sd_store d) = (case r of Inl e \<Rightarrow> stored_rows c | Inr _ \<Rightarrow> stored_rows c ++ map_of (migration_rows cd m v))"
    by (rule diff_at)
  with w show thesis using that [of d] by (cases r) (auto simp: record_migrations_def)
qed

lemma reseal_at:
  assumes "reseal_legacy cd c = (e, c')"
  obtains (kept) d n where "c' = c\<lparr>ct_db := d, ct_nonce := n\<rparr>" "t_settings (sd_store d) = stored_rows c"
  | (sealed) d n raw sealed where "c' = c\<lparr>ct_db := d, ct_nonce := n\<rparr>" "seal_servers cd c raw = Inr sealed"
      "raw = restore_sealed cd c (iperf_servers_json cd (va_iperf_servers (ct_vals c)))"
      "t_settings (sd_store d) = (stored_rows c)(iperf_servers_key \<mapsto> sealed)"
proof (cases "seal_servers cd c (restore_sealed cd c (iperf_servers_json cd (va_iperf_servers (ct_vals c))))")
  case (Inl x)
  then show thesis using assms kept [where d = "ct_db c" and n = "ct_nonce c"]
    by (simp add: reseal_legacy_def stored_rows_def)
next
  case (Inr s)
  obtain r c1 where w: "on_store (set_settings_diff [(iperf_servers_key, s)]) (after_sealing c) = (r, c1)" by (metis surj_pair)
  then obtain d where d: "c1 = (after_sealing c)\<lparr>ct_db := d\<rparr>"
    "t_settings (sd_store d) = (case r of Inl e \<Rightarrow> stored_rows (after_sealing c)
       | Inr _ \<Rightarrow> stored_rows (after_sealing c) ++ map_of [(iperf_servers_key, s)])"
    by (rule diff_at)
  have c1: "c1 = c\<lparr>ct_db := d, ct_nonce := ct_nonce c + max_iperf_servers\<rparr>"
    using d(1) by (cases c) (simp add: after_sealing_def)
  have "c' = c1" using assms Inr w by (cases r) (auto simp: reseal_legacy_def)
  with c1 have c': "c' = c\<lparr>ct_db := d, ct_nonce := ct_nonce c + max_iperf_servers\<rparr>" by simp
  have rows: "stored_rows (after_sealing c) = stored_rows c" by (simp add: stored_rows_def after_sealing_def)
  show thesis
  proof (cases r)
    case (Inl e)
    show thesis by (rule kept [OF c']) (use d(2) rows Inl in simp)
  next
    case (Inr _)
    show thesis
      by (rule sealed [OF c' \<open>seal_servers cd c (restore_sealed cd c _) = Inr s\<close> refl]) (use d(2) rows Inr in simp)
  qed
qed

text \<open>A load that got the rows, with the database it leaves: the marker aside, its writes are the
  migrated rows and the passwords it found in the clear.\<close>

definition load_wrote :: "codec \<Rightarrow> controller \<Rightarrow> controller \<Rightarrow> bool" where
  "load_wrote cd c1 c' \<longleftrightarrow>
     (\<forall>k. k \<notin> set migration_keys \<and> k \<noteq> iperf_servers_key \<longrightarrow> stored_rows c' k = stored_rows c1 k) \<and>
     (stored_rows c' iperf_servers_key = stored_rows c1 iperf_servers_key \<or>
      (\<exists>c2 ts sealed. ct_crypter c2 = ct_crypter c1 \<and> seal_servers cd c2 (restore_sealed cd c2 (iperf_servers_json cd ts)) = Inr sealed \<and>
         ts = va_iperf_servers (ct_vals c') \<and> stored_rows c' iperf_servers_key = Some sealed))"

lemma iperf_key_not_migrated: "iperf_servers_key \<notin> set migration_keys"
  by (simp add: iperf_servers_key_def migration_keys_def)

lemma settle_load:
  assumes "c1 = record_migrations cd m v c0" and "(err, c') = (if legacy then reseal_legacy cd c1 else (None, c1))"
  obtains d n where "c' = c0\<lparr>ct_db := d, ct_nonce := n\<rparr>" "load_wrote cd c0 c'"
proof -
  obtain d1 where d1: "c1 = c0\<lparr>ct_db := d1\<rparr>"
    "t_settings (sd_store d1) = stored_rows c0 \<or> t_settings (sd_store d1) = stored_rows c0 ++ map_of (migration_rows cd m v)"
    using record_migrations_at [of cd m v c0] assms(1) by metis
  have other: "stored_rows c1 k = stored_rows c0 k" if "k \<notin> set migration_keys" for k
    using d1 that by (auto simp: stored_rows_def map_add_def migration_keys_only split: option.split)
  show thesis
  proof (cases legacy)
    case False
    then have c': "c' = c0\<lparr>ct_db := d1, ct_nonce := ct_nonce c0\<rparr>" and "c' = c1" using assms(2) d1 by simp_all
    then have "load_wrote cd c0 c'" using other iperf_key_not_migrated unfolding load_wrote_def by auto
    with c' show thesis by (rule that)
  next
    case True
    then have "reseal_legacy cd c1 = (err, c')" using assms(2) by simp
    then show thesis
    proof (cases rule: reseal_at)
      case (kept d n)
      have c': "c' = c0\<lparr>ct_db := d, ct_nonce := n\<rparr>" using kept(1) d1(1) by simp
      have "stored_rows c' = stored_rows c1" using kept by (simp add: stored_rows_def)
      then have "load_wrote cd c0 c'" using other iperf_key_not_migrated unfolding load_wrote_def by auto
      with c' show thesis by (rule that)
    next
      case (sealed d n raw t)
      have c': "c' = c0\<lparr>ct_db := d, ct_nonce := n\<rparr>" using sealed(1) d1(1) by simp
      have rows: "stored_rows c' = (stored_rows c1)(iperf_servers_key \<mapsto> t)" using sealed by (simp add: stored_rows_def)
      have same: "ct_crypter c1 = ct_crypter c0" "ct_vals c' = ct_vals c1" using d1(1) sealed(1) by simp_all
      have "load_wrote cd c0 c'"
        unfolding load_wrote_def
      proof (intro conjI disjI2 exI)
        show "ct_crypter c1 = ct_crypter c0" by (rule same)
        show "seal_servers cd c1 (restore_sealed cd c1 (iperf_servers_json cd (va_iperf_servers (ct_vals c')))) = Inr t"
          using sealed(2,3) same by simp
      qed (use other rows in auto)
      with c' show thesis by (rule that)
    qed
  qed
qed

lemma reloadE:
  assumes "reload cd w c = (r, c')"
  obtains (unread) e where "r = (loaded c, Some (StoreErr e))" "reread c c'"
  | (taken) c0 c1 sealed scope raw d n m err where "r = (loaded c, err)" "m = (stored_rows c)(iperf_servers_key \<mapsto> raw)"
      "reread c c0" "c1 = ensure_born_marker w (stored_rows c) c0" "marked c c1"
      "c' = c1\<lparr>ct_sealed := sealed, ct_epoch := seeded (stored_rows c) (ct_epoch c), ct_scope := scope,
          ct_vals := normalize (overlay cd (ct_defaults c) m), ct_changed := Suc (ct_changed c), ct_init_err := False,
          ct_db := d, ct_nonce := n\<rparr>"
      "load_wrote cd c1 c'"
proof -
  obtain r0 c0 where q: "on_store all_settings c = (r0, c0)" by (metis surj_pair)
  note rd = all_settings_read [OF q]
  show thesis
  proof (cases r0)
    case (Inl e)
    then have "r = (loaded c, Some (StoreErr e))" "reread c c'"
      using assms q rd(1) by (auto simp: reload_def loaded_def Let_def)
    then show thesis by (rule unread)
  next
    case (Inr m0)
    then have m0: "m0 = stored_rows c" using rd(2) by blast
    obtain m legacy c2 where a: "absorb_rows cd w m0 c0 = ((m, legacy), c2)" by (metis surj_pair)
    obtain c1 sealed scope raw where en: "c1 = ensure_born_marker w m0 c0" and ab: "marked c0 c1"
      "c2 = c1\<lparr>ct_sealed := sealed, ct_epoch := seeded m0 (ct_epoch c0), ct_scope := scope\<rparr>" "m = m0(iperf_servers_key \<mapsto> raw)"
      using a by (rule absorb_at)
    have mk: "marked c c1" using reread_marked [OF rd(1) ab(1)] .
    obtain d0 where d0: "c0 = c\<lparr>ct_db := d0\<rparr>" using rd(1) by (auto simp: reread_def)
    have c1: "ct_defaults c1 = ct_defaults c" "ct_changed c1 = ct_changed c" using mk by (auto simp: marked_def)
    let ?v = "normalize (overlay cd (ct_defaults c2) m)"
    let ?c3 = "(broadcast ?v c2)\<lparr>ct_init_err := False\<rparr>"
    let ?c4 = "record_migrations cd m ?v ?c3"
    let ?fin = "if legacy then reseal_legacy cd ?c4 else (None, ?c4)"
    obtain err c5 where e5: "?fin = (err, c5)" by (metis surj_pair)
    have defs: "ct_defaults c2 = ct_defaults c" using ab(2) c1 by simp
    have run: "r = (loaded c, err)" "c' = c5"
      using assms q Inr a e5 by (auto simp: reload_def loaded_def Let_def)
    obtain d n where dn: "c5 = ?c3\<lparr>ct_db := d, ct_nonce := n\<rparr>" "load_wrote cd ?c3 c5"
      by (rule settle_load [OF refl e5 [symmetric]])
    show thesis
    proof (rule taken [OF run(1) _ rd(1) _ mk])
      show "c1 = ensure_born_marker w (stored_rows c) c0" using en m0 by simp
      show "m = (stored_rows c)(iperf_servers_key \<mapsto> raw)" using ab(3) m0 by simp
      show "c' = c1\<lparr>ct_sealed := sealed, ct_epoch := seeded (stored_rows c) (ct_epoch c), ct_scope := scope,
          ct_vals := normalize (overlay cd (ct_defaults c) m), ct_changed := Suc (ct_changed c), ct_init_err := False, ct_db := d, ct_nonce := n\<rparr>"
        using dn(1) run(2) ab(2) m0 d0 c1 defs by (simp add: broadcast_def)
      show "load_wrote cd c1 c'"
        using dn(2) run(2) ab(2) by (simp add: load_wrote_def stored_rows_def broadcast_def)
    qed
  qed
qed

lemma options_frame:
  "ct_db (fold apply_option os c) = ct_db c" "ct_vals (fold apply_option os c) = ct_vals c"
  "ct_epoch (fold apply_option os c) = ct_epoch c" "ct_init_err (fold apply_option os c) = ct_init_err c"
  "ct_born_pending (fold apply_option os c) = ct_born_pending c" "ct_defaults (fold apply_option os c) = ct_defaults c"
proof (induction os arbitrary: c)
  case (Cons a os)
  {
    case 1 show ?case using Cons by (cases a) simp_all
  next
    case 2 show ?case using Cons by (cases a) simp_all
  next
    case 3 show ?case using Cons by (cases a) simp_all
  next
    case 4 show ?case using Cons by (cases a) simp_all
  next
    case 5 show ?case using Cons by (cases a) simp_all
  next
    case 6 show ?case using Cons by (cases a) simp_all
  }
qed simp_all

lemma new_controllerE:
  assumes "new_controller cd w d def os = (r, c')" and "c = fold apply_option os (idle_controller d def)"
  obtains (unread) e c1 where "on_store all_settings c = (Inl e, c1)" "reread c c1" "c' = c1\<lparr>ct_init_err := True\<rparr>"
  | (taken) c0 c1 sealed scope raw d n m where "m = (stored_rows c)(iperf_servers_key \<mapsto> raw)"
      "reread c c0" "c1 = ensure_born_marker w (stored_rows c) c0" "marked c c1"
      "c' = c1\<lparr>ct_sealed := sealed, ct_epoch := seeded (stored_rows c) (ct_epoch c), ct_scope := scope,
          ct_vals := normalize (overlay cd def m), ct_db := d, ct_nonce := n\<rparr>"
      "load_wrote cd c1 c'"
proof -
  obtain r0 c0 where q: "on_store all_settings c = (r0, c0)" by (metis surj_pair)
  note rd = all_settings_read [OF q]
  show thesis
  proof (cases r0)
    case (Inl e)
    then have "on_store all_settings c = (Inl e, c0)" "c' = c0\<lparr>ct_init_err := True\<rparr>"
      using assms q by (auto simp: new_controller_def)
    then show thesis using unread rd(1) by blast
  next
    case (Inr m0)
    then have m0: "m0 = stored_rows c" using rd(2) by blast
    obtain m legacy c2 where a: "absorb_rows cd w m0 c0 = ((m, legacy), c2)" by (metis surj_pair)
    obtain c1 sealed scope raw where en: "c1 = ensure_born_marker w m0 c0" and ab: "marked c0 c1"
      "c2 = c1\<lparr>ct_sealed := sealed, ct_epoch := seeded m0 (ct_epoch c0), ct_scope := scope\<rparr>" "m = m0(iperf_servers_key \<mapsto> raw)"
      using a by (rule absorb_at)
    have mk: "marked c c1" using reread_marked [OF rd(1) ab(1)] .
    obtain d0 where d0: "c0 = c\<lparr>ct_db := d0\<rparr>" using rd(1) by (auto simp: reread_def)
    let ?v = "normalize (overlay cd def m)"
    let ?c3 = "c2\<lparr>ct_vals := ?v\<rparr>"
    let ?c4 = "record_migrations cd m (ct_vals ?c3) ?c3"
    let ?fin = "if legacy then reseal_legacy cd ?c4 else (None, ?c4)"
    obtain err c5 where e5: "?fin = (err, c5)" by (metis surj_pair)
    have run: "c' = c5" using assms q Inr a e5 by (auto simp: new_controller_def Let_def)
    obtain d n where dn: "c5 = ?c3\<lparr>ct_db := d, ct_nonce := n\<rparr>" "load_wrote cd ?c3 c5"
      by (rule settle_load [OF refl e5 [symmetric]])
    show thesis
    proof (rule taken [OF _ rd(1) _ mk])
      show "c1 = ensure_born_marker w (stored_rows c) c0" using en m0 by simp
      show "m = (stored_rows c)(iperf_servers_key \<mapsto> raw)" using ab(3) m0 by simp
      show "c' = c1\<lparr>ct_sealed := sealed, ct_epoch := seeded (stored_rows c) (ct_epoch c), ct_scope := scope,
          ct_vals := ?v, ct_db := d, ct_nonce := n\<rparr>"
        using dn(1) run ab(2) m0 d0 by simp
      show "load_wrote cd c1 c'"
        using dn(2) run ab(2) by (simp add: load_wrote_def stored_rows_def)
    qed
  qed
qed

lemma calm_read: "faults (sd_store (ct_db c)) = [] \<Longrightarrow> on_store all_settings c \<noteq> (Inl e, c')"
  by (auto simp: on_store_def all_settings_def query_def db_exec_def split: prod.splits)

lemma calm_start_loads:
  assumes "new_controller cd w d def os = (r, c)" and "faults (sd_store d) = []"
  shows "loaded c"
  using assms(1) refl
proof (rule new_controllerE, goal_cases unread taken)
  case (unread e c1)
  then show ?case using calm_read assms(2) by (simp add: options_frame idle_controller_def)
next
  case (taken c0 c1 sealed scope raw d n m)
  have "\<not> ct_init_err c1" using taken(4) by (auto simp: marked_def options_frame idle_controller_def)
  then show ?case using taken(5) by (simp add: loaded_def)
qed

section \<open>Runs of the controller\<close>

text \<open>Everything the program asks of a controller, and what others may do to the database meanwhile.\<close>

datatype cfg_op =
    OpMonitoring bool | OpAnswering bool | OpUpdateCheck bool | OpSetupDone bool | OpLogLevel string | OpRedact bool
  | OpLocalOnly bool | OpAuthEnabled bool | OpPassword string string | OpUser string | OpClearAuth
  | OpSave patch | OpSetup quick_setup_answer | OpReload world | OpBump | OpForget | OpOffer world int
  | OpElsewhere speed_db

fun cfg_step :: "codec \<Rightarrow> cfg_op \<Rightarrow> controller \<Rightarrow> controller" where
  "cfg_step cd (OpMonitoring on) c = snd (set_monitoring cd on c)"
| "cfg_step cd (OpAnswering on) c = snd (set_monitoring_answering_setup cd on c)"
| "cfg_step cd (OpUpdateCheck on) c = snd (set_update_check_enabled cd on c)"
| "cfg_step cd (OpSetupDone fin) c = snd (set_quick_setup_done cd fin c)"
| "cfg_step cd (OpLogLevel l) c = snd (set_log_level cd l c)"
| "cfg_step cd (OpRedact on) c = snd (set_log_redact_pii cd on c)"
| "cfg_step cd (OpLocalOnly on) c = snd (set_access_local_only cd on c)"
| "cfg_step cd (OpAuthEnabled on) c = snd (set_auth_enabled cd on c)"
| "cfg_step cd (OpPassword u h) c = snd (set_auth_password cd u h c)"
| "cfg_step cd (OpUser u) c = snd (set_auth_user cd u c)"
| "cfg_step cd OpClearAuth c = snd (clear_auth cd c)"
| "cfg_step cd (OpSave p) c = snd (update cd p c)"
| "cfg_step cd (OpSetup a) c = snd (apply_quick_setup cd a c)"
| "cfg_step cd (OpReload w) c = snd (reload_and_tell cd w c)"
| "cfg_step cd OpBump c = snd (bump_session_epoch c)"
| "cfg_step cd OpForget c = forget_birth_witness c"
| "cfg_step cd (OpOffer w now) c = snd (ensure_quick_setup_offer cd w now c)"
| "cfg_step cd (OpElsewhere d) c = c\<lparr>ct_db := d\<rparr>"

definition cfg_run :: "codec \<Rightarrow> cfg_op list \<Rightarrow> controller \<Rightarrow> controller" where
  "cfg_run cd ops c = fold (cfg_step cd) ops c"

text \<open>The setters that only compute on the values.\<close>

fun setter :: "cfg_op \<Rightarrow> (config_values \<Rightarrow> config_values \<times> (string \<times> string) list) option" where
  "setter (OpMonitoring on) = Some (\<lambda>v. (v\<lparr>va_monitoring := on\<rparr>, [(''monitoring'', b2s on)]))"
| "setter (OpAnswering on) = Some (\<lambda>v. let v1 = v\<lparr>va_monitoring := on\<rparr> in
     if on \<and> \<not> va_quick_setup_done v1
     then (v1\<lparr>va_quick_setup_done := True\<rparr>, [(''monitoring'', b2s on), (''quick_setup_done'', b2s True)])
     else (v1, [(''monitoring'', b2s on)]))"
| "setter (OpUpdateCheck on) = Some (\<lambda>v. (v\<lparr>va_update_check_enabled := on\<rparr>, [(''update_check_enabled'', b2s on)]))"
| "setter (OpSetupDone fin) = Some (\<lambda>v. (v\<lparr>va_quick_setup_done := fin\<rparr>, [(''quick_setup_done'', b2s fin)]))"
| "setter (OpLogLevel l) = Some (\<lambda>v.
     (v\<lparr>va_log_level := one_of [''debug'', ''info'', ''warn'', ''error'', ''off''] ''info'' l\<rparr>,
      [(''log_level'', one_of [''debug'', ''info'', ''warn'', ''error'', ''off''] ''info'' l)]))"
| "setter (OpRedact on) = Some (\<lambda>v. (v\<lparr>va_log_redact_pii := on\<rparr>, [(''log_redact_pii'', b2s on)]))"
| "setter (OpLocalOnly on) = Some (\<lambda>v. (v\<lparr>va_access_local_only := on\<rparr>, [(''access_local_only'', b2s on)]))"
| "setter (OpAuthEnabled on) = Some (\<lambda>v. (v\<lparr>va_auth_enabled := on\<rparr>, [(''auth_enabled'', b2s on)]))"
| "setter (OpPassword u h) = Some (\<lambda>v. (v\<lparr>va_auth_user := norm_user u, va_auth_hash := h, va_auth_enabled := True\<rparr>,
     [(''auth_user'', norm_user u), (''auth_hash'', h), (''auth_enabled'', b2s True)]))"
| "setter (OpUser u) = Some (\<lambda>v. (v\<lparr>va_auth_user := norm_user u\<rparr>, [(''auth_user'', norm_user u)]))"
| "setter OpClearAuth = Some (\<lambda>v. (v\<lparr>va_auth_enabled := False, va_auth_hash := []\<rparr>,
     [(''auth_enabled'', b2s False), (''auth_hash'', [])]))"
| "setter (OpSetup a) = (if qa_dismiss a
     then Some (\<lambda>v. (v\<lparr>va_quick_setup_done := True\<rparr>, [(''quick_setup_done'', b2s True)]))
     else Some (quick_setup_values a))"
| "setter _ = None"

lemma setter_runs: "setter op = Some fn \<Longrightarrow> cfg_step cd op c = snd (mutate cd fn c)"
  by (cases op) (auto simp: set_monitoring_def set_monitoring_answering_setup_def set_update_check_enabled_def
      set_quick_setup_done_def set_log_level_def set_log_redact_pii_def set_access_local_only_def set_auth_enabled_def
      set_auth_password_def set_auth_user_def clear_auth_def apply_quick_setup_def Let_def split: if_splits prod.splits sum.splits)

text \<open>What a save asks for: the values and the rows, from a setter or from the form.\<close>

definition wanted :: "codec \<Rightarrow> controller \<Rightarrow> config_values \<Rightarrow> (string \<times> string) list \<Rightarrow> bool" where
  "wanted cd c v kv \<longleftrightarrow>
     (\<exists>op fn. setter op = Some fn \<and> fn (ct_vals c) = (v, kv)) \<or>
     (\<exists>p. \<not> reserved_password p \<and> v = update_values p (ct_vals c) \<and>
        kv = form_diff (stored_rows c) (map_of (form_keys cd (normalize (ct_vals c))))
               (map_of (form_keys cd (normalize (shipped_defaults (ct_defaults c))))) (patch_keys p) (form_keys cd v))"

text \<open>The same, from the allowed operations alone.\<close>

definition wanted_by :: "(cfg_op \<Rightarrow> bool) \<Rightarrow> codec \<Rightarrow> controller \<Rightarrow> config_values \<Rightarrow> (string \<times> string) list \<Rightarrow> bool" where
  "wanted_by ok cd c v kv \<longleftrightarrow>
     (\<exists>op fn. ok op \<and> setter op = Some fn \<and> fn (ct_vals c) = (v, kv)) \<or>
     (\<exists>p. ok (OpSave p)) \<and> wanted cd c v kv"

lemma wanted_by_wanted: "wanted_by ok cd c v kv \<Longrightarrow> wanted cd c v kv"
  unfolding wanted_by_def wanted_def by blast

lemma updateE:
  assumes u: "update cd p c = (r, c')"
  obtains (refused) e d n where "r = Inl e" "c' = c\<lparr>ct_db := d, ct_nonce := n\<rparr>" "t_settings (sd_store d) = stored_rows c"
  | (saved) kv kv' d n where "r = Inr (update_values p (ct_vals c))" "loaded c" "\<not> reserved_password p"
      "kv = form_diff (stored_rows c) (map_of (form_keys cd (normalize (ct_vals c))))
         (map_of (form_keys cd (normalize (shipped_defaults (ct_defaults c))))) (patch_keys p)
         (form_keys cd (update_values p (ct_vals c)))"
      "committed cd c kv kv'" "t_settings (sd_store d) = stored_rows c ++ map_of kv'"
      "c' = complete_pending_born_marker (broadcast (update_values p (ct_vals c)) (c\<lparr>ct_db := d, ct_nonce := n\<rparr>))"
proof (cases "reserved_password p")
  case True
  then have "r = Inl InvalidPatch" "c' = c\<lparr>ct_db := ct_db c, ct_nonce := ct_nonce c\<rparr>" using u by (auto simp: update_def)
  then show thesis by (rule refused) (simp add: stored_rows_def)
next
  case False
  let ?fn = "\<lambda>cur c. case on_store all_settings c of
          (Inl e, c) \<Rightarrow> (Inl (StoreErr e), c)
        | (Inr stored, c) \<Rightarrow>
            let out = update_values p cur
            in (Inr (out, form_diff stored (map_of (form_keys cd (normalize cur)))
                   (map_of (form_keys cd (normalize (shipped_defaults (ct_defaults c)))))
                   (patch_keys p) (form_keys cd out)), c)"
  have m: "mutate_err cd ?fn c = (r, c')" using u False by (simp add: update_def)
  obtain r0 c0 where q: "on_store all_settings c = (r0, c0)" by (metis surj_pair)
  note rd = all_settings_read [OF q]
  have def0: "ct_defaults c0 = ct_defaults c" using rd(1) by (auto simp: reread_def)
  have f: "reread c c1" if "?fn (ct_vals c) c = (r1, c1)" for r1 c1
    using that q rd(1) by (cases r0) (auto simp: Let_def)
  show thesis
  proof (rule mutate_errE [OF m f], goal_cases found refused saved)
    case (refused e d n)
    then show thesis using that(1) by blast
  next
    case s: (saved v kv kv' d n)
    obtain stored where r0: "r0 = Inr stored" using s(3) q by (cases r0) auto
    have "v = update_values p (ct_vals c)" "kv = form_diff (stored_rows c) (map_of (form_keys cd (normalize (ct_vals c))))
         (map_of (form_keys cd (normalize (shipped_defaults (ct_defaults c))))) (patch_keys p)
         (form_keys cd (update_values p (ct_vals c)))"
      using s(3) q r0 rd(2) [OF r0] def0 by (auto simp: Let_def)
    with s False show thesis using that(2) [of kv kv' d n] by simp
  qed
qed

section \<open>Invariants\<close>

text \<open>An invariant of the controller is proved once for a save, for a load and for the few steps
  that are neither; every run of allowed operations then keeps it.\<close>

locale controller_invariant =
  fixes cd :: codec and inv :: "controller \<Rightarrow> bool" and allowed :: "cfg_op \<Rightarrow> bool"
  assumes quiet: "inv c \<Longrightarrow> t_settings (sd_store d) = stored_rows c \<Longrightarrow> inv (c\<lparr>ct_db := d, ct_nonce := n\<rparr>)"
    and stamp: "inv c \<Longrightarrow> inv (complete_pending_born_marker c)"
    and birth: "inv c \<Longrightarrow> inv (ensure_born_marker w (stored_rows c) c)"
    and save: "inv c \<Longrightarrow> wanted_by allowed cd c v kv \<Longrightarrow> committed cd c kv kv' \<Longrightarrow> loaded c \<Longrightarrow>
      t_settings (sd_store d) = stored_rows c ++ map_of kv' \<Longrightarrow> inv (broadcast v (c\<lparr>ct_db := d, ct_nonce := n\<rparr>))"
    and load: "inv c \<Longrightarrow> ct_epoch c \<le> e \<Longrightarrow> c' = c\<lparr>ct_sealed := sealed, ct_epoch := e, ct_scope := sc, ct_vals := normalize v,
      ct_changed := j, ct_init_err := False, ct_db := d, ct_nonce := n\<rparr> \<Longrightarrow> load_wrote cd c c' \<Longrightarrow> inv c'"
    and epoch: "inv c \<Longrightarrow> allowed OpBump \<Longrightarrow> inv (c\<lparr>ct_epoch := wrap64 (ct_epoch c + 1)\<rparr>)"
    and small_row: "inv c \<Longrightarrow> k \<in> {session_epoch_key, offer_key} \<Longrightarrow>
      t_settings (sd_store d) = (stored_rows c)(k \<mapsto> t) \<Longrightarrow> inv (c\<lparr>ct_db := d\<rparr>)"
    and forget: "inv c \<Longrightarrow> inv (c\<lparr>ct_born_pending := False\<rparr>)"
    and unreadable: "inv c \<Longrightarrow> inv (c\<lparr>ct_init_err := True\<rparr>)"
    and answered: "allowed (OpSetupDone True)"
    and elsewhere: "inv c \<Longrightarrow> allowed (OpElsewhere d) \<Longrightarrow> inv (c\<lparr>ct_db := d\<rparr>)"
begin

lemma quiet_db: "inv c \<Longrightarrow> t_settings (sd_store d) = stored_rows c \<Longrightarrow> inv (c\<lparr>ct_db := d\<rparr>)"
  using quiet [of c d "ct_nonce c"] by simp

lemma reread_keeps: "inv c \<Longrightarrow> reread c c' \<Longrightarrow> inv c'"
  by (auto simp: reread_def quiet_db)

lemma mutate_keeps:
  assumes "inv c" and "setter op = Some fn" and "allowed op"
  shows "inv (snd (mutate cd fn c))"
proof -
  obtain r c' where m: "mutate cd fn c = (r, c')" by (metis surj_pair)
  then show ?thesis
  proof (cases rule: mutateE)
    case (saved v kv kv' d n)
    then have "wanted_by allowed cd c v kv" using assms(2,3) unfolding wanted_by_def by blast
    with saved m assms(1) show ?thesis by (simp add: save stamp)
  qed (use m assms(1) quiet in auto)
qed

lemma update_keeps:
  assumes "inv c" and "allowed (OpSave p)"
  shows "inv (snd (update cd p c))"
proof -
  obtain r c' where u: "update cd p c = (r, c')" by (metis surj_pair)
  then show ?thesis
  proof (cases rule: updateE)
    case (saved kv kv' d n)
    then have "wanted_by allowed cd c (update_values p (ct_vals c)) kv"
      using assms(2) unfolding wanted_by_def wanted_def by blast
    with saved u assms show ?thesis by (simp add: save stamp)
  qed (use u assms quiet in auto)
qed

lemma start_keeps:
  assumes n: "new_controller cd w d def os = (r, c')" and i: "inv (fold apply_option os (idle_controller d def))"
  shows "inv c'"
  using n refl
proof (rule new_controllerE, goal_cases unread taken)
  case (unread e c1)
  then show ?case using i reread_keeps unreadable by simp
next
  case (taken c0 c1 sealed scope raw d n m)
  let ?c = "fold apply_option os (idle_controller d def)"
  have "inv c0" using i taken(2) by (rule reread_keeps)
  then have "inv c1" using birth [of c0 w] taken(3) reread_rows [OF taken(2)] by simp
  moreover have "ct_init_err c1 = False" using taken(4) by (auto simp: marked_def options_frame idle_controller_def)
  then have "c' = c1\<lparr>ct_sealed := sealed, ct_epoch := ct_epoch c', ct_scope := scope,
      ct_vals := normalize (overlay cd def m), ct_changed := ct_changed c1, ct_init_err := False, ct_db := d, ct_nonce := n\<rparr>"
    using taken(5) by simp
  moreover have "ct_epoch c1 \<le> ct_epoch c'" using taken(4,5) by (auto simp: marked_def seeded_def)
  ultimately show ?case using taken(6) load by blast
qed

lemma reload_keeps:
  assumes "inv c"
  shows "inv (snd (reload cd w c))"
proof -
  obtain r c' where u: "reload cd w c = (r, c')" by (metis surj_pair)
  then show ?thesis
  proof (cases rule: reloadE)
    case (unread e)
    then show ?thesis using u assms reread_keeps by simp
  next
    case (taken c0 c1 sealed scope raw d n m err)
    have "inv c0" using assms taken(3) by (rule reread_keeps)
    then have "inv c1" using birth [of c0 w] taken(4) reread_rows [OF taken(3)] by simp
    moreover have "ct_epoch c1 \<le> seeded (stored_rows c) (ct_epoch c)" using taken(5) by (auto simp: marked_def seeded_def)
    ultimately show ?thesis using u load [OF _ _ taken(6,7)] by simp
  qed
qed

lemma small_write_keeps:
  assumes "inv c" and "k \<in> {session_epoch_key, offer_key}"
  shows "inv (snd (on_store (set_setting k t) c))"
proof -
  obtain r c' where u: "on_store (set_setting k t) c = (r, c')" by (metis surj_pair)
  then obtain d where "c' = c\<lparr>ct_db := d\<rparr>"
    "t_settings (sd_store d) = (case r of Some e \<Rightarrow> stored_rows c | None \<Rightarrow> (stored_rows c)(k \<mapsto> t))"
    by (rule set_setting_at)
  then show ?thesis using u assms small_row quiet_db by (cases r) auto
qed

lemma offer_keeps:
  assumes "inv c"
  shows "inv (snd (ensure_quick_setup_offer cd w now c))"
proof -
  obtain r c1 where e: "established_in_store w c = (r, c1)" by (metis surj_pair)
  have c1: "inv c1" using assms established_reads [OF e] by (rule reread_keeps)
  obtain r2 c2 where q: "on_store all_settings c1 = (r2, c2)" by (metis surj_pair)
  have c2: "inv c2" using c1 all_settings_read(1) [OF q] by (rule reread_keeps)
  have seed: "inv (snd (seed_offer_clock s now c2))" for s
    using c2 small_write_keeps [of c2 offer_key "int_text now"]
    by (auto simp: seed_offer_clock_def split: sum.split prod.splits option.splits)
  have fin: "inv (snd (set_quick_setup_done cd True c1))"
    using mutate_keeps [OF c1, of "OpSetupDone True"] answered setter_runs [of "OpSetupDone True" _ cd c1] by simp
  show ?thesis
    using assms e q c1 c2 seed fin
    by (auto simp: ensure_quick_setup_offer_def quick_setup_offer_since_err_def split: sum.splits prod.splits bool.splits)
qed

lemma step_keeps:
  assumes "inv c" and "allowed op"
  shows "inv (cfg_step cd op c)"
proof (cases "setter op")
  case (Some fn)
  then show ?thesis using mutate_keeps [OF assms(1) Some assms(2)] setter_runs [OF Some] by simp
next
  case None
  have tell: "snd (reload_and_tell cd w c) = snd (reload cd w c)" for w
    by (simp add: reload_and_tell_def split: prod.split)
  have bump: "op = OpBump \<Longrightarrow> inv (snd (bump_session_epoch c))"
    using small_write_keeps [OF epoch [OF assms(1)]] assms(2) by (simp add: bump_session_epoch_def Let_def)
  show ?thesis using None assms tell bump update_keeps reload_keeps offer_keeps forget elsewhere
    by (cases op) (auto simp: forget_birth_witness_def split: if_splits)
qed

lemma run_keeps: "inv c \<Longrightarrow> list_all allowed ops \<Longrightarrow> inv (cfg_run cd ops c)"
  unfolding cfg_run_def by (induction ops arbitrary: c) (auto simp: step_keeps)

end

text \<open>The epoch of the sessions never falls: not by a reload, whatever another process stored, and not by
  a logout below its top.\<close>

lemma marked_epoch: "marked c c' \<Longrightarrow> ct_epoch c' = ct_epoch c"
  by (auto simp: marked_def)

interpretation epoch_floor: controller_invariant cd "\<lambda>c. e1 \<le> ct_epoch c" "\<lambda>op. op \<noteq> OpBump" for cd e1
  by unfold_locales (auto simp: marked_epoch [OF complete_marks] marked_epoch [OF ensure_marks] broadcast_def)

lemma epoch_step:
  assumes "in_int64 (ct_epoch c)" and "ct_epoch c < 9223372036854775807"
  shows "ct_epoch c \<le> ct_epoch (cfg_step cd op c)"
proof (cases "op = OpBump")
  case True
  have "in_int64 (ct_epoch c + 1)" using assms by (simp add: in_int64_def)
  then have "wrap64 (ct_epoch c + 1) = ct_epoch c + 1" by (simp add: wrap64_id in_int64_def)
  moreover obtain r c' where "on_store (set_setting session_epoch_key (int_text (wrap64 (ct_epoch c + 1))))
      (c\<lparr>ct_epoch := wrap64 (ct_epoch c + 1)\<rparr>) = (r, c')" by (metis surj_pair)
  moreover from this obtain d where "c' = (c\<lparr>ct_epoch := wrap64 (ct_epoch c + 1)\<rparr>)\<lparr>ct_db := d\<rparr>" by (rule set_setting_at)
  ultimately show ?thesis using True by (simp add: bump_session_epoch_def Let_def)
next
  case False
  then show ?thesis using epoch_floor.step_keeps [of "ct_epoch c" c op cd] by simp
qed

lemma epoch_run:
  assumes "in_int64 (ct_epoch c)" and "\<And>k. ct_epoch (cfg_run cd (take k ops) c) < 9223372036854775807"
  shows "ct_epoch c \<le> ct_epoch (cfg_run cd ops c)"
  using assms(2)
proof (induction ops rule: rev_induct)
  case (snoc op ops)
  let ?c = "cfg_run cd ops c"
  have below: "ct_epoch (cfg_run cd (take k ops) c) < 9223372036854775807" for k
    using snoc.prems [of "min k (length ops)"] by (simp add: min_def split: if_splits)
  have "ct_epoch c \<le> ct_epoch ?c" using snoc.IH below by blast
  moreover from this have "in_int64 (ct_epoch ?c)" "ct_epoch ?c < 9223372036854775807"
    using assms(1) below [of "length ops"] by (auto simp: in_int64_def)
  then have "ct_epoch ?c \<le> ct_epoch (cfg_step cd op ?c)" by (rule epoch_step)
  ultimately show ?case by (simp add: cfg_run_def)
qed (simp add: cfg_run_def)

lemma wrap64_fits: "in_int64 n \<Longrightarrow> wrap64 n = n"
  by (simp add: wrap64_id in_int64_def)

lemma parse_lax_text: "in_int64 n \<Longrightarrow> parse_int_lax (int_text n) = n"
  using parse_int_text [of n] by (auto simp: parse_int_def parse_int_lax_def in_int64_def split: option.splits if_splits)

text \<open>A logout whose epoch was stored is strict and lasts: the new epoch is above the one the live
  tokens carry, and no later start on the database it left, under whatever options and however
  the rest of that start goes, runs on a lower one.\<close>

lemma logout_survives_restart:
  assumes "bump_session_epoch c = (None, c')" and "in_int64 (ct_epoch c + 1)"
    and "new_controller cd w (ct_db c') def os = (r, c2)" and "loaded c2"
  shows "ct_epoch c < ct_epoch c' \<and> ct_epoch c' \<le> ct_epoch c2"
proof -
  let ?n = "ct_epoch c + 1"
  have "on_store (set_setting session_epoch_key (int_text ?n)) (c\<lparr>ct_epoch := ?n\<rparr>) = (None, c')"
    using assms(1) wrap64_fits [OF assms(2)] by (simp add: bump_session_epoch_def Let_def)
  then obtain d where c': "c' = (c\<lparr>ct_epoch := ?n\<rparr>)\<lparr>ct_db := d\<rparr>"
    and d: "t_settings (sd_store d) = (stored_rows (c\<lparr>ct_epoch := ?n\<rparr>))(session_epoch_key \<mapsto> int_text ?n)"
    by (rule set_setting_at) simp
  let ?c0 = "fold apply_option os (idle_controller (ct_db c') def)"
  have row: "stored_rows ?c0 session_epoch_key = Some (int_text ?n)"
    using c' d by (simp add: stored_rows_def options_frame idle_controller_def)
  have "?n \<le> ct_epoch c2"
    using assms(3) refl
  proof (rule new_controllerE, goal_cases unread taken)
    case (unread e c1)
    then show ?case using assms(4) by (simp add: loaded_def)
  next
    case (taken c0 c1 sealed scope raw d' n m)
    then show ?case using row parse_lax_text [OF assms(2)] by (simp add: seeded_def)
  qed
  then show ?thesis using c' by simp
qed

end
