(* ===== verification/ExampleCodec.thy ===== *)
theory ExampleCodec
  imports ConfigFacts SpeedTable Examples
begin

text \<open>
  A concrete codec the round-trip hypotheses hold of, for the witnesses: a list of texts is written
  with every character behind a colon and a full stop after each text; records are lists of texts,
  numbers their decimal form, fractions two of them.
\<close>

definition spell :: "string \<Rightarrow> string" where
  "spell s = concat (map (\<lambda>c. [CHR '':'', c]) s)"

definition pack :: "string list \<Rightarrow> string" where
  "pack ss = concat (map (\<lambda>s. spell s @ ''.'') ss)"

fun unpack :: "string \<Rightarrow> string \<Rightarrow> string list option" where
  "unpack acc [] = (if acc = [] then Some [] else None)"
| "unpack acc (x # xs) =
     (if x = CHR ''.'' then map_option ((#) (rev acc)) (unpack [] xs)
      else case xs of [] \<Rightarrow> None | c # ys \<Rightarrow> unpack (c # acc) ys)"

definition text_num :: "string \<Rightarrow> int" where
  "text_num s = (case parse_signed s of Some n \<Rightarrow> n | None \<Rightarrow> 0)"

definition float_texts :: "gfloat \<Rightarrow> string list" where
  "float_texts f = (case f of Finite q \<Rightarrow> [int_text (fst (quotient_of q)), int_text (snd (quotient_of q))] | _ \<Rightarrow> [])"

definition texts_float :: "string \<Rightarrow> string \<Rightarrow> gfloat" where
  "texts_float n d = Finite (of_int (text_num n) / of_int (text_num d))"

definition bool_text :: "bool \<Rightarrow> string" where "bool_text b = (if b then ''1'' else ''0'')"

definition listing :: "('a \<Rightarrow> string list) \<Rightarrow> 'a list \<Rightarrow> string" where
  "listing f xs = (if xs = [] then ''[]'' else pack (map (\<lambda>x. pack (f x)) xs))"

definition unlisting :: "(string list \<Rightarrow> 'a option) \<Rightarrow> string \<Rightarrow> 'a list option" where
  "unlisting g s = (if s = ''[]'' then Some []
     else Option.bind (unpack [] s) (\<lambda>ts. those (map (\<lambda>t. Option.bind (unpack [] t) g) ts)))"

definition window_texts :: "window \<Rightarrow> string list" where
  "window_texts w = [wi_days w, int_text (wi_start w), int_text (wi_end w)]"

definition texts_window :: "string list \<Rightarrow> window option" where
  "texts_window ts = (case ts of [d, s, e] \<Rightarrow> Some \<lparr>wi_days = d, wi_start = text_num s, wi_end = text_num e\<rparr> | _ \<Rightarrow> None)"

definition server_texts :: "saved_server \<Rightarrow> string list" where
  "server_texts s = [ss_id s, ss_sponsor s, ss_name s, ss_country s] @ float_texts (ss_lat s) @ float_texts (ss_lon s)"

definition texts_server :: "string list \<Rightarrow> saved_server option" where
  "texts_server ts = (case ts of [i, sp, n, c, a, b, x, y] \<Rightarrow>
       Some \<lparr>ss_id = i, ss_sponsor = sp, ss_name = n, ss_country = c, ss_lat = texts_float a b, ss_lon = texts_float x y\<rparr>
     | _ \<Rightarrow> None)"

definition target_texts :: "iperf_target \<Rightarrow> string list" where
  "target_texts t = [it_label t, it_addr t, it_bind t, it_ipver t, bool_text (it_auth t), it_username t,
     it_password t, it_rsa_key t, bool_text (it_pkcs1 t)]"

definition texts_target :: "string list \<Rightarrow> iperf_target option" where
  "texts_target ts = (case ts of [l, a, b, v, au, u, p, k, pk] \<Rightarrow>
       Some \<lparr>it_label = l, it_addr = a, it_bind = b, it_ipver = v, it_auth = (au = ''1''), it_username = u,
         it_password = p, it_rsa_key = k, it_pkcs1 = (pk = ''1'')\<rparr>
     | _ \<Rightarrow> None)"

definition is_finite :: "gfloat \<Rightarrow> bool" where
  "is_finite f = (case f of Finite _ \<Rightarrow> True | _ \<Rightarrow> False)"

definition eg_codec :: codec where
  "eg_codec =
     \<lparr>cd_float_text = (\<lambda>f. pack (float_texts f)),
      cd_text_float = (\<lambda>s. Option.bind (unpack [] s) (\<lambda>ts. case ts of [n, d] \<Rightarrow> Some (texts_float n d) | _ \<Rightarrow> None)),
      cd_windows_text = listing window_texts, cd_text_windows = unlisting texts_window,
      cd_servers_text = (\<lambda>ss. if list_all (\<lambda>s. is_finite (ss_lat s) \<and> is_finite (ss_lon s)) ss
                             then Some (listing server_texts ss) else None),
      cd_text_servers = unlisting texts_server,
      cd_iperf_text = listing target_texts, cd_text_iperf = unlisting texts_target\<rparr>"

lemma unpack_spell: "unpack acc (spell s @ CHR ''.'' # r) = map_option ((#) (rev acc @ s)) (unpack [] r)"
  by (induction s arbitrary: acc) (simp_all add: spell_def)

lemma unpack_pack [simp]: "unpack [] (pack ss) = Some ss"
  by (induction ss) (simp_all add: pack_def unpack_spell)

lemma text_num_text [simp]: "text_num (int_text n) = n"
proof (cases "n < 0")
  case True
  then show ?thesis by (simp add: text_num_def parse_signed_def int_text_def parse_nat_of_text)
next
  case False
  obtain d cs where h: "d < 10" "nat_text (nat n) = digit_char d # cs" using nat_text_head by blast
  then have "parse_nat (digit_char d # cs) = Some (nat n)" using parse_nat_of_text [of "nat n"] by simp
  then show ?thesis using False h digit_char_no_sign [OF h(1)] by (simp add: text_num_def parse_signed_def int_text_def)
qed

lemma float_text_back: "texts_float (int_text (fst (quotient_of q))) (int_text (snd (quotient_of q))) = Finite q"
  using quotient_of_div [of q] by (cases "quotient_of q") (simp add: texts_float_def)

lemma pack_not_brackets: "ss \<noteq> [] \<Longrightarrow> pack ss \<noteq> ''[]''"
  by (cases ss; cases "hd ss") (auto simp: pack_def spell_def)

lemma pack_nonempty: "pack (s # ss) \<noteq> []"
  by (simp add: pack_def)

lemma unlisting_listing:
  assumes "\<And>x. x \<in> set xs \<Longrightarrow> g (f x) = Some x"
  shows "unlisting g (listing f xs) = Some xs"
proof (cases "xs = []")
  case False
  have "those (map (\<lambda>x. Option.bind (unpack [] (pack (f x))) g) xs) = Some xs"
    using assms by (induction xs) simp_all
  then show ?thesis using False pack_not_brackets [of "map (\<lambda>x. pack (f x)) xs"]
    by (simp add: listing_def unlisting_def comp_def)
qed (simp add: listing_def unlisting_def)

lemma targets_back: "cd_text_iperf eg_codec (cd_iperf_text eg_codec ts) = Some ts"
  unfolding eg_codec_def codec.simps
  by (rule unlisting_listing) (auto simp: texts_target_def target_texts_def bool_text_def)

lemma windows_back: "cd_text_windows eg_codec (cd_windows_text eg_codec ws) = Some ws"
  unfolding eg_codec_def codec.simps
  by (rule unlisting_listing) (auto simp: texts_window_def window_texts_def)

lemma server_back:
  "is_finite (ss_lat s) \<Longrightarrow> is_finite (ss_lon s) \<Longrightarrow> texts_server (server_texts s) = Some s"
  by (cases s) (auto simp: texts_server_def server_texts_def float_texts_def float_text_back is_finite_def split: gfloat.splits)

lemma valid_coord_finite: "valid_coord a b \<Longrightarrow> is_finite a \<and> is_finite b"
  by (auto simp: valid_coord_def is_finite_def gf_le_def split: gfloat.splits)

lemma servers_back:
  assumes "\<And>s. s \<in> set ss \<Longrightarrow> valid_coord (ss_lat s) (ss_lon s)"
  shows "cd_servers_text eg_codec ss = Some (listing server_texts ss)"
    "cd_text_servers eg_codec (listing server_texts ss) = Some ss"
proof -
  have fin: "is_finite (ss_lat s) \<and> is_finite (ss_lon s)" if "s \<in> set ss" for s
    using assms [OF that] valid_coord_finite by blast
  then show "cd_servers_text eg_codec ss = Some (listing server_texts ss)"
    by (simp add: eg_codec_def list_all_iff)
  show "cd_text_servers eg_codec (listing server_texts ss) = Some ss"
    unfolding eg_codec_def codec.simps using fin server_back by (intro unlisting_listing) blast
qed

lemma eg_codec_ok: "codec_ok eg_codec"
  unfolding codec_ok_def
proof (intro conjI allI impI)
  show "cd_text_windows eg_codec (cd_windows_text eg_codec ws) = Some ws" for ws by (rule windows_back)
  show "cd_text_iperf eg_codec (cd_iperf_text eg_codec ts) = Some ts" for ts by (rule targets_back)
  show "\<exists>t. cd_servers_text eg_codec ss = Some t \<and> cd_text_servers eg_codec t = Some ss"
    if "utf8_servers ss \<and> (\<forall>s \<in> set ss. valid_coord (ss_lat s) (ss_lon s))" for ss
    using servers_back [of ss] that by blast
  show "cd_iperf_text eg_codec ts \<noteq> []" for ts
    by (cases ts) (simp_all add: eg_codec_def listing_def pack_def)
qed (simp_all add: eg_codec_def unlisting_def)

lemma eg_float_back: "is_finite f \<Longrightarrow> float_reads_back eg_codec f"
  by (cases f) (auto simp: is_finite_def float_reads_back_def pfloat_def eg_codec_def float_texts_def float_text_back pack_nonempty)

section \<open>A small installation\<close>

definition eg_values :: config_values where
  "eg_values = \<lparr>
    va_latency = 5 * second, va_latency_enabled = True, va_dns_probe = False, va_netinfo_enabled = False,
    va_speed = 3600 * second, va_retention = 0, va_speed_retention = 0, va_downtime_retention = 0,
    va_timeout = 3 * second, va_save_every = 0, va_down_after = 2, va_up_after = 1, va_speed_server_id = [],
    va_speed_servers = [], va_speedtest_enabled = False, va_speedtest_on_reconnect = False,
    va_ipv6_mode = ''auto'', va_exit_target = [], va_monitoring = True, va_thresh_down_mbps = Finite 0,
    va_thresh_up_mbps = Finite 0, va_thresh_ping_ms = Finite 0, va_thresh_jitter_ms = Finite 0,
    va_thresh_loss_pct = Finite 0, va_thresh_consec = 1, va_thresh_bloat_down_ms = Finite 0,
    va_thresh_bloat_up_ms = Finite 0, va_alert_on_outage = False, va_webhook_url = [],
    va_webhook_format = ''auto'', va_heartbeat_url = [], va_digest_freq = ''off'',
    va_sched_lat_enabled = False, va_sched_lat_windows = [], va_sched_speed_enabled = False,
    va_sched_speed_windows = [], va_access_local_only = False, va_auth_enabled = False,
    va_auth_user = ''admin'', va_auth_hash = [], va_update_check_enabled = False,
    va_quick_setup_done = False, va_log_level = ''info'', va_log_redact_pii = False,
    va_speedtest_adaptive = False, va_speedtest_on_degraded = False, va_degraded_ping_ms = Finite 0,
    va_speedtest_skip_busy = False, va_speed_busy_mbps = Finite 0, va_speedtest_record_failures = False,
    va_speed_engine = ''ookla'', va_iperf_server = [], va_iperf_servers = [], va_speed_direction = ''both'',
    va_speed_retries = 0, va_iperf_direction = ''both'', va_iperf_retries = 0, va_iperf_dur = 10,
    va_iperf_streams = 4, va_iperf_omit = 0, va_iperf_udp = False, va_iperf_udp_rate = 0,
    va_iperf_window = 0, va_ookla_connections = 0, va_speed_challenge_every = 0, va_ookla_loss = False,
    va_speed_discard_losers = False, va_speed_best_of_count = 1, va_iperf_congestion = [],
    va_iperf_no_delay = False, va_iperf_dscp = [], va_iperf_mss = 0\<rparr>"

definition eg_db :: speed_db where
  "eg_db = \<lparr>sd_store = eg_store, sd_rows = [], sd_servers = [], sd_health = []\<rparr>"

lemma eg_values_well_formed: "well_formed eg_values"
  by code_simp

lemma eg_values_storable: "storable eg_codec eg_values"
  unfolding storable_def
proof (intro conjI)
  show "well_formed eg_values" by (rule eg_values_well_formed)
  show "whole_seconds eg_values" by code_simp
  have "float_reads_back eg_codec (Finite 0)" by (rule eg_float_back) (simp add: is_finite_def)
  then show "list_all (float_reads_back eg_codec) (config_floats eg_values)"
    by (simp add: config_floats_def eg_values_def)
qed (simp_all add: eg_values_def utf8_servers_def utf8_targets_def)

end
