(* ===== verification/SettingsProps.thy ===== *)
theory SettingsProps
  imports SettingsFacts ExampleCodec
begin

text \<open>
  What the settings controller promises: its values always make sense, a save commits all or
  nothing, no password reaches the disk in the clear, the birth marker is not invented.
\<close>

section \<open>The values stay well-formed\<close>

lemma password_merge_ok:
  assumes "ok_targets incoming" and "ok_targets stored"
  shows "ok_targets (merge_iperf_passwords incoming stored)"
proof -
  define saved where "saved = map_of (rev (map (\<lambda>t. (trim_space (it_addr t), it_password t))
      (filter (\<lambda>t. it_password t \<noteq> []) stored)))"
  define f :: "iperf_target \<Rightarrow> iperf_target" where "f = (\<lambda>t. if it_password t = [] then (case saved (trim_space (it_addr t)) of Some pw \<Rightarrow> t\<lparr>it_password := pw\<rparr> | None \<Rightarrow> t) else t)"
  have pw: "\<not> is_sealed p \<and> length p \<le> 255" if "saved a = Some p" for a p
  proof -
    have "(a, p) \<in> set (map (\<lambda>t. (trim_space (it_addr t), it_password t)) (filter (\<lambda>t. it_password t \<noteq> []) stored))"
      using map_of_SomeD [OF that [unfolded saved_def]] by simp
    then obtain t where "t \<in> set stored" "p = it_password t" by auto
    then show ?thesis using assms(2) by (auto simp: ok_targets_def list_all_iff ok_target_def within_caps_def)
  qed
  have "ok_target (f t)" if "ok_target t" for t
    using that pw by (auto simp: f_def ok_target_def within_caps_def split: option.split)
  moreover have "it_addr (f t) = it_addr t" for t by (simp add: f_def split: option.split)
  moreover have "merge_iperf_passwords incoming stored = map f incoming"
    by (simp add: merge_iperf_passwords_def saved_def f_def Let_def)
  ultimately show ?thesis using assms(1) by (simp add: ok_targets_def list_all_iff comp_def)
qed

lemma update_well_formed:
  assumes "well_formed cur"
  shows "well_formed (update_values p cur)"
proof -
  let ?n = "normalize (patch_apply p cur)"
  have n: "well_formed ?n" by (rule normalize_well_formed)
  then have "ok_targets (merge_iperf_passwords (va_iperf_servers ?n) (va_iperf_servers cur))"
    using assms password_merge_ok by (simp add: well_formed_def)
  then show ?thesis using n
    by (simp add: update_values_def Let_def well_formed_def value_ranges_def value_choices_def value_floats_def value_texts_def)
qed

lemmas well_formed_parts = well_formed_def value_ranges_def value_choices_def value_floats_def value_texts_def

lemma log_level_well_formed:
  assumes "well_formed v"
  shows "well_formed (v\<lparr>va_log_level := one_of [''debug'', ''info'', ''warn'', ''error'', ''off''] ''info'' l\<rparr>)"
proof -
  have "one_of [''debug'', ''info'', ''warn'', ''error'', ''off''] ''info'' l \<in> set [''debug'', ''info'', ''warn'', ''error'', ''off'']"
    by (simp add: one_of_def)
  then have "among (value_choices (v\<lparr>va_log_level := one_of [''debug'', ''info'', ''warn'', ''error'', ''off''] ''info'' l\<rparr>))"
    using assms unfolding well_formed_def among_def value_choices_def
    by (simp del: list.set)
  then show ?thesis using assms by (simp add: well_formed_def value_ranges_def value_floats_def value_texts_def)
qed

lemma well_formed_switches [simp]:
  "well_formed (v\<lparr>va_monitoring := x\<rparr>) = well_formed v" "well_formed (v\<lparr>va_quick_setup_done := x\<rparr>) = well_formed v"
  "well_formed (v\<lparr>va_update_check_enabled := x\<rparr>) = well_formed v" "well_formed (v\<lparr>va_log_redact_pii := x\<rparr>) = well_formed v"
  "well_formed (v\<lparr>va_access_local_only := x\<rparr>) = well_formed v" "well_formed (v\<lparr>va_auth_enabled := x\<rparr>) = well_formed v"
  "well_formed (v\<lparr>va_auth_hash := h\<rparr>) = well_formed v" "well_formed (v\<lparr>va_speedtest_enabled := x\<rparr>) = well_formed v"
  unfolding well_formed_parts by simp_all

lemma well_formed_user [simp]: "well_formed v \<Longrightarrow> well_formed (v\<lparr>va_auth_user := norm_user u\<rparr>)"
  using norm_user_ok unfolding well_formed_parts by (simp add: within_caps_def)

lemma well_formed_speed [simp]: "well_formed v \<Longrightarrow> well_formed (v\<lparr>va_speed := clamp_d x min_speed max_speed\<rparr>)"
  using clamp_bounds [of min_speed max_speed x] unfolding well_formed_parts by (simp add: in_ranges_def bound_defs)

lemma setup_well_formed: "well_formed v \<Longrightarrow> well_formed (fst (quick_setup_values a v))"
  by (simp add: quick_setup_values_def Let_def)

lemma setter_well_formed:
  assumes "setter op = Some fn" and "well_formed v" and "fn v = (v', kv)"
  shows "well_formed v'"
proof (cases op)
  case (OpLogLevel l)
  then have "v' = v\<lparr>va_log_level := one_of [''debug'', ''info'', ''warn'', ''error'', ''off''] ''info'' l\<rparr>"
    using assms(1,3) by auto
  then show ?thesis using log_level_well_formed [OF assms(2)] by simp
next
  case (OpSetup a)
  then show ?thesis using assms setup_well_formed [of v a] by (auto split: if_splits)
qed (use assms in \<open>auto simp: Let_def split: if_splits\<close>)

interpretation value_shape: controller_invariant cd "\<lambda>c. well_formed (ct_vals c)" "\<lambda>_. True" for cd
proof unfold_locales
  fix c v kv assume "well_formed (ct_vals c)" "wanted_by (\<lambda>_. True) cd c v kv"
  then have "well_formed (ct_vals c)" "wanted cd c v kv" by (auto dest: wanted_by_wanted)
  then show "well_formed (ct_vals (broadcast v (c\<lparr>ct_db := d, ct_nonce := n\<rparr>)))" for d n
    unfolding wanted_def using setter_well_formed update_well_formed by (auto simp: broadcast_def)
qed (auto simp: marked_vals [OF complete_marks] marked_vals [OF ensure_marks] normalize_well_formed)

text \<open>C5: Whatever is stored, whatever fails and whoever else writes the database, the values a
  controller runs on are well-formed: every number in its range, every choice one of its words, no
  float that is no number, every list within its cap with distinct keys, no schedule on without a
  window.\<close>

theorem settings_always_well_formed:
  assumes "new_controller cd w d def os = (r, c)"
  shows "well_formed (ct_vals (cfg_run cd ops c))"
proof -
  let ?c0 = "fold apply_option os (idle_controller d def)"
  have start: "well_formed (ct_vals ?c0)" by (simp add: options_frame idle_controller_def normalize_well_formed)
  have "well_formed (ct_vals c)"
    using assms refl
  proof (rule new_controllerE, goal_cases unread taken)
    case (unread e c1)
    then show ?case using start value_shape.reread_keeps by simp
  next
    case (taken c0 c1 sealed scope raw d n m)
    then show ?case by (simp add: normalize_well_formed)
  qed
  then show ?thesis by (rule value_shape.run_keeps) (simp add: list_all_iff)
qed

lemma settings_always_well_formed_witness:
  "well_formed (ct_vals (cfg_run eg_codec [OpLogLevel ''loud'', OpElsewhere eg_db, OpReload eg_world, OpUser '' '']
     (snd (new_controller eg_codec eg_world eg_db eg_values [WithDatabaseCreated True]))))"
  by (rule settings_always_well_formed [OF prod.collapse [symmetric]])

section \<open>Which rows a save writes\<close>

lemma form_row_value: "(k, t) \<in> set (form_keys cd v) \<Longrightarrow> map_of (form_keys cd v) k = Some t"
  using form_row_list [of cd v] by (auto simp: list_all_iff)

lemma diff_value: "map_of (form_diff stored old shipped submitted (form_keys cd v)) k = Some t \<Longrightarrow> map_of (form_keys cd v) k = Some t"
  by (auto simp: form_diff_def dest!: map_of_SomeD intro: form_row_value)

text \<open>No save asks for a row of the controller's own bookkeeping.\<close>

definition setter_names :: "string list" where
  "setter_names = [''monitoring'', ''quick_setup_done'', ''update_check_enabled'', ''log_level'', ''log_redact_pii'',
     ''access_local_only'', ''auth_enabled'', ''auth_user'', ''auth_hash'', ''speedtest_enabled'', ''speed_interval_s'']"

lemma setter_rows: "setter op = Some fn \<Longrightarrow> fn v = (v', kv) \<Longrightarrow> set (map fst kv) \<subseteq> set setter_names"
  by (cases op) (auto simp: setter_names_def quick_setup_values_def Let_def split: if_splits)

lemma wanted_rows:
  assumes "wanted cd c v kv" and "k \<notin> set setter_names"
  shows "map_of kv k = None \<or> map_of kv k = map_of (form_keys cd v) k"
  using assms setter_rows diff_value unfolding wanted_def
  by (smt (verit, best) in_mono list.set_map map_of_eq_None_iff not_Some_eq)

lemma wanted_none: "wanted cd c v kv \<Longrightarrow> k \<notin> set setter_names \<Longrightarrow> k \<notin> set form_names \<Longrightarrow> map_of kv k = None"
  using wanted_rows form_rows_absent by metis

lemma key_facts:
  "iperf_servers_key \<notin> set setter_names" "born_version_key \<notin> set setter_names" "born_version_key \<notin> set form_names"
  "born_version_key \<noteq> iperf_servers_key" "born_version_key \<notin> set migration_keys"
  "session_epoch_key \<noteq> iperf_servers_key" "offer_key \<noteq> iperf_servers_key"
  "session_epoch_key \<noteq> born_version_key" "offer_key \<noteq> born_version_key"
  by code_simp+

definition own_op :: "cfg_op \<Rightarrow> bool" where
  "own_op op = (case op of OpElsewhere _ \<Rightarrow> False | _ \<Rightarrow> True)"

section \<open>Passwords at rest\<close>

definition sealed_or_blank :: "iperf_target \<Rightarrow> bool" where
  "sealed_or_blank t \<longleftrightarrow> it_password t = [] \<or> is_sealed (it_password t)"

text \<open>The stored list, where it can be read at all, holds no password in the clear.\<close>

definition no_clear_password :: "codec \<Rightarrow> controller \<Rightarrow> bool" where
  "no_clear_password cd c = (case stored_rows c iperf_servers_key of None \<Rightarrow> True
     | Some raw \<Rightarrow> (case cd_text_iperf cd raw of None \<Rightarrow> True | Some ts \<Rightarrow> list_all sealed_or_blank ts))"

text \<open>JSON keeps an ASCII prefix and an empty text, whatever it does to bytes that are no UTF-8.\<close>

definition codec_keeps_seals :: "codec \<Rightarrow> bool" where
  "codec_keeps_seals cd \<longleftrightarrow> (\<forall>ts ts'. list_all sealed_or_blank ts \<longrightarrow> cd_text_iperf cd (cd_iperf_text cd ts) = Some ts' \<longrightarrow>
     list_all sealed_or_blank ts') \<and> (\<forall>ts. cd_iperf_text cd ts \<noteq> [])"

lemma box_seals: "box_seal b n pw = Some s \<Longrightarrow> pw \<noteq> [] \<Longrightarrow> is_sealed s"
  by (auto simp: box_seal_def is_sealed_def seal_prefix_def split: if_splits)

lemma targets_sealed: "seal_targets b n ts = Inr ts' \<Longrightarrow> list_all sealed_or_blank ts'"
proof (induction b n ts arbitrary: ts' rule: seal_targets.induct)
  case (2 b n t ts)
  then show ?case using box_seals
    by (auto simp: sealed_or_blank_def bind_result_def split: if_splits option.splits sum.splits)
qed simp

lemma servers_sealed:
  assumes "codec_keeps_seals cd" and "seal_servers cd c raw = Inr s" and "ct_crypter c \<noteq> None" and "raw \<noteq> []"
  shows "case cd_text_iperf cd s of None \<Rightarrow> True | Some ts \<Rightarrow> list_all sealed_or_blank ts"
proof -
  obtain b where b: "ct_crypter c = Some b" using assms(3) by blast
  show ?thesis
  proof (cases "cd_text_iperf cd raw")
    case None
    then have "s = raw" using assms(2,4) b by (simp add: seal_servers_def)
    then show ?thesis using None by simp
  next
    case (Some ts)
    then obtain ts' where "seal_targets b (ct_nonce c) ts = Inr ts'" "s = cd_iperf_text cd ts'"
      using assms(2,4) b by (auto simp: seal_servers_def split: sum.splits)
    moreover from this have "list_all sealed_or_blank ts'" using targets_sealed by blast
    ultimately show ?thesis using assms(1) unfolding codec_keeps_seals_def by (auto split: option.split)
  qed
qed

lemma restored_nonempty: "codec_keeps_seals cd \<Longrightarrow> raw \<noteq> [] \<Longrightarrow> restore_sealed cd c raw \<noteq> []"
  by (auto simp: restore_sealed_def codec_keeps_seals_def split: option.splits)

lemma json_nonempty: "codec_keeps_seals cd \<Longrightarrow> iperf_servers_json cd ts \<noteq> []"
  by (auto simp: iperf_servers_json_def codec_keeps_seals_def)

lemma iperf_row: "map_of (form_keys cd v) iperf_servers_key = Some (iperf_servers_json cd (va_iperf_servers v))"
  unfolding iperf_servers_key_def by (rule form_rows)

lemma no_clear_rows: "stored_rows c' iperf_servers_key = stored_rows c iperf_servers_key \<Longrightarrow>
  no_clear_password cd c' = no_clear_password cd c"
  by (simp add: no_clear_password_def)

definition sealing :: "codec \<Rightarrow> controller \<Rightarrow> bool" where
  "sealing cd c \<longleftrightarrow> codec_keeps_seals cd \<and> ct_crypter c \<noteq> None \<and> no_clear_password cd c"

lemma sealing_marked: "sealing cd c \<Longrightarrow> marked c c' \<Longrightarrow> sealing cd c'"
  using marked_row [of c c' iperf_servers_key] marked_crypter [of c c'] no_clear_rows key_facts(4) unfolding sealing_def by metis

lemma saved_row:
  assumes "wanted cd c v kv" and "committed cd c kv kv'"
  obtains "map_of kv' iperf_servers_key = None"
  | s where "map_of kv' iperf_servers_key = Some s"
      "seal_servers cd c (restore_sealed cd c (iperf_servers_json cd (va_iperf_servers v))) = Inr s"
proof (cases "map_of kv iperf_servers_key")
  case None
  then show thesis using that(1) assms(2) by (simp add: committed_def)
next
  case (Some raw)
  then have "raw = iperf_servers_json cd (va_iperf_servers v)"
    using wanted_rows [OF assms(1) key_facts(1)] iperf_row [of cd v] by simp
  then show thesis using that(2) assms(2) Some by (auto simp: committed_def replace_row_map)
qed

interpretation sealed_rows: controller_invariant cd "sealing cd" own_op for cd
proof unfold_locales
  fix c v kv kv' n and d :: speed_db
  assume inv: "sealing cd c" and w0: "wanted_by own_op cd c v kv" and wc: "committed cd c kv kv'"
    and d: "t_settings (sd_store d) = stored_rows c ++ map_of kv'"
  note w = wanted_by_wanted [OF w0] wc
  let ?c = "broadcast v (c\<lparr>ct_db := d, ct_nonce := n\<rparr>)"
  have rows: "stored_rows ?c = stored_rows c ++ map_of kv'" using d by (simp add: broadcast_def stored_rows_def)
  show "sealing cd ?c"
    using w
  proof (cases rule: saved_row)
    case 1
    then have "stored_rows ?c iperf_servers_key = stored_rows c iperf_servers_key" unfolding rows map_add_def by simp
    then have "no_clear_password cd ?c = no_clear_password cd c" by (rule no_clear_rows)
    then show ?thesis using inv unfolding sealing_def by (simp add: broadcast_def)
  next
    case (2 s)
    then have "case cd_text_iperf cd s of None \<Rightarrow> True | Some ts \<Rightarrow> list_all sealed_or_blank ts"
      using inv servers_sealed restored_nonempty json_nonempty unfolding sealing_def by blast
    then have "no_clear_password cd ?c" unfolding no_clear_password_def rows using 2(1) by (simp add: map_add_def)
    then show ?thesis using inv unfolding sealing_def by (simp add: broadcast_def)
  qed
next
  fix c c' sealed e sc v j d n
  assume inv: "sealing cd c" and c': "c' = c\<lparr>ct_sealed := sealed, ct_epoch := e, ct_scope := sc,
      ct_vals := normalize v, ct_changed := j, ct_init_err := False, ct_db := d, ct_nonce := n\<rparr>"
    and w: "load_wrote cd c c'"
  have cr: "ct_crypter c' = ct_crypter c" using c' by simp
  consider "stored_rows c' iperf_servers_key = stored_rows c iperf_servers_key"
    | c2 s where "ct_crypter c2 = ct_crypter c" "stored_rows c' iperf_servers_key = Some s"
      "seal_servers cd c2 (restore_sealed cd c2 (iperf_servers_json cd (va_iperf_servers (ct_vals c')))) = Inr s"
    using w unfolding load_wrote_def by blast
  then show "sealing cd c'"
  proof cases
    case 1
    then have "no_clear_password cd c' = no_clear_password cd c" by (rule no_clear_rows)
    then show ?thesis using inv cr by (simp add: sealing_def)
  next
    case (2 c2 s)
    then have "case cd_text_iperf cd s of None \<Rightarrow> True | Some ts \<Rightarrow> list_all sealed_or_blank ts"
      using inv servers_sealed restored_nonempty json_nonempty unfolding sealing_def by metis
    then show ?thesis using inv cr 2(2) by (simp add: sealing_def no_clear_password_def)
  qed
next
  fix c k t and d :: speed_db assume "sealing cd c" "k \<in> {session_epoch_key, offer_key}"
    "t_settings (sd_store d) = (stored_rows c)(k \<mapsto> t)"
  then show "sealing cd (c\<lparr>ct_db := d\<rparr>)"
    using key_facts(6,7) by (auto simp: sealing_def no_clear_password_def stored_rows_def)
qed (auto simp: sealing_marked [OF _ complete_marks] sealing_marked [OF _ ensure_marks] own_op_def,
    auto simp: sealing_def no_clear_password_def stored_rows_def)

text \<open>C6: With a cipher configured, no operation of the controller, alone or in any sequence, puts
  an iperf3 password on disk in the clear: once the stored list holds none, it never does, however
  the saves, loads and writes succeed or fail.\<close>

theorem passwords_never_stored_clear:
  assumes "codec_keeps_seals cd" and "ct_crypter c \<noteq> None" and "no_clear_password cd c" and "list_all own_op ops"
  shows "no_clear_password cd (cfg_run cd ops c)"
  using sealed_rows.run_keeps [of cd c ops] assms unfolding sealing_def by blast

definition eg_box :: box where
  "eg_box = \<lparr>bx_lock = (\<lambda>n plain. Some (rev plain)), bx_open = (\<lambda>c. Some (rev c))\<rparr>"

lemma eg_codec_keeps_seals: "codec_keeps_seals eg_codec"
  using eg_codec_ok by (auto simp: codec_keeps_seals_def codec_ok_def targets_back)

lemma passwords_never_stored_clear_witness:
  "no_clear_password eg_codec (cfg_run eg_codec [OpLogLevel ''warn'', OpReload eg_world, OpBump]
     ((idle_controller eg_db eg_values)\<lparr>ct_crypter := Some eg_box\<rparr>))"
  by (rule passwords_never_stored_clear [OF eg_codec_keeps_seals])
    (simp_all add: own_op_def no_clear_password_def stored_rows_def idle_controller_def eg_db_def eg_store_def)

section \<open>The birth marker\<close>

definition told_old :: "string option \<Rightarrow> controller \<Rightarrow> bool" where
  "told_old r c \<longleftrightarrow> ct_creation_known c \<and> \<not> ct_created_here c \<and> \<not> ct_born_pending c \<and>
     stored_rows c born_version_key = r"

lemma told_old_birth: "told_old r c \<Longrightarrow> told_old r (ensure_born_marker w m c)"
  by (auto simp: told_old_def ensure_born_marker_def stored_rows_def)

interpretation no_birth: controller_invariant cd "told_old r" own_op for cd r
proof unfold_locales
  fix c v kv kv' n and d :: speed_db
  assume inv: "told_old r c" and w0: "wanted_by own_op cd c v kv" and wc: "committed cd c kv kv'"
    and d: "t_settings (sd_store d) = stored_rows c ++ map_of kv'"
  note w = wanted_by_wanted [OF w0] wc
  have "map_of kv' born_version_key = None"
    using committed_other [OF w(2) key_facts(4)] wanted_none [OF w(1) key_facts(2,3)] by simp
  then show "told_old r (broadcast v (c\<lparr>ct_db := d, ct_nonce := n\<rparr>))"
    using inv d by (simp add: told_old_def broadcast_def stored_rows_def map_add_def)
next
  fix c c' sealed e sc v j n and d :: speed_db
  assume inv: "told_old r c" and c': "c' = c\<lparr>ct_sealed := sealed, ct_epoch := e, ct_scope := sc,
      ct_vals := normalize v, ct_changed := j, ct_init_err := False, ct_db := d, ct_nonce := n\<rparr>"
    and w: "load_wrote cd c c'"
  have "stored_rows c' born_version_key = stored_rows c born_version_key"
    using w key_facts(4,5) unfolding load_wrote_def by blast
  then show "told_old r c'" using inv c' by (simp add: told_old_def)
next
  fix c k t and d :: speed_db assume "told_old r c" "k \<in> {session_epoch_key, offer_key}"
    "t_settings (sd_store d) = (stored_rows c)(k \<mapsto> t)"
  then show "told_old r (c\<lparr>ct_db := d\<rparr>)"
    using key_facts(8,9) by (auto simp: told_old_def stored_rows_def)
qed (auto simp: told_old_birth own_op_def, auto simp: told_old_def complete_pending_born_marker_def stored_rows_def)

lemma told_by_options:
  "list_ex (\<lambda>x. x = WithDatabaseCreated False) os \<Longrightarrow> \<not> list_ex (\<lambda>x. x = WithDatabaseCreated True) os \<Longrightarrow>
     ct_creation_known (fold apply_option os c) \<and> \<not> ct_created_here (fold apply_option os c)"
proof -
  have keep: "\<not> list_ex (\<lambda>x. x = WithDatabaseCreated True) os \<Longrightarrow> ct_creation_known c \<and> \<not> ct_created_here c \<Longrightarrow>
      ct_creation_known (fold apply_option os c) \<and> \<not> ct_created_here (fold apply_option os c)" for os c
  proof (induction os arbitrary: c)
    case (Cons a os)
    have "ct_creation_known (apply_option a c) \<and> \<not> ct_created_here (apply_option a c)"
      using Cons.prems by (cases a) auto
    then show ?case using Cons by simp
  qed simp
  show "list_ex (\<lambda>x. x = WithDatabaseCreated False) os \<Longrightarrow> \<not> list_ex (\<lambda>x. x = WithDatabaseCreated True) os \<Longrightarrow>
     ct_creation_known (fold apply_option os c) \<and> \<not> ct_created_here (fold apply_option os c)"
  proof (induction os arbitrary: c)
    case (Cons a os)
    then show ?case
    proof (cases "a = WithDatabaseCreated False")
      case True
      then show ?thesis using keep [of os "apply_option a c"] Cons.prems by simp
    qed simp
  qed simp
qed

text \<open>C29: A controller told that the database was there before this process never writes the birth
  marker: the row is what it was, from the first load through every later operation, however empty
  the database looks.\<close>

theorem old_database_never_marked:
  assumes "list_ex (\<lambda>x. x = WithDatabaseCreated False) os" and "\<not> list_ex (\<lambda>x. x = WithDatabaseCreated True) os"
    and "new_controller cd w d def os = (r, c)" and "list_all own_op ops"
  shows "stored_rows (cfg_run cd ops c) born_version_key = t_settings (sd_store d) born_version_key"
proof -
  let ?c0 = "fold apply_option os (idle_controller d def)" and ?r = "t_settings (sd_store d) born_version_key"
  have start: "told_old ?r ?c0"
    using told_by_options [OF assms(1,2)] by (simp add: told_old_def options_frame stored_rows_def idle_controller_def)
  have "told_old ?r c"
    using assms(3) refl
  proof (rule new_controllerE, goal_cases unread taken)
    case (unread e c1)
    have "told_old ?r c1" using start unread(2) by (rule no_birth.reread_keeps)
    then show ?case using unread(3) by (simp add: told_old_def stored_rows_def)
  next
    case (taken c0 c1 sealed scope raw d' n m)
    have "told_old ?r c0" using start taken(2) by (rule no_birth.reread_keeps)
    then have c1: "told_old ?r c1" using taken(3) told_old_birth by simp
    have "stored_rows c born_version_key = stored_rows c1 born_version_key"
      using taken(6) key_facts(4,5) unfolding load_wrote_def by blast
    then show ?case using c1 taken(5) by (simp add: told_old_def)
  qed
  then have "told_old ?r (cfg_run cd ops c)" using assms(4) by (rule no_birth.run_keeps)
  then show ?thesis by (simp add: told_old_def)
qed

lemma old_database_never_marked_witness:
  "stored_rows (cfg_run eg_codec [OpReload eg_world, OpMonitoring True, OpOffer eg_world 1700001000]
     (snd (new_controller eg_codec eg_world eg_db eg_values [WithBornVersion ''1.2'', WithDatabaseCreated False])))
     born_version_key = None"
  by (subst old_database_never_marked [OF _ _ prod.collapse [symmetric]])
    (simp_all add: own_op_def eg_db_def eg_store_def)

section \<open>The first-run offer\<close>

lemma setup_done_saved:
  assumes "set_quick_setup_done cd True c = (Inr v, c')"
  shows "va_quick_setup_done (ct_vals c')"
proof -
  have "mutate cd (\<lambda>v. (v\<lparr>va_quick_setup_done := True\<rparr>, [(''quick_setup_done'', b2s True)])) c = (Inr v, c')"
    using assms by (simp add: set_quick_setup_done_def)
  then show ?thesis
  proof (cases rule: mutateE)
    case (saved v kv kv' d n)
    then show ?thesis using marked_vals [OF complete_marks] by (auto simp: broadcast_def)
  qed simp
qed

lemma seeded_offer:
  assumes "seed_offer_clock (Inr (parse_int_lax (row (stored_rows c) offer_key))) now c = (None, c')" and "in_int64 now" and "0 < now"
  shows "parse_int_lax (row (stored_rows c') offer_key) \<in> {now, parse_int_lax (row (stored_rows c) offer_key)} \<and>
    parse_int_lax (row (stored_rows c') offer_key) \<noteq> 0 \<and> parse_int_lax (row (stored_rows c') offer_key) \<le> now"
proof (cases "parse_int_lax (row (stored_rows c) offer_key) \<noteq> 0 \<and> parse_int_lax (row (stored_rows c) offer_key) \<le> now")
  case True
  then have "c' = c" using assms(1) by (simp add: seed_offer_clock_def)
  then show ?thesis using True by simp
next
  case False
  then have w: "on_store (set_setting offer_key (int_text now)) c = (None, c')"
    using assms(1) by (auto simp: seed_offer_clock_def split: prod.splits option.splits)
  then have "stored_rows c' offer_key = Some (int_text now)"
    by (rule set_setting_at) (simp add: stored_rows_def)
  then show ?thesis using assms(2,3) parse_lax_text by (simp add: row_def)
qed

text \<open>Setting up the offer answers it or leaves a clock that has started.\<close>

lemma offer_set_up:
  assumes "ensure_quick_setup_offer cd w now c = (None, c')" and "in_int64 now" and "0 < now"
  shows "va_quick_setup_done (ct_vals c') \<or>
    parse_int_lax (row (stored_rows c') offer_key) \<in> {now, parse_int_lax (row (stored_rows c) offer_key)} \<and>
    parse_int_lax (row (stored_rows c') offer_key) \<noteq> 0 \<and> parse_int_lax (row (stored_rows c') offer_key) \<le> now"
proof (cases "va_quick_setup_done (ct_vals c)")
  case True
  then have "c' = c" using assms(1) by (simp add: ensure_quick_setup_offer_def)
  then show ?thesis using True by simp
next
  case False
  obtain r c1 where e: "established_in_store w c = (r, c1)" by (metis surj_pair)
  have r1: "reread c c1" using established_reads [OF e] .
  obtain b where b: "r = Inr b" using assms(1) False e by (cases r) (auto simp: ensure_quick_setup_offer_def)
  show ?thesis
  proof (cases b)
    case True
    then obtain v where "set_quick_setup_done cd True c1 = (Inr v, c')"
      using assms(1) False e b by (auto simp: ensure_quick_setup_offer_def split: prod.splits sum.splits)
    then show ?thesis using setup_done_saved by simp
  next
    case no: False
    obtain m c2 where q: "on_store all_settings c1 = (m, c2)" by (metis surj_pair)
    have rows: "stored_rows c2 = stored_rows c" using reread_rows [OF reread_trans [OF r1 all_settings_read(1) [OF q]]] .
    obtain m' where m: "m = Inr m'" "m' = stored_rows c"
      using assms(1) False e b no q reread_rows [OF r1] all_settings_read(2) [OF q]
      by (cases m) (auto simp: ensure_quick_setup_offer_def quick_setup_offer_since_err_def seed_offer_clock_def)
    have "seed_offer_clock (Inr (parse_int_lax (row (stored_rows c2) offer_key))) now c2 = (None, c')"
      using assms(1) False e b no q m rows by (simp add: ensure_quick_setup_offer_def quick_setup_offer_since_err_def)
    then show ?thesis using seeded_offer [OF _ assms(2,3)] rows by metis
  qed
qed

definition eg_controller :: controller where
  "eg_controller = idle_controller (eg_db\<lparr>sd_store := eg_store\<lparr>t_samples := [], t_events := []\<rparr>\<rparr>) eg_values"

lemmas eg_controller_defs = eg_controller_def idle_controller_def eg_db_def eg_store_def eg_values_def on_store_def
  set_setting_def set_settings_diff_def all_settings_def query_def db_exec_def

lemma eg_rows: "stored_rows eg_controller = Map.empty" "ct_epoch eg_controller = 0"
  by (simp_all add: eg_controller_defs stored_rows_def)

lemma eg_bump: "bump_session_epoch eg_controller = (None, snd (bump_session_epoch eg_controller))"
  by (simp add: bump_session_epoch_def eg_controller_defs Let_def)

lemma eg_bump_calm: "faults (sd_store (ct_db (snd (bump_session_epoch eg_controller)))) = []"
  by (simp add: bump_session_epoch_def eg_controller_defs Let_def)

lemma eg_offer: "ensure_quick_setup_offer eg_codec eg_world 1700001000 eg_controller =
    (None, snd (ensure_quick_setup_offer eg_codec eg_world 1700001000 eg_controller))"
  by (simp add: ensure_quick_setup_offer_def eg_controller_defs established_in_store_def has_history_def sd_query_def
     sd_exec_def Let_def install_born_at_def has_prior_configuration_def quick_setup_offer_since_err_def seed_offer_clock_def
     row_def save_buffered_def save_begin_def eg_world_def)

section \<open>A save\<close>

lemma filtered_row:
  assumes "distinct (map fst xs)"
  shows "map_of (filter P xs) k = (case map_of xs k of None \<Rightarrow> None | Some t \<Rightarrow> if P (k, t) then Some t else None)"
  using assms by (induction xs) (auto simp: map_of_eq_None_iff split: option.split)

lemma diff_row:
  "map_of (form_diff stored old shipped submitted (form_keys cd v)) k =
     (case map_of (form_keys cd v) k of None \<Rightarrow> None
      | Some t \<Rightarrow> if (if k \<notin> set submitted then Some t \<noteq> old k
                      else Some t \<noteq> (case stored k of None \<Rightarrow> shipped k
                             | Some u \<Rightarrow> if k = iperf_servers_key then old k else Some u) \<or> Some t \<noteq> old k)
                  then Some t else None)"
  unfolding form_diff_def
  by (subst filtered_row) (simp_all add: form_keys_names form_names_distinct Let_def cong: option.case_cong if_cong)

lemma mark_sub: "k \<in> F \<Longrightarrow> set (mark b k) \<subseteq> F"
  by (auto simp: mark_def)

lemma submitted_sub: "list_all (\<lambda>k. k \<in> F) form_names \<Longrightarrow> set (patch_keys p) \<subseteq> F"
  unfolding form_names_def patch_keys_def set_concat by (simp add: mark_sub)

lemma submitted_names: "set (patch_keys p) \<subseteq> set form_names"
  by (rule submitted_sub) (simp add: list_all_iff)

text \<open>The text a save writes for a form key: the value's, except that the saved servers are written with
  their passwords restored and sealed.\<close>

definition form_text :: "codec \<Rightarrow> controller \<Rightarrow> config_values \<Rightarrow> string \<Rightarrow> string option" where
  "form_text cd c v k =
     (if k = iperf_servers_key
      then (case seal_servers cd c (restore_sealed cd c (iperf_servers_json cd (va_iperf_servers v))) of
              Inr s \<Rightarrow> Some s | Inl _ \<Rightarrow> None)
      else map_of (form_keys cd v) k)"

definition born_text :: "controller \<Rightarrow> string" where
  "born_text c = (if ct_born_version c = [] then ''unknown'' else ct_born_version c)"

lemma stamp_row: "stored_rows (stamp_born_marker c) born_version_key \<in> {stored_rows c born_version_key, Some (born_text c)}"
proof -
  obtain e1 c1 where one: "on_store (set_setting born_version_key (born_text c)) c = (e1, c1)" by (metis surj_pair)
  obtain e2 c2 where two: "on_store (set_setting born_version_key (born_text c)) c1 = (e2, c2)" by (metis surj_pair)
  have 1: "stored_rows c1 born_version_key \<in> {stored_rows c born_version_key, Some (born_text c)}"
    using one by (rule set_setting_at) (auto simp: stored_rows_def split: option.splits)
  have 2: "stored_rows c2 born_version_key \<in> {stored_rows c1 born_version_key, Some (born_text c)}"
    using two by (rule set_setting_at) (auto simp: stored_rows_def split: option.splits)
  have keep: "stored_rows (x\<lparr>ct_born_pending := b, ct_born_err := e\<rparr>) = stored_rows x"
    "stored_rows (x\<lparr>ct_born_err := e\<rparr>) = stored_rows x" "stored_rows (x\<lparr>ct_born_pending := b\<rparr>) = stored_rows x" for x b e
    by (simp_all add: stored_rows_def)
  have "stored_rows (stamp_born_marker c) \<in> {stored_rows c1, stored_rows c2}"
    using one two by (cases e1; cases e2) (simp_all add: stamp_born_marker_def born_text_def [symmetric] Let_def keep)
  then show ?thesis using 1 2 by auto
qed

lemma committed_none: "committed cd c kv kv' \<Longrightarrow> map_of kv' k = None \<longleftrightarrow> map_of kv k = None"
  by (cases "k = iperf_servers_key") (auto simp: committed_def replace_row_map split: option.splits)

text \<open>The row of a form key after a save that went through.\<close>

lemma saved_form_row:
  assumes "wanted cd c v kv" and "committed cd c kv kv'" and "map_of kv' k = Some t" and "k \<notin> set setter_names \<or> map_of (form_keys cd v) k = map_of kv k"
  shows "form_text cd c v k = Some t"
proof (cases "k = iperf_servers_key")
  case True
  show ?thesis using assms(1,2) by (rule saved_row) (use assms(3) True in \<open>simp_all add: form_text_def\<close>)
next
  case False
  then have "map_of kv k = Some t" using committed_other [OF assms(2)] assms(3) by simp
  then have "map_of (form_keys cd v) k = Some t" using wanted_rows [OF assms(1)] assms(4) by (metis option.distinct(1))
  then show ?thesis using False by (simp add: form_text_def)
qed

text \<open>C16: A save of the form is all or nothing: refused, it leaves the values, the rows and the
  waiters alone; done, the controller runs on the new values, the waiters are woken once, and every
  row that changed is one of the form's with its new text (the saved servers' with their passwords
  restored and sealed), or the birth marker, when its stamp was still owed.\<close>

theorem form_save_all_or_nothing:
  assumes "update cd p c = (r, c')"
  shows "(\<exists>e. r = Inl e \<and> ct_vals c' = ct_vals c \<and> ct_changed c' = ct_changed c \<and> stored_rows c' = stored_rows c) \<or>
    (r = Inr (update_values p (ct_vals c)) \<and> loaded c \<and> ct_vals c' = update_values p (ct_vals c) \<and>
     ct_changed c' = Suc (ct_changed c) \<and>
     (\<forall>k. stored_rows c' k \<noteq> stored_rows c k \<longrightarrow>
        (if k = born_version_key then ct_born_pending c \<and> stored_rows c' k = Some (born_text c)
         else k \<in> set form_names \<and> stored_rows c' k \<noteq> None \<and> stored_rows c' k = form_text cd c (ct_vals c') k)))"
  using assms
proof (cases rule: updateE)
  case (refused e d n)
  then show ?thesis by (simp add: stored_rows_def)
next
  case (saved kv kv' d n)
  let ?v = "update_values p (ct_vals c)" and ?c1 = "broadcast (update_values p (ct_vals c)) (c\<lparr>ct_db := d, ct_nonce := n\<rparr>)"
  have m: "marked ?c1 c'" using saved(7) complete_marks by simp
  have vals: "ct_vals c' = ?v" "ct_changed c' = Suc (ct_changed c)"
    using m by (auto simp: marked_def broadcast_def)
  have rows: "stored_rows ?c1 = stored_rows c ++ map_of kv'" using saved(6) by (simp add: broadcast_def stored_rows_def)
  have w: "wanted cd c ?v kv" using saved unfolding wanted_def by blast
  have no_born: "map_of kv' born_version_key = None"
    using committed_other [OF saved(5) key_facts(4)] wanted_none [OF w key_facts(2,3)] by simp
  have born: "ct_born_pending c \<and> stored_rows c' born_version_key = Some (born_text c)"
    if "stored_rows c' born_version_key \<noteq> stored_rows c born_version_key"
    using that saved(7) stamp_row [of ?c1] rows no_born
    by (auto simp: complete_pending_born_marker_def broadcast_def born_text_def map_add_def split: if_splits)
  have "k \<in> set form_names \<and> stored_rows c' k \<noteq> None \<and> stored_rows c' k = form_text cd c ?v k"
    if k: "k \<noteq> born_version_key" "stored_rows c' k \<noteq> stored_rows c k" for k
  proof -
    have "stored_rows c' k = (stored_rows c ++ map_of kv') k" using marked_row [OF m k(1)] rows by simp
    then obtain t where t: "map_of kv' k = Some t" "stored_rows c' k = Some t"
      using k(2) by (auto simp: map_add_def split: option.splits)
    have kv: "map_of kv k \<noteq> None"
      using t(1) committed_none [OF saved(5), of k] by simp
    then have same: "map_of (form_keys cd ?v) k = map_of kv k" using diff_value saved(4) by auto
    then have "k \<in> set form_names" using kv form_rows_absent [of k cd ?v] by fastforce
    then show ?thesis using saved_form_row [OF w saved(5) t(1)] same t(2) by simp
  qed
  then show ?thesis using saved(1,2) vals born by simp
qed

text \<open>C25: What a save was asked to change survives a restart: the row of every submitted field, or the
  shipped default where there is none, is the text of the new value.  For the saved iperf3 servers, which
  are stored sealed, the row is the new list sealed, unless the list is what ran before, when the row
  stays.  A field the save did not touch keeps its row unless its value moved.\<close>

theorem submitted_fields_stick:
  assumes "update cd p c = (Inr v, c')" and "k \<in> set form_names"
  shows "(k \<in> set (patch_keys p) \<longrightarrow>
      (if k = iperf_servers_key
       then stored_rows c' k \<noteq> None \<and> stored_rows c' k = form_text cd c v k \<or>
         map_of (form_keys cd v) k = map_of (form_keys cd (normalize (ct_vals c))) k \<and> stored_rows c' k = stored_rows c k
       else (case stored_rows c' k of Some t \<Rightarrow> Some t
         | None \<Rightarrow> map_of (form_keys cd (normalize (shipped_defaults (ct_defaults c')))) k) = map_of (form_keys cd v) k)) \<and>
    (k \<notin> set (patch_keys p) \<longrightarrow> map_of (form_keys cd v) k = map_of (form_keys cd (normalize (ct_vals c))) k \<longrightarrow>
      stored_rows c' k = stored_rows c k)"
  using assms(1)
proof (cases rule: updateE)
  case (saved kv kv' d n)
  let ?c1 = "broadcast (update_values p (ct_vals c)) (c\<lparr>ct_db := d, ct_nonce := n\<rparr>)"
  have v: "v = update_values p (ct_vals c)" using saved(1) by simp
  have m: "marked ?c1 c'" using saved(7) complete_marks by simp
  have born: "k \<noteq> born_version_key" using assms(2) key_facts(3) by metis
  have w: "wanted cd c v kv" using saved v unfolding wanted_def by blast
  have def: "ct_defaults c' = ct_defaults c" using m by (auto simp: marked_def broadcast_def)
  have rows: "stored_rows ?c1 = stored_rows c ++ map_of kv'" using saved(6) by (simp add: broadcast_def stored_rows_def)
  have row': "stored_rows c' k = (case map_of kv' k of Some t \<Rightarrow> Some t | None \<Rightarrow> stored_rows c k)"
    unfolding marked_row [OF m born] rows map_add_def by (simp split: option.split)
  have none: "map_of kv' k = None \<longleftrightarrow> map_of kv k = None"
    using saved(5) by (rule committed_none)
  obtain t where t: "map_of (form_keys cd v) k = Some t"
    using assms(2) form_keys_names [of cd v] map_of_eq_None_iff [of "form_keys cd v" k] by (metis list.set_map not_Some_eq)
  show ?thesis
  proof (intro conjI impI)
    assume sub: "k \<in> set (patch_keys p)"
    show "if k = iperf_servers_key
       then stored_rows c' k \<noteq> None \<and> stored_rows c' k = form_text cd c v k \<or>
         map_of (form_keys cd v) k = map_of (form_keys cd (normalize (ct_vals c))) k \<and> stored_rows c' k = stored_rows c k
       else (case stored_rows c' k of Some t \<Rightarrow> Some t
         | None \<Rightarrow> map_of (form_keys cd (normalize (shipped_defaults (ct_defaults c')))) k) = map_of (form_keys cd v) k"
    proof (cases "k = iperf_servers_key")
      case True
      show ?thesis
      proof (cases "map_of kv' k")
        case None
        then have "map_of kv k = None" using none by simp
        then have "map_of (form_keys cd v) k = map_of (form_keys cd (normalize (ct_vals c))) k"
          using t sub unfolding saved(4) diff_row v [symmetric] by (auto split: if_splits)
        then show ?thesis using True None row' by simp
      next
        case (Some u)
        then show ?thesis using True saved_form_row [OF w saved(5) Some] key_facts(1) row' by simp
      qed
    next
      case False
      have row: "stored_rows c' k = (case map_of kv k of Some t \<Rightarrow> Some t | None \<Rightarrow> stored_rows c k)"
        using row' committed_other [OF saved(5) False] by simp
      have "(case stored_rows c' k of Some t \<Rightarrow> Some t
          | None \<Rightarrow> map_of (form_keys cd (normalize (shipped_defaults (ct_defaults c')))) k) = map_of (form_keys cd v) k"
        using t sub False unfolding row saved(4) diff_row def v [symmetric] by (auto split: option.splits if_splits)
      then show ?thesis using False by simp
    qed
  next
    assume "k \<notin> set (patch_keys p)" "map_of (form_keys cd v) k = map_of (form_keys cd (normalize (ct_vals c))) k"
    then have "map_of kv k = None" unfolding saved(4) diff_row v [symmetric] by (auto split: option.splits)
    then show "stored_rows c' k = stored_rows c k" using row' none by simp
  qed
qed simp

definition eg_patch :: patch where
  "eg_patch = \<lparr>
    pa_latency = None, pa_latency_enabled = None, pa_dns_probe = None, pa_netinfo_enabled = None,
    pa_speed = None, pa_retention = None, pa_speed_retention = None, pa_downtime_retention = None,
    pa_timeout = None, pa_save_every = None, pa_down_after = Some 3, pa_up_after = None,
    pa_speed_server_id = None, pa_speed_servers = None, pa_speedtest_enabled = None,
    pa_speedtest_on_reconnect = None, pa_ipv6_mode = None, pa_exit_target = None,
    pa_speedtest_adaptive = None, pa_speedtest_on_degraded = None, pa_degraded_ping_ms = None,
    pa_speedtest_skip_busy = None, pa_speed_busy_mbps = None, pa_speed_engine = None,
    pa_iperf_server = None, pa_iperf_servers = None, pa_iperf_dur = None, pa_iperf_streams = None,
    pa_ookla_connections = None, pa_speed_challenge_every = None, pa_ookla_loss = None,
    pa_speed_discard_losers = None, pa_speed_best_of_count = None, pa_iperf_omit = None,
    pa_speed_direction = None, pa_iperf_direction = None, pa_iperf_udp = None, pa_iperf_udp_rate = None,
    pa_iperf_window = None, pa_speed_retries = None, pa_iperf_retries = None, pa_iperf_congestion = None,
    pa_iperf_no_delay = None, pa_iperf_dscp = None, pa_iperf_mss = None, pa_thresh_down_mbps = None,
    pa_thresh_up_mbps = None, pa_thresh_ping_ms = None, pa_thresh_jitter_ms = None,
    pa_thresh_loss_pct = None, pa_thresh_consec = None, pa_thresh_bloat_down_ms = None,
    pa_thresh_bloat_up_ms = None, pa_alert_on_outage = None, pa_webhook_url = None,
    pa_webhook_format = None, pa_heartbeat_url = None, pa_digest_freq = None, pa_sched_lat_enabled = None,
    pa_sched_lat_windows = None, pa_sched_speed_enabled = None, pa_sched_speed_windows = None,
    pa_speedtest_record_failures = None\<rparr>"

definition calm_cipher :: "box option \<Rightarrow> bool" where
  "calm_cipher cr \<longleftrightarrow> (case cr of None \<Rightarrow> True | Some b \<Rightarrow> \<forall>n plain. bx_lock b n plain \<noteq> None)"

lemma calm_targets: "calm_cipher (Some b) \<Longrightarrow> \<exists>ss. seal_targets b n ts = Inr ss"
proof (induction ts arbitrary: n)
  case (Cons t ts)
  have "\<exists>pw. box_seal b n (it_password t) = Some pw"
    using Cons.prems by (auto simp: box_seal_def calm_cipher_def)
  then show ?case using Cons.IH [OF Cons.prems, of n] Cons.IH [OF Cons.prems, of "Suc n"] by auto
qed simp

lemma calm_sealing: "calm_cipher (ct_crypter c) \<Longrightarrow> \<exists>s. seal_servers cd c raw = Inr s"
proof (cases "ct_crypter c")
  case (Some b)
  assume "calm_cipher (ct_crypter c)"
  then show ?thesis using Some calm_targets [of b "ct_nonce c"]
    by (auto simp: seal_servers_def split: option.split sum.split) (metis sum.distinct(1))+
qed (simp add: seal_servers_def)

lemma calm_update:
  assumes "faults (sd_store (ct_db c)) = []" and "loaded c" and "calm_cipher (ct_crypter c)" and "\<not> reserved_password p"
  shows "update cd p c = (Inr (update_values p (ct_vals c)), snd (update cd p c))"
proof -
  define f where "f c' raw = projr (seal_servers cd c' raw)" for c' raw
  have f: "seal_servers cd c' raw = Inr (f c' raw)" if "ct_crypter c' = ct_crypter c" for c' raw
    using calm_sealing [of c' cd raw] assms(3) that by (auto simp: f_def)
  then have "fst (update cd p c) = Inr (update_values p (ct_vals c))"
    using assms(1,2,4)
    by (simp add: update_def mutate_err_def loaded_def on_store_def all_settings_def query_def db_exec_def
        set_settings_diff_def Let_def after_sealing_def split: option.split sum.split)
  then show ?thesis by (simp add: prod_eq_iff)
qed

lemma eg_calm: "faults (sd_store (ct_db eg_controller)) = []" "loaded eg_controller" "ct_crypter eg_controller = None"
  "ct_vals eg_controller = normalize eg_values"
  by (simp_all add: eg_controller_def idle_controller_def eg_db_def eg_store_def loaded_def)

lemma eg_form_save: "update eg_codec eg_patch eg_controller =
    (Inr (update_values eg_patch (normalize eg_values)), snd (update eg_codec eg_patch eg_controller))"
  using calm_update [OF eg_calm(1,2), of eg_patch eg_codec] eg_calm(3,4)
  by (simp add: reserved_password_def eg_patch_def calm_cipher_def)

lemma form_save_all_or_nothing_witness:
  "ct_vals (snd (update eg_codec eg_patch eg_controller)) = update_values eg_patch (normalize eg_values) \<and>
   ct_changed (snd (update eg_codec eg_patch eg_controller)) = Suc (ct_changed eg_controller)"
  using form_save_all_or_nothing [OF eg_form_save] eg_calm(4) by simp

lemma eg_saved_text: "map_of (form_keys eg_codec (update_values eg_patch (normalize eg_values))) ''down_after'' = Some ''3''"
proof -
  have "va_down_after (update_values eg_patch v) = clamp_i 3 min_streak max_streak" for v
    by (simp add: update_values_def Let_def normalize_def patch_apply_def eg_patch_def set_if_def)
  moreover have "digit_char 3 = CHR ''3''" by code_simp
  ultimately show ?thesis by (simp add: form_rows bound_defs clamp_i_def int_text_def nat_text_def nat_text_rev.simps)
qed

lemma submitted_fields_stick_witness:
  "(case stored_rows (snd (update eg_codec eg_patch eg_controller)) ''down_after'' of Some t \<Rightarrow> Some t
    | None \<Rightarrow> map_of (form_keys eg_codec (normalize (shipped_defaults
        (ct_defaults (snd (update eg_codec eg_patch eg_controller)))))) ''down_after'') = Some ''3''"
  using submitted_fields_stick [OF eg_form_save, of "''down_after''"] eg_saved_text
  by (simp add: iperf_servers_key_def form_names_def patch_keys_def eg_patch_def mark_def)

section \<open>A ciphertext that cannot be opened\<close>

lemma restored_targets:
  assumes "cd_text_iperf cd raw = Some ts" and "raw \<noteq> []"
  shows "restore_sealed cd c raw = (if list_ex (\<lambda>t. it_password t = [] \<and> ct_sealed c (trim_space (it_addr t)) \<noteq> None) ts
      then cd_iperf_text cd (map (restore_target (ct_sealed c)) ts) else raw)"
  using assms by (simp add: restore_sealed_def)

definition outlives :: "(string \<rightharpoonup> string) \<Rightarrow> iperf_target \<Rightarrow> iperf_target \<Rightarrow> bool" where
  "outlives sealed t s \<longleftrightarrow> it_addr s = it_addr t \<and>
     (it_password t = [] \<longrightarrow> it_password s = (case sealed (trim_space (it_addr t)) of None \<Rightarrow> [] | Some ct \<Rightarrow> ct))"

lemma outlives_sealing:
  assumes "\<And>a ct. sealed a = Some ct \<Longrightarrow> is_sealed ct" and "seal_targets b n (map (restore_target sealed) ts) = Inr ss"
  shows "list_all2 (outlives sealed) ts ss"
  using assms(2)
proof (induction ts arbitrary: n ss)
  case (Cons t ts)
  have pass: "box_seal b n' ct = Some ct" if "sealed a = Some ct" for a ct n'
    using assms(1) [OF that] by (simp add: box_seal_def)
  show ?case
  proof (cases "it_password (restore_target sealed t) = []")
    case True
    then obtain ss' where "seal_targets b n (map (restore_target sealed) ts) = Inr ss'" "ss = restore_target sealed t # ss'"
      using Cons.prems by (auto simp: bind_result_def split: sum.splits)
    moreover have "outlives sealed t (restore_target sealed t)"
      using True by (auto simp: outlives_def restore_target_def split: option.splits)
    ultimately show ?thesis using Cons.IH by simp
  next
    case False
    then obtain pw ss' where pw: "box_seal b n (it_password (restore_target sealed t)) = Some pw"
      "seal_targets b (Suc n) (map (restore_target sealed) ts) = Inr ss'"
      "ss = (restore_target sealed t)\<lparr>it_password := pw\<rparr> # ss'"
      using Cons.prems by (auto simp: bind_result_def split: sum.splits option.splits)
    have "outlives sealed t ((restore_target sealed t)\<lparr>it_password := pw\<rparr>)"
      using pw(1) pass False by (auto simp: outlives_def restore_target_def split: option.splits)
    then show ?thesis using Cons.IH [OF pw(2)] pw(3) by simp
  qed
qed simp

text \<open>C33: A stored password that this process cannot open, because the key is another one, is not lost to
  a save: whenever a save writes the list, every server of it whose password is blank is written
  with the ciphertext remembered for its address, and the others with their address unchanged.\<close>

theorem unopened_password_outlives_saves:
  assumes "update cd p c = (Inr v, c')" and "ct_crypter c = Some b" and "ran (ct_sealed c) \<subseteq> Collect is_sealed"
    and "codec_ok cd" and "utf8_targets (va_iperf_servers v)"
    and "utf8_targets (map (restore_target (ct_sealed c)) (va_iperf_servers v))"
    and "stored_rows c' iperf_servers_key \<noteq> stored_rows c iperf_servers_key"
  shows "\<exists>ss. stored_rows c' iperf_servers_key = Some (cd_iperf_text cd ss) \<and>
    list_all2 (outlives (ct_sealed c)) (va_iperf_servers v) ss"
  using assms(1)
proof (cases rule: updateE)
  case (saved kv kv' d n)
  let ?c1 = "broadcast (update_values p (ct_vals c)) (c\<lparr>ct_db := d, ct_nonce := n\<rparr>)"
  let ?ts = "va_iperf_servers v" and ?raw = "iperf_servers_json cd (va_iperf_servers v)"
  have v: "v = update_values p (ct_vals c)" using saved(1) by simp
  have m: "marked ?c1 c'" using saved(7) complete_marks by simp
  have rows: "stored_rows ?c1 = stored_rows c ++ map_of kv'" using saved(6) by (simp add: broadcast_def stored_rows_def)
  have row: "stored_rows c' iperf_servers_key = (stored_rows c ++ map_of kv') iperf_servers_key"
    using marked_row [OF m] key_facts(4) rows by metis
  have "wanted cd c v kv" using saved v unfolding wanted_def by blast
  from this saved(5) obtain s where s: "map_of kv' iperf_servers_key = Some s"
    "seal_servers cd c (restore_sealed cd c ?raw) = Inr s"
    by (rule saved_row) (use row assms(7) in \<open>simp add: map_add_def\<close>)
  have decoded: "cd_text_iperf cd ?raw = Some ?ts"
    using assms(4,5) by (simp add: codec_ok_def iperf_servers_json_def)
  have nonempty: "?raw \<noteq> []" using assms(4) by (simp add: codec_ok_def iperf_servers_json_def)
  let ?rs = "map (restore_target (ct_sealed c)) ?ts"
  have restored: "cd_text_iperf cd (restore_sealed cd c ?raw) = Some ?rs \<and> restore_sealed cd c ?raw \<noteq> []"
  proof (cases "list_ex (\<lambda>t. it_password t = [] \<and> ct_sealed c (trim_space (it_addr t)) \<noteq> None) ?ts")
    case True
    then show ?thesis using restored_targets [OF decoded nonempty] assms(4,6) by (simp add: codec_ok_def)
  next
    case False
    then have "?rs = ?ts"
      by (intro map_idI) (auto simp: list_ex_iff restore_target_def split: option.split)
    then show ?thesis using restored_targets [OF decoded nonempty] False decoded nonempty by simp
  qed
  then obtain ss where ss: "seal_targets b (ct_nonce c) ?rs = Inr ss" "s = cd_iperf_text cd ss"
    using s(2) assms(2) by (auto simp: seal_servers_def split: sum.splits)
  have "list_all2 (outlives (ct_sealed c)) ?ts ss"
    using assms(3) ss(1) by (intro outlives_sealing) (auto simp: ran_def)
  then show ?thesis using row s(1) ss(2) by auto
qed simp

definition eg_host :: iperf_target where
  "eg_host = zero_target\<lparr>it_label := ''lab'', it_addr := ''host'', it_ipver := ''auto''\<rparr>"

definition eg_locked :: controller where
  "eg_locked = eg_controller\<lparr>ct_crypter := Some eg_box, ct_sealed := [''host'' \<mapsto> ''enc:v1:lost'']\<rparr>"

definition eg_hosts :: patch where
  "eg_hosts = eg_patch\<lparr>pa_iperf_servers := Some [eg_host]\<rparr>"

lemma eg_hosts_allowed: "\<not> reserved_password eg_hosts"
  by code_simp

lemma eg_locked_save: "update eg_codec eg_hosts eg_locked =
    (Inr (update_values eg_hosts (ct_vals eg_locked)), snd (update eg_codec eg_hosts eg_locked))"
  by (rule calm_update [OF _ _ _ eg_hosts_allowed])
    (use eg_calm in \<open>simp_all add: eg_locked_def loaded_def calm_cipher_def eg_box_def\<close>)

lemma eg_trims: "trim_space ''lab'' = ''lab''" "trim_space ''host'' = ''host''" "trim_space [] = []"
  by code_simp+

lemma eg_host_kept: "clean_target eg_host = eg_host"
  by (simp add: clean_target_def eg_host_def zero_target_def eg_trims Let_def cap_len_def contains_any_def is_sealed_def
      seal_prefix_def)

lemma eg_hosts_kept: "sanitize_iperf_servers [eg_host] = [eg_host]" "sanitize_iperf_servers [] = []"
  by (simp_all add: sanitize_iperf_servers_def eg_host_kept Let_def) (simp_all add: eg_host_def zero_target_def)

lemma eg_locked_values: "va_iperf_servers (update_values eg_hosts (ct_vals eg_locked)) = [eg_host]"
  by (simp add: update_values_def Let_def normalize_def patch_apply_def eg_hosts_def set_if_def eg_hosts_kept
      merge_iperf_passwords_def eg_locked_def eg_calm eg_values_def eg_patch_def)

lemma eg_locked_row: "stored_rows (snd (update eg_codec eg_hosts eg_locked)) iperf_servers_key \<noteq> None"
  using eg_locked_save
proof (cases rule: updateE)
  case (saved kv kv' d n)
  let ?v = "update_values eg_hosts (ct_vals eg_locked)"
  have new: "map_of (form_keys eg_codec ?v) iperf_servers_key = Some (cd_iperf_text eg_codec [eg_host])"
    by (simp add: iperf_row iperf_servers_json_def eg_locked_values)
  have "va_iperf_servers (normalize (ct_vals eg_locked)) = []"
    by (simp add: normalize_def Let_def eg_locked_def eg_calm eg_values_def eg_hosts_kept)
  then have old: "map_of (form_keys eg_codec (normalize (ct_vals eg_locked))) iperf_servers_key = Some ''[]''"
    by (simp add: iperf_row iperf_servers_json_def)
  have "cd_iperf_text eg_codec [eg_host] \<noteq> ''[]''"
    using pack_not_brackets [of "[pack (target_texts eg_host)]"] by (simp add: eg_codec_def listing_def)
  moreover have "iperf_servers_key \<in> set (patch_keys eg_hosts)"
    by (simp add: patch_keys_def eg_hosts_def eg_patch_def mark_def iperf_servers_key_def)
  ultimately have "map_of kv iperf_servers_key = Some (cd_iperf_text eg_codec [eg_host])"
    unfolding saved(4) diff_row using new old by simp
  then obtain t where t: "map_of kv' iperf_servers_key = Some t"
    using saved(5) by (auto simp: committed_def replace_row_map)
  have m: "marked (broadcast ?v (eg_locked\<lparr>ct_db := d, ct_nonce := n\<rparr>)) (snd (update eg_codec eg_hosts eg_locked))"
    using saved(7) complete_marks by metis
  have "stored_rows (broadcast ?v (eg_locked\<lparr>ct_db := d, ct_nonce := n\<rparr>)) = stored_rows eg_locked ++ map_of kv'"
    using saved(6) by (simp add: broadcast_def stored_rows_def)
  then show ?thesis using marked_row [OF m] key_facts(4) t by (metis map_add_find_right option.distinct(1))
qed simp

lemma ascii_utf8: "list_all (byte_in 0 127) s \<Longrightarrow> utf8 s"
proof (induction s)
  case (Cons c s)
  have "is_rune [c]" using Cons.prems by (simp add: is_rune_def rune_shapes_def byte_in_def)
  then show ?case using utf8_rune [of "[c]" s] Cons by simp
qed (rule utf8_Nil)

lemma eg_host_utf8: "utf8_targets [eg_host]" "utf8_targets [eg_host\<lparr>it_password := ''enc:v1:lost''\<rparr>]"
  by (auto simp: utf8_targets_def eg_host_def zero_target_def byte_in_def intro!: ascii_utf8)

lemma eg_host_restored: "restore_target (ct_sealed eg_locked) eg_host = eg_host\<lparr>it_password := ''enc:v1:lost''\<rparr>"
  by (simp add: restore_target_def eg_locked_def eg_host_def zero_target_def eg_trims)

lemma unopened_password_outlives_saves_witness:
  "\<exists>ss. stored_rows (snd (update eg_codec eg_hosts eg_locked)) iperf_servers_key = Some (cd_iperf_text eg_codec ss) \<and>
     list_all2 (outlives (ct_sealed eg_locked)) [eg_host] ss"
proof -
  have "ran (ct_sealed eg_locked) \<subseteq> Collect is_sealed"
    by (simp add: eg_locked_def is_sealed_def seal_prefix_def)
  moreover have "ct_crypter eg_locked = Some eg_box" by (simp add: eg_locked_def)
  moreover have "stored_rows (snd (update eg_codec eg_hosts eg_locked)) iperf_servers_key \<noteq> stored_rows eg_locked iperf_servers_key"
    using eg_locked_row eg_rows(1) by (simp add: eg_locked_def stored_rows_def)
  ultimately show ?thesis
    using unopened_password_outlives_saves [OF eg_locked_save _ _ eg_codec_ok] eg_host_utf8 eg_host_restored
    by (simp add: eg_locked_values)
qed

section \<open>Loading what was saved, and migrating it once\<close>

text \<open>C26: What a save writes, a start reads back: over any defaults, the rows of the form reproduce every
  field the form owns, and the fields it does not own stay the defaults'.\<close>

theorem saved_settings_read_back:
  assumes "codec_ok cd" and "storable cd v"
  shows "overlay cd d (map_of (form_keys cd v)) = with_unowned d v"
  using assms by (rule load_saved)

lemma saved_settings_read_back_witness:
  "overlay eg_codec (eg_values\<lparr>va_monitoring := False, va_down_after := 9\<rparr>) (map_of (form_keys eg_codec eg_values)) =
     with_unowned (eg_values\<lparr>va_monitoring := False, va_down_after := 9\<rparr>) eg_values"
  by (rule saved_settings_read_back [OF eg_codec_ok eg_values_storable])

text \<open>C27: The rows a load migrates from an older release change nothing of what runs: the next load of the
  migrated rows gives the same values, and finds nothing left to migrate.\<close>

theorem migration_changes_nothing:
  assumes "codec_ok cd" and "v = normalize (overlay cd d m)" and "m' = m ++ map_of (migration_rows cd m v)"
  shows "normalize (overlay cd d m') = v \<and> migration_rows cd m' w = []"
  using overlay_migrated [OF assms(1,2)] migration_once [of cd m v w] assms(3) by (simp add: migrated_def)

lemma migration_changes_nothing_witness:
  "normalize (overlay eg_codec eg_values ([''speed_direction'' \<mapsto> ''down''] ++
     map_of (migration_rows eg_codec [''speed_direction'' \<mapsto> ''down'']
       (normalize (overlay eg_codec eg_values [''speed_direction'' \<mapsto> ''down'']))))) =
   normalize (overlay eg_codec eg_values [''speed_direction'' \<mapsto> ''down'']) \<and>
   migration_rows eg_codec ([''speed_direction'' \<mapsto> ''down''] ++
     map_of (migration_rows eg_codec [''speed_direction'' \<mapsto> ''down'']
       (normalize (overlay eg_codec eg_values [''speed_direction'' \<mapsto> ''down''])))) eg_values = []"
  by (rule migration_changes_nothing [OF eg_codec_ok refl refl])

section \<open>Schedules and retention\<close>

text \<open>A schedule is reported as never active exactly when it is on and no minute of the week is
  allowed by it.\<close>

theorem never_active_exact:
  assumes "well_formed v"
  shows "(''latency'' \<in> set (never_active_schedules v) \<longleftrightarrow> (\<forall>t. real_time t \<longrightarrow> \<not> latency_allowed v t)) \<and>
    (''speedtest'' \<in> set (never_active_schedules v) \<longleftrightarrow> (\<forall>t. real_time t \<longrightarrow> \<not> speed_allowed v t))"
proof -
  have ok: "ok_windows (va_sched_lat_windows v)" "ok_windows (va_sched_speed_windows v)"
    using assms by (simp_all add: well_formed_def)
  have some: "\<exists>t. real_time t" by (rule exI [of _ "\<lparr>lt_weekday = 0, lt_hour = 0, lt_minute = 0\<rparr>"]) (simp add: real_time_def)
  show ?thesis using windows_ever_active_iff [OF ok(1)] windows_ever_active_iff [OF ok(2)] some
    by (auto simp: never_active_schedules_def latency_allowed_def speed_allowed_def)
qed

definition eg_silent :: config_values where
  "eg_silent = eg_values\<lparr>va_sched_lat_enabled := True,
     va_sched_lat_windows := [\<lparr>wi_days = ''0000000'', wi_start = 0, wi_end = 0\<rparr>]\<rparr>"

lemma never_active_exact_witness:
  "\<not> latency_allowed eg_silent \<lparr>lt_weekday = 3, lt_hour = 12, lt_minute = 30\<rparr>"
proof -
  have "well_formed eg_silent" by code_simp
  moreover have "''latency'' \<in> set (never_active_schedules eg_silent)" by code_simp
  ultimately show ?thesis using never_active_exact by (auto simp: real_time_def)
qed

text \<open>A retention row of a backup that the restore accepts never makes the next cleanup remove
  more: its cutoff is not after the one of the window this install runs with.\<close>

theorem accepted_retention_prunes_no_later:
  assumes "restored_retention cd def live key txt = (asked, here, True)" and "retention_category key \<noteq> []"
    and "well_formed live" and "max_duration \<le> wall_ns now"
  shows "wall_ns (prune_cutoff now asked) \<le> wall_ns (prune_cutoff now here)"
proof -
  have "keeps_at_least asked here" "here \<in> {va_retention live, va_speed_retention live, va_downtime_retention live}"
    using assms(1,2) by (auto simp: restored_retention_def Let_def retention_category_def split: if_splits)
  moreover have "va_retention live \<le> max_duration" "va_speed_retention live \<le> max_duration"
    "va_downtime_retention live \<le> max_duration"
    using assms(3) by (auto simp: well_formed_def value_ranges_def in_ranges_def)
  ultimately show ?thesis using prune_cutoff_antimono assms(4) by auto
qed

lemma accepted_retention_prunes_no_later_witness:
  "wall_ns (prune_cutoff (time_unix 1700000000) (7200 * second)) \<le> wall_ns (prune_cutoff (time_unix 1700000000) (3600 * second))"
proof -
  have two: "secs_of ''7200'' = Some (7200 * second)" by code_simp
  have r: "restored_retention eg_codec eg_values (eg_values\<lparr>va_retention := 3600 * second\<rparr>) ''retention_s'' ''7200'' =
      (7200 * second, 3600 * second, True)"
    by (simp add: restored_retention_def Let_def normalize_def overlay_def overlay_probing_def overlay_speedtest_def
        overlay_alerts_def row_def two keeps_at_least_def clamp_d_def bound_defs)
  have w: "well_formed (eg_values\<lparr>va_retention := 3600 * second\<rparr>)" by code_simp
  show ?thesis
    by (rule accepted_retention_prunes_no_later [OF r _ w]) (simp_all add: retention_category_def bound_defs time_unix_def)
qed

end
