(* ===== verification/Throttle.thy ===== *)
theory Throttle
  imports GoTime Text
begin

text \<open>
  The password throttle (\<open>failLimiter\<close> of \<open>internal/web/auth.go\<close>) and the coalescer of its
  rejection lines.  Each method runs under the limiter's lock, so it is one step on the map of
  buckets; the clock reading of a step is an argument.
\<close>

record fail_state =
  fs_count :: int
  fs_pending :: int
  fs_last :: gtime

type_synonym fails = "string \<rightharpoonup> fail_state"

definition max_login_fails :: int where "max_login_fails = 5"
definition login_block_for :: duration where "login_block_for = 30 * second"

definition fresh_fail_state :: fail_state where
  "fresh_fail_state = \<lparr>fs_count = 0, fs_pending = 0, fs_last = zero_time\<rparr>"

definition prune_fails :: "gtime \<Rightarrow> fails \<Rightarrow> fails" where
  "prune_fails now f = (\<lambda>ip. case f ip of None \<Rightarrow> None
     | Some st \<Rightarrow> if t_before (fs_last st) (t_add now (- 10 * login_block_for)) then None else Some st)"

definition blocked :: "gtime \<Rightarrow> string \<Rightarrow> fails \<Rightarrow> bool" where
  "blocked now ip f = (case f ip of None \<Rightarrow> False
     | Some st \<Rightarrow> fs_count st \<ge> max_login_fails \<and> t_sub now (fs_last st) < login_block_for)"

text \<open>\<open>reserve\<close> stores the entry it looked up, so a refusal may still record a served cool-down.\<close>

definition served :: "gtime \<Rightarrow> fail_state \<Rightarrow> fail_state" where
  "served now st = (if fs_count st \<ge> max_login_fails \<and> t_sub now (fs_last st) \<ge> login_block_for
     then st\<lparr>fs_count := 0\<rparr> else st)"

definition reserve :: "gtime \<Rightarrow> string \<Rightarrow> fails \<Rightarrow> bool \<times> fails" where
  "reserve now ip f0 =
     (let f = prune_fails now f0;
          st = served now (case f ip of None \<Rightarrow> fresh_fail_state | Some st \<Rightarrow> st)
      in if fs_count st + fs_pending st \<ge> max_login_fails then (False, f(ip \<mapsto> st))
         else (True, f(ip \<mapsto> st\<lparr>fs_pending := fs_pending st + 1, fs_last := now\<rparr>)))"

definition release_fail :: "gtime \<Rightarrow> string \<Rightarrow> fails \<Rightarrow> fails" where
  "release_fail now ip f = (case f ip of None \<Rightarrow> f
     | Some st \<Rightarrow> f(ip \<mapsto> \<lparr>fs_count = fs_count st + 1,
         fs_pending = (if fs_pending st > 0 then fs_pending st - 1 else fs_pending st), fs_last = now\<rparr>))"

definition limiter_ok :: "string \<Rightarrow> fails \<Rightarrow> fails" where
  "limiter_ok ip f = f(ip := None)"

section \<open>The rejection lines\<close>

record log_coalescer =
  lc_last :: gtime
  lc_dropped :: int

definition reject_warn_every :: duration where "reject_warn_every = minute"

definition coalescer_allow :: "gtime \<Rightarrow> duration \<Rightarrow> log_coalescer \<Rightarrow> (bool \<times> int) \<times> log_coalescer" where
  "coalescer_allow now every c =
     (if t_is_zero (lc_last c) \<or> t_sub now (lc_last c) \<ge> every
      then ((True, lc_dropped c), \<lparr>lc_last = now, lc_dropped = 0\<rparr>)
      else ((False, 0), c\<lparr>lc_dropped := lc_dropped c + 1\<rparr>))"

definition reject_log :: "gtime \<Rightarrow> log_coalescer \<Rightarrow> (bool \<times> int) \<times> log_coalescer" where
  "reject_log now c = coalescer_allow now reject_warn_every c"

section \<open>Runs of the limiter\<close>

datatype lim_op = Reserve gtime string | ReleaseFail gtime string | ClearOk string

fun lim_step :: "lim_op \<Rightarrow> fails \<Rightarrow> bool \<times> fails" where
  "lim_step (Reserve t ip) f = reserve t ip f"
| "lim_step (ReleaseFail t ip) f = (False, release_fail t ip f)"
| "lim_step (ClearOk ip) f = (False, limiter_ok ip f)"

text \<open>The times at which a run lets an evaluation of a bucket start.\<close>

fun lim_grants :: "string \<Rightarrow> lim_op list \<Rightarrow> fails \<Rightarrow> int list" where
  "lim_grants ip [] f = []"
| "lim_grants ip (op # ops) f =
     (case lim_step op f of (granted, f') \<Rightarrow>
        (case op of Reserve t ip' \<Rightarrow> if granted \<and> ip' = ip then [the (mono_ns t)] else [] | _ \<Rightarrow> []) @ lim_grants ip ops f')"

definition op_time :: "lim_op \<Rightarrow> gtime option" where
  "op_time op = (case op of Reserve t _ \<Rightarrow> Some t | ReleaseFail t _ \<Rightarrow> Some t | ClearOk _ \<Rightarrow> None)"

text \<open>The readings of a process carry the monotonic clock, which does not run backward.\<close>

fun ticking :: "int \<Rightarrow> lim_op list \<Rightarrow> bool" where
  "ticking x [] = True"
| "ticking x (op # ops) = (case op_time op of None \<Rightarrow> ticking x ops
     | Some t \<Rightarrow> (case mono_ns t of None \<Rightarrow> False | Some y \<Rightarrow> x \<le> y \<and> ticking y ops))"

end
