(* ===== verification/Addr.thy ===== *)
theory Addr
  imports Text
begin

text \<open>
  The parts of Go's \<open>net\<close>, \<open>net/netip\<close> and \<open>strings\<close> packages the dashboard's access checks use:
  splitting a host from a port, parsing and printing addresses, prefixes, loopback.  An address is
  its bytes (four) or its sixteen-bit groups (eight) with the zone of an IPv6 address; a \<open>net.IP\<close> does not tell an IPv4
  address from the IPv6 address it is mapped to, so \<open>parse_ip\<close> answers the IPv4 one.
\<close>

section \<open>Cutting and splitting\<close>

fun cut :: "string \<Rightarrow> string \<Rightarrow> (string \<times> string) option" where
  "cut sep [] = (if sep = [] then Some ([], []) else None)"
| "cut sep (c # cs) = (if starts_with sep (c # cs) then Some ([], drop (length sep) (c # cs))
     else map_option (\<lambda>(a, b). (c # a, b)) (cut sep cs))"

fun split_on :: "char \<Rightarrow> string \<Rightarrow> string list" where
  "split_on c [] = [[]]"
| "split_on c (d # ds) = (if d = c then [] # split_on c ds
     else case split_on c ds of [] \<Rightarrow> [[d]] | w # ws \<Rightarrow> (d # w) # ws)"

fun join_with :: "string \<Rightarrow> string list \<Rightarrow> string" where
  "join_with sep [] = []"
| "join_with sep [s] = s"
| "join_with sep (s # ss) = s @ sep @ join_with sep ss"

definition has_suffix :: "string \<Rightarrow> string \<Rightarrow> bool" where
  "has_suffix suf s \<longleftrightarrow> starts_with (rev suf) (rev s)"

definition trim_prefix :: "string \<Rightarrow> string \<Rightarrow> string" where
  "trim_prefix p s = (if starts_with p s then drop (length p) s else s)"

definition trim_suffix :: "string \<Rightarrow> string \<Rightarrow> string" where
  "trim_suffix suf s = (if has_suffix suf s then take (length s - length suf) s else s)"

text \<open>\<open>strings.Trim\<close> with a cut set.\<close>

definition trim_chars :: "string \<Rightarrow> string \<Rightarrow> string" where
  "trim_chars cs s = (let f = dropWhile (\<lambda>c. c \<in> set cs) in rev (f (rev (f s))))"

text \<open>The text before and after the last occurrence of a character.\<close>

definition cut_last :: "char \<Rightarrow> string \<Rightarrow> (string \<times> string) option" where
  "cut_last c s = (if c \<notin> set s then None
     else let after = rev (takeWhile (\<lambda>d. d \<noteq> c) (rev s)) in Some (take (length s - length after - 1) s, after))"

text \<open>\<open>net.SplitHostPort\<close>.\<close>

definition split_host_port :: "string \<Rightarrow> (string \<times> string) option" where
  "split_host_port hp = (case cut_last CHR '':'' hp of None \<Rightarrow> None
     | Some (host, port) \<Rightarrow>
         if starts_with ''['' hp
         then (case cut '']'' hp of None \<Rightarrow> None
           | Some (inside, rest) \<Rightarrow>
               if rest \<noteq> [] \<and> hd rest = CHR '':'' \<and> length host = length inside + 1
                  \<and> CHR ''['' \<notin> set (tl hp) \<and> CHR '']'' \<notin> set rest
               then Some (tl inside, port) else None)
         else if CHR '':'' \<in> set host \<or> CHR ''['' \<in> set hp \<or> CHR '']'' \<in> set hp then None
         else Some (host, port))"

section \<open>Addresses\<close>

datatype addr = V4 "int list" | V6 "int list" string

definition octet :: "string \<Rightarrow> int option" where
  "octet s = (if length s > 1 \<and> hd s = CHR ''0'' then None
     else case parse_int s of None \<Rightarrow> None
       | Some n \<Rightarrow> if list_all (\<lambda>c. digit_val c \<noteq> None) s \<and> n \<le> 255 then Some n else None)"

definition parse_ip4 :: "string \<Rightarrow> int list option" where
  "parse_ip4 s = (let parts = split_on CHR ''.'' s in if length parts = 4 then those (map octet parts) else None)"

definition hex_val :: "char \<Rightarrow> int option" where
  "hex_val c = (let n = (of_char c :: int) in
     if 48 \<le> n \<and> n \<le> 57 then Some (n - 48) else if 97 \<le> n \<and> n \<le> 102 then Some (n - 87)
     else if 65 \<le> n \<and> n \<le> 70 then Some (n - 55) else None)"

definition hex_group :: "string \<Rightarrow> int option" where
  "hex_group s = (if s = [] \<or> length s > 4 then None
     else map_option (foldl (\<lambda>acc d. 16 * acc + d) 0) (those (map hex_val s)))"

text \<open>The groups at the end of an IPv6 address; the last may be an IPv4 address.\<close>

fun pairs_up :: "int list \<Rightarrow> int list" where
  "pairs_up (a # b # rest) = (256 * a + b) # pairs_up rest"
| "pairs_up xs = xs"

fun last_groups :: "string list \<Rightarrow> int list option" where
  "last_groups [] = Some []"
| "last_groups [f] = (if CHR ''.'' \<in> set f then map_option pairs_up (parse_ip4 f)
     else map_option (\<lambda>w. [w]) (hex_group f))"
| "last_groups (f # fs) = (case hex_group f of None \<Rightarrow> None | Some w \<Rightarrow> map_option ((#) w) (last_groups fs))"

definition ip6_fields :: "string \<Rightarrow> string list" where
  "ip6_fields s = (if s = [] then [] else split_on CHR '':'' s)"

definition parse_ip6 :: "string \<Rightarrow> int list option" where
  "parse_ip6 s = (case cut ''::'' s of
     None \<Rightarrow> (case last_groups (split_on CHR '':'' s) of None \<Rightarrow> None
       | Some ws \<Rightarrow> if length ws = 8 then Some ws else None)
   | Some (a, b) \<Rightarrow> (case (those (map hex_group (ip6_fields a)), last_groups (ip6_fields b)) of
       (Some xs, Some ys) \<Rightarrow> if length xs + length ys \<le> 7
          then Some (xs @ replicate (8 - length xs - length ys) 0 @ ys) else None
     | _ \<Rightarrow> None))"

text \<open>\<open>netip.ParseAddr\<close>.\<close>

definition parse_addr :: "string \<Rightarrow> addr option" where
  "parse_addr s = (case find (\<lambda>c. c \<in> set ''.:%'') s of None \<Rightarrow> None
     | Some c \<Rightarrow>
         if c = CHR ''.'' then map_option V4 (parse_ip4 s)
         else if c = CHR ''%'' then None
         else case cut ''%'' s of
             None \<Rightarrow> map_option (\<lambda>n. V6 n []) (parse_ip6 s)
           | Some (a, zone) \<Rightarrow> if zone = [] then None else map_option (\<lambda>n. V6 n zone) (parse_ip6 a))"

definition is_mapped :: "int list \<Rightarrow> bool" where
  "is_mapped ws \<longleftrightarrow> take 6 ws = [0, 0, 0, 0, 0, 65535]"

definition low_bytes :: "int list \<Rightarrow> int list" where
  "low_bytes ws = concat (map (\<lambda>w. [w div 256, w mod 256]) (drop 6 ws))"

fun unmap :: "addr \<Rightarrow> addr" where
  "unmap (V4 bs) = V4 bs"
| "unmap (V6 ws z) = (if is_mapped ws then V4 (low_bytes ws) else V6 ws z)"

fun without_zone :: "addr \<Rightarrow> addr" where
  "without_zone (V4 bs) = V4 bs"
| "without_zone (V6 ws z) = V6 ws []"

fun zone_of :: "addr \<Rightarrow> string" where
  "zone_of (V4 bs) = []"
| "zone_of (V6 ws z) = z"

fun is6 :: "addr \<Rightarrow> bool" where
  "is6 (V4 bs) = False"
| "is6 (V6 ws z) = True"

text \<open>\<open>net.ParseIP\<close> and what is asked of its answers.\<close>

definition parse_ip :: "string \<Rightarrow> addr option" where
  "parse_ip s = (case parse_addr s of None \<Rightarrow> None
     | Some a \<Rightarrow> if zone_of a = [] then Some (unmap a) else None)"

fun ip_loopback :: "addr \<Rightarrow> bool" where
  "ip_loopback (V4 bs) = (hd bs = 127)"
| "ip_loopback (V6 ws z) = (ws = [0, 0, 0, 0, 0, 0, 0, 1])"

fun ip_unspecified :: "addr \<Rightarrow> bool" where
  "ip_unspecified (V4 bs) = list_all (\<lambda>b. b = 0) bs"
| "ip_unspecified (V6 ws z) = list_all (\<lambda>w. w = 0) ws"

text \<open>Not the IPv4 broadcast, unspecified, loopback, multicast or link-local unicast.\<close>

fun ip_global_unicast :: "addr \<Rightarrow> bool" where
  "ip_global_unicast (V4 bs) = (bs \<noteq> [255, 255, 255, 255] \<and> \<not> ip_unspecified (V4 bs) \<and> \<not> ip_loopback (V4 bs)
     \<and> hd bs div 16 \<noteq> 14 \<and> take 2 bs \<noteq> [169, 254])"
| "ip_global_unicast (V6 ws z) = (\<not> ip_unspecified (V6 ws z) \<and> \<not> ip_loopback (V6 ws z)
     \<and> hd ws div 256 \<noteq> 255 \<and> hd ws div 64 \<noteq> 1018)"

section \<open>Printing\<close>

definition hex_digit :: "int \<Rightarrow> char" where
  "hex_digit d = (if d < 10 then char_of (48 + nat d) else char_of (87 + nat d))"

definition hex_text :: "int \<Rightarrow> string" where
  "hex_text w = (let ds = dropWhile (\<lambda>d. d = 0) [w div 4096 mod 16, w div 256 mod 16, w div 16 mod 16, w mod 16]
     in map hex_digit (if ds = [] then [0] else ds))"

definition zero_run :: "int list \<Rightarrow> nat \<Rightarrow> nat" where
  "zero_run ws i = length (takeWhile (\<lambda>w. w = 0) (drop i ws))"

text \<open>The first longest run of two or more zero groups.\<close>

definition longest_zeros :: "int list \<Rightarrow> nat option" where
  "longest_zeros ws = find (\<lambda>i. zero_run ws i \<ge> 2 \<and> list_all (\<lambda>j. zero_run ws j \<le> zero_run ws i) [0..<length ws])
     [0..<length ws]"

definition ip4_text :: "int list \<Rightarrow> string" where
  "ip4_text bs = join_with ''.'' (map int_text bs)"

definition ip6_text :: "int list \<Rightarrow> string" where
  "ip6_text ws =
     (if is_mapped ws then ''::ffff:'' @ ip4_text (low_bytes ws)
      else let spelt = (\<lambda>ws. join_with '':'' (map hex_text ws)) in
        case longest_zeros ws of
          None \<Rightarrow> spelt ws
        | Some i \<Rightarrow> spelt (take i ws) @ ''::'' @ spelt (drop (i + zero_run ws i) ws))"

fun addr_text :: "addr \<Rightarrow> string" where
  "addr_text (V4 bs) = ip4_text bs"
| "addr_text (V6 ws z) = ip6_text ws @ (if z = [] then [] else CHR ''%'' # z)"

section \<open>Prefixes\<close>

fun bit_len :: "addr \<Rightarrow> int" where
  "bit_len (V4 bs) = 32"
| "bit_len (V6 ws z) = 128"

text \<open>The leading \<open>b\<close> bits of a list of \<open>k\<close>-bit numbers.\<close>

fun mask_list :: "int \<Rightarrow> int \<Rightarrow> int list \<Rightarrow> int list" where
  "mask_list k b [] = []"
| "mask_list k b (x # xs) =
     (let low = nat (k - max 0 (min k b)) in x div 2 ^ low * 2 ^ low) # mask_list k (b - k) xs"

fun masked :: "addr \<times> int \<Rightarrow> addr \<times> int" where
  "masked (V4 bs, b) = (V4 (mask_list 8 b bs), b)"
| "masked (V6 ws z, b) = (V6 (mask_list 16 b ws) [], b)"

fun prefix_contains :: "addr \<times> int \<Rightarrow> addr \<Rightarrow> bool" where
  "prefix_contains (V4 p, b) (V4 bs) = (mask_list 8 b p = mask_list 8 b bs)"
| "prefix_contains (V6 p pz, b) (V6 ws z) = (z = [] \<and> mask_list 16 b p = mask_list 16 b ws)"
| "prefix_contains (V4 p, b) (V6 ws z) = False"
| "prefix_contains (V6 p pz, b) (V4 bs) = False"

text \<open>\<open>netip.ParsePrefix\<close>.\<close>

definition parse_prefix :: "string \<Rightarrow> (addr \<times> int) option" where
  "parse_prefix s = (case cut_last CHR ''/'' s of None \<Rightarrow> None
     | Some (a, bits) \<Rightarrow> (case parse_addr a of None \<Rightarrow> None
       | Some ip \<Rightarrow>
           if zone_of ip \<noteq> [] then None
           else if length bits > 1 \<and> (hd bits = CHR ''0'' \<or> digit_val (hd bits) = None) then None
           else case parse_int bits of None \<Rightarrow> None
             | Some b \<Rightarrow> if 0 \<le> b \<and> b \<le> bit_len ip then Some (ip, b) else None))"

definition prefix_text :: "addr \<times> int \<Rightarrow> string" where
  "prefix_text p = addr_text (fst p) @ ''/'' @ int_text (snd p)"

end
