(* ===== verification/Tokens.thy ===== *)
theory Tokens
  imports GoTime Addr
begin

text \<open>
  Session tokens and credential fingerprints (\<open>internal/web/auth.go\<close>).  HMAC-SHA256, bcrypt and the
  lower-casing of texts are parameters: \<open>cr_mac key message\<close> is the digest; \<open>cr_match hash password\<close>
  is a successful comparison; \<open>cr_hash n password\<close> hashes with the \<open>n\<close>-th random salt.
  \<open>base64.RawURLEncoding\<close> is spelt out.
\<close>

record crypto =
  cr_mac :: "string \<Rightarrow> string \<Rightarrow> string"
  cr_match :: "string \<Rightarrow> string \<Rightarrow> bool"
  cr_hash :: "nat \<Rightarrow> string \<Rightarrow> string option"
  cr_lower :: "string \<Rightarrow> string"

section \<open>base64\<close>

definition b64_alphabet :: string where
  "b64_alphabet = ''ABCDEFGHIJKLMNOPQRSTUVWXYZabcdefghijklmnopqrstuvwxyz0123456789-_''"

definition b64_char :: "nat \<Rightarrow> char" where "b64_char n = b64_alphabet ! n"

definition b64_val :: "char \<Rightarrow> nat option" where
  "b64_val c = (let n = length (takeWhile (\<lambda>d. d \<noteq> c) b64_alphabet) in if n < 64 then Some n else None)"

abbreviation byte :: "char \<Rightarrow> nat" where "byte c \<equiv> of_char c"

fun b64_encode :: "string \<Rightarrow> string" where
  "b64_encode [] = []"
| "b64_encode [a] = [b64_char (byte a div 4), b64_char (byte a mod 4 * 16)]"
| "b64_encode [a, b] = [b64_char (byte a div 4), b64_char (byte a mod 4 * 16 + byte b div 16), b64_char (byte b mod 16 * 4)]"
| "b64_encode (a # b # c # s) =
     b64_char (byte a div 4) # b64_char (byte a mod 4 * 16 + byte b div 16) #
     b64_char (byte b mod 16 * 4 + byte c div 64) # b64_char (byte c mod 64) # b64_encode s"

fun join_sextets :: "nat list \<Rightarrow> string option" where
  "join_sextets [] = Some []"
| "join_sextets [w] = None"
| "join_sextets [w, x] = Some [char_of (w * 4 + x div 16)]"
| "join_sextets [w, x, y] = Some [char_of (w * 4 + x div 16), char_of (x mod 16 * 16 + y div 4)]"
| "join_sextets (w # x # y # z # ss) =
     map_option (\<lambda>s. char_of (w * 4 + x div 16) # char_of (x mod 16 * 16 + y div 4) # char_of (y mod 4 * 64 + z) # s)
       (join_sextets ss)"

text \<open>The decoder skips line breaks and ignores the bits left over.\<close>

definition b64_decode :: "string \<Rightarrow> string option" where
  "b64_decode s = Option.bind (those (map b64_val (filter (\<lambda>c. c \<noteq> CHR 0x0D \<and> c \<noteq> CHR 0x0A) s))) join_sextets"

section \<open>Tokens\<close>

definition session_ttl :: duration where "session_ttl = 30 * 24 * hour"

definition token_mac :: "crypto \<Rightarrow> string \<Rightarrow> string \<Rightarrow> int \<Rightarrow> string" where
  "token_mac cr payload hash epoch = b64_encode (cr_mac cr hash (payload @ [CHR 0x00] @ int_text epoch))"

definition issue_token :: "crypto \<Rightarrow> string \<Rightarrow> string \<Rightarrow> int \<Rightarrow> gtime \<Rightarrow> string" where
  "issue_token cr user hash epoch now =
     (let payload = int_text (t_unix (t_add now session_ttl)) @ ''|'' @ user
      in b64_encode payload @ ''.'' @ token_mac cr payload hash epoch)"

definition verify_token :: "crypto \<Rightarrow> gtime \<Rightarrow> string \<Rightarrow> string \<Rightarrow> string \<Rightarrow> int \<Rightarrow> bool" where
  "verify_token cr now tok user hash epoch = (case cut ''.'' tok of None \<Rightarrow> False
     | Some (b, mac) \<Rightarrow> (case b64_decode b of None \<Rightarrow> False
       | Some payload \<Rightarrow>
           if mac \<noteq> token_mac cr payload hash epoch then False
           else case cut ''|'' payload of None \<Rightarrow> False
             | Some (exp_text, tok_user) \<Rightarrow>
                 if tok_user \<noteq> user then False
                 else case parse_int exp_text of None \<Rightarrow> False | Some expiry \<Rightarrow> t_unix now < expiry))"

definition token_key :: "string \<Rightarrow> string \<Rightarrow> string" where
  "token_key session_key hash = (if session_key = [] then hash else hash @ [CHR 0x00] @ session_key)"

definition cred_fingerprint :: "crypto \<Rightarrow> string \<Rightarrow> string \<Rightarrow> string \<Rightarrow> string" where
  "cred_fingerprint cr user pass hash = cr_mac cr hash (user @ [CHR 0x00] @ pass)"

section \<open>base64 reads back\<close>

lemma b64_val_table: "list_all (\<lambda>n. b64_val (b64_char n) = Some n) [0..<64]"
  by code_simp

lemma b64_val_char [simp]: "n < 64 \<Longrightarrow> b64_val (b64_char n) = Some n"
  using b64_val_table by (simp add: list_all_iff)

lemma b64_char_table: "list_all (\<lambda>n. b64_char n \<notin> set [CHR 0x0D, CHR 0x0A, CHR ''.'']) [0..<64]"
  by code_simp

lemma b64_char_plain:
  assumes "n < 64"
  shows "b64_char n \<noteq> CHR 0x0D" "b64_char n \<noteq> CHR 0x0A" "b64_char n \<noteq> CHR ''.''"
  using b64_char_table assms by (auto simp: list_all_iff)

lemma byte_lt [simp]: "byte c < 256"
  by (rule nat_of_char_less_256)

text \<open>The sextets of a text.\<close>

fun sextets :: "string \<Rightarrow> nat list" where
  "sextets [] = []"
| "sextets [a] = [byte a div 4, byte a mod 4 * 16]"
| "sextets [a, b] = [byte a div 4, byte a mod 4 * 16 + byte b div 16, byte b mod 16 * 4]"
| "sextets (a # b # c # s) = (byte a div 4) # (byte a mod 4 * 16 + byte b div 16) #
     (byte b mod 16 * 4 + byte c div 64) # (byte c mod 64) # sextets s"

lemma encode_sextets: "b64_encode s = map b64_char (sextets s)"
  by (induction s rule: b64_encode.induct) simp_all

lemma sextet_parts: "byte a div 4 < 64" "byte a mod 4 * 16 + byte b div 16 < 64" "byte a mod 4 * 16 < 64"
  "byte b mod 16 * 4 + byte c div 64 < 64" "byte b mod 16 * 4 < 64" "byte c mod 64 < 64"
  using byte_lt [of a] byte_lt [of b] byte_lt [of c] by linarith+

lemma sextets_small: "n \<in> set (sextets s) \<Longrightarrow> n < 64"
  by (induction s rule: sextets.induct) (auto intro: sextet_parts)

lemma those_vals: "(\<And>n. n \<in> set ns \<Longrightarrow> n < 64) \<Longrightarrow> those (map b64_val (map b64_char ns)) = Some ns"
  by (induction ns) simp_all

lemma pack_div: "(y :: nat) < k \<Longrightarrow> (x * k + y) div k = x" "(y :: nat) < k \<Longrightarrow> (x * k + y) mod k = y"
  by simp_all

lemma sextet_sums:
  "(byte a div 4) * 4 + (byte a mod 4 * 16 + byte b div 16) div 16 = byte a"
  "(byte a div 4) * 4 + (byte a mod 4 * 16) div 16 = byte a"
  "(byte a mod 4 * 16 + byte b div 16) mod 16 * 16 + (byte b mod 16 * 4 + byte c div 64) div 4 = byte b"
  "(byte a mod 4 * 16 + byte b div 16) mod 16 * 16 + (byte b mod 16 * 4) div 4 = byte b"
  "(byte b mod 16 * 4 + byte c div 64) mod 4 * 64 + byte c mod 64 = byte c"
proof -
  have h: "byte b div 16 < 16" "byte c div 64 < 4" using byte_lt [of b] byte_lt [of c] by linarith+
  show "(byte a div 4) * 4 + (byte a mod 4 * 16 + byte b div 16) div 16 = byte a"
    unfolding pack_div(1) [OF h(1)] by simp
  show "(byte a mod 4 * 16 + byte b div 16) mod 16 * 16 + (byte b mod 16 * 4 + byte c div 64) div 4 = byte b"
    unfolding pack_div [OF h(1)] pack_div(1) [OF h(2)] by simp
  show "(byte a mod 4 * 16 + byte b div 16) mod 16 * 16 + (byte b mod 16 * 4) div 4 = byte b"
    unfolding pack_div [OF h(1)] by simp
  show "(byte b mod 16 * 4 + byte c div 64) mod 4 * 64 + byte c mod 64 = byte c"
    unfolding pack_div [OF h(2)] by simp
qed simp_all

lemma join_sextets_of: "join_sextets (sextets s) = Some s"
  by (induction s rule: sextets.induct) (simp_all only: sextets.simps join_sextets.simps sextet_sums char_of_char option.map)

lemma b64_round_trip [simp]: "b64_decode (b64_encode s) = Some s"
proof -
  have "filter (\<lambda>c. c \<noteq> CHR 0x0D \<and> c \<noteq> CHR 0x0A) (b64_encode s) = b64_encode s"
    by (rule filter_True) (use sextets_small b64_char_plain in \<open>auto simp: encode_sextets\<close>)
  moreover have "those (map b64_val (b64_encode s)) = Some (sextets s)"
    unfolding encode_sextets by (rule those_vals) (rule sextets_small)
  ultimately show ?thesis using join_sextets_of by (simp add: b64_decode_def)
qed

lemma b64_no_dot: "CHR ''.'' \<notin> set (b64_encode s)"
  using sextets_small b64_char_plain(3) by (auto simp: encode_sextets) metis

section \<open>What a token says\<close>

lemma cut_char: "c \<notin> set a \<Longrightarrow> cut [c] (a @ c # b) = Some (a, b)"
  by (induction a) auto

lemma cut_append: "cut sep s = Some (a, b) \<Longrightarrow> s = a @ sep @ b"
proof (induction s arbitrary: a)
  case (Cons c cs)
  show ?case
  proof (cases "starts_with sep (c # cs)")
    case True
    then show ?thesis using Cons.prems by (auto simp: starts_with_iff)
  next
    case False
    then show ?thesis using Cons by (auto split: prod.splits)
  qed
qed (auto split: if_splits)

lemma int_text_chars: "c \<in> set (int_text n) \<Longrightarrow> c = CHR ''-'' \<or> digit_val c \<noteq> None"
proof -
  have d: "digit_val c \<noteq> None" if "c \<in> set (nat_text_rev k)" for k
    using that
  proof (induction k rule: nat_text_rev.induct)
    case (1 k)
    show ?case
    proof (cases "k < 10")
      case True
      then show ?thesis using 1(2) by (simp add: nat_text_rev.simps [of k] digit_val_char)
    next
      case False
      then have "c = digit_char (k mod 10) \<or> c \<in> set (nat_text_rev (k div 10))"
        using 1(2) by (subst (asm) nat_text_rev.simps) simp
      then show ?thesis using 1(1) False by (auto simp: digit_val_char)
    qed
  qed
  show "c \<in> set (int_text n) \<Longrightarrow> c = CHR ''-'' \<or> digit_val c \<noteq> None"
    using d by (auto simp: int_text_def nat_text_def split: if_splits)
qed

lemma int_text_plain: "CHR ''|'' \<notin> set (int_text n)" "CHR 0x00 \<notin> set (int_text n)"
  using int_text_chars [of "CHR ''|''" n] int_text_chars [of "CHR 0x00" n] by (auto simp: digit_val_def)

lemma int_text_inj: "in_int64 m \<Longrightarrow> in_int64 n \<Longrightarrow> int_text m = int_text n \<longleftrightarrow> m = n"
  using parse_int_text by (metis option.inject)

definition token_expiry :: "gtime \<Rightarrow> int" where
  "token_expiry issued = t_unix (t_add issued session_ttl)"

lemma verify_issued:
  assumes "in_int64 (token_expiry issued)"
  shows "verify_token cr now (issue_token cr user key epoch issued) user' key' epoch' \<longleftrightarrow>
    user' = user \<and> t_unix now < token_expiry issued \<and>
    token_mac cr (int_text (token_expiry issued) @ ''|'' @ user) key epoch =
      token_mac cr (int_text (token_expiry issued) @ ''|'' @ user) key' epoch'"
proof -
  let ?p = "int_text (token_expiry issued) @ ''|'' @ user"
  have "cut ''.'' (issue_token cr user key epoch issued) = Some (b64_encode ?p, token_mac cr ?p key epoch)"
    using cut_char [OF b64_no_dot] by (simp add: issue_token_def token_expiry_def Let_def)
  moreover have "cut ''|'' ?p = Some (int_text (token_expiry issued), user)"
    using cut_char [OF int_text_plain(1)] by simp
  ultimately show ?thesis using parse_int_text [OF assms] by (auto simp: verify_token_def)
qed

text \<open>A token accepted under two keys or epochs is a collision of the MAC.\<close>

lemma b64_encode_inj: "b64_encode a = b64_encode b \<longleftrightarrow> a = b"
  by (metis b64_round_trip option.inject)

definition mac_message :: "string \<Rightarrow> int \<Rightarrow> string" where
  "mac_message payload epoch = payload @ [CHR 0x00] @ int_text epoch"

definition mac_clash :: "crypto \<Rightarrow> string \<times> string \<Rightarrow> string \<times> string \<Rightarrow> bool" where
  "mac_clash cr a b \<longleftrightarrow> a \<noteq> b \<and> cr_mac cr (fst a) (snd a) = cr_mac cr (fst b) (snd b)"

text \<open>The payload a token carries.\<close>

definition token_payload :: "string \<Rightarrow> string" where
  "token_payload tok = (case cut ''.'' tok of None \<Rightarrow> [] | Some (b, mac) \<Rightarrow>
     (case b64_decode b of None \<Rightarrow> [] | Some p \<Rightarrow> p))"

lemma verify_tokenE:
  assumes "verify_token cr now tok user key epoch"
  obtains b mac payload e expiry where "cut ''.'' tok = Some (b, mac)" "b64_decode b = Some payload"
    "mac = token_mac cr payload key epoch" "cut ''|'' payload = Some (e, user)" "parse_int e = Some expiry"
    "t_unix now < expiry"
proof (cases "cut ''.'' tok")
  case (Some bm)
  then obtain b mac where 1: "cut ''.'' tok = Some (b, mac)" by (cases bm) simp
  then obtain payload where 2: "b64_decode b = Some payload" "mac = token_mac cr payload key epoch"
    using assms by (cases "b64_decode b") (simp_all add: verify_token_def split: if_splits)
  obtain e where 3: "cut ''|'' payload = Some (e, user)"
    using assms 1 2 by (cases "cut ''|'' payload") (auto simp: verify_token_def split: if_splits)
  obtain expiry where 4: "parse_int e = Some expiry" "t_unix now < expiry"
    using assms 1 2 3 by (cases "parse_int e") (simp_all add: verify_token_def)
  show ?thesis by (rule that [OF 1 2 3 4])
qed (use assms in \<open>simp add: verify_token_def\<close>)

lemma verify_binds:
  assumes "verify_token cr now tok user key epoch" "verify_token cr now' tok user' key' epoch'"
    "in_int64 epoch" "in_int64 epoch'"
  shows "user' = user \<and> (key' = key \<and> epoch' = epoch \<or>
    mac_clash cr (key, mac_message (token_payload tok) epoch) (key', mac_message (token_payload tok) epoch'))"
proof -
  obtain b mac payload e where t: "cut ''.'' tok = Some (b, mac)" "b64_decode b = Some payload"
      "mac = token_mac cr payload key epoch" "cut ''|'' payload = Some (e, user)"
    using assms(1) by (rule verify_tokenE)
  obtain e' where t': "mac = token_mac cr payload key' epoch'" "cut ''|'' payload = Some (e', user')"
    using assms(2) by (rule verify_tokenE) (use t in auto)
  have u: "user' = user" using t(4) t'(2) by simp
  have p: "token_payload tok = payload" using t by (simp add: token_payload_def)
  have m: "cr_mac cr key (mac_message payload epoch) = cr_mac cr key' (mac_message payload epoch')"
    using t(3) t'(1) by (simp add: token_mac_def mac_message_def b64_encode_inj)
  have "key' = key \<and> epoch' = epoch" if "(key, mac_message payload epoch) = (key', mac_message payload epoch')"
    using that int_text_inj [OF assms(3,4)] by (simp add: mac_message_def)
  then show ?thesis using m u unfolding p mac_clash_def by auto
qed

lemma token_key_inj:
  assumes "CHR 0x00 \<notin> set h" "CHR 0x00 \<notin> set h'" "token_key k h = token_key k h'"
  shows "h = h'"
  using assms by (auto simp: token_key_def split: if_splits)

end
