(* ===== verification/AccessHold.thy ===== *)
theory AccessHold
  imports Settings
begin

text \<open>
  The hold a store rebuilt after corruption keeps on network access: the settings row of
  \<open>internal/store/store.go\<close> that carries it, and the three answers of a start about it
  (\<open>AccessHold\<close> of \<open>internal/web/web.go\<close>).
\<close>

definition access_hold_key :: string where "access_hold_key = ''access_hold_after_rebuild''"

text \<open>\<open>ReleaseAccessHold\<close>: whether there was a hold to end.\<close>

definition release_access_hold :: "(store, db_error, bool) call" where
  "release_access_hold s = (case db_exec s of (Some e, s) \<Rightarrow> (Inl e, s)
     | (None, s) \<Rightarrow> (Inr (t_settings s access_hold_key \<noteq> None),
                      s\<lparr>t_settings := (t_settings s)(access_hold_key := None)\<rparr>))"

definition login_stored :: "(string \<rightharpoonup> string) \<Rightarrow> bool" where
  "login_stored m \<longleftrightarrow> row m ''auth_hash'' \<noteq> [] \<and> row m ''auth_enabled'' \<in> {''1'', ''true''}"

text \<open>\<open>AccessHoldAfterRebuild\<close>: whether the hold stands, and the error.\<close>

definition access_hold_after_rebuild :: "store \<Rightarrow> (bool \<times> db_error option) \<times> store" where
  "access_hold_after_rebuild s = (case all_settings s of
     (Inl e, s) \<Rightarrow> ((True, Some e), s)
   | (Inr m, s) \<Rightarrow>
       if row m access_hold_key = [] then ((False, None), s)
       else if \<not> login_stored m then ((True, None), s)
       else (case release_access_hold s of
          (Inl e, s) \<Rightarrow> ((False, Some e), s) | (Inr _, s) \<Rightarrow> ((False, None), s)))"

datatype access_hold = NotHeld | HeldAfterRebuild | HeldUnread

fun hold_enforced :: "access_hold \<Rightarrow> bool \<Rightarrow> bool" where
  "hold_enforced h settings_loaded = (h = HeldAfterRebuild \<or> (h = HeldUnread \<and> settings_loaded))"

section \<open>What the controller answers about access\<close>

abbreviation login_active :: "controller \<Rightarrow> bool" where
  "login_active c \<equiv> auth_active (ct_vals c)"

definition has_password :: "controller \<Rightarrow> bool" where
  "has_password c \<longleftrightarrow> va_auth_hash (ct_vals c) \<noteq> []"

end
