(* ===== verification/Access.thy ===== *)
theory Access
  imports Throttle Tokens AccessHold
begin

text \<open>
  Who may reach the dashboard (\<open>internal/web/auth.go\<close>): the guard in front of every route with its
  Host check, its local-only filter and its login, the password checks behind it, and the handlers
  that log in, log out and change access (the handlers follow in their own theory).

  A request is what the code reads of it; what the rest of the process does to the server while a
  password is checked (a comparison takes tens of milliseconds outside every lock; the cache is read
  and then the credentials are looked at again) is the function \<open>rq_mid\<close>; the clock is read as \<open>rq_now\<close> before it and \<open>rq_after\<close> after.  \<open>rq_basic\<close> is the answer of \<open>Request.BasicAuth\<close>, \<open>rq_media\<close> the media type of
  the body, \<open>rq_body_empty\<close> a zero content length.
\<close>

record server =
  sv_ctl :: controller
  sv_fails :: fails
  sv_good :: "string option"
  sv_trusted :: "(addr \<times> int) list"
  sv_rewrite_warned :: bool
  sv_proxied_warned :: bool
  sv_host_reject :: log_coalescer
  sv_local_reject :: log_coalescer
  sv_allowed_hosts :: "string list"
  sv_session_key :: string
  sv_metrics_token :: string
  sv_listen :: string
  sv_in_container :: bool
  sv_reconciling :: bool
  sv_hold :: access_hold
  sv_hold_released :: bool
  sv_salt :: nat

record request =
  rq_path :: string
  rq_method :: string
  rq_host :: string
  rq_remote :: string
  rq_cookie :: "string option"
  rq_basic :: "(string \<times> string) option"
  rq_authorization :: string
  rq_forwarded_for :: "string list"
  rq_forwarded_proto :: string
  rq_ui :: string
  rq_media :: string
  rq_body_empty :: bool
  rq_now :: gtime
  rq_after :: gtime
  rq_mid :: "server \<Rightarrow> server"

datatype refusal =
    Reconciling | UnrecognizedHost | PrivateRebuilt | PrivateUnread | PrivateLocalOnly | NotLoaded
  | TooManyAttempts | AuthRequired bool | MethodNotAllowed | UnsupportedType | BadJson
  | UsernameNotUtf8 | UsernameTooLong | PasswordTooLong | HashFailed | SettingsFailed cfg_error
  | StepUpMissing | StepUpWrong | WrongLogin | SetupClosed | LoginConfigured | AnswerIncomplete
  | SpeedSecondsMissing | AuthMismatch

fun refusal_code :: "refusal \<Rightarrow> int" where
  "refusal_code Reconciling = 503"
| "refusal_code UnrecognizedHost = 403"
| "refusal_code PrivateRebuilt = 403"
| "refusal_code PrivateUnread = 403"
| "refusal_code PrivateLocalOnly = 403"
| "refusal_code NotLoaded = 503"
| "refusal_code TooManyAttempts = 429"
| "refusal_code (AuthRequired challenge) = 401"
| "refusal_code MethodNotAllowed = 405"
| "refusal_code UnsupportedType = 415"
| "refusal_code BadJson = 400"
| "refusal_code UsernameNotUtf8 = 400"
| "refusal_code UsernameTooLong = 400"
| "refusal_code PasswordTooLong = 400"
| "refusal_code HashFailed = 500"
| "refusal_code (SettingsFailed e) = 500"
| "refusal_code StepUpMissing = 403"
| "refusal_code StepUpWrong = 403"
| "refusal_code WrongLogin = 401"
| "refusal_code SetupClosed = 403"
| "refusal_code LoginConfigured = 403"
| "refusal_code AnswerIncomplete = 400"
| "refusal_code SpeedSecondsMissing = 400"
| "refusal_code AuthMismatch = 400"

type_synonym 'a web = "(server, refusal, 'a) call"

definition on_ctl :: "(controller \<Rightarrow> 'a \<times> controller) \<Rightarrow> server \<Rightarrow> 'a \<times> server" where
  "on_ctl f s = (case f (sv_ctl s) of (r, c) \<Rightarrow> (r, s\<lparr>sv_ctl := c\<rparr>))"

definition web_count :: "string \<Rightarrow> server \<Rightarrow> server" where
  "web_count name s = snd (on_ctl (on_store (\<lambda>d. ((), on_reg (stats_inc name) d))) s)"

section \<open>Whose request it is\<close>

definition client_ip :: "request \<Rightarrow> string" where
  "client_ip rq = (case split_host_port (rq_remote rq) of None \<Rightarrow> rq_remote rq | Some (host, port) \<Rightarrow> host)"

definition trusted_peer :: "(addr \<times> int) list \<Rightarrow> addr \<Rightarrow> bool" where
  "trusted_peer trusted ip = list_ex (\<lambda>p. prefix_contains p (without_zone (unmap ip))) trusted"

text \<open>The hops of the header, client first.\<close>

definition forwarded_chain :: "string list \<Rightarrow> string list" where
  "forwarded_chain headers = filter (\<lambda>p. p \<noteq> []) (map trim_space (concat (map (split_on CHR '','') headers)))"

text \<open>The walk from the nearest hop outward.\<close>

fun walk_hops :: "(addr \<times> int) list \<Rightarrow> addr \<Rightarrow> string list \<Rightarrow> addr" where
  "walk_hops trusted ip [] = ip"
| "walk_hops trusted ip (hop # hops) = (case parse_addr hop of None \<Rightarrow> ip
     | Some a \<Rightarrow> if trusted_peer trusted a then walk_hops trusted a hops else a)"

definition bucket_of :: "addr \<Rightarrow> string" where
  "bucket_of ip0 = (let ip = without_zone (unmap ip0) in
     if is6 ip then prefix_text (masked (ip, 64)) else addr_text ip)"

definition limiter_key :: "request \<Rightarrow> server \<Rightarrow> string" where
  "limiter_key rq s = (case parse_addr (client_ip rq) of
     None \<Rightarrow> client_ip rq
   | Some ip \<Rightarrow> bucket_of (if trusted_peer (sv_trusted s) ip
       then walk_hops (sv_trusted s) ip (rev (forwarded_chain (rq_forwarded_for rq))) else ip))"

definition trusted_proxy :: "string \<Rightarrow> (addr \<times> int) option" where
  "trusted_proxy c = (case parse_prefix c of Some p \<Rightarrow> Some (masked p)
     | None \<Rightarrow> (case parse_addr c of None \<Rightarrow> None | Some a \<Rightarrow> Some (masked (a, bit_len a))))"

text \<open>The first entry that is neither is the error.\<close>

fun parse_proxies :: "string list \<Rightarrow> string + (addr \<times> int) list" where
  "parse_proxies [] = Inr []"
| "parse_proxies (c0 # cs) = (let c = trim_space c0 in
     if c = [] then parse_proxies cs
     else case trusted_proxy c of None \<Rightarrow> Inl c
       | Some p \<Rightarrow> bind_result (parse_proxies cs) (\<lambda>ps. Inr (p # ps)))"

definition set_trusted_proxies :: "string list \<Rightarrow> server \<Rightarrow> string option \<times> server" where
  "set_trusted_proxies cs s = (case parse_proxies cs of
     Inl c \<Rightarrow> (Some c, s) | Inr ps \<Rightarrow> (None, s\<lparr>sv_trusted := ps\<rparr>))"

definition peer_trusted :: "request \<Rightarrow> server \<Rightarrow> bool" where
  "peer_trusted rq s = (case parse_addr (client_ip rq) of None \<Rightarrow> False | Some ip \<Rightarrow> trusted_peer (sv_trusted s) ip)"

definition is_loopback_addr :: "string \<Rightarrow> bool" where
  "is_loopback_addr remote =
     (let host = (case split_host_port remote of None \<Rightarrow> remote | Some (host, port) \<Rightarrow> host)
      in case parse_ip host of None \<Rightarrow> False | Some ip \<Rightarrow> ip_loopback ip)"

section \<open>The Host check\<close>

definition host_name :: "crypto \<Rightarrow> string \<Rightarrow> string" where
  "host_name cr s = cr_lower cr (trim_suffix ''.'' s)"

definition host_allowed :: "crypto \<Rightarrow> string \<Rightarrow> string list \<Rightarrow> bool" where
  "host_allowed cr hostport extra =
     (let host = host_name cr (case split_host_port hostport of None \<Rightarrow> hostport | Some (host, port) \<Rightarrow> host) in
      if host = [] then False
      else if parse_ip (trim_chars ''[]'' host) \<noteq> None then True
      else if host = ''localhost'' \<or> has_suffix ''.localhost'' host then True
      else if CHR ''.'' \<notin> set host then True
      else if list_ex (\<lambda>suf. has_suffix suf host) [''.local'', ''.lan'', ''.home'', ''.internal'', ''.home.arpa''] then True
      else list_ex (\<lambda>a0. let a = host_name cr (trim_space a0) in a \<noteq> [] \<and> host = a) extra)"

section \<open>Credentials\<close>

definition auth_creds :: "server \<Rightarrow> string \<times> string" where
  "auth_creds s = (va_auth_user (ct_vals (sv_ctl s)), va_auth_hash (ct_vals (sv_ctl s)))"

definition server_token_key :: "string \<Rightarrow> server \<Rightarrow> string" where
  "server_token_key hash s = token_key (sv_session_key s) hash"

definition session_valid :: "crypto \<Rightarrow> request \<Rightarrow> string \<times> string \<Rightarrow> server \<Rightarrow> bool" where
  "session_valid cr rq cred s = (case rq_cookie rq of None \<Rightarrow> False
     | Some tok \<Rightarrow> verify_token cr (rq_now rq) tok (fst cred) (server_token_key (snd cred) s) (ct_epoch (sv_ctl s)))"

definition hash_password :: "crypto \<Rightarrow> string \<Rightarrow> server \<Rightarrow> string option \<times> server" where
  "hash_password cr pass s = (cr_hash cr (sv_salt s) pass, s\<lparr>sv_salt := Suc (sv_salt s)\<rparr>)"

text \<open>The comparison runs against the credentials the caller read; afterwards they are looked at
  once more.\<close>

definition check_password :: "crypto \<Rightarrow> request \<Rightarrow> string \<times> string \<Rightarrow> string \<Rightarrow> string \<Rightarrow> server \<Rightarrow> bool \<times> server" where
  "check_password cr rq cred user pass s =
     (let s = rq_mid rq s in
      if user \<noteq> fst cred then (False, s)
      else if \<not> cr_match cr (snd cred) pass then (False, s)
      else (auth_creds s = cred, s))"

text \<open>The cache is read in \<open>s\<close>, the last look at the credentials is taken in \<open>later\<close>.\<close>

definition known_good :: "crypto \<Rightarrow> string \<times> string \<Rightarrow> string \<Rightarrow> string \<Rightarrow> server \<Rightarrow> server \<Rightarrow> bool" where
  "known_good cr cred user pass s later \<longleftrightarrow>
     user = fst cred \<and> sv_good s = Some (cred_fingerprint cr user pass (snd cred)) \<and> auth_creds later = cred"

definition remember_good :: "crypto \<Rightarrow> string \<times> string \<Rightarrow> string \<Rightarrow> server \<Rightarrow> server" where
  "remember_good cr cred pass s = s\<lparr>sv_good := Some (cred_fingerprint cr (fst cred) pass (snd cred))\<rparr>"

definition reserve_attempt :: "request \<Rightarrow> string \<Rightarrow> server \<Rightarrow> bool \<times> server" where
  "reserve_attempt rq key s = (case reserve (rq_now rq) key (sv_fails s) of (granted, f) \<Rightarrow> (granted, s\<lparr>sv_fails := f\<rparr>))"

definition attempt_ok :: "string \<Rightarrow> server \<Rightarrow> server" where
  "attempt_ok key s = s\<lparr>sv_fails := limiter_ok key (sv_fails s)\<rparr>"

definition attempt_failed :: "request \<Rightarrow> string \<Rightarrow> server \<Rightarrow> server" where
  "attempt_failed rq key s = s\<lparr>sv_fails := release_fail (rq_after rq) key (sv_fails s)\<rparr>"

text \<open>One password attempt under the throttle: proved by the comparison, vouched for by the cache,
  refused for its budget, or wrong.\<close>

datatype attempt = Proved | Vouched | Throttled | Wrong

definition try_password :: "crypto \<Rightarrow> request \<Rightarrow> string \<times> string \<Rightarrow> string \<Rightarrow> string \<Rightarrow> server \<Rightarrow> attempt \<times> server" where
  "try_password cr rq cred user pass s =
     (let key = limiter_key rq s in
      case reserve_attempt rq key s of
        (False, s) \<Rightarrow> (let later = rq_mid rq s in (if known_good cr cred user pass s later then Vouched else Throttled, later))
      | (True, s) \<Rightarrow> (case check_password cr rq cred user pass s of
          (True, s) \<Rightarrow> (Proved, remember_good cr cred pass (attempt_ok key s))
        | (False, s) \<Rightarrow> (Wrong, attempt_failed rq key s)))"

definition authed :: "crypto \<Rightarrow> request \<Rightarrow> server \<Rightarrow> bool \<times> server" where
  "authed cr rq s =
     (let cred = auth_creds s in
      if snd cred = [] then (False, s)
      else if session_valid cr rq cred s then (True, s)
      else case rq_basic rq of None \<Rightarrow> (False, s)
        | Some (user, pass) \<Rightarrow> (case try_password cr rq cred user pass s of
            (Proved, s) \<Rightarrow> (True, s) | (Vouched, s) \<Rightarrow> (True, s) | (Throttled, s) \<Rightarrow> (False, s)
          | (Wrong, s) \<Rightarrow> (False, web_count ''web.login_fail'' s)))"

definition metrics_token_ok :: "request \<Rightarrow> server \<Rightarrow> bool" where
  "metrics_token_ok rq s =
     (let want = sv_metrics_token s in
      want \<noteq> [] \<and>
      ((starts_with ''Bearer '' (rq_authorization rq) \<and> drop 7 (rq_authorization rq) = want) \<or>
       (case rq_basic rq of None \<Rightarrow> False | Some (user, pass) \<Rightarrow> pass = want)))"

section \<open>The guard\<close>

definition auth_exempt :: "request \<Rightarrow> bool" where
  "auth_exempt rq =
     (let p = rq_path rq in
      if p = ''/api/auth/login'' \<or> p = ''/api/auth/logout'' then True
      else if p = ''/api/access'' \<and> rq_method rq = ''GET'' then True
      else if p = ''/api/quick-setup'' then True
      else if p = ''/metrics'' then False
      else \<not> starts_with ''/api/'' p)"

definition access_held :: "server \<Rightarrow> access_hold" where
  "access_held s = (if sv_hold_released s then NotHeld else sv_hold s)"

text \<open>Answers \<open>None\<close> for a request that passes.\<close>

definition guard_host :: "crypto \<Rightarrow> request \<Rightarrow> server \<Rightarrow> refusal option \<times> server" where
  "guard_host cr rq s =
     (if sv_reconciling s then (Some Reconciling, s)
      else if \<not> host_allowed cr (rq_host rq) (sv_allowed_hosts s)
      then (Some UnrecognizedHost, s\<lparr>sv_host_reject := snd (reject_log (rq_now rq) (sv_host_reject s))\<rparr>)
      else if sv_allowed_hosts s = [] \<and> concat (take 1 (rq_forwarded_for rq)) \<noteq> []
      then (None, s\<lparr>sv_rewrite_warned := True\<rparr>)
      else (None, s))"

definition guard_local :: "crypto \<Rightarrow> request \<Rightarrow> server \<Rightarrow> refusal option \<times> server" where
  "guard_local cr rq s =
     (let held = access_held s; local_only = va_access_local_only (ct_vals (sv_ctl s)) in
      if local_only \<or> hold_enforced held (loaded (sv_ctl s))
      then if \<not> is_loopback_addr (rq_remote rq)
        then (Some (if held = HeldAfterRebuild then PrivateRebuilt
                    else if held = HeldUnread \<and> \<not> local_only then PrivateUnread else PrivateLocalOnly),
              s\<lparr>sv_local_reject := snd (coalescer_allow (rq_now rq) reject_warn_every (sv_local_reject s))\<rparr>)
        else if \<not> host_allowed cr (rq_host rq) [] then (None, s\<lparr>sv_proxied_warned := True\<rparr>)
        else (None, s)
      else (None, s))"

definition guard_auth :: "crypto \<Rightarrow> request \<Rightarrow> server \<Rightarrow> refusal option \<times> server" where
  "guard_auth cr rq s =
     (if \<not> login_active (sv_ctl s) \<or> auth_exempt rq then (None, s)
      else if rq_path rq = ''/metrics'' \<and> sv_metrics_token s \<noteq> [] \<and> metrics_token_ok rq s then (None, s)
      else if (case rq_basic rq of None \<Rightarrow> False
          | Some (user, pass) \<Rightarrow> blocked (rq_now rq) (limiter_key rq s) (sv_fails s)
              \<and> \<not> known_good cr (auth_creds s) user pass s s)
      then (Some TooManyAttempts, web_count ''web.limiter_trips'' s)
      else case authed cr rq s of
          (True, s) \<Rightarrow> (None, s) | (False, s) \<Rightarrow> (Some (AuthRequired (rq_ui rq = [])), s))"

definition guard :: "crypto \<Rightarrow> request \<Rightarrow> server \<Rightarrow> refusal option \<times> server" where
  "guard cr rq s =
     (if rq_path rq = ''/healthz'' \<or> rq_path rq = ''/readyz'' then (None, s)
      else case guard_host cr rq s of
          (Some r, s) \<Rightarrow> (Some r, s)
        | (None, s) \<Rightarrow> (case guard_local cr rq s of
            (Some r, s) \<Rightarrow> (Some r, s)
          | (None, s) \<Rightarrow> if \<not> loaded (sv_ctl s) then (Some NotLoaded, s) else guard_auth cr rq s))"

end
