(* ===== verification/Login.thy ===== *)
theory Login
  imports Access
begin

text \<open>
  The handlers that change who may reach the dashboard: login and logout, the access settings with
  their step-up, and the first-run answer (\<open>internal/web/auth.go\<close>, \<open>internal/web/web.go\<close>), and the
  addresses the Access tab advertises.  Each answers its outcome and the cookie it set, if any.  The
  handlers that take the import lock run one at a time; the lock itself is not modelled.
\<close>

text \<open>A UTF-8 text, by the lengths its leading bytes announce.\<close>

definition tail_byte :: "char \<Rightarrow> bool" where
  "tail_byte c \<longleftrightarrow> (let n = (of_char c :: int) in 128 \<le> n \<and> n \<le> 191)"

definition second_ok :: "int \<Rightarrow> char \<Rightarrow> bool" where
  "second_ok n c \<longleftrightarrow> (let k = (of_char c :: int) in
     (if n = 224 then 160 else if n = 240 then 144 else 128) \<le> k \<and>
     k \<le> (if n = 237 then 159 else if n = 244 then 143 else 191))"

fun valid_utf8 :: "string \<Rightarrow> bool" where
  "valid_utf8 [] = True"
| "valid_utf8 (a # s) = (let n = (of_char a :: int) in
     if n < 128 then valid_utf8 s
     else if 194 \<le> n \<and> n \<le> 223 then (case s of b # s \<Rightarrow> tail_byte b \<and> valid_utf8 s | _ \<Rightarrow> False)
     else if 224 \<le> n \<and> n \<le> 239 then (case s of b # c # s \<Rightarrow> second_ok n b \<and> tail_byte c \<and> valid_utf8 s | _ \<Rightarrow> False)
     else if 240 \<le> n \<and> n \<le> 244
     then (case s of b # c # d # s \<Rightarrow> second_ok n b \<and> tail_byte c \<and> tail_byte d \<and> valid_utf8 s | _ \<Rightarrow> False)
     else False)"

section \<open>Cookies\<close>

datatype cookie = SessionCookie string bool | ClearedCookie bool

definition before_comma :: "string \<Rightarrow> string" where
  "before_comma s = takeWhile (\<lambda>c. c \<noteq> CHR '','') s"

text \<open>\<open>strings.EqualFold\<close> with a lower-case ASCII word that has no \<open>k\<close>: the one other letter that folds
  into it is the long s.\<close>

fun fold_text :: "string \<Rightarrow> string" where
  "fold_text [] = []"
| "fold_text (c # cs) = (if c = CHR 0xC5 \<and> starts_with [CHR 0xBF] cs then CHR ''s'' # fold_text (tl cs)
     else lower_char c # fold_text cs)"

definition secure_cookie :: "crypto \<Rightarrow> request \<Rightarrow> server \<Rightarrow> bool" where
  "secure_cookie cr rq s =
     (if sv_allowed_hosts s = [] then False
      else if peer_trusted rq s \<and> rq_forwarded_proto rq \<noteq> []
      then fold_text (trim_space (before_comma (rq_forwarded_proto rq))) = ''https''
      else \<not> host_allowed cr (rq_host rq) [])"

definition session_cookie :: "crypto \<Rightarrow> request \<Rightarrow> string \<times> string \<Rightarrow> server \<Rightarrow> cookie" where
  "session_cookie cr rq cred s =
     SessionCookie (issue_token cr (fst cred) (server_token_key (snd cred) s) (ct_epoch (sv_ctl s)) (rq_after rq))
       (secure_cookie cr rq s)"

section \<open>Request bodies\<close>

definition decode_body :: "request \<Rightarrow> 'b option \<Rightarrow> refusal + 'b" where
  "decode_body rq body =
     (if \<not> rq_body_empty rq \<and> rq_media rq \<noteq> ''application/json'' then Inl UnsupportedType
      else case body of None \<Rightarrow> Inl BadJson | Some b \<Rightarrow> Inr b)"

section \<open>Login and logout\<close>

definition handle_login ::
  "crypto \<Rightarrow> request \<Rightarrow> (string \<times> string) option \<Rightarrow> server \<Rightarrow> (refusal + cookie) \<times> server" where
  "handle_login cr rq body s =
     (if rq_method rq \<noteq> ''POST'' then (Inl MethodNotAllowed, s)
      else case decode_body rq body of Inl r \<Rightarrow> (Inl r, s)
        | Inr (user0, pass) \<Rightarrow>
            let user = trim_space user0; cred = auth_creds s in
            case try_password cr rq cred user pass s of
              (Throttled, s) \<Rightarrow> (Inl TooManyAttempts, web_count ''web.limiter_trips'' s)
            | (Wrong, s) \<Rightarrow> (Inl WrongLogin, web_count ''web.login_fail'' s)
            | (_, s) \<Rightarrow> (Inr (session_cookie cr rq cred s), s))"

definition handle_logout :: "crypto \<Rightarrow> request \<Rightarrow> server \<Rightarrow> (refusal + cookie) \<times> server" where
  "handle_logout cr rq s =
     (if rq_method rq \<noteq> ''POST'' then (Inl MethodNotAllowed, s)
      else if rq_media rq \<noteq> ''application/json'' then (Inl UnsupportedType, s)
      else let s = (if session_valid cr rq (auth_creds s) s then snd (on_ctl bump_session_epoch s) else s)
        in (Inr (ClearedCookie (secure_cookie cr rq s)), s))"

section \<open>The access settings\<close>

record access_request =
  ai_local_only :: "bool option"
  ai_auth_enabled :: "bool option"
  ai_username :: string
  ai_password :: string
  ai_current_password :: string

text \<open>\<open>requireStepUp\<close>: whether this request proved the password.\<close>

definition require_step_up :: "crypto \<Rightarrow> request \<Rightarrow> string \<Rightarrow> bool web" where
  "require_step_up cr rq current s =
     (if \<not> login_active (sv_ctl s) then (Inr False, s)
      else if current = [] then (Inl StepUpMissing, web_count ''web.stepup_fail'' s)
      else let cred = auth_creds s in
        case try_password cr rq cred (fst cred) current s of
          (Throttled, s) \<Rightarrow> (Inl TooManyAttempts, web_count ''web.limiter_trips'' s)
        | (Wrong, s) \<Rightarrow> (Inl StepUpWrong, web_count ''web.stepup_fail'' s)
        | (_, s) \<Rightarrow> (Inr True, s))"

text \<open>A settings write of a handler.\<close>

definition setting :: "(controller \<Rightarrow> (cfg_error + 'a) \<times> controller) \<Rightarrow> unit web" where
  "setting f s = (case on_ctl f s of (Inl e, s) \<Rightarrow> (Inl (SettingsFailed e), s) | (Inr _, s) \<Rightarrow> (Inr (), s))"

definition local_only_now :: "server \<Rightarrow> bool" where
  "local_only_now s \<longleftrightarrow> va_access_local_only (ct_vals (sv_ctl s)) \<or> access_held s \<noteq> NotHeld"

definition release_hold :: "server \<Rightarrow> server" where
  "release_hold s = (case on_ctl (on_store release_access_hold) s of
     (Inl e, s) \<Rightarrow> s | (Inr _, s) \<Rightarrow> s\<lparr>sv_hold_released := True\<rparr>)"

definition access_delta :: "access_request \<Rightarrow> server \<Rightarrow> bool" where
  "access_delta i s =
     (let v = ct_vals (sv_ctl s); user = trim_space (ai_username i) in
      ai_password i \<noteq> [] \<or> (user \<noteq> [] \<and> user \<noteq> va_auth_user v)
      \<or> (ai_auth_enabled i \<noteq> None \<and> ai_auth_enabled i \<noteq> Some (va_auth_enabled v))
      \<or> (ai_local_only i \<noteq> None \<and> ai_local_only i \<noteq> Some (local_only_now s)))"

text \<open>A save that changes nothing: whether the submitted scope is stored.\<close>

definition access_echo :: "codec \<Rightarrow> crypto \<Rightarrow> request \<Rightarrow> access_request \<Rightarrow> unit web" where
  "access_echo cd cr rq i s = (case ai_local_only i of None \<Rightarrow> (Inr (), s)
     | Some want \<Rightarrow>
         andthen (\<lambda>s. let persist = (want \<or> \<not> login_active (sv_ctl s)) in
            if \<not> persist \<and> ai_current_password i \<noteq> [] then require_step_up cr rq (ai_current_password i) s
            else (Inr persist, s))
         (\<lambda>persist. if persist then setting (set_access_local_only cd want) else ret ()) s)"

definition change_password :: "codec \<Rightarrow> crypto \<Rightarrow> request \<Rightarrow> access_request \<Rightarrow> cookie option web" where
  "change_password cd cr rq i s =
     (if length (ai_password i) > 72 then (Inl PasswordTooLong, s)
      else case hash_password cr (ai_password i) s of
          (None, s) \<Rightarrow> (Inl HashFailed, s)
        | (Some hash, s) \<Rightarrow>
            let user = (if trim_space (ai_username i) = [] then va_auth_user (ct_vals (sv_ctl s)) else trim_space (ai_username i)) in
            andthen (setting (set_auth_password cd user hash)) (\<lambda>_.
            andthen (if ai_auth_enabled i = Some False then setting (set_auth_enabled cd False) else ret ()) (\<lambda>_ s.
              let cred = auth_creds s in
              (Inr (Some (session_cookie cr rq cred s)), remember_good cr cred (ai_password i) s))) s)"

definition change_login :: "codec \<Rightarrow> crypto \<Rightarrow> request \<Rightarrow> access_request \<Rightarrow> bool \<Rightarrow> cookie option web" where
  "change_login cd cr rq i verified s =
     (let user = trim_space (ai_username i);
          renamed = (user \<noteq> [] \<and> user \<noteq> va_auth_user (ct_vals (sv_ctl s)))
      in andthen (if renamed then setting (set_auth_user cd user) else ret ()) (\<lambda>_.
         andthen (case ai_auth_enabled i of None \<Rightarrow> ret () | Some on \<Rightarrow> setting (set_auth_enabled cd on)) (\<lambda>_ s.
           let cookie = (if renamed \<and> login_active (sv_ctl s) then Some (session_cookie cr rq (auth_creds s) s) else None);
               s = (if renamed \<and> verified then remember_good cr (auth_creds s) (ai_current_password i) s else s)
           in (Inr cookie, s))) s)"

definition change_scope :: "codec \<Rightarrow> access_request \<Rightarrow> unit web" where
  "change_scope cd i s = (case ai_local_only i of None \<Rightarrow> (Inr (), s)
     | Some want \<Rightarrow> andthen (setting (set_access_local_only cd want))
         (\<lambda>_ s. (Inr (), if \<not> want then release_hold s else s)) s)"

text \<open>The outcome is the refusal or whether the caveat about a declared proxy is told, with the cookie
  set on the way (a scope write that fails after a changed password sends the cookie with the error).\<close>

definition access_change ::
  "codec \<Rightarrow> crypto \<Rightarrow> request \<Rightarrow> access_request \<Rightarrow> server \<Rightarrow> ((refusal + bool) \<times> cookie option) \<times> server" where
  "access_change cd cr rq i s =
     (let was_local = local_only_now s in
      case andthen (require_step_up cr rq (ai_current_password i))
        (\<lambda>verified. if ai_password i \<noteq> [] then change_password cd cr rq i else change_login cd cr rq i verified) s of
        (Inl r, s) \<Rightarrow> ((Inl r, None), s)
      | (Inr cookie, s) \<Rightarrow> (case change_scope cd i s of
          (Inl r, s) \<Rightarrow> ((Inl r, cookie), s)
        | (Inr _, s) \<Rightarrow> ((Inr (ai_local_only i = Some True \<and> \<not> was_local \<and> sv_allowed_hosts s \<noteq> []), cookie), s)))"

definition username_fault :: "string \<Rightarrow> refusal option" where
  "username_fault user = (if user = [] then None else if \<not> valid_utf8 user then Some UsernameNotUtf8
     else if length user > 128 then Some UsernameTooLong else None)"

definition access_post ::
  "codec \<Rightarrow> crypto \<Rightarrow> request \<Rightarrow> access_request option \<Rightarrow> server \<Rightarrow> ((refusal + bool) \<times> cookie option) \<times> server" where
  "access_post cd cr rq body s = (case decode_body rq body of Inl r \<Rightarrow> ((Inl r, None), s)
     | Inr i \<Rightarrow> (case username_fault (trim_space (ai_username i)) of Some r \<Rightarrow> ((Inl r, None), s)
       | None \<Rightarrow> if access_delta i s then access_change cd cr rq i s
                 else (case access_echo cd cr rq i s of
                    (Inl r, s) \<Rightarrow> ((Inl r, None), s) | (Inr _, s) \<Rightarrow> ((Inr False, None), s))))"

section \<open>The status the Access tab shows\<close>

record lan_entry =
  le_url :: string
  le_ip :: string
  le_iface :: string
  le_primary :: bool

record host_addr =
  ha_iface :: string
  ha_ip :: addr

text \<open>\<open>net.JoinHostPort\<close>.\<close>

definition join_host_port :: "string \<Rightarrow> string \<Rightarrow> string" where
  "join_host_port host port =
     (if CHR '':'' \<in> set host \<or> CHR ''%'' \<in> set host then ''['' @ host @ '']:'' @ port else host @ '':'' @ port)"

definition lan_entry_of :: "string \<Rightarrow> string \<Rightarrow> string \<Rightarrow> string \<Rightarrow> lan_entry" where
  "lan_entry_of ip port iface primary =
     \<lparr>le_url = ''http://'' @ join_host_port ip port, le_ip = ip, le_iface = iface, le_primary = (ip = primary)\<rparr>"

text \<open>One row per IPv4 address and per interface and /64.\<close>

fun list_addrs :: "string \<Rightarrow> string \<Rightarrow> (string \<times> int list) list \<Rightarrow> host_addr list \<Rightarrow> lan_entry list" where
  "list_addrs port primary seen [] = []"
| "list_addrs port primary seen (a # rest) =
     (let row = lan_entry_of (addr_text (ha_ip a)) port (ha_iface a) primary in
      if \<not> ip_global_unicast (ha_ip a) then list_addrs port primary seen rest
      else case ha_ip a of
          V4 bs \<Rightarrow> row # list_addrs port primary seen rest
        | V6 ws z \<Rightarrow> let key = (ha_iface a, take 4 ws) in
            if key \<in> set seen then list_addrs port primary seen rest
            else row # list_addrs port primary (key # seen) rest)"

definition listen_parts :: "string \<Rightarrow> string \<times> string" where
  "listen_parts listen = (case split_host_port listen of
     Some (host, port) \<Rightarrow> if port = [] then (listen, ''9000'') else (host, port) | None \<Rightarrow> (listen, ''9000''))"

definition loopback_only :: "string \<Rightarrow> bool" where
  "loopback_only host \<longleftrightarrow> fold_text (trim_suffix ''.'' host) = ''localhost'' \<or>
     (case (case parse_ip host of Some ip \<Rightarrow> Some ip
        | None \<Rightarrow> (case cut ''%'' host of None \<Rightarrow> None | Some (h, zone) \<Rightarrow> parse_ip h)) of
      None \<Rightarrow> False | Some ip \<Rightarrow> ip_loopback ip)"

definition lan_entries_for :: "string \<Rightarrow> host_addr list \<Rightarrow> string \<Rightarrow> string \<times> lan_entry list" where
  "lan_entries_for listen addrs primary = (case listen_parts listen of (host, port) \<Rightarrow>
     (port, if loopback_only host then []
        else case parse_ip host of
            Some ip \<Rightarrow> if \<not> ip_unspecified ip
              then [lan_entry_of (addr_text ip) port
                      (case find (\<lambda>a. ha_ip a = ip) addrs of None \<Rightarrow> [] | Some a \<Rightarrow> ha_iface a) primary]
              else (let es = list_addrs port primary [] addrs in filter le_primary es @ filter (\<lambda>e. \<not> le_primary e) es)
          | None \<Rightarrow> (let es = list_addrs port primary [] addrs in filter le_primary es @ filter (\<lambda>e. \<not> le_primary e) es)))"

record access_view =
  as_local_only :: bool
  as_auth_enabled :: bool
  as_auth_active :: bool
  as_has_password :: bool
  as_authed :: bool
  as_containerized :: bool
  as_session :: "(string \<times> string \<times> lan_entry list) option"

text \<open>The addresses of the host are what the kernel answers at the time.\<close>

definition access_status :: "crypto \<Rightarrow> host_addr list \<Rightarrow> string \<Rightarrow> request \<Rightarrow> server \<Rightarrow> access_view \<times> server" where
  "access_status cr addrs primary rq s =
     (let active = login_active (sv_ctl s) in
      case (if active then authed cr rq s else (True, s)) of (is_authed, s) \<Rightarrow>
        (\<lparr>as_local_only = local_only_now s, as_auth_enabled = va_auth_enabled (ct_vals (sv_ctl s)), as_auth_active = active,
          as_has_password = has_password (sv_ctl s), as_authed = is_authed, as_containerized = sv_in_container s,
          as_session = (if is_authed then (case lan_entries_for (sv_listen s) addrs primary of (port, lan) \<Rightarrow>
              Some (va_auth_user (ct_vals (sv_ctl s)), port, lan)) else None)\<rparr>, s))"

definition handle_access ::
  "codec \<Rightarrow> crypto \<Rightarrow> host_addr list \<Rightarrow> string \<Rightarrow> request \<Rightarrow> access_request option \<Rightarrow> server \<Rightarrow>
     ((refusal + access_view \<times> bool) \<times> cookie option) \<times> server" where
  "handle_access cd cr addrs primary rq body s =
     (if rq_method rq = ''GET'' then (case access_status cr addrs primary rq s of (st, s) \<Rightarrow> ((Inr (st, False), None), s))
      else if rq_method rq = ''POST'' then (case access_post cd cr rq body s of
          ((Inl r, cookie), s) \<Rightarrow> ((Inl r, cookie), s)
        | ((Inr caveat, cookie), s) \<Rightarrow>
            (case access_status cr addrs primary rq s of (st, s) \<Rightarrow> ((Inr (st, caveat), cookie), s)))
      else ((Inl MethodNotAllowed, None), s))"

section \<open>The first-run answer\<close>

record setup_request =
  qi_dismiss :: bool
  qi_speedtest_enabled :: "bool option"
  qi_speed_seconds :: int
  qi_update_check :: "bool option"
  qi_local_only :: "bool option"
  qi_auth_enabled :: "bool option"
  qi_username :: string
  qi_password :: string

definition quick_setup_pending :: "gtime \<Rightarrow> server \<Rightarrow> bool \<times> server" where
  "quick_setup_pending now s = (case on_ctl quick_setup_offer_since s of
     (since, s) \<Rightarrow> (quick_setup_hold (va_quick_setup_done (ct_vals (sv_ctl s))) since (t_unix now), s))"

definition setup_dismiss :: "codec \<Rightarrow> crypto \<Rightarrow> request \<Rightarrow> unit web" where
  "setup_dismiss cd cr rq s =
     (case (if login_active (sv_ctl s) then authed cr rq s else (True, s)) of
        (False, s) \<Rightarrow> (Inl (AuthRequired (rq_ui rq = [])), s)
      | (True, s) \<Rightarrow> setting (apply_quick_setup cd
           \<lparr>qa_dismiss = True, qa_speedtest = False, qa_speed_seconds = 0, qa_update_check = False, qa_local_only = False,
            qa_auth_enabled = False, qa_auth_user = [], qa_auth_hash = []\<rparr>) s)"

definition setup_fault :: "setup_request \<Rightarrow> refusal option" where
  "setup_fault i =
     (if qi_speedtest_enabled i = None \<or> qi_update_check i = None \<or> qi_local_only i = None then Some AnswerIncomplete
      else if qi_speedtest_enabled i = Some True \<and> qi_speed_seconds i \<le> 0 then Some SpeedSecondsMissing
      else if qi_auth_enabled i \<noteq> None \<and> qi_auth_enabled i \<noteq> Some (qi_password i \<noteq> []) then Some AuthMismatch
      else None)"

definition setup_hash :: "crypto \<Rightarrow> setup_request \<Rightarrow> string web" where
  "setup_hash cr i s =
     (if qi_password i = [] then (Inr [], s)
      else case username_fault (trim_space (qi_username i)) of Some r \<Rightarrow> (Inl r, s)
        | None \<Rightarrow>
            if length (qi_password i) > 72 then (Inl PasswordTooLong, s)
            else (case hash_password cr (qi_password i) s of
               (None, s) \<Rightarrow> (Inl HashFailed, s) | (Some hash, s) \<Rightarrow> (Inr hash, s)))"

definition setup_answer :: "setup_request \<Rightarrow> string \<Rightarrow> quick_setup_answer" where
  "setup_answer i hash =
     \<lparr>qa_dismiss = False, qa_speedtest = (qi_speedtest_enabled i = Some True), qa_speed_seconds = qi_speed_seconds i,
      qa_update_check = (qi_update_check i = Some True), qa_local_only = (qi_local_only i = Some True),
      qa_auth_enabled = (qi_password i \<noteq> []), qa_auth_user = trim_space (qi_username i), qa_auth_hash = hash\<rparr>"

definition setup_apply :: "codec \<Rightarrow> crypto \<Rightarrow> request \<Rightarrow> setup_request \<Rightarrow> cookie option web" where
  "setup_apply cd cr rq i =
     andthen (setup_hash cr i) (\<lambda>hash.
     andthen (setting (apply_quick_setup cd (setup_answer i hash))) (\<lambda>_ s.
       let s = (if qi_local_only i \<noteq> Some True then release_hold s else s) in
       if hash \<noteq> [] then (let cred = auth_creds s in
          (Inr (Some (session_cookie cr rq cred s)), remember_good cr cred (qi_password i) s))
       else (Inr None, s)))"

definition handle_quick_setup :: "codec \<Rightarrow> crypto \<Rightarrow> request \<Rightarrow> setup_request option \<Rightarrow> cookie option web" where
  "handle_quick_setup cd cr rq body s =
     (if rq_method rq \<noteq> ''POST'' then (Inl MethodNotAllowed, s)
      else if va_quick_setup_done (ct_vals (sv_ctl s)) then (Inr None, s)
      else case decode_body rq body of Inl r \<Rightarrow> (Inl r, s)
        | Inr i \<Rightarrow>
            if qi_dismiss i then andthen (setup_dismiss cd cr rq) (\<lambda>_. ret None) s
            else (case quick_setup_pending (rq_now rq) s of
               (False, s) \<Rightarrow> (Inl SetupClosed, s)
             | (True, s) \<Rightarrow>
                 if login_active (sv_ctl s) then (Inl LoginConfigured, s)
                 else (case setup_fault i of Some r \<Rightarrow> (Inl r, s) | None \<Rightarrow> setup_apply cd cr rq i s)))"

end
