(* ===== verification/ThrottleFacts.thy ===== *)
theory ThrottleFacts
  imports Throttle
begin

text \<open>
  What the throttle grants: the invariant of a bucket over a run of the limiter, in terms of the
  monotonic clock.
\<close>

definition granted_lately :: "int \<Rightarrow> int list \<Rightarrow> nat" where
  "granted_lately t gs = length (filter (\<lambda>g. t - login_block_for < g \<and> g \<le> t) gs)"

definition bucket_ok :: "string \<Rightarrow> int list \<Rightarrow> int \<Rightarrow> fails \<Rightarrow> bool" where
  "bucket_ok ip gs t f \<longleftrightarrow> (\<forall>g \<in> set gs. g \<le> t) \<and>
     (case f ip of None \<Rightarrow> granted_lately t gs = 0
      | Some st \<Rightarrow> 0 \<le> fs_count st \<and> 0 \<le> fs_pending st \<and>
          (\<exists>x. mono_ns (fs_last st) = Some x \<and> x \<le> t \<and> (\<forall>g \<in> set gs. g \<le> x)) \<and>
          int (granted_lately t gs) \<le> fs_count st + fs_pending st)"

lemma t_sub_ge: "d \<le> 9223372036854775807 \<Longrightarrow> -9223372036854775808 < d \<Longrightarrow> d \<le> t_sub a b \<longleftrightarrow> d \<le> t_diff a b"
  by (auto simp: t_sub_def sat64_def)

lemma lately_later: "t \<le> t' \<Longrightarrow> (\<forall>g \<in> set gs. g \<le> t) \<Longrightarrow> granted_lately t' gs \<le> granted_lately t gs"
  unfolding granted_lately_def by (induction gs) auto

lemma lately_old: "(\<forall>g \<in> set gs. g \<le> t - login_block_for) \<Longrightarrow> granted_lately t gs = 0"
  unfolding granted_lately_def by (auto simp: filter_empty_conv)

lemma bucket_later:
  assumes "bucket_ok ip gs t f" "t \<le> t'"
  shows "bucket_ok ip gs t' f"
proof -
  have all: "\<forall>g \<in> set gs. g \<le> t" using assms by (simp add: bucket_ok_def)
  then have "granted_lately t' gs \<le> granted_lately t gs" by (rule lately_later [OF assms(2)])
  then show ?thesis using assms all unfolding bucket_ok_def by (force split: option.splits)
qed

lemma prune_other: "prune_fails now f ip = (case f ip of None \<Rightarrow> None
     | Some st \<Rightarrow> if t_before (fs_last st) (t_add now (- 10 * login_block_for)) then None else Some st)"
  by (simp add: prune_fails_def)

lemma t_before_mono:
  "mono_ns a = Some x \<Longrightarrow> mono_ns b = Some y \<Longrightarrow> t_before a (t_add b d) \<longleftrightarrow> x < y + d"
  by (simp add: t_before_def t_diff_def t_add_def)

lemma bucket_pruned:
  assumes "bucket_ok ip gs t f" "mono_ns now = Some t"
  shows "bucket_ok ip gs t (prune_fails now f)"
proof (cases "f ip")
  case (Some st)
  then obtain x where x: "mono_ns (fs_last st) = Some x" "\<forall>g \<in> set gs. g \<le> x"
    using assms(1) by (auto simp: bucket_ok_def)
  show ?thesis
  proof (cases "t_before (fs_last st) (t_add now (- 10 * login_block_for))")
    case True
    then have "x < t - 10 * login_block_for" using t_before_mono [OF x(1) assms(2)] by simp
    then have "granted_lately t gs = 0" using x(2) by (intro lately_old) (force simp: login_block_for_def)
    then show ?thesis using assms(1) Some True by (simp add: bucket_ok_def prune_other)
  next
    case False
    then show ?thesis using assms(1) Some by (simp add: bucket_ok_def prune_other)
  qed
qed (use assms in \<open>simp add: bucket_ok_def prune_other\<close>)

text \<open>A served cool-down leaves no recent grant.\<close>

lemma bucket_served:
  assumes "bucket_ok ip gs t f" "mono_ns now = Some t" "f ip = Some st"
  shows "0 \<le> fs_count (served now st) \<and> 0 \<le> fs_pending (served now st) \<and>
    (\<exists>x. mono_ns (fs_last (served now st)) = Some x \<and> x \<le> t \<and> (\<forall>g \<in> set gs. g \<le> x)) \<and>
    int (granted_lately t gs) \<le> fs_count (served now st) + fs_pending (served now st)"
proof (cases "fs_count st \<ge> max_login_fails \<and> t_sub now (fs_last st) \<ge> login_block_for")
  case True
  obtain x where x: "mono_ns (fs_last st) = Some x" "\<forall>g \<in> set gs. g \<le> x" "x \<le> t" "0 \<le> fs_pending st"
    using assms by (auto simp: bucket_ok_def)
  have "login_block_for \<le> t - x"
    using True t_sub_ge [of login_block_for now "fs_last st"] t_diff_mono [OF assms(2) x(1)]
    by (simp add: login_block_for_def)
  then have "granted_lately t gs = 0" using x(2) by (intro lately_old) force
  then show ?thesis using x True by (simp add: served_def)
next
  case False
  then have "served now st = st" unfolding served_def by (rule if_not_P)
  then show ?thesis using assms by (simp add: bucket_ok_def)
qed

lemma lately_snoc: "granted_lately t (gs @ [t]) = granted_lately t gs + 1"
  by (simp add: granted_lately_def login_block_for_def)

lemma bucket_reserve:
  assumes "bucket_ok ip gs t f" "mono_ns now = Some t" "reserve now ip f = (granted, f')"
  shows "bucket_ok ip (if granted then gs @ [t] else gs) t f' \<and> (granted \<longrightarrow> granted_lately t gs < 5)"
proof -
  let ?f = "prune_fails now f"
  have ok: "bucket_ok ip gs t ?f" using assms(1,2) by (rule bucket_pruned)
  show ?thesis
  proof (cases "?f ip")
    case None
    then have "granted" "f' ip = Some (fresh_fail_state\<lparr>fs_pending := 1, fs_last := now\<rparr>)"
      using assms(3) by (auto simp: reserve_def Let_def served_def fresh_fail_state_def max_login_fails_def)
    then show ?thesis using ok None assms(2)
      by (auto simp: bucket_ok_def lately_snoc fresh_fail_state_def)
  next
    case (Some st)
    note s = bucket_served [OF ok assms(2) Some]
    show ?thesis
    proof (cases "fs_count (served now st) + fs_pending (served now st) \<ge> max_login_fails")
      case True
      then have "\<not> granted" "f' ip = Some (served now st)"
        using assms(3) Some by (auto simp: reserve_def Let_def)
      then show ?thesis using ok s by (simp add: bucket_ok_def)
    next
      case False
      then have "granted" "f' ip = Some ((served now st)\<lparr>fs_pending := fs_pending (served now st) + 1, fs_last := now\<rparr>)"
        using assms(3) Some by (auto simp: reserve_def Let_def)
      then show ?thesis using ok s False assms(2)
        by (auto simp: bucket_ok_def lately_snoc max_login_fails_def)
    qed
  qed
qed

lemma bucket_reserve_other:
  assumes "bucket_ok ip gs t f" "mono_ns now = Some t" "ip' \<noteq> ip"
  shows "bucket_ok ip gs t (snd (reserve now ip' f))"
proof -
  have "snd (reserve now ip' f) ip = prune_fails now f ip" using assms(3) by (simp add: reserve_def Let_def)
  then show ?thesis using bucket_pruned [OF assms(1,2)] by (simp add: bucket_ok_def)
qed

lemma bucket_release:
  assumes "bucket_ok ip gs t f" "mono_ns now = Some t"
  shows "bucket_ok ip gs t (release_fail now ip' f)"
  using assms by (auto simp: bucket_ok_def release_fail_def split: option.splits)

lemma bucket_clear: "bucket_ok ip gs t f \<Longrightarrow> ip' \<noteq> ip \<Longrightarrow> bucket_ok ip gs t (limiter_ok ip' f)"
  by (simp add: bucket_ok_def limiter_ok_def)

text \<open>A run that grants within the budget at each grant grants within it in every window.\<close>

lemma lately_bound_snoc:
  assumes "\<forall>u. granted_lately u gs \<le> 5" "\<forall>g \<in> set gs. g \<le> t" "granted_lately t gs < 5"
  shows "granted_lately u (gs @ [t]) \<le> 5"
proof (cases "t \<le> u \<and> u - login_block_for < t")
  case True
  have "granted_lately u gs \<le> granted_lately t gs" using True assms(2) by (intro lately_later) auto
  then show ?thesis using assms(3) True by (simp add: granted_lately_def)
next
  case False
  then have "granted_lately u (gs @ [t]) = granted_lately u gs" by (auto simp: granted_lately_def)
  then show ?thesis using assms(1) by simp
qed

lemma grants_bounded:
  assumes "bucket_ok ip gs t f" "ticking t ops" "ClearOk ip \<notin> set ops" "\<forall>u. granted_lately u gs \<le> 5"
  shows "granted_lately u (gs @ lim_grants ip ops f) \<le> 5"
  using assms
proof (induction ops arbitrary: gs t f)
  case (Cons op ops)
  show ?case
  proof (cases op)
    case (Reserve now ip')
    then obtain t' where t': "mono_ns now = Some t'" "t \<le> t'" "ticking t' ops"
      using Cons.prems(2) by (auto simp: op_time_def split: option.splits)
    have later: "bucket_ok ip gs t' f" by (rule bucket_later [OF Cons.prems(1) t'(2)])
    obtain granted f' where r: "reserve now ip' f = (granted, f')" by fastforce
    show ?thesis
    proof (cases "ip' = ip")
      case True
      note b = bucket_reserve [OF later t'(1) r [unfolded True]]
      have "\<forall>u. granted_lately u (if granted then gs @ [t'] else gs) \<le> 5"
        using b Cons.prems(4) later lately_bound_snoc [OF Cons.prems(4)] by (auto simp: bucket_ok_def)
      then have "granted_lately u ((if granted then gs @ [t'] else gs) @ lim_grants ip ops f') \<le> 5"
        using Cons.IH [of _ t' f'] b t'(3) Cons.prems(3) by simp
      then show ?thesis using Reserve r True t'(1) by (cases granted) simp_all
    next
      case False
      have "bucket_ok ip gs t' f'" using bucket_reserve_other [OF later t'(1) False] r by simp
      then have "granted_lately u (gs @ lim_grants ip ops f') \<le> 5"
        using Cons.IH [of gs t' f'] t'(3) Cons.prems(3,4) by simp
      then show ?thesis using Reserve r False by simp
    qed
  next
    case (ReleaseFail now ip')
    then obtain t' where t': "mono_ns now = Some t'" "t \<le> t'" "ticking t' ops"
      using Cons.prems(2) by (auto simp: op_time_def split: option.splits)
    have "bucket_ok ip gs t' (release_fail now ip' f)"
      using bucket_release [OF bucket_later [OF Cons.prems(1) t'(2)] t'(1)] .
    then show ?thesis using Cons.IH [of gs t'] t'(3) Cons.prems(3,4) ReleaseFail by simp
  next
    case (ClearOk ip')
    then have "ip' \<noteq> ip" using Cons.prems(3) by auto
    then have "bucket_ok ip gs t (limiter_ok ip' f)" using bucket_clear Cons.prems(1) by blast
    then show ?thesis using Cons.IH [of gs t] Cons.prems ClearOk by (simp add: op_time_def)
  qed
qed simp

text \<open>A bucket with nothing in flight has its budget back when the cool-down is over.\<close>

lemma reserve_quiet:
  assumes quiet: "\<And>st. f ip = Some st \<Longrightarrow>
      fs_pending st = 0 \<and> (\<exists>x. mono_ns (fs_last st) = Some x \<and> x + login_block_for \<le> t)"
    and now: "mono_ns now = Some t"
  shows "fst (reserve now ip f)"
proof (cases "prune_fails now f ip")
  case None
  then show ?thesis by (simp add: reserve_def Let_def served_def fresh_fail_state_def max_login_fails_def)
next
  case (Some st)
  then have st: "f ip = Some st" by (simp add: prune_other split: option.splits if_splits)
  then obtain x where x: "fs_pending st = 0" "mono_ns (fs_last st) = Some x" "x + login_block_for \<le> t" using quiet by auto
  have "login_block_for \<le> t_sub now (fs_last st)"
    using t_sub_ge [of login_block_for now "fs_last st"] t_diff_mono [OF now x(2)] x(3)
    by (simp add: login_block_for_def)
  then show ?thesis using Some x(1) by (auto simp: reserve_def Let_def served_def max_login_fails_def)
qed

end
