(* ===== verification/AccessFacts.thy ===== *)
theory AccessFacts
  imports Login ThrottleFacts SettingsFacts
begin

text \<open>
  What the pieces of the access checks do to the server: a password attempt in its four outcomes, the
  states that agree on everything access depends on, and the settings writes of the handlers.
\<close>

section \<open>States that agree on access\<close>

definition access_kept :: "server \<Rightarrow> server \<Rightarrow> bool" where
  "access_kept s s' \<longleftrightarrow> ct_vals (sv_ctl s') = ct_vals (sv_ctl s) \<and> ct_epoch (sv_ctl s') = ct_epoch (sv_ctl s) \<and>
     ct_init_err (sv_ctl s') = ct_init_err (sv_ctl s) \<and> sv_session_key s' = sv_session_key s \<and> sv_hold s' = sv_hold s \<and>
     sv_hold_released s' = sv_hold_released s \<and> sv_allowed_hosts s' = sv_allowed_hosts s"

text \<open>The rest of the process leaves the settings alone while a comparison runs: what the import lock
  grants the handlers that hold it.\<close>

definition quiet_mid :: "request \<Rightarrow> bool" where
  "quiet_mid rq \<longleftrightarrow> (\<forall>s. access_kept s (rq_mid rq s) \<and> sv_good (rq_mid rq s) = sv_good s)"

lemma access_kept_refl [simp]: "access_kept s s"
  by (simp add: access_kept_def)

lemma access_kept_trans [trans]: "access_kept s t \<Longrightarrow> access_kept t u \<Longrightarrow> access_kept s u"
  by (simp add: access_kept_def)

lemma access_kept_creds: "access_kept s s' \<Longrightarrow> auth_creds s' = auth_creds s"
  by (simp add: access_kept_def auth_creds_def)

lemma access_kept_active: "access_kept s s' \<Longrightarrow> login_active (sv_ctl s') = login_active (sv_ctl s)"
  by (simp add: access_kept_def auth_active_def)

lemma access_kept_session: "access_kept s s' \<Longrightarrow> session_valid cr rq cred s' = session_valid cr rq cred s"
  by (simp add: access_kept_def session_valid_def server_token_key_def split: option.split)

lemma access_kept_held: "access_kept s s' \<Longrightarrow> access_held s' = access_held s \<and> local_only_now s' = local_only_now s"
  by (simp add: access_kept_def access_held_def local_only_now_def)

lemma access_kept_fields:
  assumes "access_kept s s'"
  shows "auth_creds s' = auth_creds s" "va_auth_enabled (ct_vals (sv_ctl s')) = va_auth_enabled (ct_vals (sv_ctl s))"
    "va_access_local_only (ct_vals (sv_ctl s')) = va_access_local_only (ct_vals (sv_ctl s))"
    "access_held s' = access_held s" "va_quick_setup_done (ct_vals (sv_ctl s')) = va_quick_setup_done (ct_vals (sv_ctl s))"
  using assms by (simp_all add: access_kept_def auth_creds_def access_held_def)

lemma web_count_kept [simp]: "access_kept s (web_count n s)" "sv_good (web_count n s) = sv_good s"
  by (simp_all add: access_kept_def web_count_def on_ctl_def on_store_def)

lemma web_count_after [simp]: "access_kept s s1 \<Longrightarrow> access_kept s (web_count n s1)"
  by (erule access_kept_trans) (rule web_count_kept)

lemma stores_kept [simp]: "access_kept s (s\<lparr>sv_fails := f\<rparr>)" "access_kept s (s\<lparr>sv_good := g\<rparr>)" "access_kept s (s\<lparr>sv_salt := n\<rparr>)"
  "access_kept s (s\<lparr>sv_host_reject := l\<rparr>)" "access_kept s (s\<lparr>sv_local_reject := l\<rparr>)"
  "access_kept s (s\<lparr>sv_rewrite_warned := b\<rparr>)" "access_kept s (s\<lparr>sv_proxied_warned := b\<rparr>)"
  by (simp_all add: access_kept_def)

section \<open>A password attempt\<close>

definition pair_matches :: "crypto \<Rightarrow> string \<times> string \<Rightarrow> string \<Rightarrow> string \<Rightarrow> bool" where
  "pair_matches cr cred user pass \<longleftrightarrow> user = fst cred \<and> cr_match cr (snd cred) pass"

definition pair_cached :: "crypto \<Rightarrow> string \<times> string \<Rightarrow> string \<Rightarrow> string \<Rightarrow> server \<Rightarrow> bool" where
  "pair_cached cr cred user pass s \<longleftrightarrow> user = fst cred \<and> sv_good s = Some (cred_fingerprint cr user pass (snd cred))"

lemma try_passwordE:
  assumes "try_password cr rq cred user pass s = (r, s')"
  obtains
    (proved) f where "r = Proved" "pair_matches cr cred user pass" "auth_creds (rq_mid rq (s\<lparr>sv_fails := f\<rparr>)) = cred"
      "s' = remember_good cr cred pass (attempt_ok (limiter_key rq s) (rq_mid rq (s\<lparr>sv_fails := f\<rparr>)))"
  | (vouched) f where "r = Vouched" "pair_cached cr cred user pass s" "auth_creds (rq_mid rq (s\<lparr>sv_fails := f\<rparr>)) = cred"
      "s' = rq_mid rq (s\<lparr>sv_fails := f\<rparr>)"
  | (throttled) f where "r = Throttled" "s' = rq_mid rq (s\<lparr>sv_fails := f\<rparr>)"
  | (wrong) f where "r = Wrong" "\<not> (pair_matches cr cred user pass \<and> auth_creds (rq_mid rq (s\<lparr>sv_fails := f\<rparr>)) = cred)"
      "s' = attempt_failed rq (limiter_key rq s) (rq_mid rq (s\<lparr>sv_fails := f\<rparr>))"
proof -
  obtain granted f where g: "reserve (rq_now rq) (limiter_key rq s) (sv_fails s) = (granted, f)" by fastforce
  let ?m = "rq_mid rq (s\<lparr>sv_fails := f\<rparr>)"
  show thesis
  proof (cases granted)
    case True
    have c: "check_password cr rq cred user pass (s\<lparr>sv_fails := f\<rparr>) = (pair_matches cr cred user pass \<and> auth_creds ?m = cred, ?m)"
      by (auto simp: check_password_def pair_matches_def Let_def)
    show thesis
    proof (cases "pair_matches cr cred user pass \<and> auth_creds ?m = cred")
      case True
      then show thesis using assms g \<open>granted\<close> c by (intro proved [of f]) (simp_all add: try_password_def Let_def reserve_attempt_def)
    next
      case False
      then have "check_password cr rq cred user pass (s\<lparr>sv_fails := f\<rparr>) = (False, ?m)" unfolding c by simp
      then show thesis using assms g \<open>granted\<close> False by (intro wrong [of f]) (simp_all add: try_password_def Let_def reserve_attempt_def)
    qed
  next
    case False
    have k: "known_good cr cred user pass (s\<lparr>sv_fails := f\<rparr>) ?m = (pair_cached cr cred user pass s \<and> auth_creds ?m = cred)"
      by (auto simp: known_good_def pair_cached_def)
    have r: "(r, s') = (if known_good cr cred user pass (s\<lparr>sv_fails := f\<rparr>) ?m then Vouched else Throttled, ?m)"
      using assms g False by (auto simp: try_password_def Let_def reserve_attempt_def)
    show thesis
    proof (cases "pair_cached cr cred user pass s \<and> auth_creds ?m = cred")
      case True
      then show thesis using r k by (intro vouched [of f]) auto
    next
      case False
      then show thesis using r k by (intro throttled [of f]) auto
    qed
  qed
qed

lemma quiet_after:
  "quiet_mid rq \<Longrightarrow> access_kept s (rq_mid rq (s\<lparr>sv_fails := f\<rparr>)) \<and> sv_good (rq_mid rq (s\<lparr>sv_fails := f\<rparr>)) = sv_good s"
  unfolding quiet_mid_def by (auto intro: access_kept_trans [OF stores_kept(1)])

lemma try_kept:
  assumes "try_password cr rq cred user pass s = (r, s')" and "quiet_mid rq"
  shows "access_kept s s' \<and> (r \<noteq> Proved \<longrightarrow> sv_good s' = sv_good s) \<and>
    (r = Proved \<longrightarrow> sv_good s' = Some (cred_fingerprint cr (fst cred) pass (snd cred)))"
  using assms(1)
proof (rule try_passwordE, goal_cases proved vouched throttled wrong)
  case (proved f)
  then show ?case using quiet_after [OF assms(2), of s f] by (simp add: access_kept_def remember_good_def attempt_ok_def)
next
  case (wrong f)
  then show ?case using quiet_after [OF assms(2), of s f] by (simp add: access_kept_def attempt_failed_def)
qed (use quiet_after [OF assms(2)] in auto)

text \<open>What a request shows of itself.\<close>

definition credentials_shown :: "crypto \<Rightarrow> request \<Rightarrow> server \<Rightarrow> bool" where
  "credentials_shown cr rq s \<longleftrightarrow> session_valid cr rq (auth_creds s) s \<or>
     (case rq_basic rq of None \<Rightarrow> False | Some (user, pass) \<Rightarrow>
        pair_matches cr (auth_creds s) user pass \<or> pair_cached cr (auth_creds s) user pass s)"

lemma authed_shows:
  assumes "authed cr rq s = (True, s')"
  shows "credentials_shown cr rq s"
proof (cases "session_valid cr rq (auth_creds s) s")
  case False
  then obtain user pass where b: "rq_basic rq = Some (user, pass)"
    using assms by (auto simp: authed_def Let_def split: if_splits option.splits)
  obtain r s1 where t: "try_password cr rq (auth_creds s) user pass s = (r, s1)" by fastforce
  have "r = Proved \<or> r = Vouched"
    using assms False b t by (auto simp: authed_def Let_def split: if_splits attempt.splits)
  then show ?thesis using t b by (auto simp: credentials_shown_def elim!: try_passwordE)
qed (simp add: credentials_shown_def)

lemma authed_kept:
  assumes "authed cr rq s = (r, s')" and "quiet_mid rq"
  shows "access_kept s s'"
proof (cases "snd (auth_creds s) = [] \<or> session_valid cr rq (auth_creds s) s \<or> rq_basic rq = None")
  case True
  then show ?thesis using assms(1) by (auto simp: authed_def Let_def split: if_splits)
next
  case False
  then obtain user pass where b: "rq_basic rq = Some (user, pass)" by auto
  obtain o1 s1 where t: "try_password cr rq (auth_creds s) user pass s = (o1, s1)" by fastforce
  have "access_kept s s1" using try_kept [OF t assms(2)] by simp
  moreover have "access_kept s1 s'" using assms(1) False b t by (auto simp: authed_def Let_def split: attempt.splits)
  ultimately show ?thesis by (rule access_kept_trans)
qed

section \<open>Settings writes\<close>

lemma setting_at:
  assumes "setting (mutate cd fn) s = (r, s')"
  obtains (refused) e d n where "r = Inl (SettingsFailed e)" "s' = s\<lparr>sv_ctl := (sv_ctl s)\<lparr>ct_db := d, ct_nonce := n\<rparr>\<rparr>"
  | (saved) c where "r = Inr ()" "s' = s\<lparr>sv_ctl := c\<rparr>" "ct_vals c = fst (fn (ct_vals (sv_ctl s)))"
      "ct_epoch c = ct_epoch (sv_ctl s)" "ct_init_err c = ct_init_err (sv_ctl s)"
proof -
  obtain r0 c where m: "mutate cd fn (sv_ctl s) = (r0, c)" by fastforce
  show thesis
    using m
  proof (cases rule: mutateE)
    case (refused e d n)
    then show thesis using assms m that(1) [where e = e and d = d and n = n] by (simp add: setting_def on_ctl_def)
  next
    case (saved v kv kv' d n)
    have "marked (broadcast v ((sv_ctl s)\<lparr>ct_db := d, ct_nonce := n\<rparr>)) c" using saved complete_marks by blast
    then have c: "ct_vals c = v" "ct_epoch c = ct_epoch (sv_ctl s)" "ct_init_err c = ct_init_err (sv_ctl s)"
      by (auto simp: marked_def broadcast_def)
    moreover have "r = Inr ()" "s' = s\<lparr>sv_ctl := c\<rparr>" using assms m saved by (simp_all add: setting_def on_ctl_def)
    ultimately show thesis using saved that(2) [of c] by simp
  qed
qed

lemma step_up_kept:
  assumes "require_step_up cr rq current s = (r, s')" and "quiet_mid rq"
  shows "access_kept s s'"
proof (cases "login_active (sv_ctl s) \<and> current \<noteq> []")
  case True
  obtain o1 s1 where t: "try_password cr rq (auth_creds s) (fst (auth_creds s)) current s = (o1, s1)" by fastforce
  have "access_kept s s1" using try_kept [OF t assms(2)] by simp
  moreover have "access_kept s1 s'" using assms(1) True t by (auto simp: require_step_up_def Let_def split: attempt.splits)
  ultimately show ?thesis by (rule access_kept_trans)
next
  case False
  then show ?thesis using assms(1) by (auto simp: require_step_up_def split: if_splits)
qed

text \<open>The current password, proved or cached.\<close>

definition password_known :: "crypto \<Rightarrow> string \<Rightarrow> server \<Rightarrow> bool" where
  "password_known cr current s \<longleftrightarrow> current \<noteq> [] \<and>
     (pair_matches cr (auth_creds s) (fst (auth_creds s)) current \<or> pair_cached cr (auth_creds s) (fst (auth_creds s)) current s)"

lemma step_up_stops:
  assumes "require_step_up cr rq current s = (r, s')" and "login_active (sv_ctl s)" and "\<not> password_known cr current s"
    and "quiet_mid rq"
  shows "(\<exists>x. r = Inl x) \<and> access_kept s s' \<and> sv_good s' = sv_good s"
proof (cases "current = []")
  case False
  obtain o1 s1 where t: "try_password cr rq (auth_creds s) (fst (auth_creds s)) current s = (o1, s1)" by fastforce
  then have "o1 = Throttled \<or> o1 = Wrong"
    using assms(3) False by (auto simp: password_known_def elim!: try_passwordE)
  then show ?thesis using assms(1,2) False t try_kept [OF t assms(4)]
    by (auto simp: require_step_up_def Let_def)
qed (use assms(1,2) in \<open>auto simp: require_step_up_def\<close>)

end
