(* ===== verification/Boot.thy ===== *)
theory Boot
  imports AccessHold
begin

text \<open>
  The boot and reload sequences of \<open>main.go\<close> around the settings: the compiled-in defaults, the
  access hold and the explicit \<open>-access\<close> flag, the first-run hold on monitoring, the reload signal,
  the retry of a failed load, and \<open>reset-auth\<close>.  Log lines are not modelled; the database reads made
  only for a line are, because they take their turn at the database.
\<close>

record app_config =
  ap_monitoring_consent :: bool
  ap_quick_setup_skip :: bool
  ap_access :: string
  ap_access_explicit :: bool
  ap_interval :: duration
  ap_timeout :: duration
  ap_latency_enabled :: bool
  ap_down_after :: int
  ap_up_after :: int
  ap_speedtest_enabled :: bool
  ap_speedtest_interval :: duration
  ap_speedtest_on_reconnect :: bool
  ap_ipv6_mode :: string
  ap_retention :: duration
  ap_speed_retention :: duration
  ap_downtime_retention :: duration

record program =
  pg_cfg :: app_config
  pg_hold :: access_hold
  pg_hold_warned :: bool
  pg_ctl :: controller

definition on_settings :: "(controller \<Rightarrow> 'a \<times> controller) \<Rightarrow> program \<Rightarrow> 'a \<times> program" where
  "on_settings f p = (case f (pg_ctl p) of (r, c) \<Rightarrow> (r, p\<lparr>pg_ctl := c\<rparr>))"

section \<open>The defaults of a fresh install\<close>

definition default_settings :: "app_config \<Rightarrow> config_values" where
  "default_settings cfg = \<lparr>
     va_latency = ap_interval cfg, va_latency_enabled = ap_latency_enabled cfg, va_dns_probe = True,
     va_netinfo_enabled = True, va_speed = ap_speedtest_interval cfg, va_retention = ap_retention cfg,
     va_speed_retention = ap_speed_retention cfg, va_downtime_retention = ap_downtime_retention cfg,
     va_timeout = ap_timeout cfg, va_save_every = 5 * minute, va_down_after = ap_down_after cfg,
     va_up_after = ap_up_after cfg, va_speed_server_id = [], va_speed_servers = [],
     va_speedtest_enabled = ap_speedtest_enabled cfg, va_speedtest_on_reconnect = ap_speedtest_on_reconnect cfg,
     va_ipv6_mode = ap_ipv6_mode cfg, va_exit_target = ''1.1.1.1'', va_monitoring = True,
     va_thresh_down_mbps = Finite 0, va_thresh_up_mbps = Finite 0, va_thresh_ping_ms = Finite 0,
     va_thresh_jitter_ms = Finite 0, va_thresh_loss_pct = Finite 0, va_thresh_consec = 0,
     va_thresh_bloat_down_ms = Finite 0, va_thresh_bloat_up_ms = Finite 0, va_alert_on_outage = False,
     va_webhook_url = [], va_webhook_format = [], va_heartbeat_url = [], va_digest_freq = [],
     va_sched_lat_enabled = False, va_sched_lat_windows = [], va_sched_speed_enabled = False,
     va_sched_speed_windows = [], va_access_local_only = (ap_access cfg \<noteq> ''network''), va_auth_enabled = False,
     va_auth_user = [], va_auth_hash = [], va_update_check_enabled = True, va_quick_setup_done = False,
     va_log_level = ''off'', va_log_redact_pii = True, va_speedtest_adaptive = False,
     va_speedtest_on_degraded = False, va_degraded_ping_ms = Finite 150, va_speedtest_skip_busy = False,
     va_speed_busy_mbps = Finite 5, va_speedtest_record_failures = False, va_speed_engine = ''ookla'',
     va_iperf_server = [], va_iperf_servers = [], va_speed_direction = ''both'', va_speed_retries = 1,
     va_iperf_direction = ''both'', va_iperf_retries = 1, va_iperf_dur = 5, va_iperf_streams = 8,
     va_iperf_omit = 1, va_iperf_udp = True, va_iperf_udp_rate = 0, va_iperf_window = 0,
     va_ookla_connections = 0, va_speed_challenge_every = 12, va_ookla_loss = True,
     va_speed_discard_losers = True, va_speed_best_of_count = 1, va_iperf_congestion = [],
     va_iperf_no_delay = False, va_iperf_dscp = [], va_iperf_mss = 0\<rparr>"

section \<open>The access hold\<close>

definition hold_access_local_after_rebuild :: "app_config \<Rightarrow> bool \<Rightarrow> app_config \<times> bool" where
  "hold_access_local_after_rebuild cfg hold_stands =
     (if \<not> hold_stands \<or> ap_access cfg \<noteq> ''network'' then (cfg, False)
      else (cfg\<lparr>ap_access := ''local'', ap_access_explicit := False\<rparr>, True))"

definition access_seed_at_boot :: "program \<Rightarrow> app_config \<times> program" where
  "access_seed_at_boot p = (case on_settings (on_store access_hold_after_rebuild) p of
     ((stands, Some e), p) \<Rightarrow> (pg_cfg p, p\<lparr>pg_hold := HeldUnread\<rparr>)
   | ((stands, None), p) \<Rightarrow>
       let p = (if stands then p\<lparr>pg_hold := HeldAfterRebuild\<rparr> else p)
       in (fst (hold_access_local_after_rebuild (pg_cfg p) stands), p))"

definition judge_access_hold :: "program \<Rightarrow> app_config \<times> program" where
  "judge_access_hold p = (case on_settings (on_store access_hold_after_rebuild) p of
     ((stands, Some e), p) \<Rightarrow>
        (fst (hold_access_local_after_rebuild (pg_cfg p) True), p\<lparr>pg_hold := HeldUnread, pg_hold_warned := False\<rparr>)
   | ((stands, None), p) \<Rightarrow>
       let (cfg, withheld) = hold_access_local_after_rebuild (pg_cfg p) stands;
           network_in_force = (stands \<and> \<not> va_access_local_only (ct_vals (pg_ctl p)));
           withheld = (network_in_force \<or> withheld)
       in if \<not> withheld then (cfg, p\<lparr>pg_hold := NotHeld, pg_hold_warned := False\<rparr>)
          else let p = (if \<not> pg_hold_warned p \<and> network_in_force
                        then snd (on_settings (on_store all_settings) p) else p)
               in (cfg, p\<lparr>pg_hold := HeldAfterRebuild, pg_hold_warned := True\<rparr>))"

definition reconcile_access :: "codec \<Rightarrow> app_config \<Rightarrow> program \<Rightarrow> (bool \<times> cfg_error option) \<times> program" where
  "reconcile_access cd cfg p =
     (if \<not> ap_access_explicit cfg then ((False, None), p)
      else let want_local_only = (ap_access cfg \<noteq> ''network'') in
        if va_access_local_only (ct_vals (pg_ctl p)) = want_local_only then ((False, None), p)
        else case on_settings (set_access_local_only cd want_local_only) p of
            (Inl e, p) \<Rightarrow> ((True, Some e), p) | (Inr _, p) \<Rightarrow> ((True, None), p))"

text \<open>Whether the warning about a container with no recorded access choice is given.\<close>

definition warn_ambiguous_container_access :: "world \<Rightarrow> app_config \<Rightarrow> bool \<Rightarrow> (program, db_error, bool) call" where
  "warn_ambiguous_container_access w cfg in_container p =
     (if \<not> in_container \<or> ap_access_explicit cfg then (Inr False, p)
      else case on_settings (on_store all_settings) p of
          (Inl e, p) \<Rightarrow> (Inl e, p)
        | (Inr m, p) \<Rightarrow>
            if m ''access_local_only'' \<noteq> None \<or> m access_hold_key \<noteq> None \<or> m born_version_key \<noteq> None
            then (Inr False, p)
            else on_settings (established_in_store w) p)"

definition apply_explicit_access :: "codec \<Rightarrow> world \<Rightarrow> bool \<Rightarrow> bool \<Rightarrow> program \<Rightarrow> (bool \<times> cfg_error option) \<times> program" where
  "apply_explicit_access cd w in_container warn_ambiguity p =
     (case judge_access_hold p of (cfg, p) \<Rightarrow>
        let p = (if warn_ambiguity then snd (warn_ambiguous_container_access w (pg_cfg p) in_container p) else p)
        in reconcile_access cd cfg p)"

section \<open>The first-run hold on monitoring\<close>

datatype qs_hold_state = QsHeld | QsProvisional | QsReleased

definition fresh_or_unread :: "world \<Rightarrow> program \<Rightarrow> qs_hold_state \<times> program" where
  "fresh_or_unread w p = (case on_settings (established_in_store w) p of
     (Inr True, p) \<Rightarrow> (QsProvisional, p) | (_, p) \<Rightarrow> (QsHeld, p))"

definition quick_setup_hold_state :: "world \<Rightarrow> int \<Rightarrow> program \<Rightarrow> qs_hold_state \<times> program" where
  "quick_setup_hold_state w now p =
     (if \<not> loaded (pg_ctl p) then fresh_or_unread w p
      else if va_quick_setup_done (ct_vals (pg_ctl p)) then (QsReleased, p)
      else case on_settings quick_setup_offer_since_err p of
          (Inl e, p) \<Rightarrow> (QsHeld, p)
        | (Inr since, p) \<Rightarrow>
            if since = 0 then fresh_or_unread w p
            else if quick_setup_hold (va_quick_setup_done (ct_vals (pg_ctl p))) since now then (QsHeld, p)
            else (QsReleased, p))"

text \<open>\<open>monitoringLive\<close>, with its latch: whether to measure, and whether the connection lookups are
  to be nudged.\<close>

definition monitoring_live :: "world \<Rightarrow> int \<Rightarrow> bool \<Rightarrow> program \<Rightarrow> (bool \<times> bool \<times> bool) \<times> program" where
  "monitoring_live w now released p =
     (let on = (\<lambda>p. va_monitoring (ct_vals (pg_ctl p))) in
      if released then ((on p, True, False), p)
      else case quick_setup_hold_state w now p of
          (QsHeld, p) \<Rightarrow> ((False, False, False), p)
        | (QsProvisional, p) \<Rightarrow> ((on p, False, False), p)
        | (QsReleased, p) \<Rightarrow> ((on p, True, True), p))"

definition seed_quick_setup_offer_early :: "codec \<Rightarrow> world \<Rightarrow> int \<Rightarrow> program \<Rightarrow> program" where
  "seed_quick_setup_offer_early cd w now p =
     (if loaded (pg_ctl p) then p else snd (on_settings (ensure_quick_setup_offer cd w now) p))"

definition materialize_quick_setup :: "codec \<Rightarrow> world \<Rightarrow> int \<Rightarrow> program \<Rightarrow> program" where
  "materialize_quick_setup cd w now p =
     (let p = (if (ap_monitoring_consent (pg_cfg p) \<or> ap_quick_setup_skip (pg_cfg p))
                  \<and> \<not> va_quick_setup_done (ct_vals (pg_ctl p))
               then snd (on_settings (set_quick_setup_done cd True) p) else p)
      in snd (on_settings (ensure_quick_setup_offer cd w now) p))"

section \<open>Boot, reload and retry\<close>

text \<open>The controller's reload with the hook the program registered.\<close>

definition reload_with_hook :: "codec \<Rightarrow> world \<Rightarrow> bool \<Rightarrow> program \<Rightarrow> cfg_error option \<times> program" where
  "reload_with_hook cd w in_container p = (case on_settings (reload_and_tell cd w) p of
     ((err, None), p) \<Rightarrow> (err, p)
   | ((err, Some first), p) \<Rightarrow> (err, snd (apply_explicit_access cd w in_container first p)))"

definition handle_reload :: "codec \<Rightarrow> world \<Rightarrow> bool \<Rightarrow> int \<Rightarrow> program \<Rightarrow> program" where
  "handle_reload cd w in_container now p =
     (let p = seed_quick_setup_offer_early cd w now p in
      case reload_with_hook cd w in_container p of (err, p) \<Rightarrow>
        if loaded_ok err then materialize_quick_setup cd w now p else p)"

text \<open>One turn of the retry loop: whether the loop is over.\<close>

definition retry_turn :: "codec \<Rightarrow> world \<Rightarrow> bool \<Rightarrow> int \<Rightarrow> program \<Rightarrow> bool \<times> program" where
  "retry_turn cd w in_container now p =
     (if loaded (pg_ctl p) then (True, p)
      else let p = seed_quick_setup_offer_early cd w now p in
        case reload_with_hook cd w in_container p of (err, p) \<Rightarrow>
          if loaded_ok err then (True, materialize_quick_setup cd w now p) else (False, p))"

definition retry_first :: duration where "retry_first = 5 * second"
definition retry_max :: duration where "retry_max = 5 * minute"

definition next_retry :: "duration \<Rightarrow> duration" where
  "next_retry wait = (let wait = wait * 2 in if wait > retry_max then retry_max else wait)"

text \<open>The loop over the environments of its turns: the readings and faults each one meets.\<close>

fun retry_settings_load :: "codec \<Rightarrow> bool \<Rightarrow> duration \<Rightarrow> (world \<times> int) list \<Rightarrow> program \<Rightarrow> (bool \<times> duration) \<times> program" where
  "retry_settings_load cd in_container wait [] p = ((False, wait), p)"
| "retry_settings_load cd in_container wait ((w, now) # turns) p = (case retry_turn cd w in_container now p of
     (True, p) \<Rightarrow> ((True, wait), p)
   | (False, p) \<Rightarrow> retry_settings_load cd in_container (next_retry wait) turns p)"

text \<open>The part of \<open>run\<close> from the seed of the defaults to the hook.\<close>

definition boot_settings ::
  "codec \<Rightarrow> world \<Rightarrow> bool \<Rightarrow> int \<Rightarrow> cfg_option list \<Rightarrow> app_config \<Rightarrow> speed_db \<Rightarrow> cfg_error option \<times> program" where
  "boot_settings cd w in_container now options cfg d =
     (let p = \<lparr>pg_cfg = cfg, pg_hold = NotHeld, pg_hold_warned = False,
               pg_ctl = idle_controller d (default_settings cfg)\<rparr>;
          (seed, p) = access_seed_at_boot p;
          (err, c) = new_controller cd w (ct_db (pg_ctl p)) (default_settings seed) options;
          p = p\<lparr>pg_ctl := c\<rparr>
      in (err, if loaded_ok err
               then snd (apply_explicit_access cd w in_container True (materialize_quick_setup cd w now p)) else p))"

text \<open>\<open>reset-auth\<close> on an existing database, settings defaults all zero (\<open>blank\<close>).\<close>

definition reset_auth :: "codec \<Rightarrow> world \<Rightarrow> config_values \<Rightarrow> speed_db \<Rightarrow> (cfg_error option \<times> bool) \<times> controller" where
  "reset_auth cd w blank d =
     (case new_controller cd w d blank [WithDatabaseCreated False] of (_, c) \<Rightarrow>
       (case clear_auth cd c of
          (Inl e, c) \<Rightarrow> ((Some e, False), c)
        | (Inr _, c) \<Rightarrow> (case on_store release_access_hold c of
             (Inl e, c) \<Rightarrow> ((Some (StoreErr e), False), c) | (Inr was, c) \<Rightarrow> ((None, was), c))))"

end
