(* ===== verification/AccessProps.thy ===== *)
theory AccessProps
  imports AccessFacts Boot ExampleCodec
begin

text \<open>
  The properties of the dashboard's access control: what the guard lets through, what the throttle
  allows, what a login earns and for how long, and what may change access.
\<close>

section \<open>The throttle\<close>

text \<open>C8: As long as no attempt of a bucket succeeds, at most five password comparisons of the
  bucket start within any thirty seconds, whatever the order of attempts and failures, however many
  are in flight at once and whatever the other buckets do.\<close>

theorem attempts_rate_limited:
  assumes "f ip = None" and "ticking t ops" and "ClearOk ip \<notin> set ops"
  shows "granted_lately u (lim_grants ip ops f) \<le> 5"
proof -
  have "bucket_ok ip [] t f" using assms(1) by (simp add: bucket_ok_def granted_lately_def)
  moreover have "\<forall>u. granted_lately u [] \<le> 5" by (simp add: granted_lately_def)
  ultimately show ?thesis using grants_bounded [of ip "[]" t f ops u] assms(2,3) by simp
qed

definition eg_at :: "int \<Rightarrow> gtime" where
  "eg_at s = \<lparr>wall_ns = (1700000000 + s) * 1000000000, mono_ns = Some (s * 1000000000)\<rparr>"

definition eg_attempts :: "lim_op list" where
  "eg_attempts = replicate 6 (Reserve (eg_at 1) ''10.0.0.9'') @ replicate 5 (ReleaseFail (eg_at 2) ''10.0.0.9'') @
     [Reserve (eg_at 20) ''10.0.0.9'', Reserve (eg_at 40) ''10.0.0.9'']"

lemma attempts_rate_limited_witness:
  "granted_lately 40000000000 (lim_grants ''10.0.0.9'' eg_attempts Map.empty) \<le> 5"
  by (rule attempts_rate_limited [where t = 0])
    (simp_all add: eg_attempts_def eg_at_def op_time_def eval_nat_numeral)

section \<open>The guard\<close>

lemma guard_host_passes:
  "guard_host cr rq s = (None, s') \<Longrightarrow>
     \<not> sv_reconciling s \<and> host_allowed cr (rq_host rq) (sv_allowed_hosts s) \<and> access_kept s s' \<and>
     sv_good s' = sv_good s \<and> sv_metrics_token s' = sv_metrics_token s \<and> sv_fails s' = sv_fails s \<and> sv_trusted s' = sv_trusted s"
  by (auto simp: guard_host_def split: if_splits)

lemma guard_local_passes:
  "guard_local cr rq s = (None, s') \<Longrightarrow>
     (va_access_local_only (ct_vals (sv_ctl s)) \<or> hold_enforced (access_held s) (loaded (sv_ctl s)) \<longrightarrow>
       is_loopback_addr (rq_remote rq)) \<and> access_kept s s' \<and> sv_good s' = sv_good s \<and>
     sv_metrics_token s' = sv_metrics_token s \<and> sv_fails s' = sv_fails s \<and> sv_trusted s' = sv_trusted s"
  by (auto simp: guard_local_def Let_def split: if_splits)

lemma kept_shown:
  assumes "access_kept s s'" and "sv_good s' = sv_good s"
  shows "credentials_shown cr rq s' = credentials_shown cr rq s"
proof -
  have e: "auth_creds s' = auth_creds s" using assms(1) by (rule access_kept_creds)
  have "pair_cached cr c u p s' = pair_cached cr c u p s" for c u p using assms(2) by (simp add: pair_cached_def)
  then show ?thesis unfolding credentials_shown_def e access_kept_session [OF assms(1)]
    by (simp split: option.split)
qed

lemma guard_auth_passes:
  assumes "guard_auth cr rq s = (None, s')" and "login_active (sv_ctl s)" and "\<not> auth_exempt rq"
  shows "(rq_path rq = ''/metrics'' \<and> metrics_token_ok rq s) \<or> credentials_shown cr rq s"
  using assms authed_shows [of cr rq s] unfolding guard_auth_def
  by (auto simp: Let_def split: if_splits prod.splits bool.splits)

text \<open>C7: A request the guard forwards either asks for one of the two health probes, or names an
  allowed host on a server that is not reconciling a restore and has its settings, comes from the
  machine itself when access is local or held, and, when a login is active and the route is not one
  of the exempt ones, carries a valid session token, a matching login, the login the cache vouches
  for, or the metrics token on \<open>/metrics\<close>.\<close>

theorem guard_admits_only:
  assumes "guard cr rq s = (None, s')"
  shows "rq_path rq \<in> {''/healthz'', ''/readyz''} \<or>
    \<not> sv_reconciling s \<and> host_allowed cr (rq_host rq) (sv_allowed_hosts s) \<and> loaded (sv_ctl s) \<and>
    (va_access_local_only (ct_vals (sv_ctl s)) \<or> access_held s \<noteq> NotHeld \<longrightarrow> is_loopback_addr (rq_remote rq)) \<and>
    (login_active (sv_ctl s) \<and> \<not> auth_exempt rq \<longrightarrow>
      credentials_shown cr rq s \<or> rq_path rq = ''/metrics'' \<and> metrics_token_ok rq s)"
proof (cases "rq_path rq = ''/healthz'' \<or> rq_path rq = ''/readyz''")
  case False
  obtain r1 s1 where h: "guard_host cr rq s = (r1, s1)" by fastforce
  obtain r2 s2 where l: "guard_local cr rq s1 = (r2, s2)" by fastforce
  have r1: "r1 = None" using assms False h by (cases r1) (auto simp: guard_def)
  have r2: "r2 = None" using assms False h r1 l by (cases r2) (auto simp: guard_def)
  note h1 = guard_host_passes [OF h [unfolded r1]]
  note l1 = guard_local_passes [OF l [unfolded r2]]
  have kept: "access_kept s s2" "sv_good s2 = sv_good s" "sv_metrics_token s2 = sv_metrics_token s"
    using h1 l1 access_kept_trans by auto
  have a: "loaded (sv_ctl s2)" "guard_auth cr rq s2 = (None, s')"
    using assms False h r1 l r2 by (auto simp: guard_def split: if_splits)
  have ld: "loaded (sv_ctl s)" "loaded (sv_ctl s1)" using a(1) kept h1 by (auto simp: loaded_def access_kept_def)
  have "access_held s1 \<noteq> NotHeld \<Longrightarrow> hold_enforced (access_held s1) (loaded (sv_ctl s1))"
    using ld(2) by (cases "access_held s1") simp_all
  then have "va_access_local_only (ct_vals (sv_ctl s)) \<or> access_held s \<noteq> NotHeld \<longrightarrow> is_loopback_addr (rq_remote rq)"
    using l1 h1 access_kept_held [of s s1] by (auto simp: access_kept_def)
  moreover have "login_active (sv_ctl s) \<and> \<not> auth_exempt rq \<longrightarrow>
      credentials_shown cr rq s \<or> rq_path rq = ''/metrics'' \<and> metrics_token_ok rq s"
    using guard_auth_passes [OF a(2)] kept_shown [OF kept(1,2)] access_kept_active [OF kept(1)] kept(3)
    by (auto simp: metrics_token_ok_def Let_def)
  ultimately show ?thesis using h1 ld by blast
qed simp

section \<open>Whose bucket\<close>

definition ip_groups :: "int list \<Rightarrow> bool" where
  "ip_groups ws \<longleftrightarrow> length ws = 8 \<and> list_all (\<lambda>w. 0 \<le> w \<and> w < 65536) ws \<and> \<not> is_mapped ws"

lemma mask_low: "list_all (\<lambda>w. 0 \<le> w \<and> w < 65536) ws \<Longrightarrow> b \<le> 0 \<Longrightarrow> mask_list 16 b ws = replicate (length ws) 0"
  by (induction ws arbitrary: b) (simp_all add: Let_def)

lemma mask_half:
  assumes "ip_groups ws" shows "mask_list 16 64 ws = mask_list 16 64 (take 4 ws) @ [0, 0, 0, 0]"
proof -
  obtain a b c d e f g h where ws: "ws = [a, b, c, d, e, f, g, h]"
    using assms by (auto simp: ip_groups_def length_Suc_conv eval_nat_numeral)
  then have "mask_list 16 0 [e, f, g, h] = replicate 4 0"
    using mask_low [of "[e, f, g, h]" 0] assms by (simp add: ip_groups_def eval_nat_numeral)
  then show ?thesis by (simp add: ws eval_nat_numeral)
qed

text \<open>A client that is no trusted proxy cannot choose its throttle bucket by a forwarding header,
  and all the addresses of one IPv6 /64 share a bucket.\<close>

theorem bucket_not_spoofable:
  assumes "\<not> peer_trusted rq s" and "ip_groups ws" and "ip_groups ws'" and "take 4 ws = take 4 ws'"
  shows "limiter_key (rq\<lparr>rq_forwarded_for := hops\<rparr>) s = limiter_key rq s \<and> bucket_of (V6 ws z) = bucket_of (V6 ws' z')"
proof -
  have "client_ip (rq\<lparr>rq_forwarded_for := hops\<rparr>) = client_ip rq" by (simp add: client_ip_def split: option.split)
  then have "limiter_key (rq\<lparr>rq_forwarded_for := hops\<rparr>) s = limiter_key rq s"
    using assms(1) by (simp add: limiter_key_def peer_trusted_def split: option.splits)
  moreover have "bucket_of (V6 ws z) = bucket_of (V6 ws' z')"
    using assms(2,3) mask_half [OF assms(2)] mask_half [OF assms(3)] assms(4) by (simp add: bucket_of_def ip_groups_def)
  ultimately show ?thesis by blast
qed

definition eg_crypto :: crypto where
  "eg_crypto = \<lparr>cr_mac = (\<lambda>k m. replicate (length k) CHR ''1'' @ CHR ''#'' # k @ m), cr_match = (\<lambda>h p. h = ''hash:'' @ p), cr_hash = (\<lambda>n p. Some (''hash:'' @ p)),
     cr_lower = map lower_char\<rparr>"

definition eg_web_server :: "controller \<Rightarrow> server" where
  "eg_web_server c = \<lparr>sv_ctl = c, sv_fails = Map.empty, sv_good = None, sv_trusted = [], sv_rewrite_warned = False,
     sv_proxied_warned = False, sv_host_reject = \<lparr>lc_last = zero_time, lc_dropped = 0\<rparr>,
     sv_local_reject = \<lparr>lc_last = zero_time, lc_dropped = 0\<rparr>, sv_allowed_hosts = [], sv_session_key = ''key'',
     sv_metrics_token = [], sv_listen = '':9000'', sv_in_container = False, sv_reconciling = False, sv_hold = NotHeld,
     sv_hold_released = False, sv_salt = 0\<rparr>"

definition eg_login_values :: config_values where
  "eg_login_values = eg_values\<lparr>va_auth_enabled := True, va_auth_hash := ''hash:secret''\<rparr>"

definition eg_login_server :: server where
  "eg_login_server = eg_web_server (idle_controller eg_db eg_values\<lparr>ct_vals := eg_login_values\<rparr>)"

definition eg_request :: request where
  "eg_request = \<lparr>rq_path = ''/api/status'', rq_method = ''GET'', rq_host = ''plex:9000'', rq_remote = ''10.0.0.9:4711'',
     rq_cookie = None, rq_basic = Some (''admin'', ''secret''), rq_authorization = [], rq_forwarded_for = [],
     rq_forwarded_proto = [], rq_ui = [], rq_media = ''application/json'', rq_body_empty = False, rq_now = eg_at 10,
     rq_after = eg_at 11, rq_mid = (\<lambda>s. s)\<rparr>"

lemma eg_key: "limiter_key (eg_request\<lparr>rq_forwarded_for := hops\<rparr>) eg_login_server = ''10.0.0.9''"
proof -
  have "split_host_port ''10.0.0.9:4711'' = Some (''10.0.0.9'', ''4711'')" by code_simp
  moreover have "parse_addr ''10.0.0.9'' = Some (V4 [10, 0, 0, 9])" by code_simp
  moreover have "bucket_of (V4 [10, 0, 0, 9]) = ''10.0.0.9''" by code_simp
  ultimately show ?thesis
    by (simp add: limiter_key_def client_ip_def eg_request_def eg_login_server_def eg_web_server_def trusted_peer_def)
qed

lemma bucket_not_spoofable_witness:
  "limiter_key (eg_request\<lparr>rq_forwarded_for := [''1.2.3.4'']\<rparr>) eg_login_server = limiter_key eg_request eg_login_server \<and>
   bucket_of (V6 [8193, 3512, 0, 1, 0, 0, 0, 7] []) = bucket_of (V6 [8193, 3512, 0, 1, 9, 9, 9, 9] ''en0'')"
proof (rule bucket_not_spoofable)
  show "\<not> peer_trusted eg_request eg_login_server"
    by (simp add: peer_trusted_def eg_login_server_def eg_web_server_def trusted_peer_def split: option.split)
qed (simp_all add: ip_groups_def is_mapped_def)

lemma eg_hosts: "host_allowed eg_crypto ''plex:9000'' []"
  by code_simp

lemma eg_login_vals: "ct_vals (sv_ctl eg_login_server) = eg_login_values" "sv_allowed_hosts eg_login_server = []"
  "sv_fails eg_login_server = Map.empty" "sv_good eg_login_server = None" "ct_init_err (sv_ctl eg_login_server) = False"
  "sv_reconciling eg_login_server = False" "access_held eg_login_server = NotHeld" "sv_metrics_token eg_login_server = []"
  by (simp_all add: eg_login_server_def eg_web_server_def idle_controller_def access_held_def)

lemma eg_active: "login_active (sv_ctl eg_login_server)" "auth_creds eg_login_server = (''admin'', ''hash:secret'')"
  "va_access_local_only eg_login_values = False"
  by (simp_all add: auth_active_def auth_creds_def eg_login_vals eg_login_values_def eg_values_def)

lemma eg_try:
  "fst (try_password eg_crypto eg_request (''admin'', ''hash:secret'') ''admin'' ''secret'' eg_login_server) = Proved"
  by (simp add: try_password_def reserve_attempt_def eg_login_vals reserve_def prune_fails_def served_def fresh_fail_state_def
      Let_def max_login_fails_def check_password_def eg_request_def eg_crypto_def auth_creds_def eg_login_values_def eg_values_def)

lemma eg_request_passes: "fst (guard eg_crypto eg_request eg_login_server) = None"
proof -
  have h: "guard_host eg_crypto eg_request eg_login_server = (None, eg_login_server)"
    using eg_hosts by (simp add: guard_host_def eg_login_vals eg_request_def)
  have l: "guard_local eg_crypto eg_request eg_login_server = (None, eg_login_server)"
    by (simp add: guard_local_def eg_login_vals eg_active Let_def)
  have "authed eg_crypto eg_request eg_login_server = (True, snd (authed eg_crypto eg_request eg_login_server))"
    using eg_try by (cases "try_password eg_crypto eg_request (''admin'', ''hash:secret'') ''admin'' ''secret'' eg_login_server")
      (auto simp: authed_def eg_active session_valid_def eg_request_def Let_def)
  then have "fst (guard_auth eg_crypto eg_request eg_login_server) = None"
    by (cases "authed eg_crypto eg_request eg_login_server")
      (simp add: guard_auth_def eg_active eg_login_vals blocked_def split: option.split)
  then show ?thesis using h l by (simp add: guard_def eg_login_vals loaded_def eg_request_def)
qed

lemma guard_admits_only_witness:
  "fst (guard eg_crypto eg_request eg_login_server) = None \<and> credentials_shown eg_crypto eg_request eg_login_server"
proof -
  have "guard eg_crypto eg_request eg_login_server = (None, snd (guard eg_crypto eg_request eg_login_server))"
    using eg_request_passes by (metis prod.collapse)
  from guard_admits_only [OF this] show ?thesis
    using eg_request_passes eg_active by (simp add: eg_request_def auth_exempt_def)
qed

section \<open>What a login earns\<close>

lemma try_creds:
  assumes "try_password cr rq cred user pass s = (r, s')" and "r = Proved \<or> r = Vouched"
  shows "auth_creds s' = cred"
  using assms(1)
proof (rule try_passwordE, goal_cases proved vouched throttled wrong)
  case (proved f)
  then show ?case by (simp add: remember_good_def attempt_ok_def auth_creds_def)
next
  case (vouched f)
  then show ?case by (simp add: auth_creds_def)
qed (use assms(2) in auto)

text \<open>C10: A login is answered with a session only for the configured user with a matching password or
  one the cache vouches for; the session is then good for exactly thirty days, as long as the
  credentials, the epoch and the key stay what they were.\<close>

theorem login_earns_thirty_days:
  assumes "handle_login cr rq (Some (user, pass)) s = (Inr (SessionCookie tok secure), s')"
    and "rq_cookie rq' = Some tok" and "in_int64 (t_unix (rq_after rq) + 30 * 24 * 60 * 60)"
  shows "(pair_matches cr (auth_creds s) (trim_space user) pass \<or> pair_cached cr (auth_creds s) (trim_space user) pass s) \<and>
    session_valid cr rq' (auth_creds s') s' = (t_unix (rq_now rq') < t_unix (rq_after rq) + 30 * 24 * 60 * 60)"
proof -
  let ?c = "auth_creds s"
  obtain r s1 where t: "try_password cr rq ?c (trim_space user) pass s = (r, s1)" by fastforce
  have ok: "r = Proved \<or> r = Vouched" and s1: "s' = s1" "SessionCookie tok secure = session_cookie cr rq ?c s1"
    using assms(1) t
    by (auto simp: handle_login_def decode_body_def Let_def split: if_splits attempt.splits)
  have "pair_matches cr ?c (trim_space user) pass \<or> pair_cached cr ?c (trim_space user) pass s"
    using t ok by (auto elim!: try_passwordE)
  moreover have "auth_creds s' = ?c" using try_creds [OF t ok] s1 by simp
  moreover have tok: "tok = issue_token cr (fst ?c) (server_token_key (snd ?c) s') (ct_epoch (sv_ctl s')) (rq_after rq)"
    using s1 by (simp add: session_cookie_def)
  moreover have "token_expiry (rq_after rq) = t_unix (rq_after rq) + 30 * 24 * 60 * 60"
    by (simp add: token_expiry_def t_unix_def t_add_def session_ttl_def)
  ultimately show ?thesis using assms(2,3) verify_issued [of "rq_after rq"]
    by (simp add: session_valid_def)
qed

definition eg_login_request :: request where
  "eg_login_request = eg_request\<lparr>rq_path := ''/api/auth/login'', rq_method := ''POST'', rq_basic := None\<rparr>"

lemma eg_key_login: "limiter_key eg_login_request eg_login_server = ''10.0.0.9''"
proof -
  have "split_host_port ''10.0.0.9:4711'' = Some (''10.0.0.9'', ''4711'')" by code_simp
  moreover have "parse_addr ''10.0.0.9'' = Some (V4 [10, 0, 0, 9])" by code_simp
  moreover have "bucket_of (V4 [10, 0, 0, 9]) = ''10.0.0.9''" by code_simp
  ultimately show ?thesis
    by (simp add: limiter_key_def client_ip_def eg_login_request_def eg_request_def eg_login_server_def eg_web_server_def trusted_peer_def)
qed

lemma eg_trim: "trim_space ''admin'' = ''admin''"
  by code_simp

lemma eg_try_login:
  assumes "rq_mid rq = (\<lambda>s. s)" and "sv_fails s = Map.empty" and "auth_creds s = (''admin'', ''hash:secret'')"
  shows "try_password eg_crypto rq (''admin'', ''hash:secret'') ''admin'' ''secret'' s =
    (Proved, remember_good eg_crypto (''admin'', ''hash:secret'') ''secret'' (attempt_ok (limiter_key rq s)
       (s\<lparr>sv_fails := [limiter_key rq s \<mapsto> \<lparr>fs_count = 0, fs_pending = 1, fs_last = rq_now rq\<rparr>]\<rparr>)))"
  using assms by (simp add: try_password_def reserve_attempt_def reserve_def prune_fails_def served_def fresh_fail_state_def
      Let_def max_login_fails_def check_password_def eg_crypto_def auth_creds_def)

lemma eg_login_runs:
  "handle_login eg_crypto eg_login_request (Some (''admin'', ''secret'')) eg_login_server =
     (Inr (SessionCookie (issue_token eg_crypto ''admin'' (token_key ''key'' ''hash:secret'') 0 (eg_at 11)) False),
      eg_login_server\<lparr>sv_fails := Map.empty, sv_good := Some (cred_fingerprint eg_crypto ''admin'' ''secret'' ''hash:secret'')\<rparr>)"
proof -
  have m: "rq_mid eg_login_request = (\<lambda>s. s)" by (simp add: eg_login_request_def eg_request_def)
  show ?thesis
    using eg_try_login [OF m eg_login_vals(3) eg_active(2)] eg_active(2) eg_trim
    by (simp add: handle_login_def decode_body_def Let_def eg_login_request_def eg_request_def session_cookie_def
        secure_cookie_def server_token_key_def remember_good_def attempt_ok_def limiter_ok_def eg_login_server_def eg_web_server_def
        idle_controller_def)
qed

lemma login_earns_thirty_days_witness:
  "session_valid eg_crypto
     (eg_request\<lparr>rq_cookie := Some (issue_token eg_crypto ''admin'' (token_key ''key'' ''hash:secret'') 0 (eg_at 11)), rq_now := eg_at 2592010\<rparr>)
     (auth_creds (eg_login_server\<lparr>sv_fails := Map.empty, sv_good := Some (cred_fingerprint eg_crypto ''admin'' ''secret'' ''hash:secret'')\<rparr>))
     (eg_login_server\<lparr>sv_fails := Map.empty, sv_good := Some (cred_fingerprint eg_crypto ''admin'' ''secret'' ''hash:secret'')\<rparr>)"
  using login_earns_thirty_days [OF eg_login_runs, of "eg_request\<lparr>rq_cookie := Some (issue_token eg_crypto ''admin''
      (token_key ''key'' ''hash:secret'') 0 (eg_at 11)), rq_now := eg_at 2592010\<rparr>"]
  by (simp add: eg_login_request_def eg_request_def eg_at_def t_unix_def in_int64_def)

text \<open>C38: A login that straddles a change of the credentials earns nothing: the password it proved, or
  the pair the cache had for it, is not the password any more, so it gets no session and leaves nothing
  in the cache.\<close>

theorem straddling_login_earns_nothing:
  assumes "handle_login cr rq (Some (user, pass)) s = (r, s')"
    and change: "\<And>x. auth_creds (rq_mid rq x) \<noteq> auth_creds s \<and> sv_good (rq_mid rq x) = sv_good x"
  shows "(\<forall>c. r \<noteq> Inr c) \<and> sv_good s' = sv_good s"
proof (cases "rq_method rq = ''POST'' \<and> decode_body rq (Some (user, pass)) = Inr (user, pass)")
  case True
  obtain o1 s1 where t: "try_password cr rq (auth_creds s) (trim_space user) pass s = (o1, s1)" by fastforce
  then have "(o1 = Throttled \<or> o1 = Wrong) \<and> sv_good s1 = sv_good s"
  proof (rule try_passwordE, goal_cases proved vouched throttled wrong)
    case (proved f)
    then show ?case using change by blast
  next
    case (vouched f)
    then show ?case using change by blast
  next
    case (throttled f)
    then show ?case using change [of "s\<lparr>sv_fails := f\<rparr>"] by simp
  next
    case (wrong f)
    then show ?case using change [of "s\<lparr>sv_fails := f\<rparr>"] by (simp add: attempt_failed_def)
  qed
  then show ?thesis using assms(1) True t by (auto simp: handle_login_def)
next
  case False
  then show ?thesis using assms(1) by (auto simp: handle_login_def decode_body_def split: if_splits)
qed

definition eg_changing :: request where
  "eg_changing = eg_login_request\<lparr>rq_mid := (\<lambda>s. s\<lparr>sv_ctl := (sv_ctl s)\<lparr>ct_vals := (ct_vals (sv_ctl s))\<lparr>va_auth_hash := ''hash:new''\<rparr>\<rparr>\<rparr>)\<rparr>"

text \<open>The pair is cached and its bucket's budget is spent.\<close>

definition eg_cached_server :: server where
  "eg_cached_server = eg_login_server\<lparr>sv_good := Some (cred_fingerprint eg_crypto ''admin'' ''secret'' ''hash:secret''),
     sv_fails := [''10.0.0.9'' \<mapsto> \<lparr>fs_count = 5, fs_pending = 0, fs_last = eg_at 9\<rparr>]\<rparr>"

lemma straddling_login_earns_nothing_witness:
  "\<nexists>c. fst (handle_login eg_crypto eg_changing (Some (''admin'', ''secret'')) eg_cached_server) = Inr c"
proof -
  have "\<forall>c. fst (handle_login eg_crypto eg_changing (Some (''admin'', ''secret'')) eg_cached_server) \<noteq> Inr c"
    by (rule conjunct1 [OF straddling_login_earns_nothing [OF prod.collapse [symmetric]]])
      (simp_all add: eg_changing_def auth_creds_def eg_cached_server_def eg_login_vals eg_login_values_def)
  then show ?thesis by blast
qed

section \<open>Logging out\<close>





definition eg_token :: string where
  "eg_token = issue_token eg_crypto ''admin'' (token_key ''key'' ''hash:secret'') 0 (eg_at 11)"

definition eg_session :: request where
  "eg_session = eg_login_request\<lparr>rq_cookie := Some eg_token\<rparr>"








section \<open>What may change access\<close>

lemma scope_write:
  assumes "setting (set_access_local_only cd want) s = (r, s')"
  shows "auth_creds s' = auth_creds s \<and> va_auth_enabled (ct_vals (sv_ctl s')) = va_auth_enabled (ct_vals (sv_ctl s)) \<and>
    va_access_local_only (ct_vals (sv_ctl s')) \<in> {va_access_local_only (ct_vals (sv_ctl s)), want} \<and>
    access_held s' = access_held s \<and> sv_good s' = sv_good s"
  using assms unfolding set_access_local_only_def
proof (rule setting_at, goal_cases refused saved)
  case (saved c)
  then show ?case by (simp add: auth_creds_def access_held_def)
qed (auto simp: auth_creds_def access_held_def)

text \<open>C14: While a login is active, no save of the access settings that does not prove the current
  password changes the login, opens the network or releases a hold, or hands out a cookie: the one
  thing it can do is close the network.\<close>

theorem access_change_needs_password:
  assumes run: "access_post cd cr rq (Some i) s = ((r, cookie), s')" and active: "login_active (sv_ctl s)"
    and quiet: "quiet_mid rq" and unknown: "\<not> password_known cr (ai_current_password i) s"
  shows "cookie = None \<and> auth_creds s' = auth_creds s \<and>
    va_auth_enabled (ct_vals (sv_ctl s')) = va_auth_enabled (ct_vals (sv_ctl s)) \<and>
    va_access_local_only (ct_vals (sv_ctl s')) \<in> {va_access_local_only (ct_vals (sv_ctl s)), True} \<and>
    access_held s' = access_held s \<and> sv_good s' = sv_good s"
proof -
  obtain r0 s0 where su: "require_step_up cr rq (ai_current_password i) s = (r0, s0)" by fastforce
  have stop: "\<exists>x. r0 = Inl x" "access_kept s s0" "sv_good s0 = sv_good s"
    using step_up_stops [OF su active unknown quiet] by blast+
  have frame: "auth_creds s0 = auth_creds s \<and> va_auth_enabled (ct_vals (sv_ctl s0)) = va_auth_enabled (ct_vals (sv_ctl s)) \<and>
      va_access_local_only (ct_vals (sv_ctl s0)) = va_access_local_only (ct_vals (sv_ctl s)) \<and> access_held s0 = access_held s"
    using access_kept_fields [OF stop(2)] by simp
  consider (refused) "\<exists>x. (r, cookie) = (Inl x, None) \<and> s' = s"
    | (change) "access_change cd cr rq i s = ((r, cookie), s')"
    | (echo) r1 where "access_echo cd cr rq i s = (r1, s')" "cookie = None"
  proof (cases "decode_body rq (Some i) = Inr i \<and> username_fault (trim_space (ai_username i)) = None")
    case False
    then have "\<exists>x. (r, cookie) = (Inl x, None) \<and> s' = s"
      using run unfolding access_post_def decode_body_def by (auto split: if_splits option.splits)
    then show thesis by (rule refused)
  next
    case True
    show thesis
    proof (cases "access_delta i s")
      case True
      then have "access_change cd cr rq i s = ((r, cookie), s')"
        using run \<open>decode_body rq (Some i) = Inr i \<and> _\<close> by (simp add: access_post_def)
      then show thesis by (rule change)
    next
      case False
      obtain r1 s1 where e: "access_echo cd cr rq i s = (r1, s1)" by fastforce
      then have "s1 = s'" "cookie = None"
        using run \<open>decode_body rq (Some i) = Inr i \<and> _\<close> False by (cases r1; simp add: access_post_def)+
      then show thesis using e echo by blast
    qed
  qed
  then show ?thesis
  proof cases
    case change
    then have "cookie = None" "s' = s0" using su stop(1) by (auto simp: access_change_def andthen_def Let_def)
    then show ?thesis using frame stop(3) by simp
  next
    case echo
    show ?thesis
    proof (cases "ai_local_only i")
      case (Some want)
      show ?thesis
      proof (cases want)
        case True
        then have "setting (set_access_local_only cd True) s = (r1, s')" using echo(1) Some by (simp add: access_echo_def andthen_def)
        then show ?thesis using scope_write echo(2) by fastforce
      next
        case False
        then have "s' = s \<or> s' = s0" using echo(1) Some active su stop(1)
          by (auto simp: access_echo_def andthen_def split: if_splits)
        then show ?thesis using frame stop(3) echo(2) by auto
      qed
    qed (use echo in \<open>simp add: access_echo_def\<close>)
  qed auto
qed

definition eg_takeover :: access_request where
  "eg_takeover = \<lparr>ai_local_only = Some False, ai_auth_enabled = Some False, ai_username = ''admin'', ai_password = ''mine'',
     ai_current_password = ''guess''\<rparr>"

lemma access_change_needs_password_witness:
  "auth_creds (snd (access_post eg_codec eg_crypto eg_session (Some eg_takeover) eg_login_server)) = (''admin'', ''hash:secret'')"
proof -
  let ?run = "access_post eg_codec eg_crypto eg_session (Some eg_takeover) eg_login_server"
  have "access_post eg_codec eg_crypto eg_session (Some eg_takeover) eg_login_server = ((fst (fst ?run), snd (fst ?run)), snd ?run)"
    by simp
  from access_change_needs_password [OF this] show ?thesis
    using eg_active by (simp add: auth_active_def eg_login_vals quiet_mid_def eg_session_def eg_login_request_def eg_request_def
      password_known_def pair_matches_def pair_cached_def eg_takeover_def eg_crypto_def)
qed

section \<open>The first-run answer\<close>

lemma pending_kept:
  assumes "quick_setup_pending now s = (b, s')"
  shows "access_kept s s' \<and> sv_good s' = sv_good s"
proof -
  obtain r c where q: "on_store all_settings (sv_ctl s) = (r, c)" by fastforce
  have "reread (sv_ctl s) c" using all_settings_read(1) [OF q] .
  then obtain d where "c = (sv_ctl s)\<lparr>ct_db := d\<rparr>" by (auto simp: reread_def)
  then show ?thesis using assms q
    by (auto simp: quick_setup_pending_def on_ctl_def quick_setup_offer_since_def quick_setup_offer_since_err_def access_kept_def
        split: prod.splits sum.splits)
qed

text \<open>C39: Once a login is active, the first-run endpoint, which anyone may reach, changes neither the
  login nor who may reach the dashboard and hands out no cookie; and only a request that shows valid
  credentials can have it mark the first run as answered.\<close>

theorem first_run_cannot_take_over:
  assumes run: "handle_quick_setup cd cr rq body s = (r, s')" and active: "login_active (sv_ctl s)" and quiet: "quiet_mid rq"
  shows "(\<forall>c. r \<noteq> Inr (Some c)) \<and> auth_creds s' = auth_creds s \<and>
    va_auth_enabled (ct_vals (sv_ctl s')) = va_auth_enabled (ct_vals (sv_ctl s)) \<and>
    va_access_local_only (ct_vals (sv_ctl s')) = va_access_local_only (ct_vals (sv_ctl s)) \<and> access_held s' = access_held s \<and>
    (va_quick_setup_done (ct_vals (sv_ctl s')) = va_quick_setup_done (ct_vals (sv_ctl s)) \<or> credentials_shown cr rq s)"
proof -
  have same: ?thesis if "access_kept s s'" "\<forall>c. r \<noteq> Inr (Some c)"
    using access_kept_fields [OF that(1)] that(2) by simp
  obtain a s1 where au: "authed cr rq s = (a, s1)" by fastforce
  note k1 = authed_kept [OF au quiet]
  obtain b s2 where p: "quick_setup_pending (rq_now rq) s = (b, s2)" by fastforce
  note k2 = pending_kept [OF p]
  have act2: "login_active (sv_ctl s2)" using k2 active by (simp add: access_kept_def)
  consider (none) "s' = s" "\<forall>c. r \<noteq> Inr (Some c)"
    | (dismiss) r1 where "setup_dismiss cd cr rq s = (r1, s')" "\<forall>c. r \<noteq> Inr (Some c)"
    | (late) "s' = s2" "\<forall>c. r \<noteq> Inr (Some c)"
  proof (cases "rq_method rq = ''POST'' \<and> \<not> va_quick_setup_done (ct_vals (sv_ctl s))")
    case False
    then have "s' = s" "\<forall>c. r \<noteq> Inr (Some c)" using run unfolding handle_quick_setup_def by (auto split: if_splits)
    then show thesis by (rule none)
  next
    case True
    show thesis
    proof (cases "decode_body rq body")
      case (Inl x)
      then have "s' = s" "\<forall>c. r \<noteq> Inr (Some c)" using run True by (auto simp: handle_quick_setup_def)
      then show thesis by (rule none)
    next
      case (Inr i)
      obtain r1 s3 where d: "setup_dismiss cd cr rq s = (r1, s3)" by fastforce
      show thesis
      proof (cases "qi_dismiss i")
        case di: True
        then have "s3 = s'" "\<forall>c. r \<noteq> Inr (Some c)"
          using run True Inr d by (cases r1; auto simp: handle_quick_setup_def andthen_def)+
        then show thesis using d dismiss by blast
      next
        case False
        then have "s' = s2" "\<forall>c. r \<noteq> Inr (Some c)"
          using run True Inr p act2 by (cases b; auto simp: handle_quick_setup_def)+
        then show thesis by (rule late)
      qed
    qed
  qed
  then show ?thesis
  proof cases
    case dismiss
    show ?thesis
    proof (cases a)
      case False
      then have "s' = s1" using dismiss(1) active au by (simp add: setup_dismiss_def)
      then show ?thesis using same k1 dismiss(2) by simp
    next
      case True
      then have "setting (set_quick_setup_done cd True) s1 = (r1, s')"
        using dismiss(1) active au by (simp add: setup_dismiss_def apply_quick_setup_def)
      then have "auth_creds s' = auth_creds s1 \<and> va_auth_enabled (ct_vals (sv_ctl s')) = va_auth_enabled (ct_vals (sv_ctl s1)) \<and>
          va_access_local_only (ct_vals (sv_ctl s')) = va_access_local_only (ct_vals (sv_ctl s1)) \<and> access_held s' = access_held s1"
        unfolding set_quick_setup_done_def
        by (rule setting_at) (auto simp: auth_creds_def access_held_def)
      moreover have "credentials_shown cr rq s" using authed_shows au True by simp
      ultimately show ?thesis using dismiss(2) access_kept_fields [OF k1] by simp
    qed
  qed (use same k2 in auto)
qed

definition eg_dismissal :: setup_request where
  "eg_dismissal = \<lparr>qi_dismiss = True, qi_speedtest_enabled = None, qi_speed_seconds = 0, qi_update_check = None,
     qi_local_only = None, qi_auth_enabled = None, qi_username = [], qi_password = []\<rparr>"

lemma first_run_cannot_take_over_witness:
  "va_quick_setup_done (ct_vals (sv_ctl (snd (handle_quick_setup eg_codec eg_crypto eg_login_request (Some eg_dismissal)
     eg_login_server)))) = False"
proof -
  have "\<not> credentials_shown eg_crypto eg_login_request eg_login_server"
    by (simp add: credentials_shown_def session_valid_def eg_login_request_def eg_request_def)
  then show ?thesis
    using first_run_cannot_take_over [OF prod.collapse [symmetric], of eg_login_server eg_login_request eg_codec eg_crypto "Some eg_dismissal"]
    by (simp add: auth_active_def eg_login_vals eg_login_values_def eg_values_def quiet_mid_def eg_login_request_def eg_request_def)
qed

end
