(* ===== verification/BootProps.thy ===== *)
theory BootProps
  imports AccessProps SettingsProps
begin

text \<open>
  The boot and reload sequences against a store rebuilt after corruption, through the guard: whatever
  the flags say and whatever fails, the network is not served; and the end of the first-run hold on
  monitoring.
\<close>

section \<open>The rows that hold access\<close>

definition access_rows :: "controller \<Rightarrow> string option \<times> string option \<times> string option" where
  "access_rows c = (stored_rows c access_hold_key, stored_rows c ''auth_hash'', stored_rows c ''auth_enabled'')"

definition boot_op :: "cfg_op \<Rightarrow> bool" where
  "boot_op op \<longleftrightarrow> (case op of OpSetupDone _ \<Rightarrow> True | OpLocalOnly _ \<Rightarrow> True | OpReload _ \<Rightarrow> True | OpOffer _ _ \<Rightarrow> True
     | _ \<Rightarrow> False)"

lemma access_keys:
  "access_hold_key \<notin> set migration_keys" "''auth_hash'' \<notin> set migration_keys" "''auth_enabled'' \<notin> set migration_keys"
  "access_hold_key \<notin> {iperf_servers_key, born_version_key, session_epoch_key, offer_key}"
  "''auth_hash'' \<notin> {iperf_servers_key, born_version_key, session_epoch_key, offer_key}"
  "''auth_enabled'' \<notin> {iperf_servers_key, born_version_key, session_epoch_key, offer_key}"
  by (simp_all add: access_hold_key_def migration_keys_def iperf_servers_key_def born_version_key_def session_epoch_key_def
      offer_key_def engine_split_key_def)

lemma marked_access: "marked c c' \<Longrightarrow> access_rows c' = access_rows c"
  using marked_row access_keys by (simp add: access_rows_def)

lemma boot_rows:
  assumes "wanted_by boot_op cd c v kv"
  shows "map_of kv access_hold_key = None \<and> map_of kv ''auth_hash'' = None \<and> map_of kv ''auth_enabled'' = None"
proof -
  obtain op fn where o: "boot_op op" "setter op = Some fn" "fn (ct_vals c) = (v, kv)"
    using assms by (auto simp: wanted_by_def boot_op_def)
  then show ?thesis by (cases op) (auto simp: boot_op_def access_hold_key_def)
qed

interpretation held_rows: controller_invariant cd "\<lambda>c. access_rows c = r" boot_op for cd r
proof unfold_locales
  fix c v kv kv' n and d :: speed_db
  assume inv: "access_rows c = r" and w: "wanted_by boot_op cd c v kv" and wc: "committed cd c kv kv'"
    and d: "t_settings (sd_store d) = stored_rows c ++ map_of kv'"
  have "map_of kv' k = None" if "k \<in> {access_hold_key, ''auth_hash'', ''auth_enabled''}" for k
    using that committed_other [OF wc] boot_rows [OF w] access_keys(4,5,6) by auto
  then show "access_rows (broadcast v (c\<lparr>ct_db := d, ct_nonce := n\<rparr>)) = r"
    using inv d by (simp add: access_rows_def broadcast_def stored_rows_def map_add_def)
next
  fix c c' sealed e sc v j n and d :: speed_db
  assume inv: "access_rows c = r" and w: "load_wrote cd c c'"
  then show "access_rows c' = r" using access_keys by (simp add: load_wrote_def access_rows_def)
next
  fix c k t and d :: speed_db
  assume "access_rows c = r" "k \<in> {session_epoch_key, offer_key}" "t_settings (sd_store d) = (stored_rows c)(k \<mapsto> t)"
  then show "access_rows (c\<lparr>ct_db := d\<rparr>) = r"
    using access_keys(4,5,6) by (auto simp: access_rows_def stored_rows_def)
next
  show "access_rows c = r \<Longrightarrow> access_rows (complete_pending_born_marker c) = r" for c
    using marked_access [OF complete_marks] by simp
  show "access_rows c = r \<Longrightarrow> access_rows (ensure_born_marker w (stored_rows c) c) = r" for c w
    using marked_access [OF ensure_marks] by simp
qed (auto simp: boot_op_def access_rows_def stored_rows_def)

text \<open>A store that carries the hold and no login.\<close>

fun bare :: "string option \<times> string option \<times> string option \<Rightarrow> bool" where
  "bare (h, p, e) \<longleftrightarrow> h \<noteq> None \<and> h \<noteq> Some [] \<and> (p = None \<or> p = Some [] \<or> e \<notin> {Some ''1'', Some ''true''})"

lemma bare_rows: "bare (access_rows c) \<longleftrightarrow> row (stored_rows c) access_hold_key \<noteq> [] \<and> \<not> login_stored (stored_rows c)"
  by (auto simp: access_rows_def login_stored_def row_def split: option.splits)

lemma hold_read:
  assumes "on_store access_hold_after_rebuild c = ((stands, e), c')" and "bare (access_rows c)"
  shows "stands \<and> reread c c'"
proof -
  obtain r c1 where q: "on_store all_settings c = (r, c1)" by fastforce
  note rd = all_settings_read [OF q]
  have m: "r = Inr m \<Longrightarrow> row m access_hold_key \<noteq> [] \<and> \<not> login_stored m" for m
    using rd(2) assms(2) bare_rows by auto
  have "stands \<and> c' = c1"
    using assms(1) q m
    by (cases r) (auto simp: on_store_def access_hold_after_rebuild_def split: prod.splits)
  then show ?thesis using rd(1) by simp
qed

definition private_boot :: "program \<Rightarrow> bool" where
  "private_boot p \<longleftrightarrow> bare (access_rows (pg_ctl p)) \<and>
     (loaded (pg_ctl p) \<longrightarrow> pg_hold p \<noteq> NotHeld \<or> va_access_local_only (ct_vals (pg_ctl p)))"

lemma reread_boot:
  "reread c c' \<Longrightarrow> ct_vals c' = ct_vals c \<and> access_rows c' = access_rows c \<and> loaded c' = loaded c"
  by (auto simp: reread_def access_rows_def loaded_def stored_rows_def)

lemma on_settings_at: "f (pg_ctl p) = (r, c) \<Longrightarrow> on_settings f p = (r, p\<lparr>pg_ctl := c\<rparr>)"
  by (simp add: on_settings_def)

lemma judged_private:
  assumes "judge_access_hold p = (cfg, p')" and "bare (access_rows (pg_ctl p))"
  shows "private_boot p' \<and> reread (pg_ctl p) (pg_ctl p') \<and> pg_cfg p' = pg_cfg p \<and>
    (pg_hold p' = NotHeld \<longrightarrow> va_access_local_only (ct_vals (pg_ctl p')) \<and> ap_access cfg \<noteq> ''network'')"
proof -
  obtain stands e c where h: "on_store access_hold_after_rebuild (pg_ctl p) = ((stands, e), c)" by (metis surj_pair)
  note st = hold_read [OF h assms(2)]
  obtain r2 c2 where q: "on_store all_settings c = (r2, c2)" by (metis surj_pair)
  note rd = all_settings_read(1) [OF q]
  have "private_boot p' \<and> (pg_ctl p' = c \<or> pg_ctl p' = c2) \<and> pg_cfg p' = pg_cfg p \<and>
      (pg_hold p' = NotHeld \<longrightarrow> va_access_local_only (ct_vals (pg_ctl p')) \<and> ap_access cfg \<noteq> ''network'')"
    using assms h q st reread_boot [of "pg_ctl p" c] reread_boot [OF rd]
    by (cases e) (auto simp: judge_access_hold_def on_settings_def hold_access_local_after_rebuild_def private_boot_def Let_def
        split: if_splits)
  then show ?thesis using st rd reread_trans by blast
qed

lemma ambiguous_reread: "reread (pg_ctl p) (pg_ctl (snd (warn_ambiguous_container_access w cfg ic p))) \<and>
    pg_hold (snd (warn_ambiguous_container_access w cfg ic p)) = pg_hold p"
proof -
  obtain r c where q: "on_store all_settings (pg_ctl p) = (r, c)" by fastforce
  obtain r2 c2 where e: "established_in_store w c = (r2, c2)" by fastforce
  show ?thesis using q e all_settings_read(1) [OF q] established_reads [OF e] reread_trans
    by (auto simp: warn_ambiguous_container_access_def on_settings_def reread_refl split: sum.splits)
qed

lemma private_reread:
  "private_boot p \<Longrightarrow> reread (pg_ctl p) (pg_ctl p') \<Longrightarrow> pg_hold p' = pg_hold p \<Longrightarrow> private_boot p'"
  using reread_boot by (auto simp: private_boot_def)

text \<open>What one write of a setting can do to the values in force, and that it leaves the load's verdict.\<close>

lemma written_vals:
  assumes "mutate cd fn c = (r, c')"
  shows "loaded c' = loaded c \<and> ct_vals c' \<in> {ct_vals c, fst (fn (ct_vals c))}"
  using assms
proof (cases rule: mutateE)
  case (saved v kv kv' d n)
  have "marked (broadcast v (c\<lparr>ct_db := d, ct_nonce := n\<rparr>)) c'" using saved complete_marks by blast
  then have "ct_vals c' = v \<and> loaded c' = loaded c" by (auto simp: marked_def broadcast_def loaded_def)
  then show ?thesis using saved by simp
qed (auto simp: loaded_def)

lemma local_write_keeps:
  assumes "set_access_local_only cd want c = (r, c')"
  shows "access_rows c' = access_rows c \<and> loaded c' = loaded c \<and>
    va_access_local_only (ct_vals c') \<in> {va_access_local_only (ct_vals c), want}"
proof -
  have "access_rows (snd (mutate cd (\<lambda>v. (v\<lparr>va_access_local_only := want\<rparr>, [(''access_local_only'', b2s want)])) c)) = access_rows c"
    using held_rows.mutate_keeps [of c "access_rows c" "OpLocalOnly want"] by (simp add: boot_op_def)
  moreover have "loaded c' = loaded c \<and> va_access_local_only (ct_vals c') \<in> {va_access_local_only (ct_vals c), want}"
    using written_vals [OF assms [unfolded set_access_local_only_def]] by auto
  ultimately show ?thesis using assms by (simp add: set_access_local_only_def)
qed

lemma applied_private:
  assumes "bare (access_rows (pg_ctl p))"
  shows "private_boot (snd (apply_explicit_access cd w ic amb p))"
proof -
  obtain cfg p1 where j: "judge_access_hold p = (cfg, p1)" by fastforce
  note jp = judged_private [OF j assms]
  let ?p2 = "if amb then snd (warn_ambiguous_container_access w (pg_cfg p1) ic p1) else p1"
  have p2: "private_boot ?p2" "pg_hold ?p2 = pg_hold p1" "reread (pg_ctl p1) (pg_ctl ?p2)"
    using jp private_reread [of p1] ambiguous_reread [of p1] reread_refl by auto
  have loc: "pg_hold ?p2 = NotHeld \<longrightarrow> va_access_local_only (ct_vals (pg_ctl ?p2)) \<and> ap_access cfg \<noteq> ''network''"
    using jp p2 reread_boot [OF p2(3)] by auto
  obtain r c where s: "set_access_local_only cd (ap_access cfg \<noteq> ''network'') (pg_ctl ?p2) = (r, c)" by fastforce
  note lw = local_write_keeps [OF s]
  have "private_boot (?p2\<lparr>pg_ctl := c\<rparr>)"
    using p2(1) loc lw by (auto simp: private_boot_def)
  then show ?thesis
    using j p2(1) s by (auto simp: apply_explicit_access_def reconcile_access_def on_settings_def Let_def split: sum.splits if_splits)
qed

lemma done_write_keeps:
  assumes "set_quick_setup_done cd True c = (r, c')"
  shows "access_rows c' = access_rows c \<and> loaded c' = loaded c \<and> va_access_local_only (ct_vals c') = va_access_local_only (ct_vals c)"
proof -
  have "access_rows (snd (mutate cd (\<lambda>v. (v\<lparr>va_quick_setup_done := True\<rparr>, [(''quick_setup_done'', b2s True)])) c)) = access_rows c"
    using held_rows.mutate_keeps [of c "access_rows c" "OpSetupDone True"] by (simp add: boot_op_def)
  moreover have "loaded c' = loaded c \<and> va_access_local_only (ct_vals c') = va_access_local_only (ct_vals c)"
    using written_vals [OF assms [unfolded set_quick_setup_done_def]] by auto
  ultimately show ?thesis using assms by (simp add: set_quick_setup_done_def)
qed

lemma offer_write_keeps:
  "access_rows (snd (ensure_quick_setup_offer cd w now c)) = access_rows c \<and>
   loaded (snd (ensure_quick_setup_offer cd w now c)) = loaded c \<and>
   va_access_local_only (ct_vals (snd (ensure_quick_setup_offer cd w now c))) = va_access_local_only (ct_vals c)"
proof -
  obtain r c1 where e: "established_in_store w c = (r, c1)" by fastforce
  have c1: "ct_vals c1 = ct_vals c" "loaded c1 = loaded c" using reread_boot [OF established_reads [OF e]] by simp_all
  obtain r2 c2 where q: "on_store all_settings c1 = (r2, c2)" by fastforce
  have c2: "ct_vals c2 = ct_vals c" "loaded c2 = loaded c"
    using reread_boot [OF all_settings_read(1) [OF q]] c1 by simp_all
  obtain r3 c3 where s: "on_store (set_setting offer_key (int_text now)) c2 = (r3, c3)" by fastforce
  obtain d where "c3 = c2\<lparr>ct_db := d\<rparr>" using s by (rule set_setting_at)
  then have c3: "ct_vals c3 = ct_vals c" "loaded c3 = loaded c" using c2 by (simp_all add: loaded_def)
  obtain r4 c4 where f: "set_quick_setup_done cd True c1 = (r4, c4)" by fastforce
  have "loaded (snd (ensure_quick_setup_offer cd w now c)) = loaded c \<and>
      va_access_local_only (ct_vals (snd (ensure_quick_setup_offer cd w now c))) = va_access_local_only (ct_vals c)"
    using e q s f c1 c2 c3 done_write_keeps [OF f]
    by (auto simp: ensure_quick_setup_offer_def quick_setup_offer_since_err_def seed_offer_clock_def
        split: sum.splits bool.splits if_splits option.splits)
  then show ?thesis using held_rows.offer_keeps [of c "access_rows c"] by simp
qed

lemma materialized:
  "access_rows (pg_ctl (materialize_quick_setup cd w now p)) = access_rows (pg_ctl p) \<and>
   (private_boot p \<longrightarrow> private_boot (materialize_quick_setup cd w now p))"
proof -
  obtain r c where f: "set_quick_setup_done cd True (pg_ctl p) = (r, c)" by fastforce
  note fk = done_write_keeps [OF f]
  show ?thesis using f fk offer_write_keeps [of cd w now c] offer_write_keeps [of cd w now "pg_ctl p"]
    by (auto simp: materialize_quick_setup_def on_settings_def private_boot_def Let_def split: prod.split)
qed

lemma seeded_early:
  "access_rows (pg_ctl (seed_quick_setup_offer_early cd w now p)) = access_rows (pg_ctl p) \<and>
   (private_boot p \<longrightarrow> private_boot (seed_quick_setup_offer_early cd w now p))"
  using offer_write_keeps [of cd w now "pg_ctl p"]
  by (auto simp: seed_quick_setup_offer_early_def on_settings_def private_boot_def split: prod.split)

lemma reload_refused:
  assumes "reload cd w c = ((was, err), c')" and "\<not> loaded_ok err"
  shows "reread c c'"
proof -
  obtain r c1 where q: "on_store all_settings c = (r, c1)" by fastforce
  show ?thesis
  proof (cases r)
    case (Inl e)
    then show ?thesis using assms(1) q all_settings_read(1) [OF q] by (simp add: reload_def Let_def)
  next
    case (Inr m)
    then have "err = None \<or> err = Some LegacyReseal"
      using assms(1) q by (auto simp: reload_def reseal_legacy_def Let_def split: prod.splits if_splits sum.splits)
    then show ?thesis using assms(2) by (auto simp: loaded_ok_def)
  qed
qed

lemma reloaded_private:
  assumes "private_boot p"
  shows "private_boot (handle_reload cd w ic now p)"
proof -
  let ?p = "seed_quick_setup_offer_early cd w now p"
  have s: "private_boot ?p" using seeded_early assms by simp
  obtain was err c where r: "reload cd w (pg_ctl ?p) = ((was, err), c)" by (metis surj_pair)
  show ?thesis
  proof (cases "loaded_ok err")
    case True
    have rows: "access_rows c = access_rows (pg_ctl ?p)"
      using held_rows.reload_keeps [of "pg_ctl ?p" "access_rows (pg_ctl ?p)" cd w] r by simp
    then have "bare (access_rows (pg_ctl (?p\<lparr>pg_ctl := c\<rparr>)))" using s by (simp add: private_boot_def)
    then have "private_boot (snd (apply_explicit_access cd w ic (\<not> was) (?p\<lparr>pg_ctl := c\<rparr>)))" by (rule applied_private)
    then show ?thesis using r True materialized
      by (simp add: handle_reload_def reload_with_hook_def on_settings_def reload_and_tell_def Let_def)
  next
    case False
    then have "reread (pg_ctl ?p) c" by (rule reload_refused [OF r])
    then have "private_boot (?p\<lparr>pg_ctl := c\<rparr>)" using private_reread [OF s, of "?p\<lparr>pg_ctl := c\<rparr>"] by simp
    then show ?thesis using r False
      by (simp add: handle_reload_def reload_with_hook_def on_settings_def reload_and_tell_def Let_def)
  qed
qed

lemma start_refused:
  assumes "new_controller cd w d def os = (err, c)" and "\<not> loaded_ok err"
  shows "\<not> loaded c"
  using assms by (auto simp: new_controller_def reseal_legacy_def loaded_ok_def loaded_def Let_def split: prod.splits if_splits sum.splits)

lemma idle_rows: "access_rows (fold apply_option os (idle_controller d def)) =
    (t_settings (sd_store d) access_hold_key, t_settings (sd_store d) ''auth_hash'', t_settings (sd_store d) ''auth_enabled'')"
  by (simp add: access_rows_def stored_rows_def options_frame idle_controller_def)

lemma booted_private:
  assumes "boot_settings cd w ic now os cfg d = (err, p)" and "bare (access_rows (idle_controller d (default_settings cfg)))"
  shows "private_boot p"
proof -
  let ?c0 = "idle_controller d (default_settings cfg)"
  let ?p0 = "\<lparr>pg_cfg = cfg, pg_hold = NotHeld, pg_hold_warned = False, pg_ctl = ?c0\<rparr>"
  obtain stands e c1 where h: "on_store access_hold_after_rebuild ?c0 = ((stands, e), c1)" by (metis surj_pair)
  have c1: "reread ?c0 c1" using hold_read [OF h assms(2)] by simp
  obtain seed p1 where s: "access_seed_at_boot ?p0 = (seed, p1)" by fastforce
  have p1: "pg_ctl p1 = c1" using s h by (auto simp: access_seed_at_boot_def on_settings_def Let_def split: option.splits)
  obtain err' c2 where n: "new_controller cd w (ct_db c1) (default_settings seed) os = (err', c2)" by fastforce
  have "access_rows (fold apply_option os (idle_controller (ct_db c1) (default_settings seed))) = access_rows ?c0"
    using reread_boot [OF c1] by (simp only: idle_rows) (simp add: access_rows_def stored_rows_def)
  then have rows: "bare (access_rows c2)" using held_rows.start_keeps [OF n] assms(2) by simp
  have run: "(err, p) = (err', if loaded_ok err'
      then snd (apply_explicit_access cd w ic True (materialize_quick_setup cd w now (p1\<lparr>pg_ctl := c2\<rparr>))) else p1\<lparr>pg_ctl := c2\<rparr>)"
    using assms(1) s n p1 by (auto simp: boot_settings_def Let_def split: if_splits)
  show ?thesis
  proof (cases "loaded_ok err'")
    case True
    have "bare (access_rows (pg_ctl (materialize_quick_setup cd w now (p1\<lparr>pg_ctl := c2\<rparr>))))" using materialized rows by simp
    then show ?thesis using run True applied_private by simp
  next
    case False
    then show ?thesis using run rows start_refused [OF n False] by (simp add: private_boot_def)
  qed
qed

text \<open>C9: A store rebuilt after corruption, with its hold standing and no login in it, is not served to
  the network: whatever \<open>-access\<close> says, whatever choice is found stored, whichever reads and writes
  fail, after the boot and after any number of reloads, the guard refuses every request from another
  machine except the two health probes.\<close>

theorem rebuilt_store_stays_private:
  assumes "boot_settings cd w ic now os cfg d = (err, p0)"
    and "row (t_settings (sd_store d)) access_hold_key \<noteq> []" and "\<not> login_stored (t_settings (sd_store d))"
    and "sv_ctl s = pg_ctl (fold (\<lambda>(w, now). handle_reload cd w ic now) turns p0)"
    and "sv_hold s = pg_hold (fold (\<lambda>(w, now). handle_reload cd w ic now) turns p0)" and "\<not> sv_hold_released s"
    and "rq_path rq \<notin> {''/healthz'', ''/readyz''}" and "\<not> is_loopback_addr (rq_remote rq)"
  shows "fst (guard cr rq s) \<noteq> None"
proof
  assume "fst (guard cr rq s) = None"
  then have g: "guard cr rq s = (None, snd (guard cr rq s))" by (metis prod.collapse)
  have "bare (access_rows (idle_controller d (default_settings cfg)))"
    using assms(2,3) by (simp add: bare_rows stored_rows_def idle_controller_def)
  then have "private_boot p0" using booted_private [OF assms(1)] by simp
  then have "private_boot (fold (\<lambda>(w, now). handle_reload cd w ic now) turns p0)"
    by (induction turns arbitrary: p0) (auto simp: reloaded_private)
  then have "loaded (sv_ctl s) \<longrightarrow> access_held s \<noteq> NotHeld \<or> va_access_local_only (ct_vals (sv_ctl s))"
    using assms(4,5,6) by (simp add: private_boot_def access_held_def)
  then show False using guard_admits_only [OF g] assms(7,8) by blast
qed

definition eg_rebuilt :: speed_db where
  "eg_rebuilt = eg_db\<lparr>sd_store := (sd_store eg_db)\<lparr>t_settings := [access_hold_key \<mapsto> ''1'']\<rparr>\<rparr>"

definition eg_network :: app_config where
  "eg_network = \<lparr>ap_monitoring_consent = True, ap_quick_setup_skip = False, ap_access = ''network'', ap_access_explicit = True,
     ap_interval = second, ap_timeout = second, ap_latency_enabled = True, ap_down_after = 3, ap_up_after = 2,
     ap_speedtest_enabled = True, ap_speedtest_interval = 60 * minute, ap_speedtest_on_reconnect = True, ap_ipv6_mode = ''auto'',
     ap_retention = 0, ap_speed_retention = 0, ap_downtime_retention = 0\<rparr>"

definition eg_stranger :: request where
  "eg_stranger = eg_request\<lparr>rq_remote := ''10.0.0.9:4711'', rq_path := ''/api/access''\<rparr>"

lemma eg_far: "\<not> is_loopback_addr ''10.0.0.9:4711''"
  by code_simp

lemma rebuilt_store_stays_private_witness:
  "fst (guard eg_crypto eg_stranger ((eg_web_server
     (pg_ctl (snd (boot_settings eg_codec eg_world False 0 [] eg_network eg_rebuilt))))\<lparr>
     sv_hold := pg_hold (snd (boot_settings eg_codec eg_world False 0 [] eg_network eg_rebuilt)),
     sv_hold_released := False\<rparr>)) \<noteq> None"
proof (rule rebuilt_store_stays_private [where turns = "[]" and d = eg_rebuilt, OF prod.collapse [symmetric]])
  show "row (t_settings (sd_store eg_rebuilt)) access_hold_key \<noteq> []"
    by (simp add: eg_rebuilt_def row_def)
  show "\<not> login_stored (t_settings (sd_store eg_rebuilt))"
    by (simp add: eg_rebuilt_def login_stored_def row_def access_hold_key_def)
  show "\<not> is_loopback_addr (rq_remote eg_stranger)"
    using eg_far by (simp add: eg_stranger_def)
qed (simp_all add: eg_stranger_def eg_web_server_def)

section \<open>The first-run hold ends\<close>

text \<open>What the reading of the hold answers on settings that are loaded.\<close>

lemma hold_state_read:
  assumes "loaded (pg_ctl p)" and "\<not> va_quick_setup_done (ct_vals (pg_ctl p))"
  obtains (unread) e p' where "fst (quick_setup_offer_since_err (pg_ctl p)) = Inl e" "quick_setup_hold_state w t p = (QsHeld, p')"
  | (clock) n p' where "n = parse_int_lax (row (stored_rows (pg_ctl p)) offer_key)" "ct_vals (pg_ctl p') = ct_vals (pg_ctl p)"
      "n \<noteq> 0 \<Longrightarrow> quick_setup_hold_state w t p = (if quick_setup_hold False n t then QsHeld else QsReleased, p')"
proof -
  obtain r c where q: "on_store all_settings (pg_ctl p) = (r, c)" by (metis surj_pair)
  note rd = all_settings_read [OF q]
  show thesis
  proof (cases r)
    case (Inl e)
    then have "quick_setup_offer_since_err (pg_ctl p) = (Inl e, c)" using q by (simp add: quick_setup_offer_since_err_def)
    then show thesis using assms unread [of e "p\<lparr>pg_ctl := c\<rparr>"] by (simp add: quick_setup_hold_state_def on_settings_def)
  next
    case (Inr m)
    let ?n = "parse_int_lax (row (stored_rows (pg_ctl p)) offer_key)"
    have "quick_setup_offer_since_err (pg_ctl p) = (Inr ?n, c)"
      using q Inr rd(2) [OF Inr] by (simp add: quick_setup_offer_since_err_def)
    moreover have v: "ct_vals c = ct_vals (pg_ctl p)" using rd(1) by (auto simp: reread_def)
    ultimately have "?n \<noteq> 0 \<Longrightarrow> quick_setup_hold_state w t p = (if quick_setup_hold False ?n t then QsHeld else QsReleased, p\<lparr>pg_ctl := c\<rparr>)"
      using assms by (simp add: quick_setup_hold_state_def on_settings_def)
    then show thesis using clock [of ?n "p\<lparr>pg_ctl := c\<rparr>"] v by simp
  qed
qed

text \<open>C28: Once the first-run offer has been set up without an error at \<open>now\<close>, monitoring is held no
  longer than the 48 hours of the grace: from then on a daemon whose settings are loaded, and whose answer
  and clock are the ones that were set up, monitors exactly as its power button says, answered or not, and
  never looks at the hold again; only a round that cannot read the clock is held, and latches nothing.
  The clock the store had before may be missing, in the future or old, as long as the present is within
  64 bits of it.\<close>

theorem first_run_hold_ends:
  assumes "ensure_quick_setup_offer cd w now c = (None, c')" and "0 < now"
    and "loaded (pg_ctl p)" and "va_quick_setup_done (ct_vals c') \<longrightarrow> va_quick_setup_done (ct_vals (pg_ctl p))"
    and "stored_rows (pg_ctl p) offer_key = stored_rows c' offer_key"
    and "now + quick_setup_grace \<le> t" and "in_int64 t" and "in_int64 (t - parse_int_lax (row (stored_rows c) offer_key))"
  shows "fst (monitoring_live w' t released p) = (va_monitoring (ct_vals (pg_ctl p)), True, \<not> released) \<or>
    (\<not> released \<and> \<not> va_quick_setup_done (ct_vals (pg_ctl p)) \<and> (\<exists>e. fst (quick_setup_offer_since_err (pg_ctl p)) = Inl e) \<and>
     fst (monitoring_live w' t released p) = (False, False, False))"
proof (cases "released \<or> va_quick_setup_done (ct_vals (pg_ctl p))")
  case True
  then show ?thesis using assms(3) by (auto simp: monitoring_live_def quick_setup_hold_state_def Let_def)
next
  case False
  have i: "in_int64 now" using assms(2,6,7) by (simp add: in_int64_def quick_setup_grace_def)
  define n where "n = parse_int_lax (row (stored_rows (pg_ctl p)) offer_key)"
  have n': "n = parse_int_lax (row (stored_rows c') offer_key)" using assms(5) by (simp add: n_def row_def)
  then have n: "n \<in> {now, parse_int_lax (row (stored_rows c) offer_key)}" "n \<noteq> 0" "n \<le> now"
    using offer_set_up [OF assms(1) i assms(2)] False assms(4) by auto
  have "in_int64 (t - now)" using assms(2,6,7) by (simp add: in_int64_def quick_setup_grace_def)
  then have "in_int64 (t - n)" using n(1) assms(8) by auto
  then have over: "\<not> quick_setup_hold False n t" using n(3) assms(6) wrap64_fits by (simp add: quick_setup_hold_def)
  have unanswered: "\<not> va_quick_setup_done (ct_vals (pg_ctl p))" using False by simp
  show ?thesis
    using assms(3) unanswered
  proof (cases rule: hold_state_read [where w = w' and t = t])
    case (unread e p')
    then show ?thesis using False by (simp add: monitoring_live_def Let_def)
  next
    case (clock m p')
    then have "quick_setup_hold_state w' t p = (QsReleased, p')" using n(2) over by (simp add: n_def)
    then show ?thesis using False clock(2) by (simp add: monitoring_live_def Let_def)
  qed
qed

definition eg_offered :: program where
  "eg_offered = \<lparr>pg_cfg = eg_network, pg_hold = NotHeld, pg_hold_warned = False,
     pg_ctl = snd (ensure_quick_setup_offer eg_codec eg_world 1700001000 eg_controller)\<rparr>"

lemma normalize_keeps_switch [simp]: "va_monitoring (normalize v) = va_monitoring v"
  by (simp add: normalize_def Let_def)

lemma eg_offered_loaded: "loaded (pg_ctl eg_offered)" "va_monitoring (ct_vals (pg_ctl eg_offered))"
    "\<exists>n. fst (quick_setup_offer_since_err (pg_ctl eg_offered)) = Inr n"
  by (simp_all add: eg_offered_def ensure_quick_setup_offer_def eg_controller_defs established_in_store_def has_history_def sd_query_def
     sd_exec_def Let_def install_born_at_def has_prior_configuration_def quick_setup_offer_since_err_def seed_offer_clock_def
     row_def save_buffered_def save_begin_def eg_world_def loaded_def)

lemma first_run_hold_ends_witness:
  "fst (monitoring_live eg_world 1700173800 False eg_offered) = (True, True, True)"
proof -
  have "stored_rows (pg_ctl eg_offered) offer_key = stored_rows (snd (ensure_quick_setup_offer eg_codec eg_world 1700001000 eg_controller)) offer_key"
    by (simp add: eg_offered_def)
  from first_run_hold_ends [OF eg_offer _ eg_offered_loaded(1) _ this, of 1700173800 eg_world False] show ?thesis
    using eg_offered_loaded(2,3) by (auto simp: eg_offered_def eg_rows quick_setup_grace_def in_int64_def row_def parse_int_lax_def parse_signed_def)
qed

end
