(* ===== verification/Spent.thy ===== *)
theory Spent
  imports SpeedFacts
begin

text \<open>
  The environment's faults are spent one per failing statement and never come back: no call on the
  store leaves more of them than it found, and with none left every statement answers.
\<close>

section \<open>Faults are spent\<close>

definition unspent :: "'a db_scheme \<Rightarrow> nat" where "unspent d = length (faults d)"

lemma exec_spends: "db_exec d = (e, d') \<Longrightarrow> unspent d' \<le> unspent d \<and> (e \<noteq> None \<longrightarrow> unspent d' < unspent d)"
  by (auto simp: unspent_def db_exec_def split: list.splits)

lemma unspent_updates [simp]:
  "unspent (d\<lparr>t_samples := x, t_dns := y\<rparr>) = unspent d" "unspent (d\<lparr>t_settings := m\<rparr>) = unspent d"
  "unspent (on_reg f d) = unspent d" "unspent (record_db_err err d) = unspent d"
  by (simp_all add: unspent_def on_reg_def record_db_err_def Let_def split: option.splits)

lemma unspent_buffer [simp]:
  "unspent (disarm b) = unspent b" "unspent (arm due r b) = unspent b" "unspent (arm_oldest every r b) = unspent b"
  "unspent (note_dropped n b) = unspent b" "unspent (say_drop n b) = unspent b" "unspent (reader_gave_up now b) = unspent b"
  "unspent (leave_gate b) = unspent b" "unspent (add_waiting n b) = unspent b" "unspent (invalidate_read_caches b) = unspent b"
  "unspent (b\<lparr>bf_quiet := q, bf_failing := f, bf_missed := mi\<rparr>) = unspent b"
  "unspent (b\<lparr>bf_quiet := q, bf_failing := f, bf_missed := mi, bf_drop_said := s\<rparr>) = unspent b"
  "unspent (b\<lparr>bf_quiet := q, bf_failing := f\<rparr>) = unspent b" "unspent (b\<lparr>bf_missed := mi\<rparr>) = unspent b" "unspent (b\<lparr>bf_gate := g\<rparr>) = unspent b"
  "unspent (b\<lparr>bf_rounds := rs, bf_dns := ds, bf_rows := rows\<rparr>) = unspent b"
  by (simp_all add: unspent_def disarm_def arm_def arm_oldest_def note_dropped_def say_drop_def reader_gave_up_def
      leave_gate_def add_waiting_def invalidate_read_caches_def on_reg_def Let_def split: option.split)

lemma drop_spends: "drop_oldest keep b = (k, b') \<Longrightarrow> unspent b' = unspent b"
  by (cases "drop_loop (bf_rounds b) (bf_dns b) (bf_rows b) keep 0") (auto simp: drop_oldest_def Let_def)

lemma put_back_spends: "put_back rs ds n b = (k, b') \<Longrightarrow> unspent b' = unspent b"
  using drop_spends by (fastforce simp: put_back_def split: if_splits)

lemma write_held_spends: "unspent (snd (write_held rs ds brief d)) \<le> unspent d"
proof -
  obtain e1 d1 where 1: "db_exec d = (e1, d1)" by fastforce
  obtain e2 d2 where 2: "db_exec d1 = (e2, d2)" by fastforce
  show ?thesis using exec_spends [OF 1] exec_spends [OF 2]
    by (auto simp: write_held_def 1 2 split: option.split)
qed

lemma run_save_spends: "unspent (snd (run_save rs ds brief d)) \<le> unspent d"
proof -
  obtain e1 d1 where 1: "db_exec d = (e1, d1)" by fastforce
  obtain e2 d2 where 2: "db_exec d1 = (e2, d2)" by fastforce
  show ?thesis using exec_spends [OF 1] exec_spends [OF 2] write_held_spends [of rs ds _ d] write_held_spends [of rs ds True d2]
    by (auto simp: run_save_def 1 2 split: option.split)
qed

lemma settle_spends [simp]: "unspent (snd (save_settle reason every now rs ds n err b)) = unspent b"
proof (cases err)
  case None
  then show ?thesis by (simp add: save_settle_def Let_def)
next
  case (Some e)
  obtain k b1 where pb: "put_back rs ds n b = (k, b1)" by fastforce
  then have "unspent b1 = unspent b" by (rule put_back_spends)
  then show ?thesis using Some pb by (simp add: save_settle_def Let_def)
qed

lemma begin_spends: "save_begin reason now got b = (st, b') \<Longrightarrow> unspent b' = unspent b"
  by (auto simp: save_begin_def enter_gate_def Let_def split: if_splits)

lemma save_spends: "unspent (snd (save_buffered reason en b)) \<le> unspent b"
proof -
  obtain st b1 where b: "save_begin reason (en_now en) (en_gate en) b = (st, b1)" by (metis surj_pair)
  show ?thesis
  proof (cases st)
    case (Took rs ds n)
    obtain err b2 where r: "run_save rs ds (for_reader reason) b1 = (err, b2)" by fastforce
    obtain x b3 where s: "save_settle reason (save_every (en_every en)) (en_then en) rs ds n err b2 = (x, b3)" by fastforce
    have "unspent b2 \<le> unspent b1" using run_save_spends [of rs ds "for_reader reason" b1] r by simp
    moreover have "unspent b3 = unspent b2" using settle_spends [of reason _ _ rs ds n err b2] s by (metis snd_conv)
    ultimately show ?thesis using begin_spends [OF b] by (simp add: save_buffered_def b Took r s)
  qed (use begin_spends [OF b] in \<open>simp add: save_buffered_def b\<close>)
qed

section \<open>Without faults\<close>

abbreviation calm :: "speed_db \<Rightarrow> bool" where "calm d \<equiv> faults (sd_store d) = []"

lemma calm_save: "calm d \<Longrightarrow> calm (sd_save w d)"
  using save_spends [of SaveOrder "w_save w" "sd_store d"] by (simp add: unspent_def sd_save_def)

lemma calm_insert:
  assumes "insert_speed_ts w sp d = (r, d')" and "calm d"
  shows "\<exists>ts. r = Inr ts \<and> sd_rows d' = sd_rows d @ [speed_row_of ts sp] \<and> calm d'"
proof -
  have c: "calm (sd_save w d)" using calm_save assms(2) by blast
  let ?ts = "free_second (map rw_ts (sd_rows d)) (sp_ts sp)"
  let ?d = "(sd_save w d)\<lparr>sd_rows := sd_rows d @ [speed_row_of ?ts sp]\<rparr>"
  have q: "sd_counted (\<lambda>_. Inr ?ts) ?d = (Inr ?ts, ?d)" by (rule sd_counted_quiet) (simp_all add: c)
  then have "r = Inr ?ts" "d' = ?d" using assms(1) by (simp_all add: insert_speed_ts_def sd_exec_quiet [OF c] Let_def)
  then show ?thesis using c by simp
qed

lemma calm_insert_rows:
  assumes "insert_speed w sp d = (err, d')" and "calm d"
  shows "\<exists>ts. sd_rows d' = sd_rows d @ [speed_row_of ts sp] \<and> calm d'"
proof -
  obtain r d1 where i: "insert_speed_ts w sp d = (r, d1)" by fastforce
  show ?thesis using calm_insert [OF i assms(2)] assms(1) i by (auto simp: insert_speed_def)
qed

lemma calm_servers: "calm d \<Longrightarrow> insert_speed_servers w rows d = (r, d') \<Longrightarrow> sd_rows d' = sd_rows d \<and> calm d'"
  using calm_save [of d w] sd_exec_quiet [OF calm_save [of d w]]
  by (auto simp: insert_speed_servers_def split: if_splits)

lemma span_spends: "insert_speed_span w start dur s = (r, s') \<Longrightarrow> unspent s' \<le> unspent s"
proof -
  assume a: "insert_speed_span w start dur s = (r, s')"
  obtain e s2 where x: "db_exec (snd (save_buffered SaveOrder (w_save w) s)) = (e, s2)" by fastforce
  have "unspent s2 \<le> unspent s" using exec_spends [OF x] save_spends [of SaveOrder "w_save w" s] by linarith
  then show ?thesis using a x
    by (auto simp: insert_speed_span_def Let_def unspent_def record_db_err_def on_reg_def split: if_splits option.splits)
qed

end
