(* ===== verification/RetryProps.thy ===== *)
theory RetryProps
  imports BootProps Spent
begin

text \<open>
  The retry of a failed settings load ends.  The environment's faults are spent one per failing
  statement and never come back, a turn that does not load the settings spends at least one, and a
  turn that does is the last.
\<close>

section \<open>The statements of the settings\<close>

abbreviation left :: "controller \<Rightarrow> nat" where "left c \<equiv> unspent (sd_store (ct_db c))"

lemma query_spends: "query f s = (r, s') \<Longrightarrow> unspent s' \<le> unspent s \<and> (\<forall>e. r = Inl e \<longrightarrow> unspent s' < unspent s)"
  using exec_spends [of s] by (auto simp: query_def split: prod.splits option.splits)

lemma settings_read_spends:
  "on_store all_settings c = (r, c') \<Longrightarrow> left c' \<le> left c \<and> (\<forall>e. r = Inl e \<longrightarrow> left c' < left c)"
  using query_spends [of t_settings "sd_store (ct_db c)"] by (auto simp: on_store_def all_settings_def split: prod.splits)

lemma diff_spends: "unspent (snd (set_settings_diff kv s)) \<le> unspent s"
proof -
  obtain r s1 where q: "all_settings s = (r, s1)" by fastforce
  obtain e2 s2 where 2: "db_exec s1 = (e2, s2)" by fastforce
  obtain e3 s3 where 3: "db_exec s2 = (e3, s3)" by fastforce
  show ?thesis using query_spends [OF q [unfolded all_settings_def]] exec_spends [OF 2] exec_spends [OF 3]
    by (auto simp: set_settings_diff_def q 2 3 split: sum.split option.split)
qed

lemma setting_spends: "on_store (set_setting k v) c = (r, c') \<Longrightarrow> left c' \<le> left c"
  using diff_spends [of "[(k, v)]"] by (auto simp: on_store_def set_setting_def split: prod.splits sum.splits) (metis snd_conv)+

lemma born_spends: "on_store install_born_at c = (r, c') \<Longrightarrow> left c' \<le> left c"
  using query_spends [of "\<lambda>s. t_settings s first_seen_key" "sd_store (ct_db c)"]
  by (auto simp: on_store_def install_born_at_def split: prod.splits sum.splits option.splits)

lemma history_spends: "has_history w d = (r, d') \<Longrightarrow> unspent (sd_store d') \<le> unspent (sd_store d)"
  using save_spends [of SaveRead "w_save w" "sd_store d"] exec_spends
  by (fastforce simp: has_history_def sd_query_def sd_exec_def split: prod.splits option.splits)

lemma established_spends: "established_in_store w c = (r, c') \<Longrightarrow> left c' \<le> left c"
proof -
  assume a: "established_in_store w c = (r, c')"
  obtain r1 d where h: "has_history w (ct_db c) = (r1, d)" by fastforce
  obtain b c2 where b: "on_store install_born_at (c\<lparr>ct_db := d\<rparr>) = (b, c2)" by fastforce
  obtain r3 c3 where q: "on_store all_settings c2 = (r3, c3)" by fastforce
  have "left (c\<lparr>ct_db := d\<rparr>) \<le> left c" using history_spends [OF h] by simp
  moreover have "left c2 \<le> left (c\<lparr>ct_db := d\<rparr>)" using born_spends [OF b] .
  moreover have "left c3 \<le> left c2" using settings_read_spends [OF q] by simp
  ultimately show ?thesis using a h b q
    by (auto simp: established_in_store_def Let_def split: sum.splits if_splits)
qed

lemma unavailable_write: "\<not> loaded c \<Longrightarrow> set_quick_setup_done cd on c = (Inl Unavailable, c)"
  by (simp add: set_quick_setup_done_def mutate_def mutate_err_def loaded_def)

lemma offer_spends:
  assumes "\<not> loaded c"
  shows "left (snd (ensure_quick_setup_offer cd w now c)) \<le> left c"
proof -
  obtain r c1 where e: "established_in_store w c = (r, c1)" by fastforce
  have c1: "left c1 \<le> left c" "\<not> loaded c1"
    using established_spends [OF e] reread_boot [OF established_reads [OF e]] assms by simp_all
  obtain r2 c2 where q: "on_store all_settings c1 = (r2, c2)" by fastforce
  obtain r3 c3 where s: "on_store (set_setting offer_key (int_text now)) c2 = (r3, c3)" by fastforce
  show ?thesis
    using e q s c1 settings_read_spends [OF q] setting_spends [OF s] unavailable_write [OF c1(2)]
    by (auto simp: ensure_quick_setup_offer_def quick_setup_offer_since_err_def seed_offer_clock_def
        split: sum.splits bool.splits if_splits option.splits)
qed

section \<open>A load that answers\<close>

lemma store_step_loaded [simp]: "loaded (snd (on_store f c)) = loaded c"
  by (simp add: loaded_def on_store_def split: prod.split)

lemma reload_answers:
  assumes "reload cd w c = ((was, err), c')"
  shows "(loaded_ok err \<and> loaded c') \<or> (\<not> loaded_ok err \<and> left c' < left c)"
proof -
  obtain r c1 where q: "on_store all_settings c = (r, c1)" by fastforce
  show ?thesis
  proof (cases r)
    case (Inl e)
    then show ?thesis using assms q settings_read_spends [OF q] by (auto simp: reload_def Let_def loaded_ok_def)
  next
    case (Inr m)
    then show ?thesis using assms q
      by (auto simp: reload_def reseal_legacy_def record_migrations_def Let_def loaded_ok_def after_sealing_def
          split: prod.splits if_splits sum.splits) (auto simp: loaded_def on_store_def split: prod.splits)
  qed
qed

lemma judged_loaded: "loaded (pg_ctl (snd (judge_access_hold p))) = loaded (pg_ctl p)"
proof -
  obtain stands e c where h: "on_store access_hold_after_rebuild (pg_ctl p) = ((stands, e), c)" by (metis surj_pair)
  have c: "loaded c = loaded (pg_ctl p)" using store_step_loaded [of access_hold_after_rebuild "pg_ctl p"] h by simp
  obtain r2 c2 where q: "on_store all_settings c = (r2, c2)" by fastforce
  have "loaded c2 = loaded c" using store_step_loaded [of all_settings c] q by simp
  then show ?thesis using h c q
    by (cases e) (auto simp: judge_access_hold_def on_settings_def Let_def split: prod.splits if_splits)
qed

lemma hook_loaded: "loaded (pg_ctl (snd (apply_explicit_access cd w ic amb p))) = loaded (pg_ctl p)"
proof -
  obtain cfg p1 where j: "judge_access_hold p = (cfg, p1)" by fastforce
  let ?p2 = "if amb then snd (warn_ambiguous_container_access w (pg_cfg p1) ic p1) else p1"
  have p2: "loaded (pg_ctl ?p2) = loaded (pg_ctl p)"
    using judged_loaded [of p] j reread_boot [of "pg_ctl p1"] ambiguous_reread [of p1 w "pg_cfg p1" ic] by auto
  obtain r c where s: "set_access_local_only cd (ap_access cfg \<noteq> ''network'') (pg_ctl ?p2) = (r, c)" by fastforce
  show ?thesis using p2 local_write_keeps [OF s]
    using j s by (auto simp: apply_explicit_access_def reconcile_access_def on_settings_def Let_def split: sum.splits if_splits)
qed

lemma materialized_loaded: "loaded (pg_ctl (materialize_quick_setup cd w now p)) = loaded (pg_ctl p)"
proof -
  obtain r c where f: "set_quick_setup_done cd True (pg_ctl p) = (r, c)" by fastforce
  show ?thesis using f done_write_keeps [OF f] offer_write_keeps [of cd w now c] offer_write_keeps [of cd w now "pg_ctl p"]
    by (auto simp: materialize_quick_setup_def on_settings_def Let_def split: prod.split)
qed

lemma seeded_spends: "left (pg_ctl (seed_quick_setup_offer_early cd w now p)) \<le> left (pg_ctl p)"
  using offer_spends [of "pg_ctl p" cd w now]
  by (auto simp: seed_quick_setup_offer_early_def on_settings_def split: prod.split)

lemma turn_ends_or_spends:
  assumes "retry_turn cd w ic now p = (over, p')"
  shows "if over then loaded (pg_ctl p') else left (pg_ctl p') < left (pg_ctl p)"
proof (cases "loaded (pg_ctl p)")
  case False
  let ?p = "seed_quick_setup_offer_early cd w now p"
  obtain was err c where r: "reload cd w (pg_ctl ?p) = ((was, err), c)" by (metis surj_pair)
  show ?thesis using assms False r reload_answers [OF r] seeded_spends [of cd w now p]
    by (auto simp: retry_turn_def reload_with_hook_def on_settings_def reload_and_tell_def Let_def hook_loaded
        materialized_loaded split: if_splits)
qed (use assms in \<open>auto simp: retry_turn_def\<close>)

lemma next_retry_range: "retry_first \<le> wait \<Longrightarrow> retry_first \<le> next_retry wait \<and> next_retry wait \<le> retry_max"
  by (auto simp: next_retry_def retry_first_def retry_max_def  Let_def)

text \<open>C40: The retry of a failed settings load ends: with more turns than the environment has faults
  left the loop is over, the settings are loaded and the API is served again, and no wait on the way
  was longer than five minutes.\<close>

theorem settings_retry_ends:
  assumes "unspent (sd_store (ct_db (pg_ctl p))) < length turns"
    and "retry_settings_load cd ic wait turns p = ((over, wait'), p')"
    and "retry_first \<le> wait" and "wait \<le> retry_max"
  shows "over \<and> loaded (pg_ctl p') \<and> retry_first \<le> wait' \<and> wait' \<le> retry_max"
  using assms
proof (induction turns arbitrary: wait p)
  case (Cons t turns)
  obtain w now where t: "t = (w, now)" by fastforce
  obtain b p1 where r: "retry_turn cd w ic now p = (b, p1)" by fastforce
  show ?case
  proof (cases b)
    case True
    then show ?thesis using Cons.prems turn_ends_or_spends [OF r] t r by simp
  next
    case False
    then have "unspent (sd_store (ct_db (pg_ctl p1))) < length turns"
      using Cons.prems(1) turn_ends_or_spends [OF r] by simp
    then show ?thesis using Cons.IH [of p1 "next_retry wait"] Cons.prems(2,3) False t r next_retry_range by simp
  qed
qed simp

definition eg_unloaded :: program where
  "eg_unloaded = \<lparr>pg_cfg = eg_network, pg_hold = NotHeld, pg_hold_warned = False,
     pg_ctl = (idle_controller (eg_db\<lparr>sd_store := (sd_store eg_db)\<lparr>faults := [Some (DbMsg ''database is locked'')]\<rparr>\<rparr>) eg_values)
       \<lparr>ct_init_err := True\<rparr>\<rparr>"

lemma settings_retry_ends_witness:
  "loaded (pg_ctl (snd (retry_settings_load eg_codec False retry_first [(eg_world, 1), (eg_world, 2)] eg_unloaded)))"
proof -
  let ?run = "retry_settings_load eg_codec False retry_first [(eg_world, 1), (eg_world, 2)] eg_unloaded"
  have "?run = ((fst (fst ?run), snd (fst ?run)), snd ?run)" by simp
  from settings_retry_ends [OF _ this] show ?thesis
    by (simp add: unspent_def eg_unloaded_def idle_controller_def retry_first_def retry_max_def )
qed

end
