(* ===== verification/Verdict.thy ===== *)
theory Verdict
  imports SpeedTable Values
begin

text \<open>
  What a finished speedtest becomes (\<open>internal/speedtest/scheduler.go\<close>, \<open>speedtest.go\<close>,
  \<open>cityrace.go\<close>): the row of a result, the rows of the other members of its round, the accounting
  rows of what it spent beyond its measurement, and the verdict of the configured thresholds.  The
  texts of the failures are not modelled, a failure carries the numbers they are printed from; a
  difference of two readings is exact.
\<close>

section \<open>Results\<close>

record race_verdict =
  rv_outcome :: string
  rv_origins :: string
  rv_kind :: string
  rv_label :: string
  rv_lat :: gfloat
  rv_lon :: gfloat
  rv_ms :: "gfloat option"
  rv_racers :: int

text \<open>The selection report is given as the rows it becomes, without the run they are filed under.\<close>

record run_result =
  rn_down :: gfloat
  rn_up :: gfloat
  rn_ping :: gfloat
  rn_jitter :: "gfloat option"
  rn_server :: string
  rn_server_id :: string
  rn_engine :: string
  rn_loss :: "gfloat option"
  rn_down_bytes :: int
  rn_up_bytes :: int
  rn_extra_down :: int
  rn_extra_up :: int
  rn_up_failed :: bool
  rn_down_failed :: bool
  rn_ip_family :: string
  rn_udp_direction :: string
  rn_ping_best :: "gfloat option"
  rn_idle :: "gfloat option"
  rn_load_down :: "gfloat option"
  rn_load_up :: "gfloat option"
  rn_load_down_p95 :: "gfloat option"
  rn_load_up_p95 :: "gfloat option"
  rn_selection :: "server_row list option"
  rn_race :: "race_verdict option"
  rn_measured :: int

record round_result = run_result +
  rn_losers :: "run_result list"

record conn_info =
  ci_ipv4 :: string
  ci_ipv6 :: string
  ci_isp :: string
  ci_isp_location :: string
  ci_dns_ip :: string
  ci_dns_provider :: string
  ci_dns_location :: string
  ci_colo :: string
  ci_exit :: string

definition bytes_ptr :: "int \<Rightarrow> int option" where
  "bytes_ptr n = (if n \<le> 0 then None else Some n)"

definition race_text :: "(race_verdict \<Rightarrow> string) \<Rightarrow> 'a run_result_scheme \<Rightarrow> string" where
  "race_text f r = (case rn_race r of None \<Rightarrow> [] | Some v \<Rightarrow> f v)"

definition race_coord :: "(race_verdict \<Rightarrow> gfloat) \<Rightarrow> 'a run_result_scheme \<Rightarrow> gfloat option" where
  "race_coord f r = (case rn_race r of None \<Rightarrow> None
     | Some v \<Rightarrow> if rv_lat v \<noteq> Finite 0 \<or> rv_lon v \<noteq> Finite 0 then Some (f v) else None)"

definition run_texts :: "'a run_result_scheme \<Rightarrow> string \<Rightarrow> conn_info \<Rightarrow> speed_texts" where
  "run_texts r reason ci =
     \<lparr>x_server = rn_server r, x_server_id = rn_server_id r, x_ipv4 = ci_ipv4 ci, x_ipv6 = ci_ipv6 ci,
      x_isp = ci_isp ci, x_isp_location = ci_isp_location ci, x_dns_ip = ci_dns_ip ci,
      x_dns_provider = ci_dns_provider ci, x_dns_location = ci_dns_location ci, x_colo = ci_colo ci,
      x_exit = ci_exit ci, x_trigger = reason, x_engine = rn_engine r, x_ip_family = rn_ip_family r,
      x_udp_direction = rn_udp_direction r, x_race_outcome = race_text rv_outcome r,
      x_race_origins = race_text rv_origins r, x_race_kind = race_text rv_kind r, x_race_label = race_text rv_label r\<rparr>"

definition run_sample :: "'a run_result_scheme \<Rightarrow> string \<Rightarrow> conn_info \<Rightarrow> int \<Rightarrow> speed_sample" where
  "run_sample r reason ci now =
     \<lparr>sp_ts = now, sp_down = rn_down r, sp_up = rn_up r, sp_ping = rn_ping r, sp_texts = run_texts r reason ci,
      sp_jitter = rn_jitter r, sp_ping_best = rn_ping_best r, sp_loss = rn_loss r, sp_healthy = None,
      sp_down_bytes = bytes_ptr (rn_down_bytes r), sp_up_bytes = bytes_ptr (rn_up_bytes r), sp_idle = rn_idle r,
      sp_load_down = rn_load_down r, sp_load_up = rn_load_up r, sp_load_down_p95 = rn_load_down_p95 r,
      sp_load_up_p95 = rn_load_up_p95 r, sp_failed = False, sp_stage = [], sp_usage_run = None,
      sp_race_ms = Option.bind (rn_race r) rv_ms,
      sp_racers = (case rn_race r of None \<Rightarrow> None | Some v \<Rightarrow> if rv_racers v > 0 then Some (rv_racers v) else None),
      sp_race_lat = race_coord rv_lat r, sp_race_lon = race_coord rv_lon r, sp_round = None, sp_win_reason = []\<rparr>"

text \<open>A row that only accounts for bytes, or records a failed run.\<close>

definition usage_texts :: "'a run_result_scheme \<Rightarrow> string \<Rightarrow> speed_texts" where
  "usage_texts r reason =
     \<lparr>x_server = rn_server r, x_server_id = rn_server_id r, x_ipv4 = [], x_ipv6 = [], x_isp = [], x_isp_location = [],
      x_dns_ip = [], x_dns_provider = [], x_dns_location = [], x_colo = [], x_exit = [], x_trigger = reason,
      x_engine = rn_engine r, x_ip_family = [], x_udp_direction = [], x_race_outcome = [], x_race_origins = [],
      x_race_kind = [], x_race_label = []\<rparr>"

definition usage_sample :: "int \<Rightarrow> 'a run_result_scheme \<Rightarrow> string \<Rightarrow> string \<Rightarrow> int option \<Rightarrow> int \<Rightarrow> int \<Rightarrow> speed_sample" where
  "usage_sample ts r reason stage usage_run down up =
     \<lparr>sp_ts = ts, sp_down = Finite 0, sp_up = Finite 0, sp_ping = Finite 0, sp_texts = usage_texts r reason,
      sp_jitter = None, sp_ping_best = None, sp_loss = None, sp_healthy = None, sp_down_bytes = bytes_ptr down,
      sp_up_bytes = bytes_ptr up, sp_idle = None, sp_load_down = None, sp_load_up = None, sp_load_down_p95 = None,
      sp_load_up_p95 = None, sp_failed = True, sp_stage = stage, sp_usage_run = usage_run, sp_race_ms = None,
      sp_racers = None, sp_race_lat = None, sp_race_lon = None, sp_round = None, sp_win_reason = []\<rparr>"

section \<open>Thresholds\<close>

definition above_zero :: "gfloat \<Rightarrow> bool" where "above_zero v \<longleftrightarrow> gf_less (Finite 0) v"

fun gf_sub :: "gfloat \<Rightarrow> gfloat \<Rightarrow> gfloat" where
  "gf_sub (Finite a) (Finite b) = Finite (a - b)"
| "gf_sub (Infinite p) (Finite b) = Infinite p"
| "gf_sub (Finite a) (Infinite p) = Infinite (\<not> p)"
| "gf_sub (Infinite p) (Infinite q) = (if p = q then NotANumber else Infinite p)"
| "gf_sub x y = NotANumber"

datatype shortfall =
    UploadLost gfloat | DownloadLost gfloat
  | DownloadLow gfloat gfloat | UploadLow gfloat gfloat | PingHigh gfloat gfloat | JitterHigh gfloat gfloat
  | LossHigh gfloat gfloat | DownBloat gfloat gfloat | UpBloat gfloat gfloat

definition sample_ping :: "speed_sample \<Rightarrow> gfloat" where
  "sample_ping sp = (case sp_ping_best sp of Some p \<Rightarrow> if above_zero p then p else sp_ping sp | None \<Rightarrow> sp_ping sp)"

text \<open>The bloat of a direction, when both its readings are there.\<close>

definition bloat :: "gfloat option \<Rightarrow> gfloat option \<Rightarrow> gfloat option" where
  "bloat loaded_ms idle = (case (loaded_ms, idle) of (Some l, Some i) \<Rightarrow> Some (gf_sub l i) | _ \<Rightarrow> None)"

definition eval_thresholds :: "speed_sample \<Rightarrow> thresholds \<Rightarrow> shortfall list" where
  "eval_thresholds sp t =
     (if above_zero (th_down t) \<and> sp_down_bytes sp \<noteq> None \<and> gf_less (sp_down sp) (th_down t)
      then [DownloadLow (sp_down sp) (th_down t)] else []) @
     (if above_zero (th_up t) \<and> sp_up_bytes sp \<noteq> None \<and> gf_less (sp_up sp) (th_up t)
      then [UploadLow (sp_up sp) (th_up t)] else []) @
     (let p = sample_ping sp in if above_zero (th_ping t) \<and> above_zero p \<and> gf_less (th_ping t) p then [PingHigh p (th_ping t)] else []) @
     (case sp_jitter sp of Some j \<Rightarrow> if above_zero (th_jitter t) \<and> gf_less (th_jitter t) j then [JitterHigh j (th_jitter t)] else []
       | None \<Rightarrow> []) @
     (case sp_loss sp of
        Some l \<Rightarrow> if above_zero (th_loss t) \<and>
            (gf_less (th_loss t) l \<or> (gf_le (Finite 100) (th_loss t) \<and> gf_le (Finite 100) l))
          then [LossHigh l (th_loss t)] else []
      | None \<Rightarrow> []) @
     (case bloat (sp_load_down sp) (sp_idle sp) of
        Some b \<Rightarrow> if above_zero (th_bloat_down t) \<and> gf_less (th_bloat_down t) b then [DownBloat b (th_bloat_down t)] else []
      | None \<Rightarrow> []) @
     (case bloat (sp_load_up sp) (sp_idle sp) of
        Some b \<Rightarrow> if above_zero (th_bloat_up t) \<and> gf_less (th_bloat_up t) b then [UpBloat b (th_bloat_up t)] else []
      | None \<Rightarrow> [])"

definition thresholds_unmeasured :: "speed_sample \<Rightarrow> thresholds \<Rightarrow> bool" where
  "thresholds_unmeasured sp t \<longleftrightarrow>
     (above_zero (th_ping t) \<and> \<not> above_zero (sample_ping sp)) \<or>
     (above_zero (th_jitter t) \<and> sp_jitter sp = None) \<or>
     (above_zero (th_loss t) \<and> sp_loss sp = None) \<or>
     (above_zero (th_bloat_down t) \<and> sp_down_bytes sp \<noteq> None \<and> (sp_idle sp = None \<or> sp_load_down sp = None)) \<or>
     (above_zero (th_bloat_up t) \<and> sp_up_bytes sp \<noteq> None \<and> (sp_idle sp = None \<or> sp_load_up sp = None))"

definition thresholds_measurable :: "speed_sample \<Rightarrow> thresholds \<Rightarrow> bool" where
  "thresholds_measurable sp t \<longleftrightarrow>
     (above_zero (th_down t) \<and> sp_down_bytes sp \<noteq> None) \<or>
     (above_zero (th_up t) \<and> sp_up_bytes sp \<noteq> None) \<or>
     (above_zero (th_ping t) \<and> above_zero (sample_ping sp)) \<or>
     (above_zero (th_jitter t) \<and> sp_jitter sp \<noteq> None) \<or>
     (above_zero (th_loss t) \<and> sp_loss sp \<noteq> None) \<or>
     (above_zero (th_bloat_down t) \<and> sp_idle sp \<noteq> None \<and> sp_load_down sp \<noteq> None) \<or>
     (above_zero (th_bloat_up t) \<and> sp_idle sp \<noteq> None \<and> sp_load_up sp \<noteq> None)"

section \<open>The verdict\<close>

record verdict =
  vd_active :: bool
  vd_judged :: bool
  vd_clean :: bool
  vd_failures :: "shortfall list"
  vd_healthy :: "bool option"

definition no_verdict :: verdict where
  "no_verdict = \<lparr>vd_active = False, vd_judged = False, vd_clean = False, vd_failures = [], vd_healthy = None\<rparr>"

definition lost_directions :: "'a run_result_scheme \<Rightarrow> thresholds \<Rightarrow> shortfall list" where
  "lost_directions r t =
     (if above_zero (th_up t) \<and> rn_up_failed r then [UploadLost (th_up t)] else []) @
     (if above_zero (th_down t) \<and> rn_down_failed r then [DownloadLost (th_down t)] else [])"

definition run_judged :: "thresholds option \<Rightarrow> 'a run_result_scheme \<Rightarrow> speed_sample \<Rightarrow> verdict" where
  "run_judged th r sp = (case th of
     None \<Rightarrow> no_verdict
   | Some t \<Rightarrow>
       if \<not> thresholds_any t then no_verdict
       else let lost = lost_directions r t; v = no_verdict\<lparr>vd_active := True\<rparr> in
         if thresholds_measurable sp t
         then let failures = lost @ eval_thresholds sp t; v = v\<lparr>vd_failures := failures\<rparr> in
           if failures \<noteq> [] then v\<lparr>vd_judged := True, vd_healthy := Some False\<rparr>
           else if thresholds_unmeasured sp t then v\<lparr>vd_clean := True\<rparr>
           else v\<lparr>vd_judged := True, vd_healthy := Some True\<rparr>
         else if lost \<noteq> [] then v\<lparr>vd_failures := lost, vd_judged := True, vd_healthy := Some False\<rparr>
         else v)"

text \<open>The first winner of the report decides whether the run was a lost challenge.\<close>

definition challenge_lost_report :: "server_row list option \<Rightarrow> bool" where
  "challenge_lost_report rep = (case rep of None \<Rightarrow> False
     | Some rows \<Rightarrow> (case find sv_winner rows of None \<Rightarrow> False | Some c \<Rightarrow> sv_win_reason c = ''challenger''))"

definition run_verdict :: "thresholds option \<Rightarrow> 'a run_result_scheme \<Rightarrow> speed_sample \<Rightarrow> verdict" where
  "run_verdict th r sp =
     (let v = run_judged th r sp in
      if vd_judged v \<and> vd_failures v \<noteq> [] \<and> challenge_lost_report (rn_selection r)
      then v\<lparr>vd_judged := False, vd_healthy := None\<rparr> else v)"

definition selection_rows :: "int \<Rightarrow> server_row list \<Rightarrow> server_row list" where
  "selection_rows ts rep = map (\<lambda>r. r\<lparr>sv_run := ts\<rparr>) rep"

text \<open>At which stage a run failed, from its error text and whether the server answered that the
  measurement is not available.\<close>

definition speed_fail_stage :: "string \<Rightarrow> bool \<Rightarrow> string" where
  "speed_fail_stage e na =
     (if starts_with ''fetch server list'' e then ''server_list''
      else if starts_with ''fetch server '' e then ''server_fetch''
      else if starts_with ''no speedtest servers'' e then ''no_servers''
      else if starts_with ''ping:'' e then ''ping''
      else if na then ''na''
      else if starts_with ''download:'' e then ''download''
      else if starts_with ''upload:'' e then ''upload''
      else if starts_with ''bidir:'' e then ''bidir''
      else ''other'')"

section \<open>What the breaches are counted in\<close>

record breach =
  br_consec :: int
  br_unhealthy :: bool

text \<open>\<open>streak\<close> is the configured number of breaches in a row, when there is one; the answer is
  whether the alert goes out.\<close>

definition alert_after :: "int option \<Rightarrow> int" where
  "alert_after streak = (case streak of Some n \<Rightarrow> if n > 1 then n else 1 | None \<Rightarrow> 1)"

definition count_verdict :: "verdict \<Rightarrow> int option \<Rightarrow> breach \<Rightarrow> bool \<times> breach" where
  "count_verdict v streak b =
     (if vd_judged v
      then if vd_failures v \<noteq> []
        then let b = \<lparr>br_consec = br_consec b + 1, br_unhealthy = True\<rparr> in (br_consec b \<ge> alert_after streak, b)
        else (False, \<lparr>br_consec = 0, br_unhealthy = False\<rparr>)
      else if vd_active v then (False, if vd_clean v then b\<lparr>br_unhealthy := False\<rparr> else b)
      else (False, \<lparr>br_consec = 0, br_unhealthy = False\<rparr>))"

end
