(* ===== verification/Scheduler.thy ===== *)
theory Scheduler
  imports Verdict
begin

text \<open>
  One run of a speedtest (\<open>internal/speedtest/scheduler.go\<close>): the single-flight claim, which is the
  id of the run, the stop that names it, the wire window, and what the run leaves in the store and in
  the breach counters.  The atomics are the fields of one record and each atomic operation is one
  definition; the sequence \<open>run_once\<close> leaves room for the other goroutines between the claim and the
  publication of the cancel and while the engine runs.  The context of the daemon is the list of
  answers \<open>ve_ended\<close> of its checks.
\<close>

record sched =
  sc_seq :: int
  sc_cur :: int
  sc_inflight :: "int option"
  sc_abort_for :: int
  sc_wire :: int
  sc_trigger :: string
  sc_server :: string
  sc_gate :: "int option"
  sc_completions :: int
  sc_token :: bool
  sc_breach :: breach
  sc_db :: speed_db

definition u64 :: "int \<Rightarrow> int" where "u64 n = n mod 2 ^ 64"

definition boot_run_seed :: "int \<Rightarrow> int" where "boot_run_seed ms = u64 (u64 ms * 2 ^ 10)"

definition new_scheduler :: "int \<Rightarrow> speed_db \<Rightarrow> sched" where
  "new_scheduler ms d = \<lparr>sc_seq = boot_run_seed ms, sc_cur = 0, sc_inflight = None, sc_abort_for = 0, sc_wire = 0,
     sc_trigger = [], sc_server = [], sc_gate = None, sc_completions = 0, sc_token = False,
     sc_breach = \<lparr>br_consec = 0, br_unhealthy = False\<rparr>, sc_db = d\<rparr>"

definition on_sdb :: "(speed_db \<Rightarrow> 'r \<times> speed_db) \<Rightarrow> sched \<Rightarrow> 'r \<times> sched" where
  "on_sdb f s = (case f (sc_db s) of (r, d) \<Rightarrow> (r, s\<lparr>sc_db := d\<rparr>))"

definition sc_stats :: "(registry \<Rightarrow> registry) \<Rightarrow> sched \<Rightarrow> sched" where
  "sc_stats f s = s\<lparr>sc_db := (sc_db s)\<lparr>sd_store := on_reg f (sd_store (sc_db s))\<rparr>\<rparr>"

section \<open>The claim and the stop\<close>

definition running :: "sched \<Rightarrow> bool" where "running s \<longleftrightarrow> sc_cur s \<noteq> 0"

definition activity :: "sched \<Rightarrow> int \<times> string" where "activity s = (sc_wire s, sc_trigger s)"

text \<open>Two atomic operations: an id is drawn, and the id is stored where no run holds the place.\<close>

definition draw_id :: "sched \<Rightarrow> int \<times> sched" where
  "draw_id s = (let me = u64 (sc_seq s + 1) in (me, s\<lparr>sc_seq := me\<rparr>))"

definition take_claim :: "int \<Rightarrow> sched \<Rightarrow> bool \<times> sched" where
  "take_claim me s =
     (if sc_cur s = 0 then (True, s\<lparr>sc_cur := me\<rparr>) else (False, sc_stats (stats_inc ''speed.errbusy'') s))"

definition claim :: "sched \<Rightarrow> int option \<times> sched" where
  "claim s = (let (me, s) = draw_id s; (won, s) = take_claim me s in (if won then Some me else None, s))"

lemmas claim_defs = claim_def draw_id_def take_claim_def

text \<open>Whether the run goes on.\<close>

definition preflight :: "string \<Rightarrow> sched \<Rightarrow> bool \<times> sched" where
  "preflight reason s =
     (if reason \<noteq> ''startup'' then (True, s)
      else case sc_gate s of None \<Rightarrow> (True, s)
        | Some g \<Rightarrow> (let s = s\<lparr>sc_gate := None\<rparr> in
            if sc_completions s \<noteq> g then (False, s\<lparr>sc_cur := 0\<rparr>) else (True, s)))"

definition announce :: "string \<Rightarrow> sched \<Rightarrow> sched" where
  "announce reason s = sc_stats (stats_inc (''speed.run.'' @ reason)) (s\<lparr>sc_server := []\<rparr>)"

definition publish_run :: "int \<Rightarrow> sched \<Rightarrow> sched" where
  "publish_run me s = s\<lparr>sc_inflight := Some me\<rparr>"

definition stop_pending :: "int \<Rightarrow> sched \<Rightarrow> bool" where
  "stop_pending me s \<longleftrightarrow> sc_abort_for s = me"

definition wire_start :: "string \<Rightarrow> sched \<Rightarrow> sched" where
  "wire_start reason s = s\<lparr>sc_trigger := reason, sc_wire := u64 (sc_wire s + 1)\<rparr>"

definition wire_end :: "sched \<Rightarrow> sched" where
  "wire_end s = s\<lparr>sc_wire := u64 (sc_wire s + 1)\<rparr>"

text \<open>The deferred calls, in the order they run: the cancel is withdrawn, the duration counted, the
  server cleared, the claim released.\<close>

definition retire :: "rat \<Rightarrow> sched \<Rightarrow> sched" where
  "retire secs s = sc_stats (\<lambda>r. stats_inc ''speed.duration_n'' (stats_addf ''speed.duration_s_sum'' secs r))
     (s\<lparr>sc_inflight := None, sc_server := []\<rparr>)"

definition release :: "sched \<Rightarrow> sched" where "release s = s\<lparr>sc_cur := 0\<rparr>"

definition record_abort :: "int \<Rightarrow> sched \<Rightarrow> sched" where
  "record_abort cur s = (if sc_abort_for s \<ge> cur then s else s\<lparr>sc_abort_for := cur\<rparr>)"

text \<open>Which run a stop request names, if any, and which run its last step cancels.\<close>

definition abort_target :: "int \<Rightarrow> sched \<Rightarrow> int option" where
  "abort_target me s = (if sc_cur s = 0 then None else if me \<noteq> 0 \<and> me \<noteq> sc_cur s then None else Some (sc_cur s))"

definition abort_cancels :: "int \<Rightarrow> sched \<Rightarrow> int option" where
  "abort_cancels cur s = (if sc_inflight s = Some cur then Some cur else None)"

section \<open>What a run leaves in the store\<close>

text \<open>The world of each statement of a run, in the order the run makes them, and the answers of its
  checks whether the daemon is shutting down.\<close>

record run_env =
  ve_world :: "nat \<Rightarrow> world"
  ve_ended :: "nat \<Rightarrow> bool"
  ve_now :: int
  ve_conn :: conn_info
  ve_thresholds :: "thresholds option"
  ve_streak :: "int option"
  ve_record_failures :: bool

definition span_seconds :: "gtime \<Rightarrow> duration \<Rightarrow> int" where
  "span_seconds start d =
     (let fin = t_add start d;
          end_s = t_unix fin + (if wall_ns fin mod 1000000000 > 0 then 1 else 0);
          secs = end_s - t_unix start
      in if secs > 1 then secs else 1)"

definition record_span :: "run_env \<Rightarrow> gtime \<Rightarrow> duration \<Rightarrow> sched \<Rightarrow> sched" where
  "record_span e start d s =
     (if ve_ended e 1 then s
      else case insert_speed_span (ve_world e 1) (t_unix start) (span_seconds start d) (sd_store (sc_db s)) of
        ((stored, err), st) \<Rightarrow>
          let s = s\<lparr>sc_db := (sc_db s)\<lparr>sd_store := st\<rparr>\<rparr> in
          if err = None \<and> \<not> stored then sc_stats (stats_inc ''speed.span_dropped'') s else s)"

definition record_failed_usage :: "run_env \<Rightarrow> run_result \<Rightarrow> string \<Rightarrow> string \<Rightarrow> sched \<Rightarrow> sched" where
  "record_failed_usage e r reason stage s =
     (if ve_ended e 0 \<or> (stage = [] \<and> rn_down_bytes r \<le> 0 \<and> rn_up_bytes r \<le> 0) then s
      else snd (on_sdb (insert_speed (ve_world e 0)
             (usage_sample (ve_now e) r reason stage None (rn_down_bytes r) (rn_up_bytes r))) s))"

definition record_extra_usage :: "run_env \<Rightarrow> run_result \<Rightarrow> string \<Rightarrow> int \<Rightarrow> sched \<Rightarrow> sched" where
  "record_extra_usage e r reason measured s =
     (if ve_ended e 2 \<or> (rn_extra_down r \<le> 0 \<and> rn_extra_up r \<le> 0) then s
      else snd (on_sdb (insert_speed (ve_world e 2)
             (usage_sample (measured + 1) r reason [] (Some measured) (rn_extra_down r) (rn_extra_up r))) s))"

definition loser_sample :: "run_env \<Rightarrow> run_result \<Rightarrow> string \<Rightarrow> int \<Rightarrow> speed_sample" where
  "loser_sample e l reason round_ts =
     (let sp = run_sample (l\<lparr>rn_race := None\<rparr>) reason (ve_conn e) (ve_now e) in
      sp\<lparr>sp_round := Some round_ts,
         sp_ts := (if rn_measured l \<le> 0 \<or> rn_measured l \<ge> round_ts then round_ts - 1 else rn_measured l)\<rparr>)"

fun record_losers :: "run_env \<Rightarrow> nat \<Rightarrow> run_result list \<Rightarrow> string \<Rightarrow> int \<Rightarrow> sched \<Rightarrow> sched" where
  "record_losers e k [] reason round_ts s = s"
| "record_losers e k (l # ls) reason round_ts s =
     (if ve_ended e k then s
      else record_losers e (Suc k) ls reason round_ts
             (snd (on_sdb (insert_speed_ts (ve_world e k) (loser_sample e l reason round_ts)) s)))"

text \<open>The second of a result: after every member of its round.\<close>

definition round_second :: "int \<Rightarrow> run_result list \<Rightarrow> int" where
  "round_second now ls = fold (\<lambda>l ts. if rn_measured l \<ge> ts then rn_measured l + 1 else ts) ls now"

datatype run_outcome = RunBusy | RunAborted | RunFailed | RunUnstored | RunShutdown | RunDone speed_sample

definition nudge :: "sched \<Rightarrow> sched" where
  "nudge s = s\<lparr>sc_completions := u64 (sc_completions s + 1), sc_token := True\<rparr>"

text \<open>A run that produced a result; the answer carries the failures an alert goes out for.\<close>

definition conclude ::
  "run_env \<Rightarrow> string \<Rightarrow> round_result \<Rightarrow> gtime \<Rightarrow> duration \<Rightarrow> sched \<Rightarrow> (run_outcome \<times> shortfall list option) \<times> sched" where
  "conclude e reason r start d s =
     (let sp = run_sample r reason (ve_conn e) (ve_now e);
          sp = sp\<lparr>sp_ts := round_second (ve_now e) (rn_losers r)\<rparr>;
          v = run_verdict (ve_thresholds e) r sp;
          sp = sp\<lparr>sp_healthy := vd_healthy v\<rparr>
      in if ve_ended e 0 then ((RunShutdown, None), s)
         else case on_sdb (insert_speed_ts (ve_world e 0) sp) s of
           (Inl err, s) \<Rightarrow> ((RunUnstored, None), s)
         | (Inr ts, s) \<Rightarrow>
             let sp = sp\<lparr>sp_ts := ts\<rparr>;
                 s = record_span e start d s;
                 s = record_extra_usage e (run_result.truncate r) reason ts s;
                 s = (case rn_selection r of None \<Rightarrow> s
                      | Some rep \<Rightarrow> snd (on_sdb (insert_speed_servers (ve_world e 3) (selection_rows ts rep)) s));
                 s = record_losers e 4 (rn_losers r) reason ts s;
                 (alert, b) = count_verdict v (ve_streak e) (sc_breach s);
                 s = nudge (s\<lparr>sc_breach := b\<rparr>)
             in ((RunDone sp, if alert then Some (vd_failures v) else None), s))"

text \<open>A run that failed: \<open>err\<close> is its error text and whether the measurement was not available.\<close>

definition conclude_failed ::
  "run_env \<Rightarrow> string \<Rightarrow> round_result \<Rightarrow> string \<times> bool \<Rightarrow> bool \<Rightarrow> bool \<Rightarrow> sched \<Rightarrow> run_outcome \<times> sched" where
  "conclude_failed e reason r err shutdown cancelled s =
     (let aborted = (\<not> shutdown \<and> cancelled);
          stage = (if \<not> shutdown \<and> \<not> aborted then speed_fail_stage (fst err) (snd err) else []);
          recorded = (if stage \<noteq> [] \<and> ve_record_failures e then stage else []);
          s = record_failed_usage e (run_result.truncate r) reason recorded s
      in if aborted then (RunAborted, s)
         else (RunFailed, if \<not> shutdown
            then sc_stats (\<lambda>g. stats_inc (''speed.fail.'' @ stage) (stats_inc ''speed.fail'' g)) s else s))"

section \<open>One run\<close>

record engine_answer =
  ea_result :: round_result
  ea_error :: "(string \<times> bool) option"
  ea_cancelled :: bool
  ea_shutdown :: bool
  ea_start :: gtime
  ea_took :: duration

text \<open>\<open>others\<close> is what the other goroutines do between the claim and the cancel's publication;
  \<open>engine\<close> hears whether the run was cancelled before it started and does to the scheduler what
  happens meanwhile.\<close>

definition run_once ::
  "run_env \<Rightarrow> (sched \<Rightarrow> sched) \<Rightarrow> (bool \<Rightarrow> sched \<Rightarrow> engine_answer \<times> sched) \<Rightarrow> rat \<Rightarrow> string \<Rightarrow> sched \<Rightarrow>
     (run_outcome \<times> shortfall list option) \<times> sched" where
  "run_once e others engine secs reason s =
     (case claim s of
        (None, s) \<Rightarrow> ((RunBusy, None), s)
      | (Some me, s) \<Rightarrow>
        (case preflight reason s of
          (False, s) \<Rightarrow> ((RunBusy, None), s)
        | (True, s) \<Rightarrow>
            let s = publish_run me (others (announce reason s));
                cancelled = stop_pending me s;
                (a, s) = engine cancelled (wire_start reason s);
                s = wire_end s;
                (r, s) = (case ea_error a of
                    Some err \<Rightarrow> (case conclude_failed e reason (ea_result a) err (ea_shutdown a) (ea_cancelled a) s of
                        (out, s) \<Rightarrow> ((out, None), s))
                  | None \<Rightarrow> conclude e reason (ea_result a) (ea_start a) (ea_took a) s)
            in (r, release (retire secs s))))"

end
