(* ===== verification/Flight.thy ===== *)
theory Flight
  imports Scheduler
begin

text \<open>
  The runs of the scheduler and the stops that name them, with their atomic operations interleaved in
  every order (\<open>RunOnce\<close>, \<open>Abort\<close> and \<open>recordAbort\<close> of \<open>internal/speedtest/scheduler.go\<close>).  A run is
  known by its id, a stop by its position in the list; \<open>fl_drawn\<close> holds the ids whose goroutine has drawn
  them and not yet tried to store them, so ids may be claimed in another order than they were drawn.  The states follow the order of the code: a run
  publishes its cancel and only then looks whether it is being stopped; a stop records the id it is
  for and only then looks for the cancel.
\<close>

datatype phase = Claimed | Passed | Published | Checked | OnWire | OffWire | Concluded | Retired

record run =
  ru_reason :: string
  ru_phase :: phase
  ru_cancelled :: bool

record stop =
  so_target :: int
  so_recorded :: bool
  so_answered :: bool

record flight =
  fl_sched :: sched
  fl_runs :: "int \<Rightarrow> run option"
  fl_stops :: "stop list"
  fl_drawn :: "int set"

definition set_phase :: "int \<Rightarrow> phase \<Rightarrow> flight \<Rightarrow> flight" where
  "set_phase me p f = f\<lparr>fl_runs := (fl_runs f)(me := map_option (\<lambda>r. r\<lparr>ru_phase := p\<rparr>) (fl_runs f me))\<rparr>"

definition cancel_run :: "int option \<Rightarrow> flight \<Rightarrow> flight" where
  "cancel_run i f = (case i of None \<Rightarrow> f
     | Some me \<Rightarrow> f\<lparr>fl_runs := (fl_runs f)(me := map_option (\<lambda>r. r\<lparr>ru_cancelled := True\<rparr>) (fl_runs f me))\<rparr>)"

definition in_phase :: "flight \<Rightarrow> int \<Rightarrow> phase \<Rightarrow> bool" where
  "in_phase f me p \<longleftrightarrow> (\<exists>r. fl_runs f me = Some r \<and> ru_phase r = p)"

text \<open>What the end of a run does to the scheduler: either of the two conclusions.\<close>

inductive concludes :: "sched \<Rightarrow> sched \<Rightarrow> bool" where
  won: "conclude e reason r start d s = (out, s') \<Longrightarrow> concludes s s'"
| failed: "conclude_failed e reason r err shutdown cancelled s = (out, s') \<Longrightarrow> concludes s s'"

inductive fstep :: "flight \<Rightarrow> flight \<Rightarrow> bool" where
  draws: "draw_id (fl_sched f) = (me, s) \<Longrightarrow> fstep f (f\<lparr>fl_sched := s, fl_drawn := insert me (fl_drawn f)\<rparr>)"
| bounce: "me \<in> fl_drawn f \<Longrightarrow> take_claim me (fl_sched f) = (False, s) \<Longrightarrow>
     fstep f (f\<lparr>fl_sched := s, fl_drawn := fl_drawn f - {me}\<rparr>)"
| claims: "me \<in> fl_drawn f \<Longrightarrow> take_claim me (fl_sched f) = (True, s) \<Longrightarrow>
     fstep f (f\<lparr>fl_sched := s, fl_drawn := fl_drawn f - {me},
       fl_runs := (fl_runs f)(me \<mapsto> \<lparr>ru_reason = reason, ru_phase = Claimed, ru_cancelled = False\<rparr>)\<rparr>)"
| bail: "fl_runs f me = Some r \<Longrightarrow> ru_phase r = Claimed \<Longrightarrow> preflight (ru_reason r) (fl_sched f) = (False, s) \<Longrightarrow>
     fstep f (f\<lparr>fl_sched := s, fl_runs := (fl_runs f)(me := None)\<rparr>)"
| passes: "fl_runs f me = Some r \<Longrightarrow> ru_phase r = Claimed \<Longrightarrow> preflight (ru_reason r) (fl_sched f) = (True, s) \<Longrightarrow>
     fstep f (set_phase me Passed (f\<lparr>fl_sched := announce (ru_reason r) s\<rparr>))"
| publishes: "in_phase f me Passed \<Longrightarrow> fstep f (set_phase me Published (f\<lparr>fl_sched := publish_run me (fl_sched f)\<rparr>))"
| checks: "in_phase f me Published \<Longrightarrow>
     fstep f (set_phase me Checked (cancel_run (if stop_pending me (fl_sched f) then Some me else None) f))"
| starts: "fl_runs f me = Some r \<Longrightarrow> ru_phase r = Checked \<Longrightarrow>
     fstep f (set_phase me OnWire (f\<lparr>fl_sched := wire_start (ru_reason r) (fl_sched f)\<rparr>))"
| ends: "in_phase f me OnWire \<Longrightarrow> fstep f (set_phase me OffWire (f\<lparr>fl_sched := wire_end (fl_sched f)\<rparr>))"
| concluded: "in_phase f me OffWire \<Longrightarrow> concludes (fl_sched f) s \<Longrightarrow> fstep f (set_phase me Concluded (f\<lparr>fl_sched := s\<rparr>))"
| retires: "in_phase f me Concluded \<Longrightarrow> fstep f (set_phase me Retired (f\<lparr>fl_sched := retire secs (fl_sched f)\<rparr>))"
| releases: "in_phase f me Retired \<Longrightarrow>
     fstep f (f\<lparr>fl_sched := release (fl_sched f), fl_runs := (fl_runs f)(me := None)\<rparr>)"
| latches: "fstep f (f\<lparr>fl_sched := (fl_sched f)\<lparr>sc_gate := g\<rparr>\<rparr>)"
| drains: "fstep f (f\<lparr>fl_sched := (fl_sched f)\<lparr>sc_token := False\<rparr>\<rparr>)"
| names_server: "fstep f (f\<lparr>fl_sched := (fl_sched f)\<lparr>sc_server := name\<rparr>\<rparr>)"
| stop_reads: "abort_target me (fl_sched f) = Some cur \<Longrightarrow>
     fstep f (f\<lparr>fl_stops := fl_stops f @ [\<lparr>so_target = cur, so_recorded = False, so_answered = False\<rparr>]\<rparr>)"
| stop_records: "k < length (fl_stops f) \<Longrightarrow> \<not> so_recorded (fl_stops f ! k) \<Longrightarrow>
     fstep f (f\<lparr>fl_sched := record_abort (so_target (fl_stops f ! k)) (fl_sched f),
                fl_stops := (fl_stops f)[k := (fl_stops f ! k)\<lparr>so_recorded := True\<rparr>]\<rparr>)"
| stop_answers: "k < length (fl_stops f) \<Longrightarrow> so_recorded (fl_stops f ! k) \<Longrightarrow> \<not> so_answered (fl_stops f ! k) \<Longrightarrow>
     fstep f (cancel_run (abort_cancels (so_target (fl_stops f ! k)) (fl_sched f))
                (f\<lparr>fl_stops := (fl_stops f)[k := (fl_stops f ! k)\<lparr>so_answered := True\<rparr>]\<rparr>))"

text \<open>States by the number of steps taken since the boot.\<close>

inductive flies :: "int \<Rightarrow> speed_db \<Rightarrow> nat \<Rightarrow> flight \<Rightarrow> bool" for ms d where
  boot: "flies ms d 0 \<lparr>fl_sched = new_scheduler ms d, fl_runs = Map.empty, fl_stops = [], fl_drawn = {}\<rparr>"
| step: "flies ms d n f \<Longrightarrow> fstep f f' \<Longrightarrow> flies ms d (Suc n) f'"

section \<open>What the conclusions leave alone\<close>

definition atomics :: "sched \<Rightarrow> int \<times> int \<times> int option \<times> int \<times> int" where
  "atomics s = (sc_seq s, sc_cur s, sc_inflight s, sc_abort_for s, sc_wire s)"

lemma atomics_frame [simp]:
  "atomics (sc_stats g s) = atomics s" "atomics (snd (on_sdb h s)) = atomics s" "atomics (s\<lparr>sc_db := d\<rparr>) = atomics s"
  "atomics (nudge s) = atomics s" "atomics (s\<lparr>sc_breach := b\<rparr>) = atomics s" "atomics (announce reason s) = atomics s"
  "atomics (s\<lparr>sc_token := t\<rparr>) = atomics s" "atomics (s\<lparr>sc_server := n\<rparr>) = atomics s"
  "atomics (s\<lparr>sc_gate := g'\<rparr>) = atomics s"
  by (simp_all add: atomics_def sc_stats_def on_sdb_def nudge_def announce_def split: prod.split)

lemma span_atomics [simp]: "atomics (record_span e start d s) = atomics s"
  by (simp add: record_span_def Let_def split: prod.split)

lemma usage_atomics [simp]:
  "atomics (record_failed_usage e r reason stage s) = atomics s" "atomics (record_extra_usage e r reason ts s) = atomics s"
  by (simp_all add: record_failed_usage_def record_extra_usage_def)

lemma losers_atomics [simp]: "atomics (record_losers e k ls reason ts s) = atomics s"
  by (induction e k ls reason ts s rule: record_losers.induct) simp_all

lemma concludes_atomics: "concludes s s' \<Longrightarrow> atomics s' = atomics s"
proof (induction rule: concludes.induct)
  case (won e reason r start d s out s')
  show ?case
  proof (cases "ve_ended e 0")
    case False
    define sp where "sp = (run_sample r reason (ve_conn e) (ve_now e))\<lparr>sp_ts := round_second (ve_now e) (rn_losers r)\<rparr>"
    obtain ans s1 where i: "on_sdb (insert_speed_ts (ve_world e 0)
        (sp\<lparr>sp_healthy := vd_healthy (run_verdict (ve_thresholds e) r sp)\<rparr>)) s = (ans, s1)" by fastforce
    have s1: "atomics s1 = atomics s" using i by (metis atomics_frame(2) snd_conv)
    show ?thesis
      using won False i s1
      by (cases ans) (auto simp: conclude_def sp_def Let_def split: prod.splits option.splits)
  qed (use won in \<open>simp add: conclude_def Let_def\<close>)
next
  case (failed e reason r err shutdown cancelled s out s')
  then show ?case by (auto simp: conclude_failed_def Let_def split: if_splits)
qed

section \<open>The invariant\<close>

definition live_phase :: "phase \<Rightarrow> bool" where
  "live_phase p \<longleftrightarrow> p \<in> {Checked, OnWire, OffWire, Concluded}"

text \<open>A drawn id has been claimed by nobody, so no stop names it; the mark is the largest id a stop recorded.\<close>

definition stops_ok :: "sched \<Rightarrow> int set \<Rightarrow> stop list \<Rightarrow> bool" where
  "stops_ok s drawn stops \<longleftrightarrow>
     (\<forall>st \<in> set stops. 0 < so_target st \<and> so_target st \<le> sc_seq s \<and> so_target st \<notin> drawn \<and>
        (so_recorded st \<longrightarrow> so_target st \<le> sc_abort_for s) \<and> (so_answered st \<longrightarrow> so_recorded st)) \<and>
     0 \<le> sc_abort_for s \<and> (sc_abort_for s \<noteq> 0 \<longrightarrow> (\<exists>st \<in> set stops. so_recorded st \<and> so_target st = sc_abort_for s)) \<and>
     (\<forall>d \<in> drawn. 0 < d \<and> d \<le> sc_seq s \<and> d \<noteq> sc_cur s)"

definition run_ok :: "sched \<Rightarrow> stop list \<Rightarrow> run \<Rightarrow> bool" where
  "run_ok s stops r \<longleftrightarrow>
     sc_inflight s = (if ru_phase r = Published \<or> live_phase (ru_phase r) then Some (sc_cur s) else None) \<and>
     odd (sc_wire s) = (ru_phase r = OnWire) \<and> (ru_cancelled r \<longrightarrow> sc_cur s \<in> so_target ` set stops) \<and>
     (live_phase (ru_phase r) \<longrightarrow> (\<forall>st \<in> set stops. so_answered st \<and> so_target st = sc_cur s \<longrightarrow>
        ru_cancelled r \<or> sc_cur s < sc_abort_for s))"

definition idle_ok :: "sched \<Rightarrow> bool" where
  "idle_ok s \<longleftrightarrow> sc_inflight s = None \<and> even (sc_wire s)"

definition flight_inv :: "int \<Rightarrow> flight \<Rightarrow> bool" where
  "flight_inv hi f \<longleftrightarrow> (let s = fl_sched f in
     0 \<le> sc_seq s \<and> sc_seq s \<le> hi \<and> 0 \<le> sc_cur s \<and> sc_cur s \<le> sc_seq s \<and> stops_ok s (fl_drawn f) (fl_stops f) \<and>
     (if sc_cur s = 0 then fl_runs f = Map.empty \<and> idle_ok s
      else \<exists>r. fl_runs f = [sc_cur s \<mapsto> r] \<and> run_ok s (fl_stops f) r))"

lemma one_run [simp]: "m(a \<mapsto> x) = m(a \<mapsto> y) \<longleftrightarrow> x = y"
  by (metis fun_upd_same option.inject)

lemma inv_held:
  "0 \<le> sc_seq (fl_sched f) \<Longrightarrow> sc_seq (fl_sched f) \<le> hi \<Longrightarrow> 0 < sc_cur (fl_sched f) \<Longrightarrow>
   sc_cur (fl_sched f) \<le> sc_seq (fl_sched f) \<Longrightarrow> stops_ok (fl_sched f) (fl_drawn f) (fl_stops f) \<Longrightarrow>
   fl_runs f = [sc_cur (fl_sched f) \<mapsto> r] \<Longrightarrow> run_ok (fl_sched f) (fl_stops f) r \<Longrightarrow> flight_inv hi f"
  by (auto simp: flight_inv_def Let_def)

lemma inv_run:
  assumes "flight_inv hi f" and "fl_runs f me = Some r"
  shows "me = sc_cur (fl_sched f)" "me \<noteq> 0" "fl_runs f = [me \<mapsto> r]" "run_ok (fl_sched f) (fl_stops f) r"
  using assms by (auto simp: flight_inv_def Let_def split: if_splits)

lemma inv_frame:
  assumes "flight_inv hi f" and "atomics s = atomics (fl_sched f)"
  shows "flight_inv hi (f\<lparr>fl_sched := s\<rparr>)"
proof -
  have "stops_ok s = stops_ok (fl_sched f)" "run_ok s = run_ok (fl_sched f)" "idle_ok s = idle_ok (fl_sched f)"
    using assms(2) by (simp_all add: fun_eq_iff stops_ok_def run_ok_def idle_ok_def atomics_def)
  then show ?thesis using assms by (simp add: flight_inv_def Let_def atomics_def)
qed

lemma u64_parity [simp]: "even (u64 n) = even n"
  unfolding u64_def by (rule dvd_mod_iff) simp

text \<open>A step of the run that holds the claim.\<close>

lemma inv_phase:
  assumes inv: "flight_inv hi f" and p: "fl_runs f me = Some r"
    and s: "sc_seq s = sc_seq (fl_sched f)" "sc_cur s = sc_cur (fl_sched f)" "sc_abort_for s = sc_abort_for (fl_sched f)"
    and ok: "run_ok (fl_sched f) (fl_stops f) r \<Longrightarrow> run_ok s (fl_stops f) (r\<lparr>ru_phase := q\<rparr>)"
  shows "flight_inv hi (set_phase me q (f\<lparr>fl_sched := s\<rparr>))"
  using inv_run [OF inv p] inv s ok p by (auto simp: flight_inv_def set_phase_def stops_ok_def Let_def split: if_splits)

lemma run_in_phase: "in_phase f me p \<Longrightarrow> \<exists>r. fl_runs f me = Some r \<and> ru_phase r = p"
  by (simp add: in_phase_def)

lemma sched_self: "f\<lparr>fl_sched := fl_sched f\<rparr> = f"
  by simp

lemma inv_draws:
  assumes "flight_inv hi f" and "draw_id (fl_sched f) = (me, s)" and "hi < 2 ^ 64 - 1"
  shows "flight_inv (hi + 1) (f\<lparr>fl_sched := s, fl_drawn := insert me (fl_drawn f)\<rparr>)"
proof -
  have u: "u64 (sc_seq (fl_sched f) + 1) = sc_seq (fl_sched f) + 1"
    using assms(1,3) by (simp add: flight_inv_def u64_def Let_def)
  then have s: "me = sc_seq (fl_sched f) + 1" "s = (fl_sched f)\<lparr>sc_seq := me\<rparr>"
    using assms(2) by (auto simp: draw_id_def Let_def)
  have "stops_ok s (insert me (fl_drawn f)) (fl_stops f)"
    using assms(1) s by (fastforce simp: flight_inv_def stops_ok_def Let_def)
  moreover have "run_ok s = run_ok (fl_sched f)" "idle_ok s = idle_ok (fl_sched f)"
    using s by (simp_all add: fun_eq_iff run_ok_def idle_ok_def)
  ultimately show ?thesis using assms(1) s by (auto simp: flight_inv_def Let_def)
qed

lemma stops_ok_fewer: "stops_ok s drawn stops \<Longrightarrow> stops_ok s (drawn - D) stops"
  by (auto simp: stops_ok_def)

lemma inv_bounce:
  assumes "flight_inv hi f" and "take_claim me (fl_sched f) = (False, s)"
  shows "flight_inv hi (f\<lparr>fl_sched := s, fl_drawn := fl_drawn f - {me}\<rparr>)"
proof -
  have "atomics s = atomics (fl_sched f)" using assms(2) by (auto simp: take_claim_def split: if_splits)
  from inv_frame [OF assms(1) this] have "flight_inv hi (f\<lparr>fl_sched := s\<rparr>)" .
  then show ?thesis using stops_ok_fewer by (auto simp: flight_inv_def Let_def)
qed

lemma inv_claims:
  assumes "flight_inv hi f" and "me \<in> fl_drawn f" and "take_claim me (fl_sched f) = (True, s)"
  shows "flight_inv hi (f\<lparr>fl_sched := s, fl_drawn := fl_drawn f - {me},
    fl_runs := (fl_runs f)(me \<mapsto> \<lparr>ru_reason = reason, ru_phase = Claimed, ru_cancelled = False\<rparr>)\<rparr>)"
proof -
  have c: "sc_cur (fl_sched f) = 0" "s = (fl_sched f)\<lparr>sc_cur := me\<rparr>"
    using assms(3) by (auto simp: take_claim_def split: if_splits)
  have me: "0 < me" "me \<le> sc_seq (fl_sched f)"
    using assms(1,2) by (auto simp: flight_inv_def stops_ok_def Let_def)
  have "stops_ok s (fl_drawn f - {me}) (fl_stops f)"
    using assms(1) c by (auto simp: flight_inv_def stops_ok_def Let_def)
  moreover have "run_ok s (fl_stops f) \<lparr>ru_reason = reason, ru_phase = Claimed, ru_cancelled = False\<rparr>"
    using assms(1) c by (simp add: flight_inv_def run_ok_def idle_ok_def live_phase_def Let_def)
  ultimately show ?thesis
    using assms(1) c me by (intro inv_held) (auto simp: flight_inv_def Let_def)
qed

lemma inv_gone:
  assumes inv: "flight_inv hi f" and p: "fl_runs f me = Some r" and s: "s = (fl_sched f)\<lparr>sc_cur := 0, sc_gate := g\<rparr>"
    and "sc_inflight (fl_sched f) = None" and "even (sc_wire (fl_sched f))"
  shows "flight_inv hi (f\<lparr>fl_sched := s, fl_runs := (fl_runs f)(me := None)\<rparr>)"
proof -
  have "stops_ok s (fl_drawn f) (fl_stops f)"
    using inv inv_run(2) [OF inv p] s by (force simp: flight_inv_def stops_ok_def Let_def split: if_splits)
  then show ?thesis
    using inv inv_run [OF inv p] assms(4,5) s by (auto simp: flight_inv_def idle_ok_def Let_def)
qed

lemma inv_stop_reads:
  assumes inv: "flight_inv hi f" and "abort_target wanted (fl_sched f) = Some cur"
  shows "flight_inv hi (f\<lparr>fl_stops := fl_stops f @ [\<lparr>so_target = cur, so_recorded = False, so_answered = False\<rparr>]\<rparr>)"
proof -
  have "cur = sc_cur (fl_sched f)" "cur \<noteq> 0" using assms(2) by (auto simp: abort_target_def split: if_splits)
  then show ?thesis using inv by (auto simp: flight_inv_def stops_ok_def run_ok_def Let_def)
qed

lemma nth_upd_set: "k < length xs \<Longrightarrow> x \<in> set (xs[k := y]) \<Longrightarrow> x = y \<or> x \<in> set xs"
  using set_update_subset_insert by fastforce

lemma targets_upd:
  "k < length stops \<Longrightarrow> so_target ` set (stops[k := (stops ! k)\<lparr>so_recorded := b\<rparr>]) = so_target ` set stops"
  "k < length stops \<Longrightarrow> so_target ` set (stops[k := (stops ! k)\<lparr>so_answered := b\<rparr>]) = so_target ` set stops"
  by (simp_all add: map_update flip: set_map) (metis list_update_id nth_map)+

lemma mark_upd:
  assumes "st \<in> set stops" and "so_recorded st" and "\<And>x. so_recorded x \<Longrightarrow> so_recorded (g x)" and "\<And>x. so_target (g x) = so_target x"
  shows "\<exists>st' \<in> set (stops[k := g (stops ! k)]). so_recorded st' \<and> so_target st' = so_target st"
proof -
  obtain i where i: "i < length stops" "st = stops ! i" using assms(1) by (metis in_set_conv_nth)
  then have "stops[k := g (stops ! k)] ! i \<in> set (stops[k := g (stops ! k)])" by simp
  moreover have "so_recorded (stops[k := g (stops ! k)] ! i) \<and> so_target (stops[k := g (stops ! k)] ! i) = so_target st"
    using i assms(2-4) by (cases "i = k") auto
  ultimately show ?thesis by blast
qed

lemma mark_of:
  "stops_ok s drawn stops \<Longrightarrow> sc_abort_for s \<noteq> 0 \<Longrightarrow> \<exists>st \<in> set stops. so_recorded st \<and> so_target st = sc_abort_for s"
  by (simp add: stops_ok_def)

lemma inv_stop_records:
  assumes inv: "flight_inv hi f" and k: "k < length (fl_stops f)" "\<not> so_recorded (fl_stops f ! k)"
  shows "flight_inv hi (f\<lparr>fl_sched := record_abort (so_target (fl_stops f ! k)) (fl_sched f),
           fl_stops := (fl_stops f)[k := (fl_stops f ! k)\<lparr>so_recorded := True\<rparr>]\<rparr>)"
proof -
  let ?s = "record_abort (so_target (fl_stops f ! k)) (fl_sched f)"
  let ?stops = "(fl_stops f)[k := (fl_stops f ! k)\<lparr>so_recorded := True\<rparr>]"
  have a: "sc_abort_for ?s = max (sc_abort_for (fl_sched f)) (so_target (fl_stops f ! k))"
    "sc_seq ?s = sc_seq (fl_sched f)" "sc_cur ?s = sc_cur (fl_sched f)" "sc_wire ?s = sc_wire (fl_sched f)"
    "sc_inflight ?s = sc_inflight (fl_sched f)"
    by (auto simp: record_abort_def)
  have st: "stops_ok (fl_sched f) (fl_drawn f) (fl_stops f)" using inv by (simp add: flight_inv_def Let_def)
  have kt: "fl_stops f ! k \<in> set (fl_stops f)" using k(1) by simp
  have new: "(fl_stops f ! k)\<lparr>so_recorded := True\<rparr> \<in> set ?stops" using k(1) by (rule set_update_memI)
  have "\<exists>x \<in> set ?stops. so_recorded x \<and> so_target x = sc_abort_for ?s" if "sc_abort_for ?s \<noteq> 0"
  proof (cases "so_target (fl_stops f ! k) \<le> sc_abort_for (fl_sched f)")
    case True
    then have same: "sc_abort_for ?s = sc_abort_for (fl_sched f)" using a(1) by simp
    have "sc_abort_for (fl_sched f) \<noteq> 0" using that same by simp
    from mark_of [OF st this] obtain x where "x \<in> set (fl_stops f)" "so_recorded x" "so_target x = sc_abort_for ?s"
      using same by auto
    then show ?thesis using mark_upd [of x "fl_stops f" "\<lambda>x. x\<lparr>so_recorded := True\<rparr>" k] by simp
  next
    case False
    show ?thesis by (rule bexI [OF _ new]) (use False a(1) in simp)
  qed
  moreover have "0 < so_target x \<and> so_target x \<le> sc_seq (fl_sched f) \<and> so_target x \<notin> fl_drawn f \<and>
      (so_recorded x \<longrightarrow> so_target x \<le> sc_abort_for ?s) \<and> (so_answered x \<longrightarrow> so_recorded x)" if "x \<in> set ?stops" for x
    using nth_upd_set [OF k(1) that] st kt a(1) unfolding stops_ok_def by fastforce
  ultimately have "stops_ok ?s (fl_drawn f) ?stops"
    using st a unfolding stops_ok_def by (simp add: le_max_iff_disj)
  moreover have "run_ok (fl_sched f) (fl_stops f) r \<Longrightarrow> run_ok ?s ?stops r" for r
    using k max.cobounded1 [of "sc_abort_for (fl_sched f)"] unfolding run_ok_def a targets_upd(1) [OF k(1)]
    by (auto dest!: nth_upd_set [OF k(1)])
  ultimately show ?thesis using inv by (auto simp: flight_inv_def idle_ok_def a Let_def)
qed

lemma inv_stop_answers:
  assumes inv: "flight_inv hi f" and k: "k < length (fl_stops f)" "so_recorded (fl_stops f ! k)"
  shows "flight_inv hi (cancel_run (abort_cancels (so_target (fl_stops f ! k)) (fl_sched f))
           (f\<lparr>fl_stops := (fl_stops f)[k := (fl_stops f ! k)\<lparr>so_answered := True\<rparr>]\<rparr>))"
proof -
  let ?t = "so_target (fl_stops f ! k)"
  let ?stops = "(fl_stops f)[k := (fl_stops f ! k)\<lparr>so_answered := True\<rparr>]"
  have st: "stops_ok (fl_sched f) (fl_drawn f) (fl_stops f)" using inv by (simp add: flight_inv_def Let_def)
  have kt: "fl_stops f ! k \<in> set (fl_stops f)" using k(1) by simp
  have ok: "stops_ok (fl_sched f) (fl_drawn f) ?stops"
  proof -
    have "\<exists>x \<in> set ?stops. so_recorded x \<and> so_target x = sc_abort_for (fl_sched f)" if nz: "sc_abort_for (fl_sched f) \<noteq> 0"
    proof -
      obtain x where "x \<in> set (fl_stops f)" "so_recorded x" "so_target x = sc_abort_for (fl_sched f)"
        using mark_of [OF st nz] by blast
      then show ?thesis using mark_upd [of x "fl_stops f" "\<lambda>x. x\<lparr>so_answered := True\<rparr>" k] by simp
    qed
    moreover have "0 < so_target x \<and> so_target x \<le> sc_seq (fl_sched f) \<and> so_target x \<notin> fl_drawn f \<and>
        (so_recorded x \<longrightarrow> so_target x \<le> sc_abort_for (fl_sched f)) \<and> (so_answered x \<longrightarrow> so_recorded x)" if "x \<in> set ?stops" for x
      using nth_upd_set [OF k(1) that] st kt k(2) unfolding stops_ok_def by fastforce
    ultimately show ?thesis using st unfolding stops_ok_def by simp
  qed
  show ?thesis
  proof (cases "sc_cur (fl_sched f) = 0")
    case True
    then show ?thesis using inv ok by (auto simp: flight_inv_def idle_ok_def abort_cancels_def cancel_run_def Let_def)
  next
    case False
    then obtain r where r: "fl_runs f = [sc_cur (fl_sched f) \<mapsto> r]" "run_ok (fl_sched f) (fl_stops f) r"
      using inv by (auto simp: flight_inv_def Let_def)
    let ?r = "if sc_inflight (fl_sched f) = Some ?t then r\<lparr>ru_cancelled := True\<rparr> else r"
    have "run_ok (fl_sched f) ?stops ?r"
      using r(2) kt unfolding run_ok_def targets_upd(2) [OF k(1)]
      by (auto dest!: nth_upd_set [OF k(1)] split: if_splits)
    moreover have "sc_inflight (fl_sched f) = Some ?t \<Longrightarrow> ?t = sc_cur (fl_sched f)"
      using r(2) by (auto simp: run_ok_def split: if_splits)
    ultimately show ?thesis using inv ok r False
      by (intro inv_held [where r = ?r]) (auto simp: flight_inv_def abort_cancels_def cancel_run_def Let_def)
  qed
qed

lemma inv_checks:
  assumes inv: "flight_inv hi f" and p: "fl_runs f me = Some r" "ru_phase r = Published"
  shows "flight_inv hi (set_phase me Checked (cancel_run (if stop_pending me (fl_sched f) then Some me else None) f))"
proof -
  note cur = inv_run [OF inv p(1)]
  let ?b = "sc_abort_for (fl_sched f) = me"
  have st: "stops_ok (fl_sched f) (fl_drawn f) (fl_stops f)" using inv by (simp add: flight_inv_def Let_def)
  have caught: "?b \<or> me < sc_abort_for (fl_sched f)"
    if "s \<in> set (fl_stops f)" "so_answered s" "so_target s = me" for s
    using st that unfolding stops_ok_def by (metis order_le_less)
  have "run_ok (fl_sched f) (fl_stops f) (r\<lparr>ru_cancelled := ru_cancelled r \<or> ?b, ru_phase := Checked\<rparr>)"
    using cur p(2) st caught by (auto simp: run_ok_def live_phase_def stops_ok_def intro: rev_image_eqI)
  then show ?thesis using inv cur st
    by (intro inv_held [where r = "r\<lparr>ru_cancelled := ru_cancelled r \<or> ?b, ru_phase := Checked\<rparr>"])
      (auto simp: flight_inv_def set_phase_def cancel_run_def stop_pending_def Let_def)
qed

text \<open>A step that does not touch the claim, the stops or the wire.\<close>

lemma run_ok_frame: "atomics s = atomics s' \<Longrightarrow> run_ok s = run_ok s'"
  by (simp add: fun_eq_iff run_ok_def atomics_def)

lemma inv_advance:
  assumes "flight_inv hi f" and "fl_runs f me = Some r" and "ru_phase r = p" and "atomics s = atomics (fl_sched f)"
    and "live_phase p = live_phase q" and "p \<notin> {OnWire, Published}" and "q \<notin> {OnWire, Published}"
  shows "flight_inv hi (set_phase me q (f\<lparr>fl_sched := s\<rparr>))"
proof (rule inv_phase [OF assms(1,2)])
  show "run_ok (fl_sched f) (fl_stops f) r \<Longrightarrow> run_ok s (fl_stops f) (r\<lparr>ru_phase := q\<rparr>)"
    using assms(3,5-7) run_ok_frame [OF assms(4)] by (simp add: run_ok_def)
qed (use assms(4) in \<open>simp_all add: atomics_def\<close>)

lemma inv_mono: "flight_inv hi f \<Longrightarrow> hi \<le> hi' \<Longrightarrow> flight_inv hi' f"
  by (auto simp: flight_inv_def Let_def)

lemma inv_bail:
  assumes inv: "flight_inv hi f" and r: "fl_runs f me = Some r" "ru_phase r = Claimed"
    and "preflight (ru_reason r) (fl_sched f) = (False, s)"
  shows "flight_inv hi (f\<lparr>fl_sched := s, fl_runs := (fl_runs f)(me := None)\<rparr>)"
proof (rule inv_gone [OF inv r(1)])
  show "s = (fl_sched f)\<lparr>sc_cur := 0, sc_gate := None\<rparr>"
    using assms(4) by (auto simp: preflight_def Let_def split: if_splits option.splits)
qed (use inv_run(4) [OF inv r(1)] r(2) in \<open>auto simp: run_ok_def live_phase_def\<close>)

lemma passed_frame:
  "preflight reason s = (True, s') \<Longrightarrow> stops_ok s' = stops_ok s \<and> run_ok s' = run_ok s \<and> sc_cur s' = sc_cur s \<and> sc_seq s' = sc_seq s \<and>
     sc_abort_for s' = sc_abort_for s"
  by (auto simp: preflight_def fun_eq_iff stops_ok_def run_ok_def Let_def split: if_splits option.splits)

theorem inv_step:
  assumes "fstep f f'" and inv: "flight_inv hi f" and "hi < 2 ^ 64 - 1"
  shows "flight_inv (hi + 1) f'"
  using assms(1)
proof (cases rule: fstep.cases)
  case (draws me s)
  then show ?thesis using inv_draws [OF inv _ assms(3)] by simp
next
  case (bounce me s)
  then show ?thesis using inv_mono [OF inv_bounce [OF inv]] by simp
next
  case (claims me s reason)
  then show ?thesis using inv_mono [OF inv_claims [OF inv]] by simp
next
  case (bail me r s)
  then show ?thesis using inv_mono [OF inv_bail [OF inv]] by simp
next
  case (passes me r s)
  have a: "atomics (announce (ru_reason r) s) = atomics s" by simp
  have "flight_inv hi (set_phase me Passed (f\<lparr>fl_sched := announce (ru_reason r) s\<rparr>))"
  proof (rule inv_phase [OF inv passes(2)])
    show "run_ok (fl_sched f) (fl_stops f) r \<Longrightarrow> run_ok (announce (ru_reason r) s) (fl_stops f) (r\<lparr>ru_phase := Passed\<rparr>)"
      using run_ok_frame [OF a] passed_frame [OF passes(4)] passes(3) by (simp add: run_ok_def live_phase_def)
  qed (use a passed_frame [OF passes(4)] in \<open>simp_all add: atomics_def\<close>)
  then show ?thesis using passes(1) inv_mono by simp
next
  case (publishes me)
  then obtain r where r: "fl_runs f me = Some r" "ru_phase r = Passed" using run_in_phase by blast
  have "flight_inv hi (set_phase me Published (f\<lparr>fl_sched := publish_run me (fl_sched f)\<rparr>))"
    by (rule inv_phase [OF inv r(1)])
      (use r inv_run(1) [OF inv r(1)] in \<open>auto simp: publish_run_def run_ok_def live_phase_def\<close>)
  then show ?thesis using publishes(1) inv_mono by simp
next
  case (checks me)
  then obtain r where "fl_runs f me = Some r" "ru_phase r = Published" using run_in_phase by blast
  then show ?thesis using inv_mono [OF inv_checks [OF inv]] checks(1) by simp
next
  case (starts me r)
  have "flight_inv hi (set_phase me OnWire (f\<lparr>fl_sched := wire_start (ru_reason r) (fl_sched f)\<rparr>))"
    by (rule inv_phase [OF inv starts(2)]) (use starts(3) in \<open>auto simp: wire_start_def run_ok_def live_phase_def\<close>)
  then show ?thesis using starts(1) inv_mono by simp
next
  case (ends me)
  then obtain r where r: "fl_runs f me = Some r" "ru_phase r = OnWire" using run_in_phase by blast
  have "flight_inv hi (set_phase me OffWire (f\<lparr>fl_sched := wire_end (fl_sched f)\<rparr>))"
    by (rule inv_phase [OF inv r(1)]) (use r(2) in \<open>auto simp: wire_end_def run_ok_def live_phase_def\<close>)
  then show ?thesis using ends(1) inv_mono by simp
next
  case (concluded me s)
  then obtain r where r: "fl_runs f me = Some r" "ru_phase r = OffWire" using run_in_phase by blast
  have "flight_inv hi (set_phase me Concluded (f\<lparr>fl_sched := s\<rparr>))"
    by (rule inv_advance [OF inv r concludes_atomics [OF concluded(3)]]) (simp_all add: live_phase_def)
  then show ?thesis using concluded(1) inv_mono by simp
next
  case (retires me secs)
  then obtain r where r: "fl_runs f me = Some r" "ru_phase r = Concluded" using run_in_phase by blast
  have "flight_inv hi (set_phase me Retired (f\<lparr>fl_sched := retire secs (fl_sched f)\<rparr>))"
    by (rule inv_phase [OF inv r(1)]) (use r(2) in \<open>auto simp: retire_def sc_stats_def run_ok_def live_phase_def\<close>)
  then show ?thesis using retires(1) inv_mono by simp
next
  case (releases me)
  then obtain r where r: "fl_runs f me = Some r" "ru_phase r = Retired" using run_in_phase by blast
  have "flight_inv hi (f\<lparr>fl_sched := release (fl_sched f), fl_runs := (fl_runs f)(me := None)\<rparr>)"
    by (rule inv_gone [OF inv r(1), where g = "sc_gate (fl_sched f)"])
      (use r(2) inv_run(4) [OF inv r(1)] in \<open>auto simp: release_def run_ok_def live_phase_def\<close>)
  then show ?thesis using releases(1) inv_mono by simp
next
  case (latches g)
  then show ?thesis using inv_mono [OF inv_frame [OF inv]] by simp
next
  case drains
  then show ?thesis using inv_mono [OF inv_frame [OF inv]] by simp
next
  case (names_server n)
  then show ?thesis using inv_mono [OF inv_frame [OF inv]] by simp
next
  case (stop_reads wanted cur)
  then show ?thesis using inv_mono [OF inv_stop_reads [OF inv]] by simp
next
  case (stop_records k)
  then show ?thesis using inv_mono [OF inv_stop_records [OF inv]] by simp
next
  case (stop_answers k)
  then show ?thesis using inv_mono [OF inv_stop_answers [OF inv]] by simp
qed

lemma flies_inv:
  "flies ms d n f \<Longrightarrow> boot_run_seed ms + int n < 2 ^ 64 \<Longrightarrow> flight_inv (boot_run_seed ms + int n) f"
proof (induction rule: flies.induct)
  case boot
  have "0 \<le> boot_run_seed ms" by (simp add: boot_run_seed_def u64_def)
  then show ?case by (simp add: flight_inv_def new_scheduler_def stops_ok_def idle_ok_def Let_def)
next
  case (step n f f')
  then have "flight_inv (boot_run_seed ms + int n + 1) f'" by (intro inv_step) simp_all
  then show ?case by (simp add: algebra_simps)
qed

end
