(* ===== verification/SpeedLoop.thy ===== *)
theory SpeedLoop
  imports Scheduler
begin

text \<open>
  The schedule of the speedtests (\<open>Loop\<close>, \<open>curInterval\<close>, \<open>scheduleJitter\<close>, \<open>NextRun\<close> and
  \<open>startupRunWanted\<close> of \<open>internal/speedtest/scheduler.go\<close>).  One turn of the loop is a function of
  what it meets: the clock readings and the answers of the gates in the order they are asked, what the
  other goroutines do to the scheduler while it waits, the run it starts, and what ends its sleep.
  The bounded wait for the inputs of the first selection is part of the pause of the latch.
\<close>

section \<open>Intervals\<close>

definition adaptive_factor :: int where "adaptive_factor = 4"
definition adaptive_cap :: duration where "adaptive_cap = 5 * minute"
definition speed_recheck :: duration where "speed_recheck = 30 * second"

text \<open>\<open>live\<close> is the configured interval when the program supplies one.\<close>

definition cur_interval :: "duration \<Rightarrow> duration option \<Rightarrow> bool \<Rightarrow> bool \<Rightarrow> duration" where
  "cur_interval fixed live adaptive unhealthy =
     (let base = (case live of Some d \<Rightarrow> if d > 0 then d else fixed | None \<Rightarrow> fixed) in
      if adaptive \<and> unhealthy
      then let fast = base sdiv adaptive_factor;
               fast = (if fast > adaptive_cap then adaptive_cap else fast);
               fast = (if fast < min_speed then min_speed else fast)
           in if fast < base then fast else base
      else base)"

text \<open>The random pick is reduced to its range.\<close>

definition schedule_jitter :: "int \<Rightarrow> duration \<Rightarrow> duration" where
  "schedule_jitter pick interval =
     (let m = interval sdiv 10; m = (if m > 60 * second then 60 * second else m)
      in if m \<le> 0 then 0 else pick mod m)"

definition startup_run_wanted :: "bool \<Rightarrow> bool \<Rightarrow> int \<Rightarrow> sched \<Rightarrow> bool" where
  "startup_run_wanted initially enabled entry s \<longleftrightarrow> initially \<and> enabled \<and> sc_completions s = entry"

section \<open>The loop\<close>

record sched_loop =
  lp_pending :: bool
  lp_last :: gtime
  lp_jitter :: duration
  lp_deferred :: bool
  lp_anchor :: "(gtime \<times> duration) option"
  lp_sched :: sched

datatype wakeup = Ended | Elapsed | SettingsChanged | RunCompleted

record slot_env =
  te_enabled :: "nat \<Rightarrow> bool"
  te_busy :: bool
  te_now :: "nat \<Rightarrow> gtime"
  te_live :: "duration option"
  te_adaptive :: bool
  te_pick :: int
  te_ended :: bool
  te_pause :: "sched \<Rightarrow> sched"
  te_before :: "sched \<Rightarrow> sched"
  te_sleep :: "sched \<Rightarrow> sched"
  te_wakeup :: wakeup
  te_run_env :: run_env
  te_others :: "sched \<Rightarrow> sched"
  te_engine :: "bool \<Rightarrow> sched \<Rightarrow> engine_answer \<times> sched"
  te_secs :: rat

text \<open>What a turn did: the runs it asked for, when and with what outcome, and how long it chose to sleep.\<close>

datatype did = Asked string gtime run_outcome | Slept duration

definition loop_interval :: "duration \<Rightarrow> slot_env \<Rightarrow> sched_loop \<Rightarrow> duration" where
  "loop_interval fixed e l = cur_interval fixed (te_live e) (te_adaptive e) (br_unhealthy (sc_breach (lp_sched l)))"

definition set_anchor :: "sched_loop \<Rightarrow> sched_loop" where
  "set_anchor l = l\<lparr>lp_anchor := Some (lp_last l, lp_jitter l)\<rparr>"

text \<open>The schedule counts from now.\<close>

definition re_anchor :: "duration \<Rightarrow> slot_env \<Rightarrow> gtime \<Rightarrow> sched_loop \<Rightarrow> sched_loop" where
  "re_anchor fixed e now l = set_anchor (l\<lparr>lp_last := now, lp_jitter := schedule_jitter (te_pick e) (loop_interval fixed e l)\<rparr>)"

definition next_run :: "gtime \<Rightarrow> duration \<Rightarrow> sched_loop \<Rightarrow> gtime option" where
  "next_run now interval l = (case lp_anchor l of None \<Rightarrow> None
     | Some (last_run, jitter) \<Rightarrow> Some (t_add now (t_sub (t_add last_run (interval + jitter)) now)))"

text \<open>A run the loop asks for; a collision is counted.\<close>

definition ask_run :: "slot_env \<Rightarrow> string \<Rightarrow> sched_loop \<Rightarrow> run_outcome \<times> sched_loop" where
  "ask_run e reason l =
     (case run_once (te_run_env e) (te_others e) (te_engine e) (te_secs e) reason (lp_sched l) of
        ((out, alert), s) \<Rightarrow>
          (out, l\<lparr>lp_sched := if out = RunBusy then sc_stats (stats_inc ''speed.scheduled_skipped'') s else s\<rparr>))"

definition latch_turn :: "duration \<Rightarrow> slot_env \<Rightarrow> sched_loop \<Rightarrow> (bool \<times> did list) \<times> sched_loop" where
  "latch_turn fixed e l =
     (let entry = sc_completions (lp_sched l);
          l = l\<lparr>lp_anchor := None\<rparr>
      in if te_ended e then ((True, []), l)
         else let s = te_pause e (lp_sched l);
                  served = (sc_token s \<or> sc_completions s \<noteq> entry);
                  l = l\<lparr>lp_sched := s\<lparr>sc_token := False\<rparr>, lp_pending := \<not> served\<rparr>
              in if lp_pending l \<and> te_enabled e 1
                 then let l = l\<lparr>lp_sched := te_before e ((lp_sched l)\<lparr>sc_gate := Some entry\<rparr>)\<rparr>;
                          (out, l) = ask_run e ''startup'' l;
                          l = re_anchor fixed e (te_now e 1) (l\<lparr>lp_pending := False\<rparr>)
                      in ((False, [Asked ''startup'' (te_now e 0) out]), l\<lparr>lp_deferred := False\<rparr>)
                 else if \<not> lp_pending l then ((False, []), re_anchor fixed e (te_now e 1) l)
                 else ((False, []), set_anchor l))"

text \<open>A completed run ends the sleep only while its nudge is there.\<close>

definition sleep_turn :: "duration \<Rightarrow> slot_env \<Rightarrow> duration \<Rightarrow> sched_loop \<Rightarrow> (bool \<times> did list) \<times> sched_loop" where
  "sleep_turn fixed e wait l0 =
     (let l = l0\<lparr>lp_sched := te_sleep e (lp_sched l0)\<rparr> in
      if te_wakeup e = Ended then ((True, [Slept wait]), l)
      else if te_wakeup e = RunCompleted \<and> sc_token (lp_sched l)
      then let l = l\<lparr>lp_sched := (lp_sched l)\<lparr>sc_token := False\<rparr>\<rparr>;
               l = (if lp_pending l then re_anchor fixed e (te_now e 1) (l\<lparr>lp_pending := False\<rparr>) else l);
               l = (if te_adaptive e \<and> br_unhealthy (sc_breach (lp_sched l)) then re_anchor fixed e (te_now e 2) l else l)
           in ((False, [Slept wait]), l)
      else ((False, [Slept wait]), l))"

text \<open>How long until the deadline.\<close>

definition until_due :: "duration \<Rightarrow> slot_env \<Rightarrow> sched_loop \<Rightarrow> duration" where
  "until_due fixed e l = t_sub (t_add (lp_last l) (loop_interval fixed e l + lp_jitter l)) (te_now e 0)"

definition loop_turn :: "duration \<Rightarrow> slot_env \<Rightarrow> sched_loop \<Rightarrow> (bool \<times> did list) \<times> sched_loop" where
  "loop_turn fixed e l =
     (if lp_pending l \<and> te_enabled e 0 then latch_turn fixed e l
      else let wait = until_due fixed e l;
               wait = (if lp_pending l \<and> wait > speed_recheck then speed_recheck else wait)
           in if wait > 0 then sleep_turn fixed e wait l
              else if te_enabled e 1 \<and> \<not> te_busy e
              then let (out, l) = ask_run e ''scheduled'' (l\<lparr>lp_deferred := False\<rparr>);
                       l = re_anchor fixed e (te_now e 1) l
                   in ((te_ended e, [Asked ''scheduled'' (te_now e 0) out]), l)
              else sleep_turn fixed e speed_recheck (l\<lparr>lp_deferred := True\<rparr>))"

fun loop_turns :: "duration \<Rightarrow> slot_env list \<Rightarrow> sched_loop \<Rightarrow> did list \<times> sched_loop" where
  "loop_turns fixed [] l = ([], l)"
| "loop_turns fixed (e # es) l = (case loop_turn fixed e l of ((over, ds), l) \<Rightarrow>
     if over then (ds, l) else (case loop_turns fixed es l of (ds', l) \<Rightarrow> (ds @ ds', l)))"

text \<open>The settle sleep and the startup run of an enabled boot: \<open>te_enabled e 0\<close> is asked before the
  sleep, \<open>te_enabled e 1\<close> after it.\<close>

definition loop_begin :: "duration \<Rightarrow> slot_env \<Rightarrow> sched \<Rightarrow> (bool \<times> did list) \<times> sched_loop" where
  "loop_begin fixed e s0 =
     (let initially = te_enabled e 0; entry = sc_completions s0;
          l = \<lparr>lp_pending = \<not> initially, lp_last = te_now e 0, lp_jitter = 0, lp_deferred = False, lp_anchor = None,
               lp_sched = te_pause e s0\<rparr>
      in if te_ended e then ((True, []), l)
         else if startup_run_wanted initially (te_enabled e 1) entry (lp_sched l)
         then (case run_once (te_run_env e) (te_others e) (te_engine e) (te_secs e) ''startup'' (lp_sched l) of
            ((out, alert), s) \<Rightarrow>
              ((False, [Asked ''startup'' (te_now e 0) out]), re_anchor fixed e (te_now e 1) (l\<lparr>lp_sched := s\<rparr>)))
         else ((False, []), re_anchor fixed e (te_now e 1) l))"

definition schedule_loop :: "duration \<Rightarrow> slot_env \<Rightarrow> slot_env list \<Rightarrow> sched \<Rightarrow> did list \<times> sched_loop" where
  "schedule_loop fixed e es s = (case loop_begin fixed e s of ((over, ds), l) \<Rightarrow>
     if over then (ds, l) else (case loop_turns fixed es l of (ds', l) \<Rightarrow> (ds @ ds', l)))"

end
