(* ===== verification/SchedulerProps.thy ===== *)
theory SchedulerProps
  imports Flight SpeedLoop Spent Examples ExampleCodec
begin

text \<open>
  The properties of the speedtest scheduler: one run at a time, stops that reach the run they name and
  no other, a green verdict that means something was measured and met, breach streaks, what a run adds
  to the history and what it is billed for.
\<close>

section \<open>One run at a time\<close>

text \<open>C12: However the goroutines interleave, at most one run holds the claim, the scheduler says it is
  running exactly while one does, and the wire word is odd exactly while an engine is using the network.\<close>

theorem one_run_at_a_time:
  assumes "flies ms d n f" and "boot_run_seed ms + int n < 2 ^ 64"
  shows "(\<forall>a b. fl_runs f a \<noteq> None \<and> fl_runs f b \<noteq> None \<longrightarrow> a = b) \<and>
    (running (fl_sched f) \<longleftrightarrow> (\<exists>a. fl_runs f a \<noteq> None)) \<and>
    (odd (fst (activity (fl_sched f))) \<longleftrightarrow> (\<exists>a. in_phase f a OnWire))"
proof -
  have inv: "flight_inv (boot_run_seed ms + int n) f" using flies_inv assms by blast
  have at: "a = sc_cur (fl_sched f)" if "fl_runs f a \<noteq> None" for a using that inv_run(1) [OF inv] by blast
  show ?thesis
  proof (intro conjI)
    show "running (fl_sched f) \<longleftrightarrow> (\<exists>a. fl_runs f a \<noteq> None)"
      using inv by (auto simp: flight_inv_def running_def Let_def split: if_splits)
    show "odd (fst (activity (fl_sched f))) \<longleftrightarrow> (\<exists>a. in_phase f a OnWire)"
      using inv by (auto simp: flight_inv_def activity_def in_phase_def run_ok_def idle_ok_def Let_def split: if_splits)
  qed (use at in blast)
qed

definition eg_boot :: flight where
  "eg_boot = \<lparr>fl_sched = new_scheduler 1 eg_db, fl_runs = Map.empty, fl_stops = [], fl_drawn = {}\<rparr>"

definition eg_run :: run where
  "eg_run = \<lparr>ru_reason = ''manual'', ru_phase = Claimed, ru_cancelled = False\<rparr>"

definition eg_claimed :: flight where
  "eg_claimed = eg_boot\<lparr>fl_sched := (fl_sched eg_boot)\<lparr>sc_seq := 1025, sc_cur := 1025\<rparr>, fl_runs := [1025 \<mapsto> eg_run]\<rparr>"

lemma eg_flies_claimed: "flies 1 eg_db 2 eg_claimed"
proof -
  have "draw_id (fl_sched eg_boot) = (1025, (fl_sched eg_boot)\<lparr>sc_seq := 1025\<rparr>)"
    by (simp add: draw_id_def eg_boot_def new_scheduler_def boot_run_seed_def u64_def)
  note s1 = flies.step [OF flies.boot fstep.draws [OF this [unfolded eg_boot_def]]]
  note s2 = flies.step [OF s1 fstep.claims [where me = 1025 and reason = "''manual''"]]
  have "flies 1 eg_db (Suc (Suc 0)) eg_claimed"
    using s2 by (simp add: eg_claimed_def eg_boot_def eg_run_def take_claim_def new_scheduler_def)
  then show ?thesis by (simp add: eval_nat_numeral)
qed

lemma one_run_at_a_time_witness: "running (fl_sched eg_claimed) \<and> even (fst (activity (fl_sched eg_claimed)))"
proof -
  have "boot_run_seed 1 + int 2 < 2 ^ 64" by (simp add: boot_run_seed_def u64_def)
  note one = one_run_at_a_time [OF eg_flies_claimed this]
  have r: "fl_runs eg_claimed = [1025 \<mapsto> eg_run]" by (simp add: eg_claimed_def)
  have "\<exists>a. fl_runs eg_claimed a \<noteq> None" by (rule exI [of _ 1025]) (simp add: r)
  moreover have "\<not> (\<exists>a. in_phase eg_claimed a OnWire)" by (simp add: in_phase_def r eg_run_def)
  ultimately show ?thesis using one by blast
qed

section \<open>Stops\<close>

text \<open>C11: A stop reaches the run it names: once it has answered, that run is cancelled by the time it has
  published its cancel and looked, so the engine never goes on unaware, even for a stop that came before
  there was a cancel to call; the one exception is a run whose id was overtaken, when a stop of a run with
  a larger id has already been recorded.  And no run is cancelled that no stop named.\<close>

theorem stop_reaches_its_run:
  assumes "flies ms d n f" and "boot_run_seed ms + int n < 2 ^ 64" and "fl_runs f t = Some r"
  shows "(ru_phase r \<in> {Checked, OnWire, OffWire, Concluded} \<and>
       (\<exists>st \<in> set (fl_stops f). so_answered st \<and> so_target st = t) \<longrightarrow>
       ru_cancelled r \<or> (\<exists>st \<in> set (fl_stops f). so_recorded st \<and> t < so_target st)) \<and>
    (ru_cancelled r \<longrightarrow> (\<exists>st \<in> set (fl_stops f). so_target st = t))"
proof -
  have inv: "flight_inv (boot_run_seed ms + int n) f" using flies_inv assms by blast
  note at = inv_run [OF inv assms(3)]
  have st: "stops_ok (fl_sched f) (fl_drawn f) (fl_stops f)" using inv by (simp add: flight_inv_def Let_def)
  have pos: "0 \<le> t" using inv at(1) by (simp add: flight_inv_def Let_def)
  have "\<exists>st \<in> set (fl_stops f). so_recorded st \<and> t < so_target st" if later: "t < sc_abort_for (fl_sched f)"
  proof -
    have "sc_abort_for (fl_sched f) \<noteq> 0" using pos later by linarith
    from mark_of [OF st this] show ?thesis using later by auto
  qed
  moreover have "ru_phase r \<in> {Checked, OnWire, OffWire, Concluded} \<longrightarrow>
      (\<forall>st \<in> set (fl_stops f). so_answered st \<and> so_target st = t \<longrightarrow> ru_cancelled r \<or> t < sc_abort_for (fl_sched f))"
    "ru_cancelled r \<longrightarrow> t \<in> so_target ` set (fl_stops f)"
    using at(4) unfolding run_ok_def live_phase_def at(1) [symmetric] by simp_all
  ultimately show ?thesis by blast
qed

text \<open>A stop that answers while the run it names has no cancel yet.\<close>

definition eg_stopped :: flight where
  "eg_stopped = eg_claimed\<lparr>fl_sched := (fl_sched eg_claimed)\<lparr>sc_abort_for := 1025\<rparr>,
     fl_stops := [\<lparr>so_target = 1025, so_recorded = True, so_answered = True\<rparr>]\<rparr>"

lemmas eg_step_simps = eg_claimed_def eg_boot_def eg_run_def new_scheduler_def record_abort_def abort_cancels_def cancel_run_def
  set_phase_def in_phase_def stop_pending_def publish_run_def announce_def sc_stats_def

lemma eg_flies_stopped: "flies 1 eg_db 5 eg_stopped"
proof -
  have 1: "abort_target 0 (fl_sched eg_claimed) = Some 1025"
    by (simp add: abort_target_def eg_claimed_def)
  note s1 = flies.step [OF eg_flies_claimed fstep.stop_reads [OF 1]]
  note s2 = flies.step [OF s1 fstep.stop_records [where k = 0]]
  note s3 = flies.step [OF s2 fstep.stop_answers [where k = 0]]
  have "flies 1 eg_db (Suc (Suc (Suc 2))) eg_stopped"
    using s3 by (simp add: eg_stopped_def eg_step_simps)
  then show ?thesis by (simp add: eval_nat_numeral)
qed

definition eg_checked :: flight where
  "eg_checked = eg_stopped\<lparr>fl_sched := publish_run 1025 (announce ''manual'' (fl_sched eg_stopped)),
     fl_runs := [1025 \<mapsto> eg_run\<lparr>ru_phase := Checked, ru_cancelled := True\<rparr>]\<rparr>"

lemma eg_flies_checked: "flies 1 eg_db 8 eg_checked"
proof -
  have r: "fl_runs eg_stopped 1025 = Some eg_run" by (simp add: eg_stopped_def eg_claimed_def)
  have p: "preflight (ru_reason eg_run) (fl_sched eg_stopped) = (True, fl_sched eg_stopped)" by (simp add: preflight_def eg_run_def)
  note s1 = flies.step [OF eg_flies_stopped fstep.passes [OF r _ p]]
  note s2 = flies.step [OF s1 fstep.publishes [where me = 1025]]
  note s3 = flies.step [OF s2 fstep.checks [where me = 1025]]
  have "flies 1 eg_db (Suc (Suc (Suc 5))) eg_checked"
    using s3 by (simp add: eg_checked_def eg_stopped_def eg_step_simps)
  then show ?thesis by (simp add: eval_nat_numeral)
qed

lemma stop_reaches_its_run_witness:
  "\<exists>r. fl_runs eg_checked 1025 = Some r \<and> ru_cancelled r"
proof -
  have s: "boot_run_seed 1 + int 8 < 2 ^ 64" by (simp add: boot_run_seed_def u64_def)
  obtain r where r: "fl_runs eg_checked 1025 = Some r" by (simp add: eg_checked_def)
  then have "ru_phase r = Checked" by (auto simp: eg_checked_def)
  moreover have "\<exists>st \<in> set (fl_stops eg_checked). so_answered st \<and> so_target st = 1025"
    by (simp add: eg_checked_def eg_stopped_def)
  moreover have "\<not> (\<exists>st \<in> set (fl_stops eg_checked). so_recorded st \<and> 1025 < so_target st)"
    by (simp add: eg_checked_def eg_stopped_def)
  ultimately have "ru_cancelled r" using stop_reaches_its_run [OF eg_flies_checked s r] by blast
  then show ?thesis using r by blast
qed

text \<open>How a run gets from its claim onto the wire, how it leaves, and how a stop is answered.\<close>

definition seen :: "flight \<Rightarrow> int \<times> int \<times> int option \<times> int" where
  "seen f = (sc_seq (fl_sched f), sc_cur (fl_sched f), sc_inflight (fl_sched f), sc_abort_for (fl_sched f))"

lemma seen_same: "atomics s = atomics (fl_sched f) \<Longrightarrow> seen (f\<lparr>fl_sched := s\<rparr>) = seen f"
  by (simp add: seen_def atomics_def)

lemma run_to_wire:
  assumes f: "flies ms d n f" and r: "fl_runs f me = Some r" "ru_phase r = Claimed" "ru_reason r \<noteq> ''startup''"
  shows "\<exists>n g. flies ms d n g \<and>
    (\<exists>r'. fl_runs g = (fl_runs f)(me \<mapsto> r') \<and> ru_phase r' = OnWire \<and> ru_cancelled r' = (ru_cancelled r \<or> sc_abort_for (fl_sched f) = me)) \<and>
    fl_stops g = fl_stops f \<and> fl_drawn g = fl_drawn f \<and>
    seen g = (sc_seq (fl_sched f), sc_cur (fl_sched f), Some me, sc_abort_for (fl_sched f))"
proof -
  let ?b = "sc_abort_for (fl_sched f) = me"
  have p: "preflight (ru_reason r) (fl_sched f) = (True, fl_sched f)" using r(3) by (simp add: preflight_def)
  note s1 = flies.step [OF f fstep.passes [OF r(1,2) p]]
  note s2 = flies.step [OF s1 fstep.publishes [where me = me]]
  note s3 = flies.step [OF s2 fstep.checks [where me = me]]
  note s4 = flies.step [OF s3 fstep.starts [where me = me and r = "r\<lparr>ru_phase := Checked, ru_cancelled := ru_cancelled r \<or> ?b\<rparr>"]]
  show ?thesis
    by (rule exI, rule exI, rule conjI, rule s4)
      (use r in \<open>simp_all add: set_phase_def in_phase_def cancel_run_def stop_pending_def publish_run_def announce_def
        sc_stats_def wire_start_def seen_def\<close>)
qed

lemma nothing_left [simp]: "concludes s s"
proof -
  let ?e = "\<lparr>ve_world = \<lambda>_. undefined, ve_ended = \<lambda>_. True, ve_now = 0, ve_conn = undefined, ve_thresholds = None,
    ve_streak = None, ve_record_failures = False\<rparr>"
  have "conclude_failed ?e [] r err False True s = (RunAborted, s)" for r err
    by (simp add: conclude_failed_def record_failed_usage_def Let_def)
  then show ?thesis by (rule concludes.failed)
qed

lemma run_goes:
  assumes f: "flies ms d n f" and r: "fl_runs f me = Some r" "ru_phase r = OnWire"
  shows "\<exists>n g. flies ms d n g \<and> fl_runs g = (fl_runs f)(me := None) \<and> fl_stops g = fl_stops f \<and> fl_drawn g = fl_drawn f \<and>
    seen g = (sc_seq (fl_sched f), 0, None, sc_abort_for (fl_sched f))"
proof -
  note s1 = flies.step [OF f fstep.ends [where me = me]]
  note s2 = flies.step [OF s1 fstep.concluded [where me = me, OF _ nothing_left]]
  note s3 = flies.step [OF s2 fstep.retires [where me = me and secs = 0]]
  note s4 = flies.step [OF s3 fstep.releases [where me = me]]
  show ?thesis
    by (rule exI, rule exI, rule conjI, rule s4)
      (use r in \<open>simp_all add: set_phase_def in_phase_def wire_end_def retire_def release_def sc_stats_def seen_def\<close>)
qed

lemma stop_answered:
  assumes f: "flies ms d n f" and me: "sc_cur (fl_sched f) = me" "me \<noteq> 0" "sc_inflight (fl_sched f) = None"
  shows "\<exists>n g. flies ms d n g \<and> fl_runs g = fl_runs f \<and> fl_drawn g = fl_drawn f \<and>
    fl_stops g = fl_stops f @ [\<lparr>so_target = me, so_recorded = True, so_answered = True\<rparr>] \<and>
    seen g = (sc_seq (fl_sched f), me, None, max (sc_abort_for (fl_sched f)) me)"
proof -
  have 1: "abort_target 0 (fl_sched f) = Some me" using me by (simp add: abort_target_def)
  note s1 = flies.step [OF f fstep.stop_reads [OF 1]]
  note s2 = flies.step [OF s1 fstep.stop_records [where k = "length (fl_stops f)"]]
  note s3 = flies.step [OF s2 fstep.stop_answers [where k = "length (fl_stops f)"]]
  show ?thesis
    by (rule exI, rule exI, rule conjI, rule s3)
      (use me in \<open>simp_all add: record_abort_def abort_cancels_def cancel_run_def seen_def nth_append list_update_append\<close>)
qed

lemma run_claims:
  assumes f: "flies ms d n f" and "me \<in> fl_drawn f" and "sc_cur (fl_sched f) = 0"
  shows "\<exists>n g. flies ms d n g \<and> fl_runs g = (fl_runs f)(me \<mapsto> eg_run) \<and> fl_stops g = fl_stops f \<and>
    fl_drawn g = fl_drawn f - {me} \<and> seen g = (sc_seq (fl_sched f), me, sc_inflight (fl_sched f), sc_abort_for (fl_sched f))"
proof -
  have t: "take_claim me (fl_sched f) = (True, (fl_sched f)\<lparr>sc_cur := me\<rparr>)" using assms(3) by (simp add: take_claim_def)
  note s1 = flies.step [OF f fstep.claims [OF assms(2) t, where reason = "''manual''"]]
  show ?thesis by (rule exI, rule exI, rule conjI, rule s1) (simp_all add: seen_def eg_run_def)
qed

lemma eg_flies_two_drawn:
  "\<exists>f. flies 1 eg_db 2 f \<and> fl_runs f = Map.empty \<and> fl_stops f = [] \<and> fl_drawn f = {1025, 1026} \<and> seen f = (1026, 0, None, 0)"
proof -
  have 1: "draw_id (new_scheduler 1 eg_db) = (1025, (new_scheduler 1 eg_db)\<lparr>sc_seq := 1025\<rparr>)"
    by (simp add: draw_id_def new_scheduler_def boot_run_seed_def u64_def)
  have 2: "draw_id ((new_scheduler 1 eg_db)\<lparr>sc_seq := 1025\<rparr>) = (1026, (new_scheduler 1 eg_db)\<lparr>sc_seq := 1026\<rparr>)"
    by (simp add: draw_id_def new_scheduler_def u64_def)
  note s1 = flies.step [OF flies.boot fstep.draws [where me = 1025]]
  note s2 = flies.step [OF s1 fstep.draws [where me = 1026]]
  have "flies 1 eg_db (Suc (Suc 0)) \<lparr>fl_sched = (new_scheduler 1 eg_db)\<lparr>sc_seq := 1026\<rparr>, fl_runs = Map.empty, fl_stops = [],
      fl_drawn = {1026, 1025}\<rparr>"
    using s2 [of 1 eg_db] 1 2 by simp
  then show ?thesis by (intro exI) (auto simp: eval_nat_numeral seen_def new_scheduler_def)
qed

text \<open>A stop can be lost.  A goroutine draws its run id and is overtaken: the run of the next id is
  claimed, stopped and gone before the first one claims its own.  A stop that names the first run before
  its cancel is published is then taken for an old one, answers that it stopped the run, and the run
  goes on to the engine.\<close>

theorem overtaken_stop_is_lost:
  "\<exists>n f r. flies 1 eg_db n f \<and> fl_runs f 1025 = Some r \<and> ru_phase r = OnWire \<and> \<not> ru_cancelled r \<and>
     (\<exists>st \<in> set (fl_stops f). so_target st = 1025 \<and> so_recorded st \<and> so_answered st)"
proof -
  obtain f0 where f0: "flies 1 eg_db 2 f0" "fl_runs f0 = Map.empty" "fl_stops f0 = []" "fl_drawn f0 = {1025, 1026}"
    "seen f0 = (1026, 0, None, 0)" using eg_flies_two_drawn by blast
  obtain n1 f1 where f1: "flies 1 eg_db n1 f1" "fl_runs f1 = [1026 \<mapsto> eg_run]" "fl_stops f1 = []" "fl_drawn f1 = {1025}"
    "seen f1 = (1026, 1026, None, 0)"
    using run_claims [OF f0(1), of 1026] f0 by (auto simp: seen_def insert_Diff_if)
  obtain n2 f2 where f2: "flies 1 eg_db n2 f2" "fl_runs f2 = [1026 \<mapsto> eg_run]" "fl_drawn f2 = {1025}" "seen f2 = (1026, 1026, None, 1026)"
    using stop_answered [OF f1(1), of 1026] f1 by (auto simp: seen_def)
  obtain n3 f3 r3 where f3: "flies 1 eg_db n3 f3" "fl_runs f3 = [1026 \<mapsto> r3]" "ru_phase r3 = OnWire" "fl_drawn f3 = {1025}"
    "seen f3 = (1026, 1026, Some 1026, 1026)"
    using run_to_wire [OF f2(1), of 1026 eg_run] f2 by (force simp: seen_def eg_run_def)
  obtain n4 f4 where f4: "flies 1 eg_db n4 f4" "fl_runs f4 = Map.empty" "fl_drawn f4 = {1025}" "seen f4 = (1026, 0, None, 1026)"
    using run_goes [OF f3(1), of 1026 r3] f3 by (auto simp: seen_def)
  obtain n5 f5 where f5: "flies 1 eg_db n5 f5" "fl_runs f5 = [1025 \<mapsto> eg_run]" "seen f5 = (1026, 1025, None, 1026)"
    using run_claims [OF f4(1), of 1025] f4 by (auto simp: seen_def)
  obtain n6 f6 where f6: "flies 1 eg_db n6 f6" "fl_runs f6 = [1025 \<mapsto> eg_run]" "seen f6 = (1026, 1025, None, 1026)"
    "\<exists>st \<in> set (fl_stops f6). so_target st = 1025 \<and> so_recorded st \<and> so_answered st"
    using stop_answered [OF f5(1), of 1025] f5 by (auto simp: seen_def)
  show ?thesis
    using run_to_wire [OF f6(1), of 1025 eg_run] f6 by (force simp: seen_def eg_run_def)
qed

section \<open>Verdicts\<close>

lemma green_iff:
  "vd_healthy (run_verdict (Some t) r sp) = Some True \<longleftrightarrow>
     thresholds_any t \<and> lost_directions r t = [] \<and> eval_thresholds sp t = [] \<and> \<not> thresholds_unmeasured sp t \<and> thresholds_measurable sp t"
  by (auto simp: run_verdict_def run_judged_def no_verdict_def Let_def)

lemma measurable_any: "thresholds_measurable sp t \<Longrightarrow> thresholds_any t"
  by (auto simp: thresholds_measurable_def thresholds_any_def above_zero_def)

lemma optional_nil:
  "((if c then [x] else []) = []) = (\<not> c)"
  "((case v of None \<Rightarrow> [] | Some j \<Rightarrow> if p j then [g j] else []) = []) = (\<forall>j. v = Some j \<longrightarrow> \<not> p j)"
  by (auto split: option.split)

lemma nothing_lost:
  "lost_directions r t = [] \<longleftrightarrow> (above_zero (th_down t) \<longrightarrow> \<not> rn_down_failed r) \<and> (above_zero (th_up t) \<longrightarrow> \<not> rn_up_failed r)"
  unfolding lost_directions_def append_is_Nil_conv optional_nil by blast

lemma nothing_short:
  "eval_thresholds sp t = [] \<longleftrightarrow>
     (above_zero (th_down t) \<and> sp_down_bytes sp \<noteq> None \<longrightarrow> \<not> gf_less (sp_down sp) (th_down t)) \<and>
     (above_zero (th_up t) \<and> sp_up_bytes sp \<noteq> None \<longrightarrow> \<not> gf_less (sp_up sp) (th_up t)) \<and>
     (above_zero (th_ping t) \<and> above_zero (sample_ping sp) \<longrightarrow> \<not> gf_less (th_ping t) (sample_ping sp)) \<and>
     (\<forall>j. sp_jitter sp = Some j \<longrightarrow> above_zero (th_jitter t) \<longrightarrow> \<not> gf_less (th_jitter t) j) \<and>
     (\<forall>l. sp_loss sp = Some l \<longrightarrow> above_zero (th_loss t) \<longrightarrow>
        \<not> gf_less (th_loss t) l \<and> \<not> (gf_le (Finite 100) (th_loss t) \<and> gf_le (Finite 100) l)) \<and>
     (\<forall>b. bloat (sp_load_down sp) (sp_idle sp) = Some b \<longrightarrow> above_zero (th_bloat_down t) \<longrightarrow> \<not> gf_less (th_bloat_down t) b) \<and>
     (\<forall>b. bloat (sp_load_up sp) (sp_idle sp) = Some b \<longrightarrow> above_zero (th_bloat_up t) \<longrightarrow> \<not> gf_less (th_bloat_up t) b)"
  unfolding eval_thresholds_def append_is_Nil_conv optional_nil Let_def by blast

lemma all_measured:
  "\<not> thresholds_unmeasured sp t \<longleftrightarrow>
     (above_zero (th_ping t) \<longrightarrow> above_zero (sample_ping sp)) \<and>
     (above_zero (th_jitter t) \<longrightarrow> (\<exists>j. sp_jitter sp = Some j)) \<and>
     (above_zero (th_loss t) \<longrightarrow> (\<exists>l. sp_loss sp = Some l)) \<and>
     (above_zero (th_bloat_down t) \<and> sp_down_bytes sp \<noteq> None \<longrightarrow> (\<exists>b. bloat (sp_load_down sp) (sp_idle sp) = Some b)) \<and>
     (above_zero (th_bloat_up t) \<and> sp_up_bytes sp \<noteq> None \<longrightarrow> (\<exists>b. bloat (sp_load_up sp) (sp_idle sp) = Some b))"
proof -
  have "(\<exists>b. bloat l i = Some b) \<longleftrightarrow> \<not> (i = None \<or> l = None)" for l i by (cases l; cases i) (simp_all add: bloat_def)
  then show ?thesis unfolding thresholds_unmeasured_def by (metis not_None_eq)
qed

text \<open>C20: A run is recorded as healthy exactly when the enabled thresholds covered something it measured,
  no direction with a minimum was lost, and every enabled check that applies was made and met: each
  measured direction reached its minimum, ping, jitter and loss were read and within their limits (where
  a limit of all packets is broken by total loss), and the added latency of each direction that ran was
  read and, where it was read at all, within its limit.  A direction that did not run owes no reading.\<close>

theorem green_means_met:
  "vd_healthy (run_verdict (Some t) r sp) = Some True \<longleftrightarrow>
    thresholds_measurable sp t \<and>
    (above_zero (th_down t) \<longrightarrow> \<not> rn_down_failed r \<and> (sp_down_bytes sp \<noteq> None \<longrightarrow> \<not> gf_less (sp_down sp) (th_down t))) \<and>
    (above_zero (th_up t) \<longrightarrow> \<not> rn_up_failed r \<and> (sp_up_bytes sp \<noteq> None \<longrightarrow> \<not> gf_less (sp_up sp) (th_up t))) \<and>
    (above_zero (th_ping t) \<longrightarrow> above_zero (sample_ping sp) \<and> \<not> gf_less (th_ping t) (sample_ping sp)) \<and>
    (above_zero (th_jitter t) \<longrightarrow> (\<exists>j. sp_jitter sp = Some j \<and> \<not> gf_less (th_jitter t) j)) \<and>
    (above_zero (th_loss t) \<longrightarrow> (\<exists>l. sp_loss sp = Some l \<and> \<not> gf_less (th_loss t) l \<and>
       \<not> (gf_le (Finite 100) (th_loss t) \<and> gf_le (Finite 100) l))) \<and>
    (above_zero (th_bloat_down t) \<longrightarrow>
       (case bloat (sp_load_down sp) (sp_idle sp) of Some b \<Rightarrow> \<not> gf_less (th_bloat_down t) b | None \<Rightarrow> sp_down_bytes sp = None)) \<and>
    (above_zero (th_bloat_up t) \<longrightarrow>
       (case bloat (sp_load_up sp) (sp_idle sp) of Some b \<Rightarrow> \<not> gf_less (th_bloat_up t) b | None \<Rightarrow> sp_up_bytes sp = None))"
  (is "_ \<longleftrightarrow> ?m \<and> ?down \<and> ?up \<and> ?ping \<and> ?jitter \<and> ?loss \<and> ?bd \<and> ?bu")
proof -
  have bd: "?bd \<longleftrightarrow> (above_zero (th_bloat_down t) \<and> sp_down_bytes sp \<noteq> None \<longrightarrow> (\<exists>b. bloat (sp_load_down sp) (sp_idle sp) = Some b)) \<and>
      (\<forall>b. bloat (sp_load_down sp) (sp_idle sp) = Some b \<longrightarrow> above_zero (th_bloat_down t) \<longrightarrow> \<not> gf_less (th_bloat_down t) b)"
    by (auto split: option.split)
  have bu: "?bu \<longleftrightarrow> (above_zero (th_bloat_up t) \<and> sp_up_bytes sp \<noteq> None \<longrightarrow> (\<exists>b. bloat (sp_load_up sp) (sp_idle sp) = Some b)) \<and>
      (\<forall>b. bloat (sp_load_up sp) (sp_idle sp) = Some b \<longrightarrow> above_zero (th_bloat_up t) \<longrightarrow> \<not> gf_less (th_bloat_up t) b)"
    by (auto split: option.split)
  have jl: "?jitter \<longleftrightarrow> (above_zero (th_jitter t) \<longrightarrow> (\<exists>j. sp_jitter sp = Some j)) \<and>
      (\<forall>j. sp_jitter sp = Some j \<longrightarrow> above_zero (th_jitter t) \<longrightarrow> \<not> gf_less (th_jitter t) j)"
    "?loss \<longleftrightarrow> (above_zero (th_loss t) \<longrightarrow> (\<exists>l. sp_loss sp = Some l)) \<and>
      (\<forall>l. sp_loss sp = Some l \<longrightarrow> above_zero (th_loss t) \<longrightarrow>
        \<not> gf_less (th_loss t) l \<and> \<not> (gf_le (Finite 100) (th_loss t) \<and> gf_le (Finite 100) l))"
    by auto
  have sides: "?down \<longleftrightarrow> (above_zero (th_down t) \<longrightarrow> \<not> rn_down_failed r) \<and>
      (above_zero (th_down t) \<and> sp_down_bytes sp \<noteq> None \<longrightarrow> \<not> gf_less (sp_down sp) (th_down t))"
    "?up \<longleftrightarrow> (above_zero (th_up t) \<longrightarrow> \<not> rn_up_failed r) \<and>
      (above_zero (th_up t) \<and> sp_up_bytes sp \<noteq> None \<longrightarrow> \<not> gf_less (sp_up sp) (th_up t))"
    "?ping \<longleftrightarrow> (above_zero (th_ping t) \<longrightarrow> above_zero (sample_ping sp)) \<and>
      (above_zero (th_ping t) \<and> above_zero (sample_ping sp) \<longrightarrow> \<not> gf_less (th_ping t) (sample_ping sp))"
    by auto
  have any: "thresholds_any t \<and> x \<and> y \<and> z \<and> ?m \<longleftrightarrow> ?m \<and> x \<and> y \<and> z" for x y z using measurable_any by blast
  show ?thesis unfolding green_iff any sides bd bu jl nothing_lost nothing_short all_measured by (simp only: conj_ac)
qed

definition eg_limits :: thresholds where
  "eg_limits = \<lparr>th_down = Finite 50, th_up = Finite 0, th_ping = Finite 40, th_jitter = Finite 0, th_loss = Finite 0,
     th_bloat_down = Finite 0, th_bloat_up = Finite 0\<rparr>"

definition eg_run_result :: round_result where
  "eg_run_result = \<lparr>rn_down = Finite 90, rn_up = Finite 20, rn_ping = Finite 12, rn_jitter = None, rn_server = ''Example'',
     rn_server_id = ''1'', rn_engine = ''ookla'', rn_loss = None, rn_down_bytes = 1000, rn_up_bytes = 300, rn_extra_down = 70,
     rn_extra_up = 0, rn_up_failed = False, rn_down_failed = False, rn_ip_family = [], rn_udp_direction = [],
     rn_ping_best = None, rn_idle = None, rn_load_down = None, rn_load_up = None, rn_load_down_p95 = None,
     rn_load_up_p95 = None, rn_selection = None, rn_race = None, rn_measured = 0, rn_losers = []\<rparr>"

definition eg_conn :: conn_info where
  "eg_conn = \<lparr>ci_ipv4 = [], ci_ipv6 = [], ci_isp = [], ci_isp_location = [], ci_dns_ip = [], ci_dns_provider = [],
     ci_dns_location = [], ci_colo = [], ci_exit = []\<rparr>"

lemmas eg_verdict_defs = run_verdict_def run_judged_def no_verdict_def thresholds_any_def eg_limits_def lost_directions_def
  above_zero_def thresholds_measurable_def eval_thresholds_def sample_ping_def thresholds_unmeasured_def run_sample_def
  eg_run_result_def bytes_ptr_def bloat_def challenge_lost_report_def race_coord_def

lemma green_means_met_witness:
  "\<not> gf_less (Finite 40) (sample_ping (run_sample eg_run_result ''manual'' eg_conn 7))"
proof -
  have "vd_healthy (run_verdict (Some eg_limits) eg_run_result (run_sample eg_run_result ''manual'' eg_conn 7)) = Some True"
    by (simp add: eg_verdict_defs Let_def)
  from green_means_met [THEN iffD1, OF this] show ?thesis by (simp add: eg_limits_def above_zero_def)
qed

section \<open>Breach streaks\<close>

definition breaching :: "verdict \<Rightarrow> bool" where "breaching v \<longleftrightarrow> vd_judged v \<and> vd_failures v \<noteq> []"

definition clearing :: "verdict \<Rightarrow> bool" where
  "clearing v \<longleftrightarrow> (if vd_judged v then vd_failures v = [] else \<not> vd_active v)"

definition counted :: "(verdict \<times> int option) list \<Rightarrow> breach" where
  "counted vs = fold (\<lambda>(v, streak) b. snd (count_verdict v streak b)) vs \<lparr>br_consec = 0, br_unhealthy = False\<rparr>"

text \<open>The breaches since the last run that cleared them.\<close>

definition recent_breaches :: "verdict list \<Rightarrow> int" where
  "recent_breaches vs = int (length (filter breaching (takeWhile (\<lambda>v. \<not> clearing v) (rev vs))))"

lemma consec_recent: "br_consec (counted vs) = recent_breaches (map fst vs)"
proof (induction vs rule: rev_induct)
  case (snoc x vs)
  then show ?case
    by (cases x) (auto simp: counted_def count_verdict_def recent_breaches_def breaching_def clearing_def Let_def)
qed (simp add: counted_def recent_breaches_def)

text \<open>C31: The alert goes out exactly at a judged breach that is at least the configured number of breaches
  since the last run that passed or had no thresholds; a run without a verdict, such as a lost
  challenge or a check that could not be measured, neither counts nor clears.\<close>

theorem alert_after_streak:
  "fst (count_verdict v streak (counted vs)) \<longleftrightarrow>
     breaching v \<and> alert_after streak \<le> recent_breaches (map fst vs @ [v])"
proof -
  have "breaching v \<Longrightarrow> recent_breaches (map fst vs @ [v]) = recent_breaches (map fst vs) + 1"
    by (simp add: recent_breaches_def breaching_def clearing_def)
  then show ?thesis using consec_recent [of vs] by (auto simp: count_verdict_def breaching_def Let_def)
qed

section \<open>What a run adds to the history\<close>

abbreviation runs_of :: "sched \<Rightarrow> speed_row list" where "runs_of s \<equiv> sd_rows (sc_db s)"

text \<open>Rows that are no result: accounting, and the members of a round.\<close>

definition grows :: "sched \<Rightarrow> sched \<Rightarrow> bool" where
  "grows s s' \<longleftrightarrow> (\<exists>rows. runs_of s' = runs_of s @ rows \<and> filter speed_is_result rows = [])"

lemma grows_refl [simp]: "grows s s" by (simp add: grows_def)

lemma grows_trans: "grows a b \<Longrightarrow> grows b c \<Longrightarrow> grows a c"
  unfolding grows_def by (metis append_assoc filter_append append_Nil)

lemma grows_same: "runs_of s' = runs_of s \<Longrightarrow> grows s s'" by (simp add: grows_def)

lemma insert_grows:
  assumes "\<And>ts. \<not> speed_is_result (speed_row_of ts sp)"
  shows "grows s (snd (on_sdb (insert_speed_ts w sp) s))" "grows s (snd (on_sdb (insert_speed w sp) s))"
proof -
  obtain r d where i: "insert_speed_ts w sp (sc_db s) = (r, d)" by fastforce
  show "grows s (snd (on_sdb (insert_speed_ts w sp) s))" "grows s (snd (on_sdb (insert_speed w sp) s))"
    using insert_speed_ts_rows [OF i] assms i
    by (auto simp: grows_def on_sdb_def insert_speed_def split: sum.splits)
qed

lemma no_result_rows [simp]:
  "\<not> speed_is_result (speed_row_of ts (usage_sample t r reason stage u dn un))"
  "\<not> speed_is_result (speed_row_of ts (loser_sample e l reason t'))"
  by (simp_all add: speed_is_result_def speed_not_failed_def speed_row_of_def usage_sample_def loser_sample_def Let_def)

lemma extra_grows [simp]: "grows s (record_extra_usage e r reason ts s)"
  using insert_grows(2) by (simp add: record_extra_usage_def)

lemma losers_grow: "grows s (record_losers e k ls reason ts s)"
proof (induction e k ls reason ts s rule: record_losers.induct)
  case (2 e k l ls reason ts s)
  have "grows s (snd (on_sdb (insert_speed_ts (ve_world e k) (loser_sample e l reason ts)) s))"
    by (rule insert_grows(1)) simp
  then show ?case using grows_trans [OF _ 2] by simp
qed simp

lemma span_rows [simp]: "runs_of (record_span e start d s) = runs_of s"
  by (simp add: record_span_def sc_stats_def Let_def split: prod.split)

lemma report_rows [simp]: "runs_of (snd (on_sdb (insert_speed_servers w rows) s)) = runs_of s"
  by (simp add: on_sdb_def insert_speed_servers_def sd_exec_def sd_record_def split: prod.split option.split)

lemma bookkeeping_rows [simp]: "runs_of (nudge s) = runs_of s" "runs_of (s\<lparr>sc_breach := b\<rparr>) = runs_of s"
  by (simp_all add: nudge_def)

text \<open>The sample a conclusion stores, and what follows the insert.\<close>

definition verdict_sample :: "run_env \<Rightarrow> string \<Rightarrow> round_result \<Rightarrow> speed_sample" where
  "verdict_sample e reason r =
     (let sp = (run_sample r reason (ve_conn e) (ve_now e))\<lparr>sp_ts := round_second (ve_now e) (rn_losers r)\<rparr>
      in sp\<lparr>sp_healthy := vd_healthy (run_verdict (ve_thresholds e) r sp)\<rparr>)"

definition after_insert :: "run_env \<Rightarrow> string \<Rightarrow> round_result \<Rightarrow> gtime \<Rightarrow> duration \<Rightarrow> int \<Rightarrow> sched \<Rightarrow> sched" where
  "after_insert e reason r start d ts s =
     (let s = record_extra_usage e (run_result.truncate r) reason ts (record_span e start d s);
          s = (case rn_selection r of None \<Rightarrow> s
               | Some rep \<Rightarrow> snd (on_sdb (insert_speed_servers (ve_world e 3) (selection_rows ts rep)) s))
      in record_losers e 4 (rn_losers r) reason ts s)"

lemma concludeE:
  assumes "conclude e reason r start d s = ((RunDone sp, alert), s')"
  obtains ts s1 b where "on_sdb (insert_speed_ts (ve_world e 0) (verdict_sample e reason r)) s = (Inr ts, s1)"
    "s' = nudge ((after_insert e reason r start d ts s1)\<lparr>sc_breach := b\<rparr>)" "sp = (verdict_sample e reason r)\<lparr>sp_ts := ts\<rparr>"
    "\<not> ve_ended e 0"
proof -
  obtain ans s1 where i: "on_sdb (insert_speed_ts (ve_world e 0) (verdict_sample e reason r)) s = (ans, s1)" by fastforce
  show thesis
    using assms i that [of _ s1]
    by (cases ans) (auto simp: conclude_def verdict_sample_def after_insert_def Let_def split: if_splits prod.splits)
qed

lemma after_insert_grows: "grows s (after_insert e reason r start d ts s)"
proof -
  let ?s = "record_extra_usage e (run_result.truncate r) reason ts (record_span e start d s)"
  have 1: "grows s ?s" using grows_trans [OF grows_same extra_grows] by simp
  have 2: "grows ?s (case rn_selection r of None \<Rightarrow> ?s
      | Some rep \<Rightarrow> snd (on_sdb (insert_speed_servers (ve_world e 3) (selection_rows ts rep)) ?s))"
    by (auto intro: grows_same split: option.split)
  show ?thesis unfolding after_insert_def Let_def using 1 2 losers_grow grows_trans by meson
qed

text \<open>C13: A run that ends with a result adds exactly one result to the history, on the second the store
  gave it and with its verdict, and keeps every earlier row; whatever else it adds is accounting or a
  member of its round, which no chart, average or verdict reads as a run.\<close>

theorem run_adds_one_result:
  assumes "conclude e reason r start d s = ((RunDone sp, alert), s')"
  shows "\<exists>row rows. runs_of s' = runs_of s @ row # rows \<and> speed_is_result row \<and> filter speed_is_result rows = [] \<and>
    rw_ts row = sp_ts sp \<and> rw_ts row \<notin> rw_ts ` set (runs_of s) \<and>
    rw_healthy row = map_option (\<lambda>b. if b then 1 else 0) (sp_healthy sp)"
proof (rule concludeE [OF assms])
  fix ts s1 b
  assume i: "on_sdb (insert_speed_ts (ve_world e 0) (verdict_sample e reason r)) s = (Inr ts, s1)"
    and s': "s' = nudge ((after_insert e reason r start d ts s1)\<lparr>sc_breach := b\<rparr>)"
    and sp: "sp = (verdict_sample e reason r)\<lparr>sp_ts := ts\<rparr>"
  obtain d1 where d1: "insert_speed_ts (ve_world e 0) (verdict_sample e reason r) (sc_db s) = (Inr ts, d1)" "s1 = s\<lparr>sc_db := d1\<rparr>"
    using i by (auto simp: on_sdb_def split: prod.splits)
  have ts: "ts = free_second (map rw_ts (runs_of s)) (sp_ts (verdict_sample e reason r))"
    "sd_rows d1 = runs_of s @ [speed_row_of ts (verdict_sample e reason r)]"
    using insert_speed_ts_rows [OF d1(1)] by auto
  obtain rows where "runs_of s' = runs_of s1 @ rows" "filter speed_is_result rows = []"
    using after_insert_grows [of s1 e reason r start d ts] s' by (auto simp: grows_def)
  moreover have "speed_is_result (speed_row_of ts (verdict_sample e reason r))"
    by (simp add: speed_is_result_def speed_not_failed_def speed_row_of_def verdict_sample_def run_sample_def Let_def)
  moreover have "ts \<notin> rw_ts ` set (runs_of s)"
    using free_second_spec(2) [of "map rw_ts (runs_of s)"] ts(1) by simp
  ultimately show ?thesis using ts(2) d1(2) sp
    by (intro exI [of _ "speed_row_of ts (verdict_sample e reason r)"] exI [of _ rows]) (simp add: speed_row_of_def)
qed

text \<open>What the history is billed for a count of bytes.\<close>

definition bill :: "int \<Rightarrow> int" where "bill n = max 0 (min n max_speed_bytes_per_run)"

lemma bill_none [simp]: "n \<le> 0 \<Longrightarrow> bill n = 0"
  by (simp add: bill_def)

definition run_bytes :: "'a run_result_scheme \<Rightarrow> int" where
  "run_bytes r = bill (rn_down_bytes r) + bill (rn_up_bytes r)"

definition history_bytes :: "sched \<Rightarrow> int" where
  "history_bytes s = sum_list (map row_bytes (runs_of s))"

lemma bill_cell: "(case clamp_speed_bytes (bytes_ptr n) of None \<Rightarrow> 0 | Some b \<Rightarrow> b) = bill n"
  by (simp add: clamp_speed_bytes_def bytes_ptr_def bill_def max_speed_bytes_per_run_def)

lemma sample_bytes [simp]:
  "row_bytes (speed_row_of ts ((verdict_sample e reason r)\<lparr>sp_ts := t\<rparr>)) = run_bytes r"
  "row_bytes (speed_row_of ts (verdict_sample e reason r)) = run_bytes r"
  "row_bytes (speed_row_of ts (loser_sample e l reason t)) = run_bytes l"
  "row_bytes (speed_row_of ts (usage_sample t u reason stage run dn un)) = bill dn + bill un"
  by (simp_all add: row_bytes_def speed_row_of_def verdict_sample_def loser_sample_def usage_sample_def run_sample_def run_bytes_def
      bill_cell Let_def)

definition grows_by :: "sched \<Rightarrow> sched \<Rightarrow> int \<Rightarrow> bool" where
  "grows_by s s' n \<longleftrightarrow> calm (sc_db s') \<and> history_bytes s' = history_bytes s + n"

lemma charge_insert:
  assumes "on_sdb (insert_speed_ts w sp) s = (r, s')" and "calm (sc_db s)" and "\<And>ts. row_bytes (speed_row_of ts sp) = n"
  shows "grows_by s s' n \<and> (\<exists>ts. r = Inr ts)"
proof -
  obtain r' d where i: "insert_speed_ts w sp (sc_db s) = (r', d)" by fastforce
  then show ?thesis using calm_insert [OF i assms(2)] assms(1,3)
    by (auto simp: grows_by_def history_bytes_def on_sdb_def)
qed

lemma charge_extra:
  assumes "calm (sc_db s)" and "\<not> ve_ended e 2"
  shows "grows_by s (record_extra_usage e r reason ts s) (bill (rn_extra_down r) + bill (rn_extra_up r))"
proof (cases "rn_extra_down r \<le> 0 \<and> rn_extra_up r \<le> 0")
  case True
  then show ?thesis using assms by (simp add: record_extra_usage_def grows_by_def)
next
  case False
  let ?sp = "usage_sample (ts + 1) r reason [] (Some ts) (rn_extra_down r) (rn_extra_up r)"
  obtain err d where i: "insert_speed (ve_world e 2) ?sp (sc_db s) = (err, d)" by fastforce
  show ?thesis using calm_insert_rows [OF i assms(1)] i False assms(2)
    by (auto simp: record_extra_usage_def grows_by_def history_bytes_def on_sdb_def)
qed

lemma charge_losers:
  "calm (sc_db s) \<Longrightarrow> \<forall>k. \<not> ve_ended e k \<Longrightarrow>
     grows_by s (record_losers e k ls reason ts s) (sum_list (map run_bytes ls))"
proof (induction e k ls reason ts s rule: record_losers.induct)
  case (2 e k l ls reason ts s)
  obtain r s1 where i: "on_sdb (insert_speed_ts (ve_world e k) (loser_sample e l reason ts)) s = (r, s1)" by fastforce
  have "grows_by s s1 (run_bytes l)" using charge_insert [OF i 2(2)] by simp
  then show ?case using 2 i by (auto simp: grows_by_def)
qed (simp add: grows_by_def)

lemma calm_span: "calm (sc_db s) \<Longrightarrow> calm (sc_db (record_span e start d s))"
proof -
  assume c: "calm (sc_db s)"
  obtain stored err st where i: "insert_speed_span (ve_world e 1) (t_unix start) (span_seconds start d) (sd_store (sc_db s)) = ((stored, err), st)"
    by (metis surj_pair)
  have "faults st = []" using span_spends [OF i] c by (simp add: unspent_def)
  then show ?thesis using c i by (simp add: record_span_def sc_stats_def on_reg_def Let_def)
qed

lemma charge_report: "calm (sc_db s) \<Longrightarrow> grows_by s (snd (on_sdb (insert_speed_servers w rows) s)) 0"
proof -
  assume c: "calm (sc_db s)"
  obtain r d where i: "insert_speed_servers w rows (sc_db s) = (r, d)" by fastforce
  show ?thesis using calm_servers [OF c i] i by (simp add: grows_by_def history_bytes_def on_sdb_def)
qed

text \<open>C21: With a store that answers, a finished run is billed once: the bytes of the history grow by what
  the measurement moved, what was spent beyond it, and what the kept members of its round moved, no
  byte of it twice and none of it lost.\<close>

theorem run_bytes_billed_once:
  assumes "conclude e reason r start d s = ((RunDone sp, alert), s')" and "calm (sc_db s)" and "\<forall>k. \<not> ve_ended e k"
  shows "history_bytes s' = history_bytes s + run_bytes r + bill (rn_extra_down r) + bill (rn_extra_up r) +
    sum_list (map run_bytes (rn_losers r))"
proof (rule concludeE [OF assms(1)])
  fix ts s1 b
  assume i: "on_sdb (insert_speed_ts (ve_world e 0) (verdict_sample e reason r)) s = (Inr ts, s1)"
    and s': "s' = nudge ((after_insert e reason r start d ts s1)\<lparr>sc_breach := b\<rparr>)"
  define s2 where "s2 = record_span e start d s1"
  define s3 where "s3 = record_extra_usage e (run_result.truncate r) reason ts s2"
  define s4 where "s4 = (case rn_selection r of None \<Rightarrow> s3
    | Some rep \<Rightarrow> snd (on_sdb (insert_speed_servers (ve_world e 3) (selection_rows ts rep)) s3))"
  define s5 where "s5 = record_losers e 4 (rn_losers r) reason ts s4"
  have 1: "grows_by s s1 (run_bytes r)" using charge_insert [OF i assms(2)] by simp
  have 2: "grows_by s1 s2 0" using 1 calm_span by (simp add: grows_by_def history_bytes_def s2_def)
  have 3: "grows_by s2 s3 (bill (rn_extra_down r) + bill (rn_extra_up r))"
    using charge_extra [of s2 e "run_result.truncate r"] 2 assms(3) by (simp add: grows_by_def run_result.truncate_def s3_def)
  have 4: "grows_by s3 s4 0" using 3 charge_report by (auto simp: s4_def grows_by_def split: option.split)
  have 5: "grows_by s4 s5 (sum_list (map run_bytes (rn_losers r)))"
    unfolding s5_def by (rule charge_losers [OF _ assms(3)]) (use 4 in \<open>simp add: grows_by_def\<close>)
  have "s' = nudge (s5\<lparr>sc_breach := b\<rparr>)"
    unfolding s' after_insert_def Let_def s5_def s4_def s3_def s2_def by (rule refl)
  then have "history_bytes s' = history_bytes s5" by (simp add: history_bytes_def)
  then show ?thesis using 1 2 3 4 5 unfolding grows_by_def by linarith
qed

lemma calm_conclude:
  assumes "calm (sc_db s)" and "\<not> ve_ended e 0"
  shows "\<exists>sp alert. fst (conclude e reason r start d s) = (RunDone sp, alert)"
proof -
  obtain ans s1 where i: "on_sdb (insert_speed_ts (ve_world e 0) (verdict_sample e reason r)) s = (ans, s1)" by fastforce
  obtain ts where "ans = Inr ts" using charge_insert [OF i assms(1)] by auto
  then show ?thesis using i assms(2) by (auto simp: conclude_def verdict_sample_def Let_def split: prod.split)
qed

definition eg_run_env :: run_env where
  "eg_run_env = \<lparr>ve_world = (\<lambda>_. eg_world), ve_ended = (\<lambda>_. False), ve_now = 1700000000, ve_conn = eg_conn,
     ve_thresholds = Some eg_limits, ve_streak = None, ve_record_failures = True\<rparr>"

definition eg_sched :: sched where "eg_sched = new_scheduler 1 eg_db"

lemma eg_sched_calm: "calm (sc_db eg_sched)" "runs_of eg_sched = []"
  by (simp_all add: eg_sched_def new_scheduler_def eg_db_def eg_store_def)

lemma eg_concludes:
  obtains sp alert s' where "conclude eg_run_env ''manual'' eg_run_result zero_time 5 eg_sched = ((RunDone sp, alert), s')"
proof -
  have "\<not> ve_ended eg_run_env 0" by (simp add: eg_run_env_def)
  from calm_conclude [OF eg_sched_calm(1) this] show thesis using that by (metis prod.collapse)
qed

lemma run_adds_one_result_witness:
  "length (filter speed_is_result (runs_of (snd (conclude eg_run_env ''manual'' eg_run_result zero_time 5 eg_sched)))) = 1"
proof (rule eg_concludes)
  fix sp alert s'
  assume c: "conclude eg_run_env ''manual'' eg_run_result zero_time 5 eg_sched = ((RunDone sp, alert), s')"
  obtain row rows where "runs_of s' = runs_of eg_sched @ row # rows" "speed_is_result row" "filter speed_is_result rows = []"
    using run_adds_one_result [OF c] by blast
  then show ?thesis using c eg_sched_calm(2) by simp
qed

lemma run_bytes_billed_once_witness:
  "history_bytes (snd (conclude eg_run_env ''manual'' eg_run_result zero_time 5 eg_sched)) = 1370"
proof (rule eg_concludes)
  fix sp alert s'
  assume c: "conclude eg_run_env ''manual'' eg_run_result zero_time 5 eg_sched = ((RunDone sp, alert), s')"
  have "\<forall>k. \<not> ve_ended eg_run_env k" by (simp add: eg_run_env_def)
  from run_bytes_billed_once [OF c eg_sched_calm(1) this] show ?thesis
    using c eg_sched_calm(2)
    by (simp add: history_bytes_def run_bytes_def bill_def eg_run_result_def max_speed_bytes_per_run_def)
qed

end
