(* ===== verification/ScheduleProps.thy ===== *)
theory ScheduleProps
  imports SchedulerProps
begin

text \<open>
  The properties of the schedule: one startup run per boot, a minute at least between scheduled runs, a
  due run that is made or looked at again within half a minute, and a startup slot that is not run
  twice.
\<close>

section \<open>The startup slot\<close>

fun asked :: "string \<Rightarrow> did \<Rightarrow> bool" where
  "asked reason (Asked r t out) = (r = reason)"
| "asked reason (Slept w) = False"

abbreviation asks :: "string \<Rightarrow> did list \<Rightarrow> nat" where "asks reason ds \<equiv> length (filter (asked reason) ds)"

lemma re_anchor_simps [simp]:
  "lp_pending (re_anchor fixed e now l) = lp_pending l" "lp_last (re_anchor fixed e now l) = now"
  "lp_sched (re_anchor fixed e now l) = lp_sched l" "lp_pending (set_anchor l) = lp_pending l" "lp_last (set_anchor l) = lp_last l"
  "lp_jitter (set_anchor l) = lp_jitter l" "lp_sched (set_anchor l) = lp_sched l"
  by (simp_all add: re_anchor_def set_anchor_def)

lemma ask_run_frame: "ask_run e reason l = (out, l') \<Longrightarrow> lp_pending l' = lp_pending l \<and> lp_last l' = lp_last l \<and> lp_jitter l' = lp_jitter l"
  by (auto simp: ask_run_def split: prod.splits)

lemma sleep_turn_slot:
  "sleep_turn fixed e w l = ((over, ds), l') \<Longrightarrow> ds = [Slept w] \<and> (lp_pending l' \<longrightarrow> lp_pending l)"
  by (auto simp: sleep_turn_def Let_def split: if_splits)

lemma latch_turn_slot:
  "latch_turn fixed e l = ((over, ds), l') \<Longrightarrow>
     asks ''startup'' ds \<le> 1 \<and> asks ''scheduled'' ds = 0 \<and> (lp_pending l' \<longrightarrow> asks ''startup'' ds = 0 \<and> (over \<or> lp_pending l'))"
  by (auto simp: latch_turn_def Let_def dest: ask_run_frame split: if_splits prod.splits)

lemma turn_slot:
  assumes "loop_turn fixed e l = ((over, ds), l')"
  shows "asks ''startup'' ds + (if lp_pending l' then 1 else 0) \<le> (if lp_pending l then 1 else (0 :: nat))"
proof (cases "lp_pending l \<and> te_enabled e 0")
  case True
  then show ?thesis using assms latch_turn_slot [of fixed e l over ds l'] by (auto simp: loop_turn_def)
next
  case False
  obtain out l1 where r: "ask_run e ''scheduled'' (l\<lparr>lp_deferred := False\<rparr>) = (out, l1)" by fastforce
  show ?thesis
    using assms False r ask_run_frame [OF r]
    by (auto simp: loop_turn_def Let_def dest: sleep_turn_slot split: if_splits)
qed

lemma turns_slot:
  "asks ''startup'' (fst (loop_turns fixed es l)) \<le> (if lp_pending l then 1 else 0)"
proof (induction es arbitrary: l)
  case (Cons e es)
  obtain over ds l1 where t: "loop_turn fixed e l = ((over, ds), l1)" by (metis surj_pair)
  show ?case using turn_slot [OF t] Cons [of l1] t by (auto split: prod.split if_splits)
qed simp

text \<open>C30: Whatever the settings, the windows and the other runs do, the loop asks for the startup run at
  most once per boot.\<close>

theorem startup_runs_once: "asks ''startup'' (fst (schedule_loop fixed e es s)) \<le> 1"
proof -
  obtain over ds l where b: "loop_begin fixed e s = ((over, ds), l)" by (metis surj_pair)
  have "asks ''startup'' ds + (if lp_pending l then 1 else 0) \<le> (1 :: nat)"
    using b by (auto simp: loop_begin_def startup_run_wanted_def Let_def split: if_splits prod.splits)
  then show ?thesis using b turns_slot [of fixed es l] by (auto simp: schedule_loop_def split: prod.split if_splits)
qed

section \<open>The spacing\<close>

lemma interval_floor:
  assumes "min_speed \<le> fixed" and "\<forall>d. live = Some d \<longrightarrow> d \<le> 0 \<or> min_speed \<le> d"
  shows "min_speed \<le> cur_interval fixed live adaptive unhealthy"
  using assms by (auto simp: cur_interval_def Let_def split: option.splits)

lemma jitter_nonneg: "0 \<le> schedule_jitter pick interval"
  by (simp add: schedule_jitter_def Let_def)

text \<open>The readings of the turns carry a monotonic clock that does not run backward, and an interval the
  settings answer is not below their minimum.\<close>

fun paced :: "int \<Rightarrow> slot_env list \<Rightarrow> bool" where
  "paced x [] = True"
| "paced x (e # es) = ((\<forall>d. te_live e = Some d \<longrightarrow> d \<le> 0 \<or> min_speed \<le> d) \<and>
     (case (mono_ns (te_now e 0), mono_ns (te_now e 1), mono_ns (te_now e 2)) of
        (Some a, Some b, Some c) \<Rightarrow> x \<le> a \<and> a \<le> b \<and> b \<le> c \<and> paced c es | _ \<Rightarrow> False))"

fun scheduled_at :: "did \<Rightarrow> int list" where
  "scheduled_at (Asked r t out) = (if r = ''scheduled'' then [the (mono_ns t)] else [])"
| "scheduled_at (Slept w) = []"

definition scheduled_times :: "did list \<Rightarrow> int list" where
  "scheduled_times ds = concat (map scheduled_at ds)"

text \<open>What the spacing needs of the loop's state: its anchor is a reading no later than \<open>x\<close>.\<close>

definition anchored :: "int \<Rightarrow> sched_loop \<Rightarrow> bool" where
  "anchored x l \<longleftrightarrow> (\<exists>m. mono_ns (lp_last l) = Some m \<and> m \<le> x) \<and> 0 \<le> lp_jitter l"

definition since :: "sched_loop \<Rightarrow> int" where "since l = the (mono_ns (lp_last l))"

lemma re_anchored [simp]: "0 \<le> lp_jitter (re_anchor fixed e now l)"
  by (simp add: re_anchor_def set_anchor_def jitter_nonneg)

lemma turn_paced:
  assumes t: "loop_turn fixed e l = ((over, ds), l')" and f: "min_speed \<le> fixed" and a: "anchored x l" and p: "paced x (e # es)"
  obtains c where "anchored c l'" "paced c es" "since l \<le> since l'"
    "\<forall>q \<in> set (scheduled_times ds). since l + min_speed \<le> q \<and> q \<le> since l'" "length (scheduled_times ds) \<le> 1"
proof -
  obtain m where m: "mono_ns (lp_last l) = Some m" "m \<le> x" "0 \<le> lp_jitter l" using a by (auto simp: anchored_def)
  obtain t0 t1 t2 where n: "mono_ns (te_now e 0) = Some t0" "mono_ns (te_now e 1) = Some t1" "mono_ns (te_now e 2) = Some t2"
    "x \<le> t0" "t0 \<le> t1" "t1 \<le> t2" "paced t2 es"
    using p by (auto split: option.splits)
  have due: "until_due fixed e l \<le> 0 \<Longrightarrow> m + min_speed \<le> t0"
  proof -
    assume "until_due fixed e l \<le> 0"
    then have "t_diff (t_add (lp_last l) (loop_interval fixed e l + lp_jitter l)) (te_now e 0) \<le> 0"
      by (metis not_less t_sub_pos until_due_def)
    then have "m + (loop_interval fixed e l + lp_jitter l) \<le> t0" using m n by (simp add: t_diff_def t_add_def)
    moreover have "min_speed \<le> loop_interval fixed e l" using interval_floor f p by (simp add: loop_interval_def)
    ultimately show ?thesis using m(3) by linarith
  qed
  have sleep: "\<exists>y. mono_ns (lp_last l') = Some y \<and> m \<le> y \<and> y \<le> t2 \<and> 0 \<le> lp_jitter l' \<and> ds = [Slept w]"
    if "sleep_turn fixed e w k = ((over, ds), l')" "lp_last k = lp_last l" "lp_jitter k = lp_jitter l" for w k
    using that m n by (auto simp: sleep_turn_def Let_def split: if_splits)
  have "\<exists>y. mono_ns (lp_last l') = Some y \<and> m \<le> y \<and> y \<le> t2 \<and> 0 \<le> lp_jitter l' \<and>
      (\<forall>q \<in> set (scheduled_times ds). m + min_speed \<le> q \<and> q \<le> y) \<and> length (scheduled_times ds) \<le> 1"
  proof (cases "lp_pending l \<and> te_enabled e 0")
    case True
    then have "latch_turn fixed e l = ((over, ds), l')" using t by (simp add: loop_turn_def)
    then show ?thesis using m n
      by (auto simp: latch_turn_def scheduled_times_def Let_def dest!: ask_run_frame split: if_splits prod.splits)
  next
    case False
    show ?thesis
    proof (cases "until_due fixed e l > 0")
      case True
      then obtain w where "sleep_turn fixed e w l = ((over, ds), l')" "0 < w"
        using t False by (auto simp: loop_turn_def speed_recheck_def Let_def split: if_splits)
      then show ?thesis using sleep [of w l] by (auto simp: scheduled_times_def)
    next
      case still: False
      obtain out l1 where r: "ask_run e ''scheduled'' (l\<lparr>lp_deferred := False\<rparr>) = (out, l1)" by fastforce
      show ?thesis
      proof (cases "te_enabled e 1 \<and> \<not> te_busy e")
        case True
        then have "ds = [Asked ''scheduled'' (te_now e 0) out]" "l' = re_anchor fixed e (te_now e 1) l1"
          using t False still r by (auto simp: loop_turn_def speed_recheck_def Let_def)
        then show ?thesis using due still m n by (simp add: scheduled_times_def)
      next
        case idle: False
        then have "sleep_turn fixed e speed_recheck (l\<lparr>lp_deferred := True\<rparr>) = ((over, ds), l')"
          using t False still by (auto simp: loop_turn_def speed_recheck_def Let_def split: if_splits)
        then show ?thesis using sleep [of speed_recheck "l\<lparr>lp_deferred := True\<rparr>"] by (auto simp: scheduled_times_def)
      qed
    qed
  qed
  then show thesis using that [of t2] m n(7) by (auto simp: anchored_def since_def)
qed

definition apart :: "int list \<Rightarrow> bool" where
  "apart ts \<longleftrightarrow> sorted_wrt (\<lambda>a b. a + min_speed \<le> b) ts"

lemma apart_append [simp]: "apart (xs @ ys) \<longleftrightarrow> apart xs \<and> apart ys \<and> (\<forall>a \<in> set xs. \<forall>b \<in> set ys. a + min_speed \<le> b)"
  by (simp add: apart_def sorted_wrt_append)

lemma scheduled_append [simp]: "scheduled_times (ds @ ds') = scheduled_times ds @ scheduled_times ds'"
  by (simp add: scheduled_times_def)

lemma turns_paced:
  assumes "min_speed \<le> fixed" and "anchored x l" and "paced x es"
  shows "apart (scheduled_times (fst (loop_turns fixed es l))) \<and>
    (\<forall>q \<in> set (scheduled_times (fst (loop_turns fixed es l))). since l + min_speed \<le> q)"
  using assms(2,3)
proof (induction es arbitrary: l x)
  case (Cons e es)
  obtain over ds l1 where t: "loop_turn fixed e l = ((over, ds), l1)" by (metis surj_pair)
  obtain c where c: "anchored c l1" "paced c es" "since l \<le> since l1"
    "\<forall>q \<in> set (scheduled_times ds). since l + min_speed \<le> q \<and> q \<le> since l1" "length (scheduled_times ds) \<le> 1"
    using turn_paced [OF t assms(1) Cons.prems] by blast
  have one: "apart (scheduled_times ds)"
    using c(5) by (cases "scheduled_times ds") (auto simp: apart_def)
  note ih = Cons.IH [OF c(1,2)]
  obtain ds' l2 where r: "loop_turns fixed es l1 = (ds', l2)" by fastforce
  have later: "\<forall>q \<in> set (scheduled_times ds'). since l1 + min_speed \<le> q" "apart (scheduled_times ds')"
    using ih r by simp_all
  have "\<forall>a \<in> set (scheduled_times ds). \<forall>b \<in> set (scheduled_times ds'). a + min_speed \<le> b"
    using c(4) later(1) by force
  moreover have "\<forall>q \<in> set (scheduled_times ds'). since l + min_speed \<le> q" using later(1) c(3) by force
  ultimately show ?case using t r one later(2) c(4) by auto
qed (simp add: apart_def scheduled_times_def)

text \<open>C22: Whatever wakes the loop, however the interval changes and however often the adaptive cadence
  sets in, any two runs it schedules start at least a minute apart on the monotonic clock, as long as
  the configured intervals keep to their minimum.\<close>

theorem scheduled_runs_apart:
  assumes "min_speed \<le> fixed" and "mono_ns (lp_last l) = Some m" and "0 \<le> lp_jitter l" and "paced m es"
  shows "apart (scheduled_times (fst (loop_turns fixed es l)))"
  using turns_paced [of fixed m l es] assms by (simp add: anchored_def)

text \<open>C23: A turn never oversleeps: it sleeps no longer than to the deadline, half a minute when a run is
  due but gated or the startup slot is still open; and a due run with an open window on an idle link is
  asked for in that very turn.\<close>

theorem due_run_is_made:
  assumes "loop_turn fixed e l = ((over, ds), l')"
  shows "(\<forall>w. Slept w \<in> set ds \<longrightarrow> 0 < w \<and> (until_due fixed e l \<le> 0 \<or> lp_pending l \<longrightarrow> w \<le> speed_recheck) \<and>
       (0 < until_due fixed e l \<longrightarrow> w \<le> until_due fixed e l)) \<and>
    (until_due fixed e l \<le> 0 \<and> te_enabled e 1 \<and> \<not> te_busy e \<and> \<not> (lp_pending l \<and> te_enabled e 0) \<longrightarrow>
       asks ''scheduled'' ds = 1)"
proof (cases "lp_pending l \<and> te_enabled e 0")
  case True
  then have "latch_turn fixed e l = ((over, ds), l')" using assms by (simp add: loop_turn_def)
  then have "\<forall>w. Slept w \<notin> set ds" by (auto simp: latch_turn_def Let_def split: if_splits prod.splits)
  then show ?thesis using True by blast
next
  case False
  obtain out l1 where r: "ask_run e ''scheduled'' (l\<lparr>lp_deferred := False\<rparr>) = (out, l1)" by fastforce
  show ?thesis
    using assms False r by (auto simp: loop_turn_def speed_recheck_def Let_def dest: sleep_turn_slot split: if_splits)
qed

section \<open>A slot that was served meanwhile\<close>

lemma busy_run:
  assumes "run_once e others engine secs reason s = ((out, alert), s')"
    and "sc_cur s \<noteq> 0 \<or> (reason = ''startup'' \<and> (\<exists>g. sc_gate s = Some g \<and> sc_completions s \<noteq> g))"
  shows "out = RunBusy \<and> activity s' = activity s \<and> runs_of s' = runs_of s"
proof (cases "sc_cur s = 0")
  case True
  then obtain g where g: "reason = ''startup''" "sc_gate s = Some g" "sc_completions s \<noteq> g" using assms(2) by blast
  let ?s = "s\<lparr>sc_seq := u64 (sc_seq s + 1), sc_cur := u64 (sc_seq s + 1)\<rparr>"
  have "claim s = (Some (u64 (sc_seq s + 1)), ?s)" using True by (simp add: claim_defs Let_def)
  moreover have "preflight reason ?s = (False, ?s\<lparr>sc_gate := None, sc_cur := 0\<rparr>)" using g by (simp add: preflight_def)
  ultimately show ?thesis using assms(1) by (auto simp: run_once_def activity_def)
next
  case False
  then show ?thesis using assms(1) by (auto simp: run_once_def claim_defs activity_def sc_stats_def Let_def)
qed

lemma busy_ask:
  assumes "ask_run e reason l = (out, l')"
    and "sc_cur (lp_sched l) \<noteq> 0 \<or>
      (reason = ''startup'' \<and> (\<exists>g. sc_gate (lp_sched l) = Some g \<and> sc_completions (lp_sched l) \<noteq> g))"
  shows "out = RunBusy \<and> lp_pending l' = lp_pending l \<and> activity (lp_sched l') = activity (lp_sched l) \<and>
    runs_of (lp_sched l') = runs_of (lp_sched l)"
proof -
  obtain out' alert s where r: "run_once (te_run_env e) (te_others e) (te_engine e) (te_secs e) reason (lp_sched l) = ((out', alert), s)"
    by (metis surj_pair)
  show ?thesis using busy_run [OF r assms(2)] assms(1) r by (auto simp: ask_run_def sc_stats_def activity_def)
qed

text \<open>The scheduler as the latch leaves its pause, and as the run it then asks for finds it.\<close>

abbreviation rested :: "slot_env \<Rightarrow> sched_loop \<Rightarrow> sched" where
  "rested e l \<equiv> te_pause e (lp_sched l)"

abbreviation asking :: "slot_env \<Rightarrow> sched_loop \<Rightarrow> sched" where
  "asking e l \<equiv> te_before e ((rested e l)\<lparr>sc_token := False, sc_gate := Some (sc_completions (lp_sched l))\<rparr>)"

text \<open>C32: The startup slot is not run again once it is served.  When the latch turns in, a run whose nudge
  is still there after the pause, or that completed during the pause, closes the slot without a run;
  and a run that completes after the latch's last look, while the other goroutines still move and
  leave the gate to the latch, makes the run it asks for give its claim back: in each case the engine
  is not started, the wire word and the history stay as the latch found them, and the slot stays open
  only if the tests were switched off meanwhile.\<close>

theorem served_slot_not_rerun:
  assumes "loop_turn fixed e l = ((over, ds), l')" and "lp_pending l" and "te_enabled e 0" and "\<not> te_ended e"
    and "\<forall>s. sc_gate (te_before e s) = sc_gate s"
    and "sc_token (rested e l) \<or> sc_completions (rested e l) \<noteq> sc_completions (lp_sched l) \<or>
      sc_completions (asking e l) \<noteq> sc_completions (lp_sched l)"
  shows "(\<forall>t out. Asked ''startup'' t out \<in> set ds \<longrightarrow> out = RunBusy) \<and> (lp_pending l' \<longrightarrow> \<not> te_enabled e 1) \<and>
    (activity (lp_sched l'), runs_of (lp_sched l')) \<in>
      {(activity (rested e l), runs_of (rested e l)), (activity (asking e l), runs_of (asking e l))}"
proof -
  have t: "latch_turn fixed e l = ((over, ds), l')" using assms(1-3) by (simp add: loop_turn_def)
  show ?thesis
  proof (cases "sc_token (rested e l) \<or> sc_completions (rested e l) \<noteq> sc_completions (lp_sched l)")
    case True
    then show ?thesis using t assms(4) by (auto simp: latch_turn_def Let_def activity_def)
  next
    case False
    define k where "k = l\<lparr>lp_anchor := None, lp_pending := True, lp_sched := asking e l\<rparr>"
    have k: "l\<lparr>lp_anchor := None, lp_sched := asking e l, lp_pending := True\<rparr> = k" by (simp add: k_def)
    obtain out l1 where r: "ask_run e ''startup'' k = (out, l1)" by fastforce
    have "sc_gate (asking e l) = Some (sc_completions (lp_sched l))" using assms(5) by simp
    then have "out = RunBusy \<and> activity (lp_sched l1) = activity (asking e l) \<and> runs_of (lp_sched l1) = runs_of (asking e l)"
      using busy_ask [OF r] assms(6) False by (simp add: k_def)
    then show ?thesis using t False assms(4) r k
      by (auto simp: latch_turn_def Let_def activity_def k_def split: if_splits)
  qed
qed

section \<open>An example\<close>

definition eg_mono :: "int \<Rightarrow> gtime" where
  "eg_mono n = \<lparr>wall_ns = 1700000000000000000 + n * second, mono_ns = Some (n * second)\<rparr>"

text \<open>A turn that starts \<open>n\<close> seconds after the boot on an enabled, idle box whose engine answers at once.\<close>

definition eg_turn :: "int \<Rightarrow> slot_env" where
  "eg_turn n = \<lparr>te_enabled = (\<lambda>_. True), te_busy = False, te_now = (\<lambda>k. eg_mono (n + int k)), te_live = None,
     te_adaptive = False, te_pick = 0, te_ended = False, te_pause = (\<lambda>s. s), te_before = (\<lambda>s. s), te_sleep = (\<lambda>s. s),
     te_wakeup = Elapsed, te_run_env = eg_run_env, te_others = (\<lambda>s. s),
     te_engine = (\<lambda>cancelled s. (\<lparr>ea_result = eg_run_result, ea_error = None, ea_cancelled = False, ea_shutdown = False,
       ea_start = eg_mono n, ea_took = second\<rparr>, s)), te_secs = 1\<rparr>"

definition eg_loop :: sched_loop where
  "eg_loop = \<lparr>lp_pending = False, lp_last = eg_mono 0, lp_jitter = 0, lp_deferred = False, lp_anchor = None, lp_sched = eg_sched\<rparr>"

lemma scheduled_runs_apart_witness:
  "apart (scheduled_times (fst (loop_turns (5 * minute) [eg_turn 300, eg_turn 302, eg_turn 602] eg_loop)))"
  by (rule scheduled_runs_apart [where m = 0])
    (simp_all add: eg_loop_def eg_mono_def eg_turn_def min_speed_def)

lemma eg_due: "until_due (5 * minute) (eg_turn 300) eg_loop \<le> 0"
  by (simp add: until_due_def loop_interval_def cur_interval_def eg_turn_def eg_loop_def eg_mono_def t_sub_def t_diff_def t_add_def
      eg_sched_def new_scheduler_def sat64_def)

lemma due_run_is_made_witness: "asks ''scheduled'' (snd (fst (loop_turn (5 * minute) (eg_turn 300) eg_loop))) = 1"
proof -
  let ?t = "loop_turn (5 * minute) (eg_turn 300) eg_loop"
  have "?t = ((fst (fst ?t), snd (fst ?t)), snd ?t)" by simp
  from due_run_is_made [OF this] show ?thesis
    using eg_due by (simp add: eg_turn_def eg_loop_def)
qed

text \<open>A latch whose slot is served by a run that completes just before its own run claims.\<close>

definition eg_raced :: slot_env where
  "eg_raced = (eg_turn 0)\<lparr>te_before := nudge\<rparr>"

lemma served_slot_not_rerun_witness:
  "runs_of (lp_sched (snd (loop_turn (5 * minute) eg_raced (eg_loop\<lparr>lp_pending := True\<rparr>)))) = runs_of eg_sched"
proof -
  let ?t = "loop_turn (5 * minute) eg_raced (eg_loop\<lparr>lp_pending := True\<rparr>)"
  have t: "?t = ((fst (fst ?t), snd (fst ?t)), snd ?t)" by simp
  have "sc_completions (asking eg_raced (eg_loop\<lparr>lp_pending := True\<rparr>)) \<noteq> sc_completions (lp_sched (eg_loop\<lparr>lp_pending := True\<rparr>))"
    by (simp add: eg_raced_def eg_turn_def eg_loop_def nudge_def u64_def eg_sched_def new_scheduler_def)
  from served_slot_not_rerun [OF t _ _ _ _ disjI2 [OF disjI2 [OF this]]] show ?thesis
    by (auto simp: eg_raced_def eg_turn_def eg_loop_def nudge_def)
qed

end
