(* ===== verification/Spec2Isabelle.thy ===== *)
theory Spec2Isabelle
  imports SampleBufInv OutageList PauseRepair Store StoreFacts Uptime UptimeFacts AnchorFacts Debounce Monitor
    MonitorLoop EventDoor MonitorFacts Stats Prober Examples HistoryProps SelectionProps SettingsProps
    RetryProps ScheduleProps
begin

text \<open>
  A verification library for Pingularity, a program that watches an internet connection: it
  dials a few anchors every few seconds, decides whether the link is up, records the transitions
  and the time nobody watched, reports how long the link was down, measures its speed on a
  schedule, and shows all of it on a dashboard behind a login.

  \<^bold>\<open>Parts and where they are modelled.\<close>

  \<^item> \<open>Prelude\<close>, \<open>GoTime\<close>, \<open>Text\<close>: results and fallible calls, decimal text, bounded queues; Go's
    \<open>time\<close> with its wall and monotonic readings, saturating subtraction, durations in nanoseconds;
    \<open>float64\<close> values that may be NaN or infinite, and the text primitives the settings use.
  \<^item> \<open>Stats\<close> (\<open>internal/stats/stats.go\<close>): the registry every part counts into.
  \<^item> \<open>Prober\<close> (\<open>internal/prober\<close>): one round of dials and its per-family majority; the DNS probe's
    verdict.  Dialling and lookup are parameters.
  \<^item> \<open>Tables\<close>, \<open>SampleBuf\<close>, \<open>SampleBufInv\<close>, \<open>OutageList\<close>, \<open>PauseRepair\<close>, \<open>Store\<close>, \<open>StoreFacts\<close>
    (\<open>internal/store/store.go\<close>): the rows, the batched saves (\<open>sampleBuf\<close>), the list of the running
    monitor's outages, the re-judgement of pauses with its clock guard, and the doors the monitor
    writes through.  \<open>SpeedTable\<close>, \<open>SpeedFacts\<close>: the speedtest history, the selection report and the
    upload convictions.  \<open>SettingsTable\<close>: the key-value table.  \<open>AccessHold\<close>: the row a rebuilt store
    carries.
  \<^item> \<open>Spans\<close>, \<open>Uptime\<close>, \<open>UptimeFacts\<close>, \<open>AnchorFacts\<close>, \<open>CallFrames\<close> (same file): interval arithmetic and
    the uptime figures computed from the record, and what those reads leave alone.
  \<^item> \<open>Debounce\<close>, \<open>Monitor\<close>, \<open>MonitorLoop\<close>, \<open>EventDoor\<close>, \<open>MonitorFacts\<close>
    (\<open>internal/monitor/monitor.go\<close>): the verdict's streaks, transitions and their retry buffer, a
    whole round, the loop \<open>Run\<close> with its unobserved gaps and pauses.
  \<^item> \<open>Update\<close> (\<open>internal/update/update.go\<close>), \<open>Digest\<close>, \<open>DigestFacts\<close> (\<open>internal/digest/digest.go\<close>): the
    update check with its retry ladder, the periodic summary with its watermark.
  \<^item> \<open>Selection\<close>, \<open>SelectionFacts\<close> (\<open>internal/speedtest/ookla.go\<close>, \<open>selection.go\<close>): which server is
    measured and which of several measurements is kept.
  \<^item> \<open>Verdict\<close>, \<open>Scheduler\<close>, \<open>Flight\<close>, \<open>SpeedLoop\<close> (\<open>internal/speedtest/scheduler.go\<close>): what a finished run
    becomes, one run end to end (\<open>RunOnce\<close>), the interleavings of runs and stops (\<open>Abort\<close>), and the
    schedule (\<open>Loop\<close>).
  \<^item> \<open>Values\<close>, \<open>ValuesFacts\<close>, \<open>ConfigKeys\<close>, \<open>ConfigFacts\<close>, \<open>Settings\<close>, \<open>SettingsFacts\<close>
    (\<open>internal/settings/settings.go\<close>, \<open>internal/secret/secret.go\<close>): the settings as values, as rows, and
    the controller that loads, seals and saves them.
  \<^item> \<open>Addr\<close>, \<open>Throttle\<close>, \<open>ThrottleFacts\<close>, \<open>Tokens\<close>, \<open>Access\<close>, \<open>AccessFacts\<close>, \<open>Login\<close>
    (\<open>internal/web/auth.go\<close>, \<open>internal/web/web.go\<close>): addresses and proxies, the password throttle, session
    tokens, the guard of every route, and the handlers that change who may come in.
  \<^item> \<open>Boot\<close> (\<open>main.go\<close>): defaults, the access hold, the reload and the retry of a failed load.
  \<^item> \<open>Spent\<close>: a store's faults are used up one per failing statement.  \<open>Examples\<close>, \<open>ExampleCodec\<close>: what
    the witnesses are evaluated on.
  \<^item> The properties stand here (uptime, transitions, saved rows, outages, repair) and in \<open>HistoryProps\<close>,
    \<open>SelectionProps\<close>, \<open>SettingsProps\<close>, \<open>AccessProps\<close>, \<open>BootProps\<close>, \<open>RetryProps\<close>, \<open>SchedulerProps\<close> and
    \<open>ScheduleProps\<close>.

  \<^bold>\<open>How they interact.\<close>  \<open>Run\<close> takes a round from the prober, writes its samples and the
  transitions it confirms through the store's doors, and books the time it did not watch as pauses;
  \<open>UptimeSince\<close> reads events, pauses and samples back, and the digest words what it reads.  The
  scheduler claims the one run, asks the engine, stores the result and leaves the verdict the next
  interval depends on.  The settings controller owns the settings table; the guard, the handlers, the
  boot sequence and the digest's watermark go through it.  The interfaces are locales: \<open>debounced\<close> (a
  component whose verdict follows the streak machine; the link and a family), \<open>event_door\<close> (a write that
  appends its row or nothing; the monitor's path to \<open>InsertEvent\<close>), \<open>read_frame\<close> (a part of the store the
  reads leave alone; events and pauses, and every setting but the anchor), \<open>ranking\<close> (an order a fold
  keeps the best of; round winners, pings, racers) and \<open>controller_invariant\<close> (what every operation of
  the settings controller keeps; the shape of the values, the sealed rows, the birth verdict, and the
  access rows over a boot).

  \<^bold>\<open>What is assumed of code that is not here.\<close>  SQLite: a statement or transaction either takes
  effect and returns no error or has none and returns one; which fail is the environment's choice
  (the field \<open>faults\<close>).  Clocks, dials, the measurement engines, HTTP, JSON, HMAC-SHA256, bcrypt, the
  sealing cipher, the scheduler of goroutines and the settings hooks are arguments.  Each critical
  section is one step; \<open>sb_reach\<close> closes the batched saves, and \<open>flies\<close> the runs and stops, under
  every interleaving of them.  Integers are unbounded except where the code relies on a width; a
  \<open>float64\<close> is the rational it denotes, except where the code meets NaN or infinity (\<open>Text\<close>).

  \<^bold>\<open>Loops.\<close>  Every loop is structural or has a proved measure; the recovery search doubles its
  chunk and ends because the chunk is positive; the retry of a settings load ends because faults are
  spent.  A loop of a worker is a function of the list of turns it meets.  Nothing runs on fuel.

  \<^bold>\<open>Not modelled.\<close>  Opening, migrating and rebuilding the database file, log lines, the read side of the
  web interface, the transfers of the speed test engines, loss and latency probing, network
  identity, notifications and the platform probes: input and output around other code.
\<close>

section \<open>A monitor to look at\<close>

definition eg_config :: mon_config where
  "eg_config = \<lparr>cf_interval = 5 * second, cf_down_after = 3, cf_up_after = 2\<rparr>"

definition eg_target :: target where
  "eg_target = \<lparr>tg_name = ''a'', tg_network = ''tcp4'', tg_address = ''192.0.2.1:443'', tg_family = ''ipv4''\<rparr>"

definition eg_monitor :: monitor where
  "eg_monitor = new_monitor eg_config [eg_target] (eg_store\<lparr>t_events := []\<rparr>)"

text \<open>A monitor that went down at 100 past the base second and was paused for 20 of the next 100 seconds.\<close>

definition eg_down :: monitor where
  "eg_down = eg_monitor\<lparr>mo_online := False, mo_since := time_unix 1700000100,
     mo_last_event := time_unix 1700000100, mo_paused_gap := 20 * second\<rparr>"

definition eg_hooks :: hooks where
  "eg_hooks = \<lparr>hk_interval = None, hk_down_after = None, hk_up_after = None, hk_enabled = None,
     hk_latency = None, hk_dns = None, hk_degraded_ping = None, hk_on_degraded = True\<rparr>"

definition eg_bad_round :: probe_result where
  "eg_bad_round = \<lparr>pr_ts = time_unix 1700000005, pr_online = False, pr_families = [], pr_targets = [], pr_skipped = False\<rparr>"

lemmas eg_mon_defs = eg_down_def eg_monitor_def new_monitor_def idle_monitor_def eg_config_def eg_target_def

section \<open>Uptime\<close>

text \<open>C1: \<open>UptimeSince\<close> computes exactly the set-of-seconds description of the history: the window
  starts at the anchor (or the retention floor), the observed seconds are those no pause covers,
  and the downtime is the watched seconds charged to completed outages, orphaned 'down's and the
  open outage, never more than what was observed.  The read leaves the history as it was.\<close>

theorem uptime_figures:
  assumes "faults s = []" and "bf_waiting s = 0" and "memo_ok s" and "\<forall>e \<in> set (t_events s). 0 \<le> ev_ts e"
  shows "\<exists>s'. uptime_since w since0 retention s = (Inr (uptime_spec s (w_now w) since0 retention), s') \<and>
    t_samples s' = t_samples s \<and> t_events s' = t_events s \<and> t_pauses s' = t_pauses s \<and> memo_ok s'"
proof -
  have "quiet s" using assms(1-3) by (simp add: quiet_def)
  from uptime_since_answers [OF this assms(4), of w since0 retention] show ?thesis
    unfolding answers_def same_history_def quiet_def by blast
qed

lemma uptime_figures_witness:
  "uptime_spec eg_store 1700001000 0 0 =
     \<lparr>ob_window = 1000000000000, ob_observed = 980000000000, ob_down = 80000000000\<rparr>"
proof -
  have "faults eg_store = []" "bf_waiting eg_store = 0" "memo_ok eg_store"
    "\<forall>e \<in> set (t_events eg_store). 0 \<le> ev_ts e"
    using eg_quiet by (simp_all add: quiet_def eg_store_def)
  from uptime_figures [OF this, of eg_world 0 0] show ?thesis
    using eg_run by (auto simp: eg_world_def)
qed

text \<open>C2: the pair of events an outage leaves on record is wide enough: when the seconds booked as
  unobserved inside the outage are covered by what the monitor credited (paused plus frozen), the
  uptime figures charge the outage with exactly the length written in its 'up' event.\<close>

theorem outage_charged_in_full:
  assumes "\<not> t_is_zero (mo_last_event m)" and "0 < outage_length True sec m" and "0 \<le> mo_paused_gap m"
    and "int (card (cover rows \<inter> {t_unix (mo_last_event m)..<t_unix (event_second True sec m)})) * second
      \<le> mo_paused_gap m + mo_frozen_gap m"
  shows "int (card (charged (cover rows)
      \<lparr>co_start = t_unix (mo_last_event m), co_end = t_unix (event_second True sec m),
       co_observed = outage_length True sec m\<rparr>)) = outage_length True sec m"
proof -
  let ?c = "\<lparr>co_start = t_unix (mo_last_event m), co_end = t_unix (event_second True sec m),
       co_observed = outage_length True sec m\<rparr>"
  have "int (card (charged (cover rows) ?c)) = co_observed ?c"
    by (rule charged_in_full [OF _ _ order_refl]) (use pair_room [OF assms(1,2,4,3)] assms(2) in auto)
  then show ?thesis by simp
qed

lemma eg_down_values:
  "t_unix (mo_last_event eg_down) = 1700000100" "outage_length True (time_unix 1700000200) eg_down = 80"
  "t_unix (event_second True (time_unix 1700000200) eg_down) = 1700000200" "mo_paused_gap eg_down = 20 * second"
  "mo_frozen_gap eg_down = 0" "\<not> t_is_zero (mo_last_event eg_down)"
  by (simp_all add: eg_mon_defs outage_length_def event_second_def t_sub_def t_diff_def time_unix_def
      dur_secs_nonneg ceil_seconds_def t_unix_def t_is_zero_def Let_def)

lemma outage_charged_in_full_witness:
  "int (card (charged (cover [(1700000150, 20)])
      \<lparr>co_start = 1700000100, co_end = 1700000200, co_observed = 80\<rparr>)) = 80"
proof -
  have "cover [(1700000150, 20)] \<inter> {1700000100..<1700000200} = {1700000150..<1700000170}"
    by (auto simp: row_end_def)
  then show ?thesis
    using outage_charged_in_full [of eg_down "time_unix 1700000200" "[(1700000150, 20)]"]
    by (simp add: eg_down_values)
qed

text \<open>C3: no transition is lost and none is recorded twice.  Over any interleaving of transitions and
  retries, with any of the writes failing, the events on disk plus the ones still buffered are the
  old ones plus exactly one row per transition, as long as the retry buffer has room for them.\<close>

theorem transitions_conserved:
  assumes "length (mo_pending m) + length (due_rows ops m) \<le> max_pending_events"
  shows "mset (t_events (mo_store (event_run ops m))) + mset (map pending_row (mo_pending (event_run ops m))) =
      mset (t_events (mo_store m)) + mset (map pending_row (mo_pending m)) + mset (due_rows ops m)"
    (is "?a = ?b")
  using event_run_conserves [OF assms] by (simp add: owed_rows_def)

lemma transitions_conserved_witness:
  "mset (t_events (mo_store (event_run [Switch eg_world False (time_unix 1700000100), Retry eg_world] eg_monitor))) +
   mset (map pending_row (mo_pending (event_run [Switch eg_world False (time_unix 1700000100), Retry eg_world] eg_monitor))) =
   {#transition_row False (time_unix 1700000100) eg_monitor#}"
  using transitions_conserved [of eg_monitor "[Switch eg_world False (time_unix 1700000100), Retry eg_world]"]
  by (simp add: eg_mon_defs max_pending_events_def eg_store_def)

text \<open>C4: the link's verdict.  When the streak counters reflect a history of rounds, one more round
  takes the link down exactly when the failing rounds at the end of the history, less those a
  speedtest excuses, reach the down threshold; it brings the link back exactly when the good rounds
  at the end reach the up threshold; and the counters go on reflecting the history.\<close>

theorem link_verdict:
  assumes "streaks_ok es (link_view m)"
  shows "(let i = \<lparr>ri_good = pr_online res, ri_ts = pr_ts res, ri_during = during, ri_trigger = trigger,
                    ri_down_after = down_after h m, ri_up_after = up_after h m\<rparr>;
              es' = es @ [Judged i]; m' = advance w h res during trigger m in
      streaks_ok es' (link_view m') \<and>
      (mo_online m' \<longleftrightarrow>
        (if mo_online m
         then int (length (recent False es')) - int (length (excused (recent False es'))) < down_after h m
         else up_after h m \<le> int (length (recent True es')))))"
proof -
  have "sk_online (link_view x) = mo_online x" for x by (simp add: link_view_def)
  then show ?thesis
    using link.verdict [OF assms, of "(w, h, res, during, trigger)"]
      link.judge_remembers [OF assms, of "(w, h, res, during, trigger)"]
    by (simp only: link_judge_def link_seen_def Let_def prod.case round_in.simps)
qed

lemma eg_streaks: "streaks_ok [] (link_view eg_monitor)"
  by (simp add: streaks_ok_def link_view_def eg_mon_defs recent_def excused_def reset_run_def eg_store_def)

lemma link_verdict_witness:
  "mo_online (advance eg_world eg_hooks eg_bad_round False [] eg_monitor)"
  using link_verdict [OF eg_streaks, of eg_bad_round False "[]" eg_hooks eg_world]
  by (simp add: Let_def eg_bad_round_def eg_hooks_def down_after_def or_config_def recent_def excused_def eg_mon_defs)

text \<open>Each address family is debounced by the same rule as the link.\<close>

theorem family_verdict:
  assumes "streaks_ok es (family_view fs)"
  shows "(let i = \<lparr>ri_good = fr_online fr, ri_ts = ts, ri_during = during, ri_trigger = [],
                    ri_down_after = da, ri_up_after = ua\<rparr>;
              es' = es @ [Judged i]; fs' = snd (family_round da ua fr ts during fs) in
      streaks_ok es' (family_view fs') \<and>
      (fs_online fs' \<longleftrightarrow>
        (if fs_online fs
         then int (length (recent False es')) - int (length (excused (recent False es'))) < da
         else ua \<le> int (length (recent True es')))))"
proof -
  have "sk_online (family_view x) = fs_online x" for x by (simp add: family_view_def)
  then show ?thesis
    using family.verdict [OF assms, of "(da, ua, fr, ts, during)"]
      family.judge_remembers [OF assms, of "(da, ua, fr, ts, during)"]
    by (simp only: family_judge_def family_seen_def Let_def prod.case round_in.simps)
qed

lemma family_verdict_witness:
  "\<not> fs_online (snd (family_round 1 2
      \<lparr>fr_family = ''ipv4'', fr_online = False, fr_latency = 0, fr_ok = 0, fr_total = 3\<rparr>
      (time_unix 1700000005) False new_family))"
proof -
  have "streaks_ok [] (family_view new_family)"
    by (simp add: streaks_ok_def family_view_def new_family_def recent_def excused_def reset_run_def)
  from family_verdict [OF this, of "\<lparr>fr_family = ''ipv4'', fr_online = False, fr_latency = 0, fr_ok = 0, fr_total = 3\<rparr>"
      "time_unix 1700000005" False 1 2]
  show ?thesis by (simp add: Let_def recent_def excused_def new_family_def)
qed


text \<open>C17: the recovery search, with its memo, its chunks and its frontier, answers the reference scan:
  the first second after the outage's start, up to the bound, in which some family had a strict
  majority of its targets up.\<close>

theorem recovery_is_first_quorum:
  assumes "faults s = []" and "bf_waiting s = 0" and "memo_ok s" and "0 \<le> after"
  shows "\<exists>r s'. first_quorum_recovery w after before s = (Inr r, s') \<and> memo_ok s' \<and>
    (\<forall>t. r = Some t \<longleftrightarrow> after < t \<and> t \<le> before \<and> quorum_at (t_samples s) t \<and>
       (\<forall>u. after < u \<and> u < t \<longrightarrow> \<not> quorum_at (t_samples s) u))"
proof -
  have "quiet s" using assms(1-3) by (simp add: quiet_def)
  from first_quorum_recovery_spec [OF this assms(4), of w before] obtain s' where
    "first_quorum_recovery w after before s = (Inr (first_up (t_samples s) after before), s')" "quiet s'"
    by blast
  then show ?thesis using first_up_Some [of "t_samples s" after before] by (auto simp: quiet_def)
qed

lemma recovery_is_first_quorum_witness:
  "fst (first_quorum_recovery eg_world 1699999000 1700001000 eg_store) = Inr (Some 1700000000)"
proof -
  have "faults eg_store = []" "bf_waiting eg_store = 0" "memo_ok eg_store"
    using eg_quiet by (simp_all add: quiet_def)
  from recovery_is_first_quorum [OF this, of 1699999000 eg_world 1700001000] obtain r s' where
    r: "first_quorum_recovery eg_world 1699999000 1700001000 eg_store = (Inr r, s')"
    "\<forall>t. r = Some t \<longleftrightarrow> 1699999000 < t \<and> t \<le> 1700001000 \<and> quorum_at (t_samples eg_store) t \<and>
       (\<forall>u. 1699999000 < u \<and> u < t \<longrightarrow> \<not> quorum_at (t_samples eg_store) u)" by auto
  have "quorum_at (t_samples eg_store) 1700000000" "\<And>u. u < 1700000000 \<Longrightarrow> \<not> quorum_at (t_samples eg_store) u"
    by (auto simp: quorum_at_def group_up_def eg_store_def)
  then show ?thesis using r by simp
qed

text \<open>What the recovery memo remembers stays true when newer samples arrive: an entry is never
  invalidated by rows stamped after what it has settled.\<close>

theorem memo_survives_new_samples:
  assumes "memo_ok s"
    and "\<forall>after m. map_of (rec_cache s) after = Some m \<longrightarrow> (\<forall>r \<in> set new. settled_upto m < sr_ts r)"
  shows "memo_ok (s\<lparr>t_samples := t_samples s @ new\<rparr>)"
  using assms memo_true_append by (simp add: memo_ok_def)

definition eg_memo_store :: store where
  "eg_memo_store = eg_store\<lparr>rec_cache := [(1699999000, (1700000000, 1700000000))]\<rparr>"

definition eg_new_row :: sample_row where
  "eg_new_row = \<lparr>sr_ts = 1700000300, sr_target = ''a'', sr_latency = None, sr_ok = False, sr_family = None\<rparr>"

lemma eg_memo_ok: "memo_ok eg_memo_store"
proof -
  have "first_up (t_samples eg_store) 1699999000 1700000000 = Some 1700000000"
    by (simp add: first_up_def min_of_def quorum_at_def group_up_def fam_expr_def eg_store_def Let_def)
  then show ?thesis by (simp add: memo_ok_def eg_memo_store_def memo_true_def)
qed

lemma memo_survives_new_samples_witness:
  "memo_ok (eg_memo_store\<lparr>t_samples := t_samples eg_memo_store @ [eg_new_row]\<rparr>)"
  by (rule memo_survives_new_samples [OF eg_memo_ok])
    (simp add: eg_memo_store_def eg_new_row_def settled_upto_def split: if_splits)

section \<open>Batched saves\<close>

definition eg_buffer :: bstore where
  "eg_buffer =
     \<lparr>t_samples = [], t_dns = [], t_events = [], t_pauses = [], t_settings = Map.empty, faults = [],
      reg = empty_registry, rec_cache = [], rec_gen = 0,
      bf_waiting = 0, bf_gate = False, bf_rounds = [], bf_dns = [], bf_rows = 0, bf_due = zero_time,
      bf_quiet = zero_time, bf_failing = False, bf_drop_said = False, bf_missed = False,
      bf_closed = False, bf_written_off = False\<rparr>"

definition eg_item :: item where
  "eg_item = Dns (time_unix 1700000000) 5 True"

definition eg_sys :: sys where
  "eg_sys = apply_move (Put eg_item minute (time_unix 1700000000) False)
     \<lparr>sy_db = eg_buffer, sy_fly = None, sy_owed = 0, sy_in = []\<rparr>"

lemma eg_fresh: "fresh_buffer eg_buffer"
  by (simp add: fresh_buffer_def eg_buffer_def)

lemma eg_sane: "sane (time_unix 1700000000)" "sane (time_unix 1700001000)"
  by (simp_all add: sane_def time_unix_def)

lemma eg_good_item: "good_item eg_item"
  by (simp add: good_item_def item_rows_def eg_item_def max_held_rows_def)

lemma eg_sys_reach: "sb_reach eg_buffer eg_sys"
  unfolding eg_sys_def
  by (rule sb_reach.step [OF sb_reach.start])
    (use eg_sane eg_good_item in \<open>simp add: eg_buffer_def item_rows_def eg_item_def max_held_rows_def\<close>)

text \<open>C18: nothing is stranded.  In every state any interleaving of writers, savers, timers, readers
  and the shutdown can reach, rows that wait in an open buffer have a timer set for them, a save
  running, or a save about to be asked for.\<close>

theorem rows_never_stranded:
  assumes "sb_reach d0 s" and "fresh_buffer d0"
  shows "bf_rows (sy_db s) = 0 \<or> bf_closed (sy_db s) \<or>
    \<not> t_is_zero (bf_due (sy_db s)) \<or> sy_fly s \<noteq> None \<or> 0 < sy_owed s"
proof -
  have "never_stranded s" "core (fly_rows s) (sy_db s)"
    using sb_reach_ok [OF assms] by (simp_all add: sb_ok_def counts_ok_def)
  moreover from this have "0 \<le> bf_rows (sy_db s)" by (simp add: core_def)
  ultimately show ?thesis by (auto simp: never_stranded_def)
qed

lemma rows_never_stranded_witness:
  "bf_rows (sy_db eg_sys) = 0 \<or> bf_closed (sy_db eg_sys) \<or>
    \<not> t_is_zero (bf_due (sy_db eg_sys)) \<or> sy_fly eg_sys \<noteq> None \<or> 0 < sy_owed eg_sys"
  by (rule rows_never_stranded [OF eg_sys_reach eg_fresh])

text \<open>The counts are exact and bounded.  At most 8192 rows wait; the published waiting count is
  the rows held plus the rows inside the running save (zero once they were written off at
  shutdown); the gate is taken exactly while a save runs.\<close>

theorem waiting_rows_counted:
  assumes "sb_reach d0 s" and "fresh_buffer d0"
  shows "0 \<le> bf_rows (sy_db s) \<and> bf_rows (sy_db s) \<le> max_held_rows \<and>
    bf_rows (sy_db s) = held_rows (bf_rounds (sy_db s)) (bf_dns (sy_db s)) \<and>
    bf_waiting (sy_db s) = (if bf_written_off (sy_db s) then 0 else bf_rows (sy_db s) + fly_rows s) \<and>
    (bf_gate (sy_db s) \<longleftrightarrow> sy_fly s \<noteq> None)"
  using sb_reach_ok [OF assms] by (auto simp: sb_ok_def counts_ok_def core_def split: option.splits)

lemma waiting_rows_counted_witness:
  "bf_rows (sy_db eg_sys) \<le> max_held_rows \<and> (bf_gate (sy_db eg_sys) \<longleftrightarrow> sy_fly eg_sys \<noteq> None)"
  using waiting_rows_counted [OF eg_sys_reach eg_fresh] by simp

text \<open>C19: samples reach the disk in the order they were accepted.  What is on disk beyond the
  initial table, followed by the running save and by what still waits, is a subsequence of the
  accepted rows: rows may be dropped, never reordered or doubled.\<close>

theorem samples_in_order:
  assumes "sb_reach d0 s" and "fresh_buffer d0"
  shows "\<exists>new. t_samples (sy_db s) = t_samples d0 @ new \<and>
    subseq (new @ queued (fly_rounds s) @ queued (bf_rounds (sy_db s))) (concat (map item_samples (sy_in s)))"
  using sb_reach_ok [OF assms] by (simp add: sb_ok_def in_order_def)

lemma samples_in_order_witness:
  "\<exists>new. t_samples (sy_db eg_sys) = t_samples eg_buffer @ new \<and>
    subseq (new @ queued (fly_rounds eg_sys) @ queued (bf_rounds (sy_db eg_sys)))
      (concat (map item_samples (sy_in eg_sys)))"
  by (rule samples_in_order [OF eg_sys_reach eg_fresh])

text \<open>C24: the functions other code calls are exactly sequences of those interleaved steps.  Run
  alone on a reachable state, holding a row makes room if it must, puts the row and, at interval 0,
  makes the save it owes; a save asks for the gate and settles what it took; the timer that is still
  the armed one makes the save it owes; the shutdown closes, saves and books the rest as lost.  Each
  call leaves the very store those steps leave, has accepted the row it was given unless the buffer is
  closed, and leaves no save running and none owed that was not owed before.\<close>

theorem calls_are_steps:
  assumes "sb_reach d0 s" and "fresh_buffer d0" and "sy_fly s = None" and "call_env en"
    and "good_item it" and "\<not> t_is_zero due"
  shows "performs s (hold_moves it en s) (if bf_closed (sy_db s) then [] else [it]) (snd (hold it en (sy_db s))) \<and>
    performs s (save_moves reason False en s) [] (snd (save_buffered reason en (sy_db s))) \<and>
    performs s (timer_moves due en s) [] (timed_save due en (sy_db s)) \<and>
    performs s (final_moves en s) [] (final_save en (sy_db s))"
  using hold_call [OF assms(1-5)] save_call [OF assms(1-4)] timer_call [OF assms(1-4,6)]
    final_call [OF assms(1-4)] by simp

lemma calls_are_steps_witness:
  "performs eg_sys (hold_moves eg_item eg_env eg_sys) (if bf_closed (sy_db eg_sys) then [] else [eg_item])
    (snd (hold eg_item eg_env (sy_db eg_sys)))"
proof -
  have 1: "sy_fly eg_sys = None" by (simp add: eg_sys_def)
  have 2: "call_env eg_env" using eg_sane by (simp add: call_env_def eg_env_def)
  have 3: "\<not> t_is_zero (time_unix 1700000000)" by simp
  show ?thesis using calls_are_steps [OF eg_sys_reach eg_fresh 1 2 eg_good_item 3, of SaveAge] by blast
qed


section \<open>The monitor's own outages\<close>

text \<open>C37: a close of dangling outages stays away from the running monitor's outages.  Whatever the
  order of openings, landings and closes, every outage the monitor ever opened is at or after the
  line, unless its 'down' reached the disk, an 'up' landed at or after it while it was the latest
  outage on the list that had begun by then and had no end, and afterwards a clock that read past that
  'up' retired it.\<close>

theorem open_outages_behind_line:
  assumes "Opened down now \<in> set ops"
  shows "line (ol_run ops no_outages) \<le> down \<or>
    (Landed ''down'' down \<in> set ops \<and>
     (\<exists>pre ty up post. ops = pre @ Landed ty up # post \<and> ty \<noteq> ''down'' \<and> ends_latest pre down up \<and>
        (\<exists>n. (\<exists>x. Opened x n \<in> set post \<and> up \<le> n) \<or> (BeginClose n \<in> set post \<and> up \<le> current_horizon n))))"
  using held_or_retired [OF assms] held_line_line unfolding retired_def by metis

lemma open_outages_behind_line_witness:
  "line (ol_run [Opened 100 100, Landed ''up'' 200, BeginClose 5000, EndClose] no_outages) \<le> 100"
proof -
  let ?ops = "[Opened 100 100, Landed ''up'' 200, BeginClose 5000, EndClose]"
  have "Opened 100 100 \<in> set ?ops" by simp
  from open_outages_behind_line [OF this] show ?thesis by auto
qed

text \<open>While a close runs or waits for its turn, no step of the monitor moves the line later.\<close>

theorem line_never_later_during_close:
  assumes "ol_closing m \<or> ol_waiting m \<noteq> 0" and "\<forall>now. op \<noteq> BeginClose now"
  shows "line (ol_step op m) \<le> line m"
  using assms by (rule line_only_earlier)

lemma line_never_later_during_close_witness:
  "line (ol_step (Opened 100 100) (ol_wait no_outages)) \<le> line (ol_wait no_outages)"
  by (rule line_never_later_during_close) (simp_all add: ol_wait_def no_outages_def)

text \<open>The list holds at most 64 outages, and whatever is on it was opened, with the landings it
  notes having taken place.\<close>

theorem outage_list_bounded:
  "length (ol_open (ol_run ops no_outages)) \<le> max_monitor_outages \<and>
   (\<forall>o1 \<in> set (ol_open (ol_run ops no_outages)). backed ops o1)"
proof
  have "length (ol_open m) \<le> max_monitor_outages \<Longrightarrow> length (ol_open (ol_run ops m)) \<le> max_monitor_outages" for m
    by (induction ops arbitrary: m) (simp_all add: length_step)
  then show "length (ol_open (ol_run ops no_outages)) \<le> max_monitor_outages"
    by (simp add: no_outages_def)
qed (rule backed_run)

lemma outage_list_bounded_witness:
  "length (ol_open (ol_run [Opened 100 100] no_outages)) \<le> max_monitor_outages"
  using outage_list_bounded by blast

section \<open>Pauses under a corrected clock\<close>

text \<open>C34: re-judging pauses never loses an unobserved second and never invents one.  Under any
  sequence of clocks, the seconds covered by the live and the held-aside rows together stay the
  same; and once a clock is past every end, all of them are live again.\<close>

theorem repair_loses_nothing:
  assumes "positive (fst tbl)" and "positive (snd tbl)"
  shows "cover (fst (judge nows tbl)) \<union> cover (snd (judge nows tbl)) = cover (fst tbl) \<union> cover (snd tbl) \<and>
    ((\<forall>p \<in> set (fst tbl) \<union> set (snd tbl). row_end p \<le> final + pause_repair_future_skew) \<longrightarrow>
       cover (fst (judge (nows @ [final]) tbl)) = cover (fst tbl) \<union> cover (snd tbl) \<and>
       snd (judge (nows @ [final]) tbl) = [])"
proof -
  let ?t = "judge nows tbl"
  have k: "set (fst ?t) \<union> set (snd ?t) \<subseteq> set (fst tbl) \<union> set (snd tbl)"
    "cover (fst ?t) \<union> cover (snd ?t) = cover (fst tbl) \<union> cover (snd tbl)"
    using judge_keeps [OF assms, of nows] by simp_all
  have pos: "positive (fst ?t)" "positive (snd ?t)" using positive_subset [OF assms] k(1) by auto
  obtain p q where r: "repair_future_pauses final (fst ?t, snd ?t) = (p, q)" by (metis surj_pair)
  note parts = repair_parts [OF pos r]
  have "judge (nows @ [final]) tbl = (p, q)" using r by (simp add: judge_append)
  moreover have "q = []" if "\<forall>p \<in> set (fst tbl) \<union> set (snd tbl). row_end p \<le> final + pause_repair_future_skew"
  proof (rule ccontr)
    assume "q \<noteq> []"
    then obtain x where x: "x \<in> set q" by (cases q) auto
    then have "x \<in> set (fst tbl) \<union> set (snd tbl)" using parts(2) k(1) by blast
    then show False using bspec [OF that] bspec [OF parts(4) x] by fastforce
  qed
  ultimately show ?thesis using k(2) parts(5) by auto
qed

lemma repair_loses_nothing_witness:
  "cover (fst (judge [1600000000, 1700000000] ([(1699990000, 100)], []))) = {1699990000..<1699990100}"
proof -
  have pos: "positive (fst ([(1699990000, 100)], []))" "positive (snd ([(1699990000 :: int, 100 :: int)], []))"
    by (simp_all add: positive_def)
  from repair_loses_nothing [OF pos, of "[1600000000]" 1700000000] show ?thesis
    by (simp add: row_end_def pause_repair_future_skew_def)
qed

text \<open>After a judgement no live pause ends past the horizon, and everything held aside does.\<close>

theorem repair_separates:
  assumes "positive pauses" and "positive quar"
  shows "(\<forall>p \<in> set (fst (repair_future_pauses now (pauses, quar))). row_end p \<le> now + pause_repair_future_skew) \<and>
    (\<forall>q \<in> set (snd (repair_future_pauses now (pauses, quar))). now + pause_repair_future_skew < row_end q)"
proof -
  obtain p q where r: "repair_future_pauses now (pauses, quar) = (p, q)" by (metis surj_pair)
  show ?thesis using repair_parts(3,4) [OF assms r] by (simp add: r)
qed

lemma repair_separates_witness:
  "(1699990000, 100) \<notin> set (fst (repair_future_pauses 1600000000 ([(1699990000, 100)], [])))"
proof
  assume "(1699990000, 100) \<in> set (fst (repair_future_pauses 1600000000 ([(1699990000, 100)], [])))"
  then show False
    using repair_separates [of "[(1699990000, 100)]" "[]" 1600000000]
    by (auto simp: positive_def row_end_def pause_repair_future_skew_def)
qed

text \<open>The clock guard.  Whatever the clock and the uptime read, once a step was seen the deferred
  judgement stays parked, and unarmed by it, until the uptime has passed the settle window; and the
  reading a judgement is later made under agrees with the clock's baseline to within the slack.\<close>

theorem clock_guard_parks:
  assumes "cg_step_seen g" and "cg_settle_up g = cg_base_up g + prune_clock_settle"
    and "\<forall>(now, uptime) \<in> set rs. cg_base_up g \<le> uptime \<and> 0 \<le> uptime \<and> uptime < cg_settle_up g"
    and "sorted (map snd rs)"
  shows "cg_step_seen (guard_run rs g) \<and> cg_arm (guard_run rs g) = cg_arm g \<and>
    repair_reading uptime fallback (guard_run rs g) = None"
proof -
  have "cg_step_seen (guard_run rs g) \<and> cg_arm (guard_run rs g) = cg_arm g"
    by (rule parked_until_settled [OF assms(1)]) (use assms in auto)
  then show ?thesis by (simp add: repair_reading_def)
qed

definition eg_stepped :: clock_guard where
  "eg_stepped = snd (clock_stepped (time_unix 1700100000) second eg_guard)"

lemma clock_guard_parks_witness:
  "repair_reading 0 0 (guard_run [(time_unix 1700100060, minute)] eg_stepped) = None"
proof -
  have g: "cg_step_seen eg_stepped" "cg_base_up eg_stepped = second"
    "cg_settle_up eg_stepped = second + prune_clock_settle"
    by (simp_all add: eg_stepped_def clock_stepped_abs eg_guard_def fresh_guard_def wall_only_def time_unix_def
        prune_clock_step_slack_def)
  show ?thesis
    using clock_guard_parks [of eg_stepped "[(time_unix 1700100060, minute)]" 0 0] g
    by (simp add: prune_clock_settle_def)
qed

text \<open>A judgement is made under a reading the settle window vouched for: on every run of the
  guard from a fresh store, the vetted reading sits within the step slack of the baseline the guard
  compares later clocks with.\<close>

theorem vetted_reading_agrees:
  "(let g = guard_run rs (fresh_guard now0 uptime0 arm0) in
    \<not> cg_step_seen g \<and> cg_vetted g \<noteq> zero_time \<longrightarrow>
    \<bar>sat64 (wall_ns (cg_vetted g) - wall_ns (cg_base g)) - (cg_vetted_up g - cg_base_up g)\<bar> \<le> prune_clock_step_slack)"
  using guard_ok_run [OF guard_ok_fresh, of rs now0 uptime0 arm0] by (simp add: guard_ok_def Let_def)

lemma vetted_reading_agrees_witness:
  "cg_vetted (guard_run [(time_unix 1700100000, second), (time_unix 1700130000, 30001 * second)] eg_guard) = time_unix 1700130000 \<and>
   \<bar>sat64 (wall_ns (time_unix 1700130000) - wall_ns (time_unix 1700100000)) - (30001 * second - second)\<bar> \<le> prune_clock_step_slack"
  using vetted_reading_agrees [of "[(time_unix 1700100000, second), (time_unix 1700130000, 30001 * second)]" "time_unix 1700000000" 0 0]
  by (simp add: eg_guard_def clock_stepped_abs fresh_guard_def wall_only_def time_unix_def zero_time_def
      prune_clock_step_slack_def prune_clock_settle_def Let_def)


section \<open>Where monitoring began\<close>

text \<open>The anchor never moves forward.  Once a call has answered a plausible anchor in the past,
  every later call on a store that kept the setting answers that second or an earlier one,
  whatever rows were deleted or added in between.\<close>

theorem anchor_never_forward:
  assumes "faults s = []" and "bf_waiting s = 0" and "monitoring_since w now s = (Inr a, s')"
    and "plausible_epoch \<le> a" and "a < now" and "in_int64 a" and "now \<le> later"
    and "faults t = []" and "bf_waiting t = 0" and "t_settings t = t_settings s'"
  shows "\<exists>b t'. monitoring_since w' later t = (Inr b, t') \<and> b \<le> a"
proof -
  have "stored_anchor t later = stored_anchor s' later" using assms(10) by (simp add: stored_anchor_def)
  then have "stored_anchor t later \<noteq> 0" "stored_anchor t later \<le> a"
    using anchor_pinned [OF assms(1-7)] by simp_all
  then have "anchor_of t later \<le> a" using anchor_of_le_stored [of t later] by linarith
  then show ?thesis using monitoring_since_run [OF assms(8,9)] by auto
qed

lemma anchor_never_forward_witness:
  "\<exists>b t'. monitoring_since eg_world 1700002000
      ((snd (monitoring_since eg_world 1700001000 eg_store))\<lparr>t_samples := [], t_events := []\<rparr>) = (Inr b, t') \<and> b \<le> 1700000000"
proof -
  have q: "faults eg_store = []" "bf_waiting eg_store = 0" by (simp_all add: eg_store_def)
  have a: "anchor_of eg_store 1700001000 = 1700000000" "stored_anchor eg_store 1700001000 = 0"
    by (simp_all add: anchor_of_stored stored_anchor_def first_recorded_def min_of_def readable_def
        plausible_epoch_def eg_store_def)
  obtain s' where r: "monitoring_since eg_world 1700001000 eg_store = (Inr 1700000000, s')"
    "s' = remember_anchor 1700000000 eg_store"
    using monitoring_since_run [OF q, of eg_world 1700001000] a by (simp add: plausible_epoch_def)
  have t: "faults (s'\<lparr>t_samples := [], t_events := []\<rparr>) = []" "bf_waiting (s'\<lparr>t_samples := [], t_events := []\<rparr>) = 0"
    using q by (simp_all add: r(2) remember_anchor_def db_exec_no_faults)
  have c: "plausible_epoch \<le> 1700000000" "(1700000000 :: int) < 1700001000" "in_int64 1700000000"
    "(1700001000 :: int) \<le> 1700002000"
    by (simp_all add: plausible_epoch_def in_int64_def)
  show ?thesis
    using anchor_never_forward [OF q r(1) c t, of eg_world] by (simp add: r(1))
qed

section \<open>Observations\<close>

text \<open>The figures are consistent: downtime never exceeds the observed time, the observed time
  never exceeds the window, and the ratio and the coverage published from them are in [0, 1].\<close>

theorem observation_bounds:
  assumes "faults s = []" and "bf_waiting s = 0" and "memo_ok s" and "\<forall>e \<in> set (t_events s). 0 \<le> ev_ts e"
    and "uptime_since w since0 retention s = (Inr ob, s')"
  shows "0 \<le> ob_down ob \<and> ob_down ob \<le> ob_observed ob \<and> ob_observed ob \<le> ob_window ob \<and>
    0 \<le> ob_ratio ob \<and> ob_ratio ob \<le> 1 \<and> 0 \<le> ob_coverage ob \<and> ob_coverage ob \<le> 1"
proof -
  have "quiet s" using assms(1-3) by (simp add: quiet_def)
  then have ob: "ob = uptime_spec s (w_now w) since0 retention"
    using uptime_since_answers [OF _ assms(4), of w since0 retention] assms(5) by (auto simp: answers_def)
  have d: "0 \<le> ob_down ob" "ob_down ob \<le> ob_observed ob" "ob_observed ob \<le> ob_window ob"
    unfolding ob by (rule uptime_spec_bounds)+
  then show ?thesis using ob_ratio_bounds ob_coverage_bounds by auto
qed

lemma observation_bounds_witness:
  "ob_ratio \<lparr>ob_window = 1000000000000, ob_observed = 980000000000, ob_down = 80000000000\<rparr> \<le> 1"
proof -
  have q: "faults eg_store = []" "bf_waiting eg_store = 0" "memo_ok eg_store"
    "\<forall>e \<in> set (t_events eg_store). 0 \<le> ev_ts e"
    using eg_quiet by (simp_all add: quiet_def eg_store_def)
  obtain s' where "uptime_since eg_world 0 0 eg_store =
      (Inr \<lparr>ob_window = 1000000000000, ob_observed = 980000000000, ob_down = 80000000000\<rparr>, s')"
    using eg_run by (metis prod.collapse)
  from observation_bounds [OF q this] show ?thesis by simp
qed

section \<open>Intervals\<close>

text \<open>Merging keeps the set of seconds, and the overlap read off the merged list by binary search
  is the number of those seconds in the range.\<close>

theorem merged_overlap_counts:
  assumes "sorted (map fst sps)" and "\<forall>(a, b) \<in> set sps. a < b"
  shows "span_set (merge_spans sps) = span_set sps \<and>
    span_overlap (merge_spans sps) lo hi = int (card (span_set sps \<inter> {lo..<hi})) \<and>
    span_set (spans_in (merge_spans sps) lo hi) = span_set sps \<inter> {lo..<hi}"
  using merge_spans_set [OF assms(1)] span_overlap_card [OF merge_spans_ordered [OF assms]]
    spans_in_set(1) [OF merge_spans_ordered [OF assms]] by simp

lemma merged_overlap_counts_witness:
  "span_overlap (merge_spans [(1, 5), (3, 8)]) 4 20 = int (card (span_set [(1, 5), (3, 8)] \<inter> {4..<20}))"
  using merged_overlap_counts [of "[(1, 5), (3, 8)]" 4 20] by simp

section \<open>Probe rounds\<close>

text \<open>A round is judged per family by a strict majority of that family's own targets, with the
  fastest success as its latency, and the link is up exactly when some family is.\<close>

theorem round_quorum:
  "(\<forall>fam. map_of (pr_families (aggregate now rs)) fam =
      (if of_family fam rs = [] then None
       else Some \<lparr>fr_family = fam,
                  fr_online = (2 * length (successes fam rs) > length (of_family fam rs)),
                  fr_latency = min_latency (successes fam rs),
                  fr_ok = length (successes fam rs), fr_total = length (of_family fam rs)\<rparr>)) \<and>
   (pr_online (aggregate now rs) \<longleftrightarrow>
      (\<exists>fam. of_family fam rs \<noteq> [] \<and> 2 * length (successes fam rs) > length (of_family fam rs)))"
proof -
  let ?f = "\<lambda>fam. \<lparr>fr_family = fam,
      fr_online = (2 * length (successes fam rs) > length (of_family fam rs)),
      fr_latency = min_latency (successes fam rs),
      fr_ok = length (successes fam rs), fr_total = length (of_family fam rs)\<rparr>"
  have m: "map_of (pr_families (aggregate now rs)) fam = (if of_family fam rs = [] then None else Some (?f fam))" for fam
    using aggregate_families [of now rs fam] by (simp add: judge_family_def family_counts_def mult.commute)
  have d: "distinct (map fst (pr_families (aggregate now rs)))" using aggregate_families by blast
  have "pr_online (aggregate now rs) \<longleftrightarrow> (\<exists>(fam, fr) \<in> set (pr_families (aggregate now rs)). fr_online fr)"
    by (auto simp: aggregate_def Let_def list_ex_iff)
  also have "\<dots> \<longleftrightarrow> (\<exists>fam fr. map_of (pr_families (aggregate now rs)) fam = Some fr \<and> fr_online fr)"
    using d by (auto simp: map_of_eq_Some_iff)
  also have "\<dots> \<longleftrightarrow> (\<exists>fam. of_family fam rs \<noteq> [] \<and> 2 * length (successes fam rs) > length (of_family fam rs))"
    using m by (auto split: if_splits)
  finally show ?thesis using m by blast
qed

definition eg_results :: "target_result list" where
  "eg_results = [\<lparr>tr_target = eg_target, tr_ok = True, tr_latency = 5000000, tr_err = None\<rparr>,
     \<lparr>tr_target = eg_target, tr_ok = False, tr_latency = 0, tr_err = None\<rparr>]"

lemma round_quorum_witness: "\<not> pr_online (aggregate (time_unix 0) eg_results)"
  using round_quorum [of "time_unix 0" eg_results]
  by (auto simp: of_family_def successes_def eg_results_def eg_target_def split: if_splits)

text \<open>The DNS probe calls a lookup healthy exactly when the resolver answered (an answer, a name
  that does not exist, or Windows' no-data errno), within the three-second budget and before the
  context ended; and it returns an error exactly when it is not healthy.\<close>

theorem dns_verdict:
  assumes "resolve_time windows ctx d err = (d', ok, e)"
  shows "d' = d \<and> (ok \<longleftrightarrow> e = None) \<and>
    (ok \<longleftrightarrow> d < 3 * second \<and> ctx = None \<and>
      (err = None \<or> (\<exists>x nf. err = Some x \<and> err_dns x = Some nf \<and> (nf \<or> windows \<and> err_is x EWSANoData))))"
  using resolve_time_ok [OF assms]
  by (auto simp: dns_probe_timeout_def dns_answered_errno_def split: option.splits)

lemma dns_verdict_witness:
  "fst (snd (resolve_time False None (second) (Some \<lparr>e_chain = [EDNS True], e_timeout = False\<rparr>)))"
proof -
  obtain d' ok e where r: "resolve_time False None (second) (Some \<lparr>e_chain = [EDNS True], e_timeout = False\<rparr>) = (d', ok, e)"
    by (metis surj_pair)
  from dns_verdict [OF r] show ?thesis by (auto simp: r err_dns_def)
qed


section \<open>Event order and the doors of the record\<close>

text \<open>The recorded seconds never run backwards, and every 'down' is strictly after the event
  before it, whatever the clock did between the transitions and whatever was retried: the order the
  uptime figures pair events by.\<close>

theorem event_seconds_rise:
  assumes "0 \<le> t_unix (mo_last_event m)"
  shows "rising (t_unix (mo_last_event m)) (due_rows ops m)"
  using assms by (rule due_rows_rising)

lemma event_seconds_rise_witness:
  "rising 1700000100 (due_rows [Switch eg_world True (time_unix 1700000200), Switch eg_world False (time_unix 1600000000)] eg_down)"
  using event_seconds_rise [of eg_down "[Switch eg_world True (time_unix 1700000200), Switch eg_world False (time_unix 1600000000)]"]
  by (simp only: eg_down_values)

text \<open>\<open>InsertEvent\<close> appends exactly the row it was given or nothing, refuses an unreadable type,
  and drops an impossible length (longer than ten years) without dropping the transition.\<close>

theorem insert_event_appends:
  assumes "insert_event w ts kind dur detail s = (err, s')"
  shows "t_pauses s' = t_pauses s \<and>
    (err \<noteq> None \<longrightarrow> t_events s' = t_events s) \<and>
    (err = None \<longrightarrow> (kind = ''down'' \<or> kind = ''up'') \<and>
       t_events s' = t_events s @ [\<lparr>ev_ts = ts, ev_type = kind,
         ev_dur = (if 0 \<le> dur \<and> dur \<le> max_pause_duration then Some dur else None), ev_detail = detail\<rparr>])"
proof -
  define s0 where "s0 = (if kind = ''down'' then s\<lparr>st_live := ol_opened ts (w_now w) (st_live s)\<rparr> else s)"
  obtain e s1 where row: "insert_event_row w ts kind dur detail s0 = (e, s1)" by (metis surj_pair)
  have "err = e" using assms by (auto simp: insert_event_def Let_def s0_def [symmetric] row)
  then show ?thesis
    using insert_event_law [OF assms] insert_event_row_law(4) [OF row] by (simp add: event_row_of_def)
qed

lemma insert_event_appends_witness:
  "t_events (snd (insert_event eg_world 1700000500 ''down'' (-1) [] eg_store)) =
     t_events eg_store @ [\<lparr>ev_ts = 1700000500, ev_type = ''down'', ev_dur = None, ev_detail = []\<rparr>]"
proof -
  obtain err s' where r: "insert_event eg_world 1700000500 ''down'' (-1) [] eg_store = (err, s')" by (metis surj_pair)
  have "fst (insert_event eg_world 1700000500 ''down'' (-1) [] eg_store) = None"
    by (simp add: insert_event_def insert_event_row_def eg_store_def save_buffered_def save_begin_def db_exec_def)
  then show ?thesis using insert_event_appends [OF r] by (simp add: r)
qed

text \<open>\<open>InsertPause\<close> stores exactly the span it was given, and only a believable one: positive, of
  at most ten years, not before 2023, and ending at most five minutes past the present.  When it
  answers neither stored nor failed, the span was not believable.\<close>

theorem insert_pause_believable:
  assumes "insert_pause w start dur s = ((stored, err), s')" and "\<not> pause_repair_armed (st_guard s)"
  shows "t_events s' = t_events s \<and>
    (stored \<longrightarrow> t_pauses s' = t_pauses s @ [(start, dur)] \<and> 0 < dur \<and> dur \<le> max_pause_duration \<and>
       plausible_epoch \<le> start \<and> start + dur \<le> w_now w + pause_future_skew) \<and>
    (\<not> stored \<longrightarrow> t_pauses s' = t_pauses s \<and> (err = None \<longrightarrow> \<not> pause_span_sane (w_now w) start dur))"
  using insert_pause_law [OF assms]
  by (auto simp: pause_span_sane_def pause_span_bounded_def split: if_splits)

lemma insert_pause_believable_witness:
  "t_pauses (snd (insert_pause eg_world 0 1700000000 eg_store)) = t_pauses eg_store"
proof -
  obtain stored err s' where r: "insert_pause eg_world 0 1700000000 eg_store = ((stored, err), s')" by (metis surj_pair)
  have "\<not> pause_repair_armed (st_guard eg_store)"
    by (simp add: pause_repair_armed_def eg_store_def eg_guard_def fresh_guard_def)
  from insert_pause_believable [OF r this] show ?thesis
    by (auto simp: r plausible_epoch_def)
qed

section \<open>Counters\<close>

text \<open>Over any history of recordings that only adds and stays in range, a counter ends at its old
  value plus exactly what was added to it; seeding, gauges, deletions and histograms do not touch it.\<close>

theorem counter_is_exact:
  assumes "valid_name n" and "\<forall>op \<in> set ops. 0 \<le> added n op" and "0 \<le> val_or_zero (counters r) n"
    and "val_or_zero (counters r) n + (\<Sum>op \<leftarrow> ops. added n op) < 9223372036854775808"
  shows "val_or_zero (counters (stats_run ops r)) n = val_or_zero (counters r) n + (\<Sum>op \<leftarrow> ops. added n op)"
  using assms by (rule stats_run_counter)

lemma counter_is_exact_witness:
  "val_or_zero (counters (stats_run [Inc ''a'', Add ''a'' 4, Set ''a'' 9, Seed [''a'']] empty_registry)) ''a'' = 5"
  using counter_is_exact [of "''a''" "[Inc ''a'', Add ''a'' 4, Set ''a'' 9, Seed [''a'']]" empty_registry]
  by (simp add: valid_name_def name_char_def val_or_zero_def empty_registry_def)

text \<open>A histogram counts what was observed: each bucket holds the number of observations at or
  below its bound, with the total count and sum; and every key of the registry stays a well-formed
  metric name.\<close>

theorem histogram_counts_observations:
  assumes "valid_name n" and "length ops < 18446744073709551616"
  shows "histo_view (stats_run ops empty_registry) n =
      \<lparr>h_bounds = bounds_for n,
       h_counts = map (\<lambda>b. length (filter (\<lambda>v. v \<le> b) (observed_by n ops))) (bounds_for n),
       h_sum = sum_list (observed_by n ops), h_count = length (observed_by n ops)\<rparr> \<and>
    names_ok (stats_run ops empty_registry)"
proof
  have "histo_view empty_registry n = histo_of (bounds_for n) []"
    by (simp add: histo_view_def empty_registry_def)
  from stats_run_histo [OF assms(1) this] assms(2)
  show "histo_view (stats_run ops empty_registry) n =
      \<lparr>h_bounds = bounds_for n,
       h_counts = map (\<lambda>b. length (filter (\<lambda>v. v \<le> b) (observed_by n ops))) (bounds_for n),
       h_sum = sum_list (observed_by n ops), h_count = length (observed_by n ops)\<rparr>"
    by (simp add: histo_of_def)
  show "names_ok (stats_run ops empty_registry)"
    by (rule stats_run_names_ok) (simp add: names_ok_def empty_registry_def)
qed

lemma histogram_counts_observations_witness:
  "h_count (histo_view (stats_run [Observe ''a'' 1, Observe ''b'' 2, Observe ''a'' 3] empty_registry) ''a'') = 2"
  using histogram_counts_observations [of "''a''" "[Observe ''a'' 1, Observe ''b'' 2, Observe ''a'' 3]"]
  by (simp add: valid_name_def name_char_def)

end
